(* ===== verification/Prelude.thy ===== *)
theory Prelude
  imports Main "HOL-Library.Sublist" "HOL-Library.AList"
begin

text \<open>
  Shared vocabulary of the development: the string functions of Go's \<open>strings\<close> package that
  maand uses, errors as values, loops with early return, association lists for Go maps, and the
  fact collections the component theories fill.

  A Go string is a \<^typ>\<open>string\<close>; each \<^typ>\<open>char\<close> stands for one code point in the range
  U+0000 to U+00FF, so \<open>go_space\<close> is the Latin-1 branch of \<open>unicode.IsSpace\<close>.
\<close>

section \<open>Fact collections\<close>

named_theorems kv_simps \<open>lookups and updates of the key-value store\<close>
named_theorems catalog_simps \<open>queries and updates of the catalog tables\<close>
named_theorems frame \<open>what an operation leaves alone\<close>

section \<open>Errors as values\<close>

text \<open>
  The sentinel errors of \<open>bucket/errors.go\<close> and of the packages that define their own. A wrapped
  error (\<open>fmt.Errorf("%w: ...", sentinel)\<close>) is its sentinel: callers only test with \<open>errors.Is\<close>. A request that
  makes no sense is \<open>ErrUsage\<close>, an error of a library that is passed on \<open>ErrLibrary\<close>.
\<close>

datatype error =
    ErrInvalidWorkerJSON
  | ErrInvalidManifest
  | ErrUnexpectedError
  | ErrDatabase
  | ErrNoRows
  | ErrPortCollision
  | ErrPortKeyFormat
  | ErrInvalidPortRange
  | ErrPortRangeExhausted
  | ErrInvalidJobCommandConfiguration
  | ErrInvalidJobCommandDemand
  | ErrJobCommandDemandVersionMismatch
  | ErrInvalidJobVersion
  | ErrCircularJobCommandDependency
  | ErrInsufficientAllocations
  | ErrHealthCheckFailed
  | ErrRunCommand
  | ErrJobCommandFailed
  | ErrNotFound
  | ErrNamespaceNotFound
  | ErrStoreNotInitialized
  | ErrEncryption
  | ErrCommandNotFound
  | ErrSyncOnlyNewAllocations
  | ErrWorkerCommand
  | ErrSliceRange
  | ErrInvalidTarget
  | ErrInvalidFilter
  | ErrSchemaUpgradeRequired
  | ErrSchemaTooNew
  | ErrSemaphore
  | ErrInvalidJob
  | ErrKeyNotFound
  | ErrInsufficientResource
  | ErrUnsupportedResourceConfiguration
  | ErrInvalidManifestPort
  | ErrJobCommandFileNotFound
  | ErrInvalidBucketConf
  | ErrInvalidJobVars
  | ErrNotInitialized
  | ErrJoined
  | ErrTemplate
  | ErrTool
  | ErrUnit
  | ErrInvalidMaandConf
  | ErrNoActiveScrapeTargets
  | ErrUsage
  | ErrLibrary
  | ErrNotExist

abbreviation Ok :: "'a \<Rightarrow> error + 'a" where
  "Ok \<equiv> Inr"

abbreviation Err :: "error \<Rightarrow> error + 'a" where
  "Err \<equiv> Inl"

text \<open>\<open>rbind\<close> is \<open>x, err := m(); if err != nil { return err }\<close> followed by the rest.\<close>

definition rbind :: "'e + 'a \<Rightarrow> ('a \<Rightarrow> 'e + 'b) \<Rightarrow> 'e + 'b" where
  "rbind m f = (case m of Inl e \<Rightarrow> Inl e | Inr x \<Rightarrow> f x)"

lemma rbind_simps [simp]:
  "rbind (Inl e) f = Inl e"
  "rbind (Inr x) f = f x"
  by (simp_all add: rbind_def)

lemma rbind_Inr_conv: "rbind m f = Inr y \<longleftrightarrow> (\<exists>x. m = Inr x \<and> f x = Inr y)"
  by (cases m) simp_all

lemma rbind_Inl_conv:
  "rbind m f = Inl e \<longleftrightarrow> m = Inl e \<or> (\<exists>x. m = Inr x \<and> f x = Inl e)"
  by (cases m) simp_all

text \<open>A \<open>for ... range\<close> loop that threads a state and returns at the first error.\<close>

fun rfold :: "('s \<Rightarrow> 'a \<Rightarrow> 'e + 's) \<Rightarrow> 's \<Rightarrow> 'a list \<Rightarrow> 'e + 's" where
  "rfold f s [] = Inr s"
| "rfold f s (x # xs) = rbind (f s x) (\<lambda>s'. rfold f s' xs)"

lemma rfold_append: "rfold f s (xs @ ys) = rbind (rfold f s xs) (\<lambda>s'. rfold f s' ys)"
proof (induction xs arbitrary: s)
  case (Cons x xs)
  then show ?case by (cases "f s x") simp_all
qed simp

lemma rfold_invariant:
  assumes "rfold f s xs = Inr s'" and "P s"
    and "\<And>t t' x. x \<in> set xs \<Longrightarrow> P t \<Longrightarrow> f t x = Inr t' \<Longrightarrow> P t'"
  shows "P s'"
  using assms
proof (induction xs arbitrary: s)
  case (Cons x xs)
  then obtain t where t: "f s x = Inr t" "rfold f t xs = Inr s'"
    by (auto simp: rbind_Inr_conv)
  with Cons.prems(2,3) have "P t" by (metis list.set_intros(1))
  with t(2) show ?case
    by (rule Cons.IH) (use Cons.prems(3) in auto)
qed simp

lemma map_sum_id_Inr [simp]: "map_sum id f z = Inr y \<longleftrightarrow> (\<exists>s. z = Inr s \<and> y = f s)"
  by (cases z) auto

lemma map_sum_id_Inl [simp]: "map_sum id f z = Inl e \<longleftrightarrow> z = Inl e"
  by (cases z) auto

text \<open>Collecting results in order: \<open>append\<close> in a loop that returns at the first error.\<close>

fun rmap :: "('a \<Rightarrow> 'e + 'b) \<Rightarrow> 'a list \<Rightarrow> 'e + 'b list" where
  "rmap f [] = Inr []"
| "rmap f (x # xs) = rbind (f x) (\<lambda>y. rbind (rmap f xs) (\<lambda>ys. Inr (y # ys)))"

lemma rmap_all_Inr: "(\<And>x. x \<in> set xs \<Longrightarrow> f x = Inr (g x)) \<Longrightarrow> rmap f xs = Inr (map g xs)"
  by (induction xs) simp_all

section \<open>Strings\<close>

definition go_space :: "char \<Rightarrow> bool" where
  "go_space c \<longleftrightarrow> of_char c \<in> {9, 10, 11, 12, 13, 32, 133, 160 :: nat}"

definition trim_left :: "string \<Rightarrow> string" where
  "trim_left s = dropWhile go_space s"

definition trim_space :: "string \<Rightarrow> string" where
  "trim_space s = rev (dropWhile go_space (rev (trim_left s)))"

definition has_prefix :: "string \<Rightarrow> string \<Rightarrow> bool" where
  "has_prefix p s \<longleftrightarrow> take (length p) s = p"

definition trim_prefix :: "string \<Rightarrow> string \<Rightarrow> string" where
  "trim_prefix p s = (if has_prefix p s then drop (length p) s else s)"

definition has_suffix :: "string \<Rightarrow> string \<Rightarrow> bool" where
  "has_suffix p s \<longleftrightarrow> has_prefix (rev p) (rev s)"

fun contains_sub :: "string \<Rightarrow> string \<Rightarrow> bool" where
  "contains_sub p [] = (p = [])"
| "contains_sub p (c # s) = (has_prefix p (c # s) \<or> contains_sub p s)"

text \<open>\<open>strings.Split\<close> with a one-character separator, and \<open>strings.Join\<close>.\<close>

fun split_char :: "char \<Rightarrow> string \<Rightarrow> string list" where
  "split_char d [] = [[]]"
| "split_char d (c # s) =
     (if c = d then [] # split_char d s
      else (case split_char d s of [] \<Rightarrow> [[c]] | w # ws \<Rightarrow> (c # w) # ws))"

fun join :: "string \<Rightarrow> string list \<Rightarrow> string" where
  "join sep [] = []"
| "join sep [w] = w"
| "join sep (w # v # ws) = w @ sep @ join sep (v # ws)"

text \<open>\<open>strings.ToLower\<close> on the code points U+0000 to U+00FF.\<close>

definition lower_char :: "char \<Rightarrow> char" where
  "lower_char c =
     (let n = of_char c :: nat
      in if (65 \<le> n \<and> n \<le> 90) \<or> (192 \<le> n \<and> n \<le> 222 \<and> n \<noteq> 215) then char_of (n + 32) else c)"

definition to_lower :: "string \<Rightarrow> string" where
  "to_lower = map lower_char"

text \<open>
  \<open>strings.EqualFold\<close> against a lower-case ASCII word: no code point up to U+00FF other than the
  two cases of an ASCII letter folds to that letter.
\<close>

definition equal_fold :: "string \<Rightarrow> string \<Rightarrow> bool" where
  "equal_fold s t \<longleftrightarrow> to_lower s = to_lower t"

lemma split_char_not_Nil [simp]: "split_char d s \<noteq> []"
  by (induction s) (auto split: list.split)

lemma split_char_free: "d \<notin> set w \<Longrightarrow> split_char d w = [w]"
  by (induction w) auto

lemma split_char_cons_free:
  "d \<notin> set w \<Longrightarrow> split_char d (w @ d # s) = w # split_char d s"
  by (induction w) auto

lemma split_join:
  "ws \<noteq> [] \<Longrightarrow> \<forall>w\<in>set ws. d \<notin> set w \<Longrightarrow> split_char d (join [d] ws) = ws"
  by (induction "[d]" ws rule: join.induct) (auto simp: split_char_free split_char_cons_free)

lemma dropWhile_idem' [simp]: "dropWhile P (dropWhile P xs) = dropWhile P xs"
  by (induction xs) auto

lemma hd_dropWhile': "dropWhile P xs \<noteq> [] \<Longrightarrow> \<not> P (hd (dropWhile P xs))"
  by (induction xs) auto

lemma trim_left_id: "s = [] \<or> \<not> go_space (hd s) \<Longrightarrow> trim_left s = s"
  by (cases s) (auto simp: trim_left_def)

lemma trim_space_id:
  assumes "s = [] \<or> (\<not> go_space (hd s) \<and> \<not> go_space (last s))"
  shows "trim_space s = s"
proof (cases "s = []")
  case True
  then show ?thesis by (simp add: trim_space_def trim_left_def)
next
  case False
  with assms have h: "\<not> go_space (hd s)" "\<not> go_space (last s)" by auto
  have "trim_left s = s" using h(1) False by (simp add: trim_left_id)
  moreover have "dropWhile go_space (rev s) = rev s"
    using h(2) False by (cases "rev s") (auto simp: last_rev hd_rev [symmetric] dest: sym)
  ultimately show ?thesis by (simp add: trim_space_def)
qed

lemma trim_space_ends:
  assumes "trim_space s \<noteq> []"
  shows "\<not> go_space (hd (trim_space s))" and "\<not> go_space (last (trim_space s))"
proof -
  let ?r = "rev (trim_left s)"
  have ne: "dropWhile go_space ?r \<noteq> []" using assms by (simp add: trim_space_def)
  show "\<not> go_space (last (trim_space s))"
    using hd_dropWhile' [OF ne] ne by (simp add: trim_space_def last_rev)
  obtain p where p: "?r = p @ dropWhile go_space ?r"
    by (metis takeWhile_dropWhile_id)
  have l: "trim_left s = rev (dropWhile go_space ?r) @ rev p"
    by (metis p rev_append rev_rev_ident)
  have "hd (trim_left s) = hd (trim_space s)"
    by (subst l) (use ne in \<open>simp add: trim_space_def\<close>)
  moreover have "trim_left s \<noteq> []" using l ne by auto
  ultimately show "\<not> go_space (hd (trim_space s))"
    using hd_dropWhile' [of go_space s] by (simp add: trim_left_def)
qed

lemma trim_space_idem [simp]: "trim_space (trim_space s) = trim_space s"
  by (rule trim_space_id) (use trim_space_ends in blast)

lemma set_trim_space: "set (trim_space s) \<subseteq> set s"
  unfolding trim_space_def trim_left_def
  by (auto dest!: set_dropWhileD)

section \<open>Decimal numbers\<close>

text \<open>\<open>%d\<close> and \<open>strconv.Itoa\<close> of a non-negative number, and \<open>strconv.Atoi\<close>.\<close>

fun digits_of :: "nat \<Rightarrow> string" where
  "digits_of n = (if n < 10 then [char_of (48 + n)] else digits_of (n div 10) @ [char_of (48 + n mod 10)])"

declare digits_of.simps [simp del]

lemma digit_chars [simp]:
  "char_of (48 :: nat) = CHR ''0''" "char_of (49 :: nat) = CHR ''1''"
  "char_of (50 :: nat) = CHR ''2''" "char_of (51 :: nat) = CHR ''3''"
  "char_of (52 :: nat) = CHR ''4''" "char_of (53 :: nat) = CHR ''5''"
  "char_of (54 :: nat) = CHR ''6''" "char_of (55 :: nat) = CHR ''7''"
  "char_of (56 :: nat) = CHR ''8''" "char_of (57 :: nat) = CHR ''9''"
  by code_simp+

definition itoa :: "int \<Rightarrow> string" where
  "itoa i = (if i < 0 then CHR ''-'' # digits_of (nat (- i)) else digits_of (nat i))"

definition is_digit :: "char \<Rightarrow> bool" where
  "is_digit c \<longleftrightarrow> 48 \<le> (of_char c :: nat) \<and> (of_char c :: nat) \<le> 57"

definition digit_val :: "char \<Rightarrow> nat" where
  "digit_val c = of_char c - 48"

definition digits_val :: "string \<Rightarrow> nat" where
  "digits_val s = foldl (\<lambda>n c. 10 * n + digit_val c) 0 s"

definition parse_digits :: "string \<Rightarrow> nat option" where
  "parse_digits s = (if s \<noteq> [] \<and> list_all is_digit s then Some (digits_val s) else None)"

text \<open>
  \<open>strconv.Atoi\<close>: an optional sign, decimal digits, and a value that fits 64 bits. \<open>None\<close> is an
  error.
\<close>

definition atoi :: "string \<Rightarrow> int option" where
  "atoi s =
     (let neg = (s \<noteq> [] \<and> hd s = CHR ''-'');
          body = (if s \<noteq> [] \<and> (hd s = CHR ''-'' \<or> hd s = CHR ''+'') then tl s else s)
      in case parse_digits body of
           None \<Rightarrow> None
         | Some n \<Rightarrow>
             (if neg then (if n \<le> 2 ^ 63 then Some (- int n) else None)
              else (if n < 2 ^ 63 then Some (int n) else None)))"

text \<open>The bounds as binary numerals, for evaluation.\<close>

lemma atoi_code [code]:
  "atoi s =
     (let neg = (s \<noteq> [] \<and> hd s = CHR ''-'');
          body = (if s \<noteq> [] \<and> (hd s = CHR ''-'' \<or> hd s = CHR ''+'') then tl s else s)
      in case parse_digits body of
           None \<Rightarrow> None
         | Some n \<Rightarrow>
             (if neg then (if int n \<le> 9223372036854775808 then Some (- int n) else None)
              else (if int n < 9223372036854775808 then Some (int n) else None)))"
proof -
  have "n \<le> 2 ^ 63 \<longleftrightarrow> int n \<le> 9223372036854775808" "n < 2 ^ 63 \<longleftrightarrow> int n < 9223372036854775808" for n :: nat
    by simp_all
  then show ?thesis by (simp only: atoi_def)
qed

lemma of_char_digit: "n < 10 \<Longrightarrow> (of_char (char_of (48 + n) :: char) :: nat) = 48 + n"
  by (simp add: of_char_of)

lemma digits_of_not_Nil [simp]: "digits_of n \<noteq> []"
  by (subst digits_of.simps) simp

lemma digits_of_digits: "list_all is_digit (digits_of n)"
proof (induction n rule: digits_of.induct)
  case (1 n)
  show ?case
  proof (cases "n < 10")
    case True
    then show ?thesis by (subst digits_of.simps) (simp add: is_digit_def of_char_of)
  next
    case False
    moreover have "n mod 10 \<le> 9" using mod_less_divisor [of 10 n] by linarith
    ultimately show ?thesis
      using 1 False by (subst digits_of.simps) (simp add: is_digit_def [of "char_of _"] of_char_of)
  qed
qed

lemma digits_val_snoc: "digits_val (s @ [c]) = 10 * digits_val s + digit_val c"
  by (simp add: digits_val_def)

lemma digits_val_digits_of [simp]: "digits_val (digits_of n) = n"
proof (induction n rule: digits_of.induct)
  case (1 n)
  show ?case
  proof (cases "n < 10")
    case True
    then show ?thesis
      by (subst digits_of.simps) (simp add: digits_val_def digit_val_def of_char_of)
  next
    case False
    then have "digits_val (digits_of n) = 10 * (n div 10) + digit_val (char_of (48 + n mod 10))"
      using 1 by (subst digits_of.simps) (simp add: digits_val_snoc)
    also have "digit_val (char_of (48 + n mod 10)) = n mod 10"
      by (simp add: digit_val_def of_char_of)
    finally show ?thesis by simp
  qed
qed

lemma parse_digits_digits_of [simp]: "parse_digits (digits_of n) = Some n"
  by (simp add: parse_digits_def digits_of_digits)

lemma digit_no_sign: "is_digit c \<Longrightarrow> c \<noteq> CHR ''-'' \<and> c \<noteq> CHR ''+'' \<and> c \<noteq> CHR ''.''"
  by (auto simp: is_digit_def)

lemma hd_digits_of: "is_digit (hd (digits_of n))"
  using digits_of_digits [of n] by (cases "digits_of n") auto

lemma atoi_digits_of: "n < 2 ^ 63 \<Longrightarrow> atoi (digits_of n) = Some (int n)"
  using digit_no_sign [OF hd_digits_of [of n]] by (simp add: atoi_def Let_def)

lemma digit_not_space: "is_digit c \<Longrightarrow> \<not> go_space c"
  by (auto simp: is_digit_def go_space_def)

lemma digits_of_set: "c \<in> set (digits_of n) \<Longrightarrow> is_digit c"
  using digits_of_digits [of n] by (simp add: list_all_iff)

section \<open>Association lists for Go maps\<close>

text \<open>
  A Go map is an association list, read with \<^const>\<open>map_of\<close> and written with \<^const>\<open>AList.update\<close>
  and \<^const>\<open>AList.delete\<close>. The list order stands for the order in which one \<open>range\<close> loop visits the
  map; theorems hold for every order.
\<close>

abbreviation distinct_keys :: "('k \<times> 'v) list \<Rightarrow> bool" where
  "distinct_keys m \<equiv> distinct (map fst m)"

lemma map_of_AList_update [simp]: "map_of (AList.update k v m) = (map_of m)(k \<mapsto> v)"
  by (rule AList.update_conv')

lemma map_of_AList_delete [simp]: "map_of (AList.delete k m) = (map_of m)(k := None)"
  by (rule AList.delete_conv')

lemma distinct_keys_update [simp]: "distinct_keys m \<Longrightarrow> distinct_keys (AList.update k v m)"
  by (rule AList.distinct_update)

lemma distinct_keys_delete [simp]: "distinct_keys m \<Longrightarrow> distinct_keys (AList.delete k m)"
  by (rule AList.distinct_delete)

lemma keys_update: "fst ` set (AList.update k v m) = insert k (fst ` set m)"
  by (simp add: AList.dom_update)

lemma map_of_map_values: "map_of (map (\<lambda>(k, v). (k, f k v)) m) k = map_option (f k) (map_of m k)"
  by (induction m) auto

section \<open>Lists\<close>

lemma filter_sorted_wrt: "sorted_wrt P xs \<Longrightarrow> sorted_wrt P (filter Q xs)"
  by (induction xs) auto

lemma filter_eq_set: "set (filter P xs) = {x \<in> set xs. P x}"
  by auto

text \<open>Strings are compared byte by byte, as Go's \<open><\<close> on strings and \<open>sort.Strings\<close> do.\<close>

fun string_le :: "string \<Rightarrow> string \<Rightarrow> bool" where
  "string_le [] t = True"
| "string_le (c # s) [] = False"
| "string_le (c # s) (d # t) =
     (if (of_char c :: nat) < of_char d then True
      else if (of_char d :: nat) < of_char c then False
      else string_le s t)"

lemma string_le_refl [simp]: "string_le s s"
  by (induction s) auto

lemma string_le_total: "string_le s t \<or> string_le t s"
  by (induction s t rule: string_le.induct) auto

lemma string_le_Nil_right [simp]: "string_le s [] \<longleftrightarrow> s = []"
  by (cases s) auto

lemma string_le_antisym: "string_le s t \<Longrightarrow> string_le t s \<Longrightarrow> s = t"
  by (induction s t rule: string_le.induct) (auto split: if_splits simp: not_less)

lemma string_le_trans: "string_le s t \<Longrightarrow> string_le t u \<Longrightarrow> string_le s u"
proof (induction s t arbitrary: u rule: string_le.induct)
  case (3 c s d t)
  then show ?case by (cases u) (auto split: if_splits)
qed auto

fun insert_by :: "('a \<Rightarrow> 'a \<Rightarrow> bool) \<Rightarrow> 'a \<Rightarrow> 'a list \<Rightarrow> 'a list" where
  "insert_by le x [] = [x]"
| "insert_by le x (y # ys) = (if le x y then x # y # ys else y # insert_by le x ys)"

text \<open>A stable sort; \<open>sort.Strings\<close> and \<open>ORDER BY\<close> are this function at their order.\<close>

fun sort_by :: "('a \<Rightarrow> 'a \<Rightarrow> bool) \<Rightarrow> 'a list \<Rightarrow> 'a list" where
  "sort_by le [] = []"
| "sort_by le (x # xs) = insert_by le x (sort_by le xs)"

definition sort_strings :: "string list \<Rightarrow> string list" where
  "sort_strings = sort_by string_le"

lemma set_insert_by [simp]: "set (insert_by le x ys) = insert x (set ys)"
  by (induction ys) auto

lemma set_sort_by [simp]: "set (sort_by le xs) = set xs"
  by (induction xs) auto

lemma distinct_insert_by [simp]: "distinct (insert_by le x ys) \<longleftrightarrow> x \<notin> set ys \<and> distinct ys"
  by (induction ys) auto

lemma distinct_sort_by [simp]: "distinct (sort_by le xs) = distinct xs"
  by (induction xs) auto

lemma distinct_map_insert_by:
  "distinct (map f (insert_by le x ys)) \<longleftrightarrow> f x \<notin> f ` set ys \<and> distinct (map f ys)"
  by (induction ys) auto

lemma distinct_map_sort_by: "distinct (map f (sort_by le xs)) = distinct (map f xs)"
  by (induction xs) (auto simp: distinct_map_insert_by)

lemma length_insert_by [simp]: "length (insert_by le x ys) = Suc (length ys)"
  by (induction ys) auto

lemma length_sort_by [simp]: "length (sort_by le xs) = length xs"
  by (induction xs) auto

lemma set_sort_strings [simp]: "set (sort_strings xs) = set xs"
  by (simp add: sort_strings_def)

lemma distinct_sort_strings [simp]: "distinct (sort_strings xs) = distinct xs"
  by (simp add: sort_strings_def)

lemma sorted_insert_by:
  assumes total: "\<And>a b. le a b \<or> le b a" and trans: "\<And>a b c. le a b \<Longrightarrow> le b c \<Longrightarrow> le a c"
  shows "sorted_wrt le ys \<Longrightarrow> sorted_wrt le (insert_by le x ys)"
proof (induction ys)
  case (Cons y ys)
  show ?case
  proof (cases "le x y")
    case True
    then show ?thesis using Cons.prems by (auto intro: trans [OF True])
  next
    case False
    then have "le y x" using total by blast
    then show ?thesis using False Cons by auto
  qed
qed simp

lemma sorted_sort_by:
  assumes "\<And>a b. le a b \<or> le b a" and "\<And>a b c. le a b \<Longrightarrow> le b c \<Longrightarrow> le a c"
  shows "sorted_wrt le (sort_by le xs)"
proof (induction xs)
  case (Cons x xs)
  then show ?case using sorted_insert_by [of le, OF assms] by simp
qed simp

lemma sorted_sort_strings: "sorted_wrt string_le (sort_strings xs)"
  unfolding sort_strings_def
  by (rule sorted_sort_by) (use string_le_total string_le_trans in blast)+

end
