(* ===== verification/Utils.thy ===== *)
theory Utils
  imports Prelude
begin

text \<open>
  The package \<open>utils\<close>: slice-as-set operations (\<open>utils/sets.go\<close>), batches (\<open>utils/batch.go\<close>), and
  the directory digest that deploy compares (\<open>utils/hash.go\<close>).
\<close>

section \<open>Slices as sets (utils/sets.go)\<close>

text \<open>\<open>Unique\<close>: the \<open>seen\<close> map is the list of values already appended.\<close>

fun unique_from :: "'a list \<Rightarrow> 'a list \<Rightarrow> 'a list" where
  "unique_from seen [] = []"
| "unique_from seen (v # vs) =
     (if v \<in> set seen then unique_from seen vs else v # unique_from (v # seen) vs)"

definition Unique :: "'a list \<Rightarrow> 'a list" where
  "Unique vs = unique_from [] vs"

definition Union :: "'a list \<Rightarrow> 'a list \<Rightarrow> 'a list" where
  "Union a b = Unique (a @ b)"

definition Intersection :: "'a list \<Rightarrow> 'a list \<Rightarrow> 'a list" where
  "Intersection a b = (if a = [] \<or> b = [] then [] else filter (\<lambda>v. v \<in> set a) b)"

definition Difference :: "'a list \<Rightarrow> 'a list \<Rightarrow> 'a list" where
  "Difference a b = (if a = [] then [] else filter (\<lambda>v. v \<notin> set b) a)"

lemma set_unique_from: "set (unique_from seen vs) = set vs - set seen"
  by (induction vs arbitrary: seen) auto

lemma distinct_unique_from: "distinct (unique_from seen vs)"
  by (induction vs arbitrary: seen) (auto simp: set_unique_from)

lemma unique_from_id: "distinct vs \<Longrightarrow> set vs \<inter> set seen = {} \<Longrightarrow> unique_from seen vs = vs"
  by (induction vs arbitrary: seen) auto

lemma set_Unique [simp]: "set (Unique vs) = set vs"
  by (simp add: Unique_def set_unique_from)

lemma distinct_Unique [simp]: "distinct (Unique vs)"
  by (simp add: Unique_def distinct_unique_from)

lemma Unique_id [simp]: "distinct vs \<Longrightarrow> Unique vs = vs"
  by (simp add: Unique_def unique_from_id)

lemma Unique_Nil [simp]: "Unique [] = []"
  by (simp add: Unique_def)

lemma Unique_eq_Nil [simp]: "Unique vs = [] \<longleftrightarrow> vs = []"
  by (metis set_Unique set_empty)

lemma length_Unique_eq: "length (Unique vs) = length vs \<longleftrightarrow> distinct vs"
  by (metis distinct_Unique set_Unique distinct_card card_distinct Unique_id)

lemma set_Union [simp]: "set (Union a b) = set a \<union> set b"
  by (simp add: Union_def)

lemma set_Intersection [simp]: "set (Intersection a b) = set a \<inter> set b"
  by (auto simp: Intersection_def)

lemma set_Difference [simp]: "set (Difference a b) = set a - set b"
  by (auto simp: Difference_def)

lemma distinct_Difference [simp]: "distinct a \<Longrightarrow> distinct (Difference a b)"
  by (simp add: Difference_def)

lemma Intersection_singleton: "length (Intersection a [x]) = 0 \<longleftrightarrow> x \<notin> set a"
  by (auto simp: Intersection_def)

section \<open>Batches (utils/batch.go)\<close>

definition SliceRange :: "'a list \<Rightarrow> int \<Rightarrow> int \<Rightarrow> error + 'a list" where
  "SliceRange items start stop =
     (let n = int (length items)
      in if start < 0 \<or> stop < 0 then Err ErrSliceRange
         else if start > n \<or> stop > n then Err ErrSliceRange
         else if start > stop then Err ErrSliceRange
         else Ok (take (nat stop - nat start) (drop (nat start) items)))"

text \<open>
  \<open>NewBatchIterator\<close> returns a closure over \<open>items\<close>, \<open>batchSize\<close> and \<open>index\<close>: a record, and one
  call of the closure is \<open>next_batch\<close>.
\<close>

record 'a batch_iterator =
  bi_items :: "'a list"
  bi_size :: nat
  bi_index :: nat

definition NewBatchIterator :: "'a list \<Rightarrow> int \<Rightarrow> 'a batch_iterator" where
  "NewBatchIterator items n =
     \<lparr>bi_items = items, bi_size = (if n \<le> 0 then 1 else nat n), bi_index = 0\<rparr>"

definition next_batch :: "'a batch_iterator \<Rightarrow> 'a list option \<times> 'a batch_iterator" where
  "next_batch it =
     (if bi_index it \<ge> length (bi_items it) then (None, it)
      else (let e = min (bi_index it + bi_size it) (length (bi_items it))
            in (Some (take (e - bi_index it) (drop (bi_index it) (bi_items it))),
                it\<lparr>bi_index := e\<rparr>)))"

text \<open>The caller's loop \<open>for batch, ok := next(); ok; ...\<close> with a bound on its iterations.\<close>

fun drain :: "nat \<Rightarrow> 'a batch_iterator \<Rightarrow> 'a list list option" where
  "drain 0 it = None"
| "drain (Suc fuel) it =
     (case next_batch it of
        (None, _) \<Rightarrow> Some []
      | (Some b, it') \<Rightarrow> map_option ((#) b) (drain fuel it'))"

text \<open>
  The loop \<open>for i := 0; i < len(xs); i += n\<close> over \<open>xs[i:min(i+n, len(xs))]\<close>, which deploy, job
  control and \<open>runWorkerBatches\<close> write out; \<open>n\<close> is at least 1 where they reach it.
\<close>

fun chunks :: "nat \<Rightarrow> 'a list \<Rightarrow> 'a list list" where
  "chunks n [] = []"
| "chunks n (x # xs) =
     (if n = 0 then [x # xs] else take n (x # xs) # chunks n (drop n (x # xs)))"

declare chunks.simps(2) [simp del]

lemma chunks_step: "n > 0 \<Longrightarrow> xs \<noteq> [] \<Longrightarrow> chunks n xs = take n xs # chunks n (drop n xs)"
  by (cases xs) (simp_all add: chunks.simps(2))

lemma concat_chunks: "concat (chunks n xs) = xs"
proof (induction n xs rule: chunks.induct)
  case (2 n x xs)
  then show ?case by (cases "n = 0") (auto simp: chunks.simps(2))
qed simp

lemma chunk_bounds: "n > 0 \<Longrightarrow> b \<in> set (chunks n xs) \<Longrightarrow> b \<noteq> [] \<and> length b \<le> n"
proof (induction n xs rule: chunks.induct)
  case (2 n x xs)
  then show ?case by (auto simp: chunks.simps(2))
qed simp

lemma ceil_div_step:
  fixes m n :: nat
  assumes "n < m" and "n > 0"
  shows "(m + n - 1) div n = Suc ((m - n + n - 1) div n)"
proof -
  have "m + n - 1 = (m - 1) + n" and "m - n + n - 1 = m - 1" using assms by simp_all
  moreover have "((m - 1) + n) div n = Suc ((m - 1) div n)"
    using div_add_self2 [of n "m - 1"] assms(2) by simp
  ultimately show ?thesis by (simp only:)
qed

lemma ceil_div_one:
  fixes m n :: nat
  assumes "0 < m" and "m \<le> n"
  shows "(m + n - 1) div n = 1"
  using assms by (intro div_nat_eqI) simp_all

lemma length_chunks: "n > 0 \<Longrightarrow> length (chunks n xs) = (length xs + n - 1) div n"
proof (induction xs rule: length_induct)
  case (1 xs)
  show ?case
  proof (cases "xs = []")
    case True
    then show ?thesis using 1 by simp
  next
    case False
    have rec: "length (chunks n xs) = Suc (length (chunks n (drop n xs)))"
      using False 1 by (simp add: chunks_step)
    have "length (drop n xs) < length xs" using False 1 by simp
    then have ih: "length (chunks n (drop n xs)) = (length (drop n xs) + n - 1) div n"
      using 1 by blast
    show ?thesis
    proof (cases "length xs \<le> n")
      case True
      then show ?thesis using rec False by (simp add: ceil_div_one del: One_nat_def)
    next
      case le: False
      then show ?thesis
        using rec ih ceil_div_step [of n "length xs"] 1(2)
        by (simp only: length_drop not_le)
    qed
  qed
qed

lemma chunks_single: "xs \<noteq> [] \<Longrightarrow> length xs \<le> n \<Longrightarrow> chunks n xs = [xs]"
  by (subst chunks_step) (cases xs, simp_all)

text \<open>The closure yields exactly the chunks, and then reports the end for ever.\<close>

lemma next_batch_drop:
  assumes "bi_size it > 0" and "bi_index it \<le> length (bi_items it)"
  shows "length (bi_items it) - bi_index it < fuel \<Longrightarrow>
    drain fuel it = Some (chunks (bi_size it) (drop (bi_index it) (bi_items it)))"
  using assms
proof (induction fuel arbitrary: it)
  case (Suc fuel)
  show ?case
  proof (cases "bi_index it = length (bi_items it)")
    case True
    then show ?thesis by (simp add: next_batch_def)
  next
    case False
    define rest where "rest = drop (bi_index it) (bi_items it)"
    define it' where "it' = snd (next_batch it)"
    have lt: "bi_index it < length (bi_items it)" using False Suc.prems by simp
    have nb: "next_batch it = (Some (take (bi_size it) rest), it')"
      using lt by (auto simp: next_batch_def it'_def rest_def Let_def min_def take_all_iff)
    have drop': "drop (bi_index it') (bi_items it') = drop (bi_size it) rest"
      using lt by (auto simp: next_batch_def it'_def rest_def Let_def min_def add.commute)
    have "drain fuel it' = Some (chunks (bi_size it') (drop (bi_index it') (bi_items it')))"
      using Suc.prems lt by (intro Suc.IH) (auto simp: next_batch_def it'_def Let_def min_def)
    moreover have "bi_size it' = bi_size it" using lt by (simp add: next_batch_def it'_def Let_def)
    moreover have "chunks (bi_size it) rest =
        take (bi_size it) rest # chunks (bi_size it) (drop (bi_size it) rest)"
      using Suc.prems lt by (intro chunks_step) (auto simp: rest_def)
    ultimately show ?thesis using nb drop' by (simp add: rest_def)
  qed
qed simp

section \<open>The directory digest (utils/hash.go)\<close>

text \<open>
  \<open>md5\<close> is \<open>crypto/md5\<close> followed by \<open>hex.EncodeToString\<close>, an argument of the model. A directory is
  the list of its files, each a root-relative path with its content; the walk skips every path that
  contains \<open>__pycache__\<close>, the digests are taken per file in parallel (their order does not matter,
  each is stored under its own path), and the aggregate hashes the file digests in path order.
\<close>

record directory_tree =
  dt_aggregate :: string
  dt_files :: "(string \<times> string) list"

definition walk_files :: "(string \<times> string) list \<Rightarrow> (string \<times> string) list" where
  "walk_files root = filter (\<lambda>(path, _). \<not> contains_sub ''__pycache__'' path) root"

definition HashDirectoryTree ::
  "(string \<Rightarrow> string) \<Rightarrow> (string \<times> string) list \<Rightarrow> directory_tree" where
  "HashDirectoryTree md5 root =
     (let files = walk_files root;
          paths = sort_strings (map fst files);
          digests = map (\<lambda>(p, content). (p, md5 content)) files
      in \<lparr>dt_aggregate = md5 (concat (map (\<lambda>p. case map_of digests p of None \<Rightarrow> [] | Some h \<Rightarrow> h) paths)),
          dt_files = digests\<rparr>)"

end
