(* ===== verification/KvStore.thy ===== *)
theory KvStore
  imports Utils
begin

text \<open>
  The in-memory key-value store (\<open>kv/store.go\<close>, \<open>kv/entry.go\<close>, \<open>kv/secret.go\<close>): namespaces of
  versioned entries with tombstones. One operation runs under the store's mutex, so an operation is
  one function from store to store.
\<close>

section \<open>Entries and stores\<close>

record entry =
  e_value :: string
  e_version :: int
  e_ttl :: int
  e_deleted :: bool
  e_changed :: bool
  e_modified :: int

type_synonym ns_entries = "(string \<times> entry) list"
type_synonym store = "(string \<times> ns_entries) list"

definition NewStore :: store where
  "NewStore = []"

definition namespaceMap :: "store \<Rightarrow> string \<Rightarrow> ns_entries" where
  "namespaceMap s ns = (case map_of s ns of None \<Rightarrow> [] | Some m \<Rightarrow> m)"

text \<open>The entry of a key, tombstones included.\<close>

definition lookup_entry :: "store \<Rightarrow> string \<Rightarrow> string \<Rightarrow> entry option" where
  "lookup_entry s ns k = map_of (namespaceMap s ns) k"

section \<open>Operations (kv/store.go)\<close>

definition put_entry :: "entry option \<Rightarrow> string \<Rightarrow> int \<Rightarrow> entry" where
  "put_entry old v ttl =
     (case old of
        None \<Rightarrow> \<lparr>e_value = v, e_version = 1, e_ttl = ttl, e_deleted = False, e_changed = True,
                 e_modified = 0\<rparr>
      | Some e \<Rightarrow>
          if e_deleted e then
            e\<lparr>e_value := v, e_ttl := ttl, e_deleted := False, e_version := e_version e + 1,
              e_changed := True\<rparr>
          else if e_ttl e \<noteq> ttl \<or> e_value e \<noteq> v then
            e\<lparr>e_ttl := ttl, e_value := v, e_version := e_version e + 1, e_changed := True\<rparr>
          else e)"

definition putValue :: "store \<Rightarrow> string \<Rightarrow> string \<Rightarrow> string \<Rightarrow> int \<Rightarrow> bool \<Rightarrow> store" where
  "putValue s ns k v ttl trimValue =
     (let v' = (if trimValue then trim_space v else v);
          m = namespaceMap s ns
      in AList.update ns (AList.update k (put_entry (map_of m k) v' ttl) m) s)"

definition Put :: "store \<Rightarrow> string \<Rightarrow> string \<Rightarrow> string \<Rightarrow> int \<Rightarrow> store" where
  "Put s ns k v ttl = putValue s ns k v ttl True"

definition tombstone :: "entry \<Rightarrow> entry" where
  "tombstone e = e\<lparr>e_deleted := True, e_changed := True, e_version := e_version e + 1\<rparr>"

definition Delete :: "store \<Rightarrow> string \<Rightarrow> string \<Rightarrow> error + store" where
  "Delete s ns k =
     (case map_of s ns of
        None \<Rightarrow> Err ErrNamespaceNotFound
      | Some m \<Rightarrow>
          (case map_of m k of
             None \<Rightarrow> Err ErrNotFound
           | Some e \<Rightarrow> Ok (AList.update ns (AList.update k (tombstone e) m) s)))"

definition Get :: "store \<Rightarrow> string \<Rightarrow> string \<Rightarrow> error + entry" where
  "Get s ns k =
     (case map_of s ns of
        None \<Rightarrow> Err ErrNotFound
      | Some m \<Rightarrow>
          (case map_of m k of
             None \<Rightarrow> Err ErrNotFound
           | Some e \<Rightarrow> if e_deleted e then Err ErrNotFound else Ok e))"

definition GetKeys :: "store \<Rightarrow> string \<Rightarrow> string list" where
  "GetKeys s ns =
     (case map_of s ns of
        None \<Rightarrow> []
      | Some m \<Rightarrow> map fst (filter (\<lambda>(_, e). \<not> e_deleted e) m))"

definition PurgeNamespace :: "store \<Rightarrow> string \<Rightarrow> store" where
  "PurgeNamespace s ns =
     (case map_of s ns of
        None \<Rightarrow> s
      | Some m \<Rightarrow>
          AList.update ns (map (\<lambda>(k, e). (k, if e_deleted e then e else tombstone e)) m) s)"

definition HasPendingChanges :: "store \<Rightarrow> bool" where
  "HasPendingChanges s \<longleftrightarrow> list_ex (\<lambda>(_, m). list_ex (\<lambda>(_, e). e_changed e) m) s"

definition ListNamespaces :: "store \<Rightarrow> string list" where
  "ListNamespaces s = map fst s"

section \<open>Secrets (kv/secret.go)\<close>

text \<open>
  \<open>enc\<close> and \<open>dec\<close> are AES-GCM encryption under the bucket key with its base64 frame, arguments of
  the model; a missing key file is their error.
\<close>

definition SecretJobNamespace :: "string \<Rightarrow> string" where
  "SecretJobNamespace job = ''secrets/job/'' @ job"

definition IsSecretNamespace :: "string \<Rightarrow> bool" where
  "IsSecretNamespace ns = has_prefix ''secrets/job/'' ns"

definition PutSecret ::
  "(string \<Rightarrow> error + string) \<Rightarrow> store \<Rightarrow> string \<Rightarrow> string \<Rightarrow> string \<Rightarrow> int \<Rightarrow> error + store" where
  "PutSecret enc s ns k plaintext ttl =
     rbind (enc plaintext) (\<lambda>encrypted. Ok (putValue s ns k encrypted ttl False))"

definition GetSecret ::
  "(string \<Rightarrow> error + string) \<Rightarrow> store \<Rightarrow> string \<Rightarrow> string \<Rightarrow> error + string" where
  "GetSecret dec s ns k = rbind (Get s ns k) (\<lambda>e. dec (e_value e))"

section \<open>What a store holds\<close>

definition store_wf :: "store \<Rightarrow> bool" where
  "store_wf s \<longleftrightarrow> distinct_keys s \<and> (\<forall>(ns, m) \<in> set s. distinct_keys m)"

text \<open>The abstract contents: the live values, without versions and tombstones.\<close>

definition live :: "store \<Rightarrow> string \<Rightarrow> string \<Rightarrow> string option" where
  "live s ns k =
     (case lookup_entry s ns k of
        None \<Rightarrow> None
      | Some e \<Rightarrow> if e_deleted e then None else Some (e_value e))"

lemma namespaceMap_update [simp]:
  "namespaceMap (AList.update ns m s) ns' = (if ns' = ns then m else namespaceMap s ns')"
  by (simp add: namespaceMap_def)

lemma lookup_putValue [kv_simps]:
  "lookup_entry (putValue s ns k v ttl tr) ns' k' =
     (if ns' = ns \<and> k' = k
      then Some (put_entry (lookup_entry s ns k) (if tr then trim_space v else v) ttl)
      else lookup_entry s ns' k')"
  by (auto simp: lookup_entry_def putValue_def Let_def)

lemma lookup_Put [kv_simps]:
  "lookup_entry (Put s ns k v ttl) ns' k' =
     (if ns' = ns \<and> k' = k then Some (put_entry (lookup_entry s ns k) (trim_space v) ttl)
      else lookup_entry s ns' k')"
  by (simp add: Put_def lookup_putValue)

lemma Delete_Ok:
  "Delete s ns k = Inr s' \<longleftrightarrow>
   (\<exists>e. lookup_entry s ns k = Some e \<and>
     s' = AList.update ns (AList.update k (tombstone e) (namespaceMap s ns)) s)"
  by (auto simp: Delete_def lookup_entry_def namespaceMap_def split: option.splits)

lemma lookup_Delete [kv_simps]:
  "Delete s ns k = Inr s' \<Longrightarrow>
   lookup_entry s' ns' k' =
     (if ns' = ns \<and> k' = k then map_option tombstone (lookup_entry s ns k)
      else lookup_entry s ns' k')"
  by (auto simp: Delete_Ok) (auto simp: lookup_entry_def)

lemma Delete_Ok_iff: "(\<exists>s'. Delete s ns k = Inr s') \<longleftrightarrow> lookup_entry s ns k \<noteq> None"
  by (auto simp: Delete_def lookup_entry_def namespaceMap_def split: option.splits)

lemma lookup_PurgeNamespace [kv_simps]:
  "lookup_entry (PurgeNamespace s ns) ns' k' =
     (if ns' = ns
      then map_option (\<lambda>e. if e_deleted e then e else tombstone e) (lookup_entry s ns k')
      else lookup_entry s ns' k')"
  by (auto simp: PurgeNamespace_def lookup_entry_def namespaceMap_def map_of_map_values
      split: option.splits)

lemma lookup_NewStore [kv_simps]: "lookup_entry NewStore ns k = None"
  by (simp add: lookup_entry_def namespaceMap_def NewStore_def)

lemma put_entry_live [simp]:
  "\<not> e_deleted (put_entry old v ttl)" "e_value (put_entry old v ttl) = v"
  by (auto simp: put_entry_def split: option.splits)

lemma tombstone_simps [simp]:
  "e_deleted (tombstone e)" "e_changed (tombstone e)" "e_version (tombstone e) = e_version e + 1"
  "e_value (tombstone e) = e_value e" "e_ttl (tombstone e) = e_ttl e"
  by (simp_all add: tombstone_def)

lemma live_Put: "live (Put s ns k v ttl) = (live s)(ns := (live s ns)(k \<mapsto> trim_space v))"
  by (auto simp: live_def kv_simps fun_eq_iff)

lemma live_putValue:
  "live (putValue s ns k v ttl False) = (live s)(ns := (live s ns)(k \<mapsto> v))"
  by (auto simp: live_def kv_simps fun_eq_iff)

lemma live_Delete: "Delete s ns k = Inr s' \<Longrightarrow> live s' = (live s)(ns := (live s ns)(k := None))"
  by (auto simp: live_def kv_simps fun_eq_iff split: option.splits)

lemma live_PurgeNamespace: "live (PurgeNamespace s ns) = (live s)(ns := Map.empty)"
  by (auto simp: live_def kv_simps fun_eq_iff split: option.splits)

lemma Get_live: "Get s ns k = (case live s ns k of
    None \<Rightarrow> Err ErrNotFound | Some _ \<Rightarrow> Ok (the (lookup_entry s ns k)))"
  by (auto simp: Get_def live_def lookup_entry_def namespaceMap_def split: option.splits)

lemma Get_Ok: "Get s ns k = Inr e \<longleftrightarrow> lookup_entry s ns k = Some e \<and> \<not> e_deleted e"
  by (auto simp: Get_def lookup_entry_def namespaceMap_def split: option.splits)

lemma Get_Ok_live: "Get s ns k = Inr e \<Longrightarrow> live s ns k = Some (e_value e)"
  by (simp add: Get_Ok live_def)

lemma GetKeys_live: "store_wf s \<Longrightarrow> set (GetKeys s ns) = dom (live s ns)"
proof -
  assume wf: "store_wf s"
  show ?thesis
  proof (cases "map_of s ns")
    case None
    then show ?thesis by (auto simp: GetKeys_def live_def lookup_entry_def namespaceMap_def)
  next
    case (Some m)
    then have "(ns, m) \<in> set s" by (rule map_of_SomeD)
    with wf have d: "distinct_keys m" by (auto simp: store_wf_def)
    have "k \<in> set (GetKeys s ns) \<longleftrightarrow> (\<exists>e. map_of m k = Some e \<and> \<not> e_deleted e)" for k
      using Some map_of_is_SomeI [OF d] by (force simp: GetKeys_def dest: map_of_SomeD)
    then show ?thesis using Some
      by (auto simp: live_def lookup_entry_def namespaceMap_def split: option.splits)
  qed
qed

subsection \<open>Well-formedness is kept\<close>

lemma store_wf_iff: "store_wf s \<longleftrightarrow> distinct_keys s \<and> (\<forall>ns. distinct_keys (namespaceMap s ns))"
proof -
  have "(\<forall>(ns, m) \<in> set s. distinct_keys m) \<longleftrightarrow> (\<forall>ns. distinct_keys (namespaceMap s ns))"
    if "distinct_keys s"
    using that by (auto simp: namespaceMap_def split: option.splits dest: map_of_SomeD)
  then show ?thesis by (auto simp: store_wf_def)
qed

lemma store_wf_update: "store_wf s \<Longrightarrow> distinct_keys m \<Longrightarrow> store_wf (AList.update ns m s)"
  by (simp add: store_wf_iff)

lemma store_wf_NewStore [simp]: "store_wf NewStore"
  by (simp add: store_wf_def NewStore_def)

lemma store_wf_putValue [simp]: "store_wf s \<Longrightarrow> store_wf (putValue s ns k v ttl tr)"
  by (simp add: putValue_def Let_def store_wf_iff)

lemma store_wf_Put [simp]: "store_wf s \<Longrightarrow> store_wf (Put s ns k v ttl)"
  by (simp add: Put_def)

lemma store_wf_Delete: "store_wf s \<Longrightarrow> Delete s ns k = Inr s' \<Longrightarrow> store_wf s'"
  by (auto simp: Delete_Ok store_wf_iff)

lemma map_fst_map_values [simp]: "map fst (map (\<lambda>(k, e). (k, f e)) m) = map fst m"
  by (induction m) auto

lemma store_wf_PurgeNamespace [simp]: "store_wf s \<Longrightarrow> store_wf (PurgeNamespace s ns)"
  unfolding PurgeNamespace_def
  by (auto split: option.split intro!: store_wf_update simp: comp_def case_prod_beta)
    (auto simp: store_wf_def dest!: map_of_SomeD)

section \<open>Histories of operations\<close>

datatype kv_op =
    OpPut string string string int
  | OpPutSecret string string string int
  | OpDelete string string
  | OpPurge string

text \<open>A failing \<open>Delete\<close> leaves the store as it was. \<open>OpPutSecret\<close> stores an encrypted value.\<close>

fun kv_step :: "store \<Rightarrow> kv_op \<Rightarrow> store" where
  "kv_step s (OpPut ns k v ttl) = Put s ns k v ttl"
| "kv_step s (OpPutSecret ns k c ttl) = putValue s ns k c ttl False"
| "kv_step s (OpDelete ns k) = (case Delete s ns k of Inl _ \<Rightarrow> s | Inr s' \<Rightarrow> s')"
| "kv_step s (OpPurge ns) = PurgeNamespace s ns"

definition kv_run :: "store \<Rightarrow> kv_op list \<Rightarrow> store" where
  "kv_run = foldl kv_step"

lemma kv_run_simps [simp]: "kv_run s [] = s" "kv_run s (x # xs) = kv_run (kv_step s x) xs"
  by (simp_all add: kv_run_def)

text \<open>
  How one operation may move one entry: it stays as it is, or it appears at version 1, or its
  version goes up by one; whenever it moves it is marked changed.
\<close>

definition entry_step :: "entry option \<Rightarrow> entry option \<Rightarrow> bool" where
  "entry_step old new \<longleftrightarrow>
     new = old \<or>
     (\<exists>e'. new = Some e' \<and> e_changed e' \<and>
        (case old of None \<Rightarrow> e_version e' = 1 | Some e \<Rightarrow> e_version e' = e_version e + 1))"

lemma entry_step_refl [simp]: "entry_step x x"
  by (simp add: entry_step_def)

lemma entry_step_put: "entry_step old (Some (put_entry old v ttl))"
  by (auto simp: entry_step_def put_entry_def split: option.split)

lemma entry_step_tombstone: "entry_step old (map_option tombstone old)"
  by (cases old) (simp_all add: entry_step_def)

lemma kv_step_entry: "entry_step (lookup_entry s ns k) (lookup_entry (kv_step s x) ns k)"
proof (cases x)
  case (OpDelete ns' k')
  then show ?thesis
    by (auto simp: kv_simps entry_step_tombstone split: sum.split)
next
  case (OpPurge ns')
  have "entry_step old (map_option (\<lambda>e. if e_deleted e then e else tombstone e) old)" for old
    by (cases old) (simp_all add: entry_step_def)
  with OpPurge show ?thesis by (simp add: kv_simps)
qed (auto simp: kv_simps entry_step_put)

lemma kv_step_wf: "store_wf s \<Longrightarrow> store_wf (kv_step s x)"
  by (cases x) (auto split: sum.split intro: store_wf_Delete)

lemma kv_run_wf: "store_wf s \<Longrightarrow> store_wf (kv_run s ops)"
  by (induction ops arbitrary: s) (auto intro: kv_step_wf)

section \<open>The interface its clients use\<close>

text \<open>
  \<open>build\<close>, \<open>deploy\<close> and the runtime API use the store through four operations. The laws say what
  the live contents are after each; the client lemmas below are about loops over these operations
  and hold for every provider of the interface.
\<close>

locale kv_api =
  fixes contents :: "'s \<Rightarrow> string \<Rightarrow> string \<Rightarrow> string option"
    and valid :: "'s \<Rightarrow> bool"
    and put :: "'s \<Rightarrow> string \<Rightarrow> string \<Rightarrow> string \<Rightarrow> 's"
    and delete :: "'s \<Rightarrow> string \<Rightarrow> string \<Rightarrow> error + 's"
    and keys :: "'s \<Rightarrow> string \<Rightarrow> string list"
    and norm :: "string \<Rightarrow> string"
  assumes contents_put: "contents (put s ns k v) = (contents s)(ns := (contents s ns)(k \<mapsto> norm v))"
    and contents_delete:
      "delete s ns k = Inr s' \<Longrightarrow> contents s' = (contents s)(ns := (contents s ns)(k := None))"
    and delete_live: "contents s ns k \<noteq> None \<Longrightarrow> \<exists>s'. delete s ns k = Inr s'"
    and contents_keys: "valid s \<Longrightarrow> set (keys s ns) = dom (contents s ns)"
    and distinct_listed: "valid s \<Longrightarrow> distinct (keys s ns)"
    and valid_put: "valid s \<Longrightarrow> valid (put s ns k v)"
    and valid_delete: "valid s \<Longrightarrow> delete s ns k = Inr s' \<Longrightarrow> valid s'"
begin

lemma valid_put_all: "valid s \<Longrightarrow> valid (foldl (\<lambda>t (k, v). put t ns k v) s kvs)"
  by (induction kvs arbitrary: s) (auto simp: valid_put)

lemma contents_put_all:
  "distinct_keys kvs \<Longrightarrow>
   contents (foldl (\<lambda>t (k, v). put t ns k v) s kvs) =
     (contents s)(ns := contents s ns ++ (map_option norm \<circ> map_of kvs))"
proof (induction kvs arbitrary: s)
  case (Cons kv kvs)
  obtain k v where kv: "kv = (k, v)" by force
  have "map_of kvs k = None" using Cons.prems kv by (simp add: map_of_eq_None_iff)
  then show ?case
    using Cons kv by (auto simp: contents_put fun_eq_iff map_add_def split: option.split)
qed (auto simp: fun_eq_iff map_add_def)

lemma delete_all:
  assumes "valid s" and "distinct ks" and "\<And>k. k \<in> set ks \<Longrightarrow> contents s ns k \<noteq> None"
  shows "\<exists>s'. rfold (\<lambda>t k. delete t ns k) s ks = Inr s' \<and> valid s' \<and>
    contents s' = (contents s)(ns := contents s ns |` (- set ks))"
  using assms
proof (induction ks arbitrary: s)
  case (Cons k ks)
  then obtain t where t: "delete s ns k = Inr t" using delete_live by fastforce
  have "valid t" using Cons.prems(1) t by (rule valid_delete)
  moreover have "distinct ks" using Cons.prems(2) by simp
  moreover have "contents t ns k' \<noteq> None" if "k' \<in> set ks" for k'
    using that Cons.prems by (auto simp: contents_delete [OF t])
  ultimately have "\<exists>s'. rfold (\<lambda>t k. delete t ns k) t ks = Inr s' \<and> valid s' \<and>
    contents s' = (contents t)(ns := contents t ns |` (- set ks))"
    by (rule Cons.IH)
  then obtain s' where s': "rfold (\<lambda>t k. delete t ns k) t ks = Inr s'" "valid s'"
    "contents s' = (contents t)(ns := contents t ns |` (- set ks))"
    by blast
  have "contents s' = (contents s)(ns := contents s ns |` (- set (k # ks)))"
    unfolding s'(3) contents_delete [OF t] by (auto simp: fun_eq_iff restrict_map_def)
  with s' t show ?case by auto
qed (auto simp: fun_eq_iff restrict_map_def)

text \<open>
  The shape of every sync: put all pairs, list the keys, delete those that are neither among the
  pairs nor protected. It never fails and leaves exactly the pairs and the protected keys.
\<close>

lemma put_then_prune:
  assumes "valid s" and "distinct_keys kvs"
    and t: "t = foldl (\<lambda>t (k, v). put t ns k v) s kvs"
    and ks: "set ks = {k \<in> dom (contents t ns). k \<notin> fst ` set kvs \<and> \<not> keep k}" and "distinct ks"
  shows "\<exists>s'. rfold (\<lambda>t k. delete t ns k) t ks = Inr s' \<and> valid s' \<and>
    contents s' = (contents s)(ns := \<lambda>k. case map_of kvs k of
        Some v \<Rightarrow> Some (norm v) | None \<Rightarrow> if keep k then contents s ns k else None)"
proof -
  have v: "valid t" unfolding t by (rule valid_put_all [OF assms(1)])
  have c: "contents t = (contents s)(ns := contents s ns ++ (map_option norm \<circ> map_of kvs))"
    unfolding t by (rule contents_put_all [OF assms(2)])
  obtain s' where s': "rfold (\<lambda>t k. delete t ns k) t ks = Inr s'" "valid s'"
    "contents s' = (contents t)(ns := contents t ns |` (- set ks))"
    using delete_all [OF v assms(5), of ns] ks by auto
  have dom: "k \<in> fst ` set kvs \<longleftrightarrow> map_of kvs k \<noteq> None" for k
    by (simp add: map_of_eq_None_iff)
  have "contents s' ns k = (case map_of kvs k of
        Some v \<Rightarrow> Some (norm v) | None \<Rightarrow> if keep k then contents s ns k else None)" for k
    unfolding s'(3) using c
    by (cases "map_of kvs k") (auto simp: restrict_map_def ks dom map_add_def dom_def)
  moreover have "contents s' ns' = contents s ns'" if "ns' \<noteq> ns" for ns'
    using that unfolding s'(3) c by simp
  ultimately have "contents s' = (contents s)(ns := \<lambda>k. case map_of kvs k of
        Some v \<Rightarrow> Some (norm v) | None \<Rightarrow> if keep k then contents s ns k else None)"
    by (intro ext) auto
  with s' show ?thesis by blast
qed

end

lemma distinct_GetKeys: "store_wf s \<Longrightarrow> distinct (GetKeys s ns)"
  unfolding GetKeys_def
  by (auto split: option.split simp: store_wf_def dest!: map_of_SomeD intro!: distinct_map_filter)

interpretation kv: kv_api live store_wf "\<lambda>s ns k v. Put s ns k v 0" Delete GetKeys trim_space
proof unfold_locales
  fix s :: store and ns k
  assume "live s ns k \<noteq> None"
  then show "\<exists>s'. Delete s ns k = Inr s'"
    by (auto simp: Delete_Ok_iff live_def split: option.splits)
qed (auto simp: live_Put live_Delete GetKeys_live distinct_GetKeys intro: store_wf_Delete)

end
