(* ===== verification/KvPersist.thy ===== *)
theory KvPersist
  imports KvStore
begin

text \<open>
  Persistence of the key-value store: the table \<open>key_value\<close>, loading and saving a store
  (\<open>kv/persist.go\<close>), and purging old rows (\<open>kv/purge.go\<close>). A table is the list of its rows.
  \<open>created_date\<close> is a TEXT column: it holds the decimal digits of the Unix time.
\<close>

section \<open>The table key_value\<close>

record kv_row =
  kr_key :: string
  kr_value :: string
  kr_namespace :: string
  kr_version :: int
  kr_ttl :: int
  kr_created :: string
  kr_deleted :: bool

type_synonym kv_table = "kv_row list"

definition same_key :: "kv_row \<Rightarrow> string \<Rightarrow> string \<Rightarrow> bool" where
  "same_key r ns k \<longleftrightarrow> kr_namespace r = ns \<and> kr_key r = k"

text \<open>The rows that \<open>loadLatestEntriesQuery\<close> selects: those of the highest version of their key.\<close>

definition latest_rows :: "kv_table \<Rightarrow> kv_table" where
  "latest_rows rows =
     filter (\<lambda>r. list_all (\<lambda>r'. same_key r' (kr_namespace r) (kr_key r) \<longrightarrow>
                            kr_version r' \<le> kr_version r) rows) rows"

definition row_entry :: "kv_row \<Rightarrow> int \<Rightarrow> entry" where
  "row_entry r created =
     \<lparr>e_value = kr_value r, e_version = kr_version r, e_ttl = kr_ttl r, e_deleted = kr_deleted r,
      e_changed = False, e_modified = created\<rparr>"

definition load_row :: "store \<Rightarrow> kv_row \<Rightarrow> error + store" where
  "load_row s r =
     (case atoi (kr_created r) of
        None \<Rightarrow> Err ErrDatabase
      | Some created \<Rightarrow>
          Ok (AList.update (kr_namespace r)
                (AList.update (kr_key r) (row_entry r created) (namespaceMap s (kr_namespace r))) s))"

definition LoadFromTransaction :: "kv_table \<Rightarrow> error + store" where
  "LoadFromTransaction rows = rfold load_row NewStore (latest_rows rows)"

definition entry_row :: "string \<Rightarrow> string \<Rightarrow> entry \<Rightarrow> int \<Rightarrow> kv_row" where
  "entry_row ns k e now =
     \<lparr>kr_key = k, kr_value = e_value e, kr_namespace = ns, kr_version = e_version e,
      kr_ttl = e_ttl e, kr_created = itoa now, kr_deleted = e_deleted e\<rparr>"

definition persist_entry :: "int \<Rightarrow> entry \<Rightarrow> entry" where
  "persist_entry now e = (if e_changed e then e\<lparr>e_changed := False, e_modified := now\<rparr> else e)"

definition changed_rows :: "int \<Rightarrow> store \<Rightarrow> kv_table" where
  "changed_rows now s =
     concat (map (\<lambda>(ns, m). concat (map (\<lambda>(k, e). if e_changed e then [entry_row ns k e now] else []) m)) s)"

definition PersistToTransaction :: "int \<Rightarrow> store \<Rightarrow> kv_table \<Rightarrow> kv_table \<times> store" where
  "PersistToTransaction now s rows =
     (rows @ changed_rows now s,
      map (\<lambda>(ns, m). (ns, map (\<lambda>(k, e). (k, persist_entry now e)) m)) s)"

text \<open>The process-wide session store (\<open>kv/session.go\<close>): \<open>None\<close> before \<open>Initialize\<close>.\<close>

definition Initialize :: "kv_table \<Rightarrow> error + store option" where
  "Initialize rows = rbind (LoadFromTransaction rows) (\<lambda>s. Ok (Some s))"

definition RequireStore :: "store option \<Rightarrow> error + store" where
  "RequireStore session = (case session of None \<Rightarrow> Err ErrStoreNotInitialized | Some s \<Rightarrow> Ok s)"

definition PersistToSessionTransaction ::
  "int \<Rightarrow> store option \<Rightarrow> kv_table \<Rightarrow> error + (kv_table \<times> store option)" where
  "PersistToSessionTransaction now session rows =
     rbind (RequireStore session) (\<lambda>s.
       if \<not> HasPendingChanges s then Ok (rows, session)
       else (case PersistToTransaction now s rows of (rows', s') \<Rightarrow> Ok (rows', Some s')))"

section \<open>Purging (kv/purge.go)\<close>

definition MaxVersionsToKeep :: int where
  "MaxVersionsToKeep = 7"

text \<open>
  The bare columns of the grouped subquery come from a row that holds the maximum. The comparison
  of \<open>created_date\<close> with the cutoff is a comparison of texts: the column has TEXT affinity, the
  arithmetic expression none.
\<close>

definition group_latest :: "kv_table \<Rightarrow> string \<Rightarrow> string \<Rightarrow> kv_row option" where
  "group_latest rows ns k = find (\<lambda>r. same_key r ns k) (latest_rows rows)"

definition text_less :: "string \<Rightarrow> string \<Rightarrow> bool" where
  "text_less a b \<longleftrightarrow> string_le a b \<and> a \<noteq> b"

definition purge_row :: "int \<Rightarrow> int \<Rightarrow> kv_table \<Rightarrow> kv_row \<Rightarrow> bool" where
  "purge_row now retainDays rows r =
     (case group_latest rows (kr_namespace r) (kr_key r) of
        None \<Rightarrow> False
      | Some latest \<Rightarrow>
          (kr_version r < kr_version latest - MaxVersionsToKeep \<or> kr_deleted latest) \<and>
          text_less (kr_created latest) (itoa (now - retainDays * 24 * 60 * 60)))"

definition PurgeStaleVersions :: "int \<Rightarrow> int \<Rightarrow> kv_table \<Rightarrow> kv_table" where
  "PurgeStaleVersions now retainDays rows =
     (let days = (if retainDays < 0 then 0 else retainDays)
      in filter (\<lambda>r. \<not> purge_row now days rows r) rows)"

section \<open>Loading\<close>

definition decodes :: "kv_row \<Rightarrow> entry \<Rightarrow> bool" where
  "decodes r e \<longleftrightarrow> (\<exists>t. atoi (kr_created r) = Some t \<and> e = row_entry r t)"

definition row_decoded :: "kv_row \<Rightarrow> entry" where
  "row_decoded r = row_entry r (case atoi (kr_created r) of None \<Rightarrow> 0 | Some t \<Rightarrow> t)"

abbreviation row_pairs :: "kv_table \<Rightarrow> ((string \<times> string) \<times> entry) list" where
  "row_pairs rs \<equiv> map (\<lambda>r. ((kr_namespace r, kr_key r), row_decoded r)) rs"

lemma load_rows:
  assumes "\<And>r. r \<in> set rs \<Longrightarrow> atoi (kr_created r) \<noteq> None" and "store_wf s"
  shows "\<exists>s'. rfold load_row s rs = Inr s' \<and> store_wf s' \<and>
    (\<forall>ns k. lookup_entry s' ns k =
       (case map_of (rev (row_pairs rs)) (ns, k) of Some e \<Rightarrow> Some e | None \<Rightarrow> lookup_entry s ns k))"
  using assms
proof (induction rs arbitrary: s)
  case (Cons r rs)
  from Cons.prems(1) obtain t where t: "atoi (kr_created r) = Some t" by fastforce
  define s1 where "s1 = AList.update (kr_namespace r)
    (AList.update (kr_key r) (row_entry r t) (namespaceMap s (kr_namespace r))) s"
  have step: "load_row s r = Inr s1" by (simp add: load_row_def t s1_def)
  have wf: "store_wf s1" using Cons.prems(2) by (simp add: s1_def store_wf_iff)
  have look: "lookup_entry s1 ns k =
      (if ns = kr_namespace r \<and> k = kr_key r then Some (row_decoded r) else lookup_entry s ns k)"
    for ns k by (auto simp: s1_def lookup_entry_def row_decoded_def t)
  have "\<exists>s'. rfold load_row s1 rs = Inr s' \<and> store_wf s' \<and>
    (\<forall>ns k. lookup_entry s' ns k =
       (case map_of (rev (row_pairs rs)) (ns, k) of Some e \<Rightarrow> Some e | None \<Rightarrow> lookup_entry s1 ns k))"
    by (rule Cons.IH) (use Cons.prems(1) wf in auto)
  then obtain s' where s': "rfold load_row s1 rs = Inr s'" "store_wf s'"
    "\<And>ns k. lookup_entry s' ns k =
       (case map_of (rev (row_pairs rs)) (ns, k) of Some e \<Rightarrow> Some e | None \<Rightarrow> lookup_entry s1 ns k)"
    by blast
  show ?case
    using s' step by (auto simp: look map_add_def split: option.splits)
qed simp

lemma map_of_row_pairs_None:
  "map_of (rev (row_pairs rs)) (ns, k) = None \<longleftrightarrow> (\<forall>r \<in> set rs. \<not> same_key r ns k)"
  by (auto simp: map_of_eq_None_iff same_key_def image_iff)

lemma map_of_row_pairs_unique:
  assumes "r \<in> set rs" and "same_key r ns k"
    and "\<And>r'. r' \<in> set rs \<Longrightarrow> same_key r' ns k \<Longrightarrow> row_decoded r' = row_decoded r"
  shows "map_of (rev (row_pairs rs)) (ns, k) = Some (row_decoded r)"
proof -
  have "map_of (rev (row_pairs rs)) (ns, k) \<noteq> None"
    unfolding map_of_row_pairs_None using assms by blast
  then obtain e where e: "map_of (rev (row_pairs rs)) (ns, k) = Some e" by blast
  then obtain r' where "r' \<in> set rs" "same_key r' ns k" "e = row_decoded r'"
    by (auto simp: same_key_def dest!: map_of_SomeD)
  with e assms(3) show ?thesis by auto
qed

section \<open>A store in step with its table\<close>

text \<open>
  A key without an entry has no rows; an unchanged entry is what the only latest row of its key
  decodes to; the version of a changed entry is above all rows of its key.
\<close>

definition key_synced :: "entry option \<Rightarrow> kv_row set \<Rightarrow> bool" where
  "key_synced x rs =
     (case x of
        None \<Rightarrow> rs = {}
      | Some e \<Rightarrow>
          if e_changed e then \<forall>r \<in> rs. kr_version r < e_version e
          else \<exists>r \<in> rs. kr_version r = e_version e \<and> decodes r e \<and>
                 (\<forall>r' \<in> rs. r' = r \<or> kr_version r' < e_version e))"

abbreviation rows_of :: "kv_table \<Rightarrow> string \<Rightarrow> string \<Rightarrow> kv_row set" where
  "rows_of rows ns k \<equiv> {r \<in> set rows. same_key r ns k}"

definition synced :: "store \<Rightarrow> kv_table \<Rightarrow> bool" where
  "synced s rows \<longleftrightarrow> store_wf s \<and> (\<forall>ns k. key_synced (lookup_entry s ns k) (rows_of rows ns k))"

lemma key_synced_step:
  assumes "key_synced old rs" and "entry_step old new"
  shows "key_synced new rs"
proof (cases "new = old")
  case False
  with assms(2) obtain e' where e': "new = Some e'" "e_changed e'"
    "case old of None \<Rightarrow> e_version e' = 1 | Some e \<Rightarrow> e_version e' = e_version e + 1"
    by (auto simp: entry_step_def)
  then show ?thesis
    using assms(1) by (fastforce simp: key_synced_def split: option.splits if_splits)
qed (use assms in simp)

lemma synced_kv_step: "synced s rows \<Longrightarrow> synced (kv_step s x) rows"
  using key_synced_step kv_step_entry kv_step_wf unfolding synced_def by blast

lemma synced_kv_run: "synced s rows \<Longrightarrow> synced (kv_run s ops) rows"
  by (induction ops arbitrary: s) (auto intro: synced_kv_step)

lemma synced_NewStore: "synced NewStore []"
  by (simp add: synced_def key_synced_def lookup_NewStore)

section \<open>Persisting\<close>

lemma atoi_itoa: "0 \<le> now \<Longrightarrow> now < 2 ^ 63 \<Longrightarrow> atoi (itoa now) = Some now"
  by (simp add: itoa_def atoi_digits_of)

lemma set_changed:
  "set (changed_rows now s) =
     {entry_row ns k e now | ns m k e. (ns, m) \<in> set s \<and> (k, e) \<in> set m \<and> e_changed e}"
proof -
  have "set (concat (map (\<lambda>(k, e). if e_changed e then [entry_row ns k e now] else []) m)) =
      {entry_row ns k e now | k e. (k, e) \<in> set m \<and> e_changed e}" for ns m
    by (induction m) auto
  then show ?thesis by (simp add: changed_rows_def case_prod_beta) force
qed

lemma same_key_entry_row [simp]: "same_key (entry_row ns' k' e now) ns k \<longleftrightarrow> ns' = ns \<and> k' = k"
  by (simp add: same_key_def entry_row_def)

lemma set_changed_rows:
  "store_wf s \<Longrightarrow> rows_of (changed_rows now s) ns k =
     (case lookup_entry s ns k of
        None \<Rightarrow> {} | Some e \<Rightarrow> if e_changed e then {entry_row ns k e now} else {})"
proof -
  assume wf: "store_wf s"
  have mem: "(\<exists>m. (ns, m) \<in> set s \<and> (k, e) \<in> set m) \<longleftrightarrow> lookup_entry s ns k = Some e" for e
  proof
    assume "\<exists>m. (ns, m) \<in> set s \<and> (k, e) \<in> set m"
    then obtain m where m: "(ns, m) \<in> set s" "(k, e) \<in> set m" by blast
    have "distinct_keys s" "distinct_keys m" using wf m(1) by (auto simp: store_wf_def)
    then have "map_of s ns = Some m" "map_of m k = Some e" using m by simp_all
    then show "lookup_entry s ns k = Some e" by (simp add: lookup_entry_def namespaceMap_def)
  next
    assume "lookup_entry s ns k = Some e"
    then obtain m where "map_of s ns = Some m" "map_of m k = Some e"
      by (auto simp: lookup_entry_def namespaceMap_def split: option.splits)
    then show "\<exists>m. (ns, m) \<in> set s \<and> (k, e) \<in> set m" by (blast dest: map_of_SomeD)
  qed
  have "rows_of (changed_rows now s) ns k =
      {entry_row ns k e now | e. (\<exists>m. (ns, m) \<in> set s \<and> (k, e) \<in> set m) \<and> e_changed e}"
    unfolding set_changed by auto blast
  then show ?thesis unfolding mem by (auto split: option.split)
qed

lemma lookup_persist:
  "lookup_entry (snd (PersistToTransaction now s rows)) ns k =
     map_option (persist_entry now) (lookup_entry s ns k)"
  by (auto simp: PersistToTransaction_def lookup_entry_def namespaceMap_def map_of_map_values
      split: option.split)

lemma decodes_entry_row:
  "0 \<le> now \<Longrightarrow> now < 2 ^ 63 \<Longrightarrow> e_changed e \<Longrightarrow>
   decodes (entry_row ns k e now) (persist_entry now e)"
  by (simp add: decodes_def entry_row_def row_entry_def persist_entry_def atoi_itoa)

lemma store_wf_persist: "store_wf s \<Longrightarrow> store_wf (snd (PersistToTransaction now s rows))"
  by (auto simp: PersistToTransaction_def store_wf_def comp_def case_prod_beta)

lemma synced_persist:
  assumes "synced s rows" and "0 \<le> now" and "now < 2 ^ 63"
    and p: "PersistToTransaction now s rows = (rows', s')"
  shows "synced s' rows'" and "\<not> HasPendingChanges s'"
    and "lookup_entry s' ns k = map_option (persist_entry now) (lookup_entry s ns k)"
proof -
  have s': "s' = snd (PersistToTransaction now s rows)" and rows': "rows' = rows @ changed_rows now s"
    using p by (auto simp: PersistToTransaction_def)
  have wf: "store_wf s" using assms(1) by (simp add: synced_def)
  show look: "lookup_entry s' ns k = map_option (persist_entry now) (lookup_entry s ns k)" for ns k
    unfolding s' by (rule lookup_persist)
  show "\<not> HasPendingChanges s'"
    by (auto simp: s' HasPendingChanges_def PersistToTransaction_def persist_entry_def list_ex_iff
        split: if_splits)
  have "key_synced (lookup_entry s' ns k) (rows_of rows' ns k)" for ns k
  proof -
    have "rows_of rows' ns k = rows_of rows ns k \<union> rows_of (changed_rows now s) ns k"
      by (auto simp: rows')
    moreover have "key_synced (lookup_entry s ns k) (rows_of rows ns k)"
      using assms(1) by (simp add: synced_def)
    ultimately show ?thesis
      using decodes_entry_row [OF assms(2,3)]
      by (auto simp: look set_changed_rows [OF wf] key_synced_def persist_entry_def entry_row_def
          split: option.splits)
  qed
  then show "synced s' rows'"
    using store_wf_persist [OF wf] by (simp add: synced_def s')
qed

lemma set_latest_rows:
  "r \<in> set (latest_rows rows) \<longleftrightarrow>
   r \<in> set rows \<and> (\<forall>r' \<in> rows_of rows (kr_namespace r) (kr_key r). kr_version r' \<le> kr_version r)"
  by (auto simp: latest_rows_def list_all_iff)

lemma decodes_row_decoded: "decodes r e \<longleftrightarrow> atoi (kr_created r) \<noteq> None \<and> row_decoded r = e"
  by (auto simp: decodes_def row_decoded_def)

text \<open>What loading gives when every group has one latest row that decodes.\<close>

lemma load_groups:
  assumes "\<And>ns k. rows_of rows ns k \<noteq> {} \<Longrightarrow> \<exists>r \<in> rows_of rows ns k. atoi (kr_created r) \<noteq> None \<and>
      (\<forall>r' \<in> rows_of rows ns k. r' = r \<or> kr_version r' < kr_version r)"
  shows "\<exists>s'. LoadFromTransaction rows = Inr s' \<and> store_wf s' \<and>
    (\<forall>ns k. rows_of rows ns k = {} \<longrightarrow> lookup_entry s' ns k = None) \<and>
    (\<forall>ns k r. r \<in> rows_of rows ns k \<and> (\<forall>r' \<in> rows_of rows ns k. r' = r \<or> kr_version r' < kr_version r) \<longrightarrow>
       lookup_entry s' ns k = Some (row_decoded r))"
proof -
  have dec: "atoi (kr_created r) \<noteq> None" if "r \<in> set (latest_rows rows)" for r
  proof -
    have "r \<in> rows_of rows (kr_namespace r) (kr_key r)"
      using that by (auto simp: set_latest_rows same_key_def)
    then obtain r0 where "r0 \<in> rows_of rows (kr_namespace r) (kr_key r)"
      "atoi (kr_created r0) \<noteq> None" "r = r0 \<or> kr_version r < kr_version r0"
      using assms by blast
    with that show ?thesis by (auto simp: set_latest_rows)
  qed
  from load_rows [OF dec store_wf_NewStore]
  obtain s' where s'1: "LoadFromTransaction rows = Inr s'" "store_wf s'"
    and s'2: "\<forall>ns k. lookup_entry s' ns k = (case map_of (rev (row_pairs (latest_rows rows))) (ns, k) of
       Some e \<Rightarrow> Some e | None \<Rightarrow> lookup_entry NewStore ns k)"
    unfolding LoadFromTransaction_def by blast
  have "lookup_entry s' ns k = map_of (rev (row_pairs (latest_rows rows))) (ns, k)" for ns k
    by (subst s'2 [rule_format]) (simp add: lookup_NewStore split: option.split)
  note s' = s'1 this
  have "lookup_entry s' ns k = None" if "rows_of rows ns k = {}" for ns k
  proof -
    have "map_of (rev (row_pairs (latest_rows rows))) (ns, k) = None"
      unfolding map_of_row_pairs_None using that by (auto simp: set_latest_rows)
    then show ?thesis by (simp only: s'(3))
  qed
  moreover have "lookup_entry s' ns k = Some (row_decoded r)"
    if "r \<in> rows_of rows ns k" "\<forall>r' \<in> rows_of rows ns k. r' = r \<or> kr_version r' < kr_version r"
    for ns k r
  proof -
    have "map_of (rev (row_pairs (latest_rows rows))) (ns, k) = Some (row_decoded r)"
      by (rule map_of_row_pairs_unique)
        (use that in \<open>fastforce simp: set_latest_rows same_key_def\<close>)+
    then show ?thesis by (simp only: s'(3))
  qed
  ultimately show ?thesis using s' by blast
qed

lemma load_synced:
  assumes "synced s rows" and "\<not> HasPendingChanges s"
  shows "\<exists>s'. LoadFromTransaction rows = Inr s' \<and> store_wf s' \<and> lookup_entry s' = lookup_entry s"
proof -
  have key: "key_synced (lookup_entry s ns k) (rows_of rows ns k)" for ns k
    using assms(1) by (simp add: synced_def)
  have unch: "\<not> e_changed e" if "lookup_entry s ns k = Some e" for ns k e
    using that assms(2)
    by (force simp: HasPendingChanges_def list_ex_iff lookup_entry_def namespaceMap_def
        split: option.splits dest: map_of_SomeD)
  have row: "\<exists>r \<in> rows_of rows ns k. kr_version r = e_version e \<and> decodes r e \<and>
      (\<forall>r' \<in> rows_of rows ns k. r' = r \<or> kr_version r' < kr_version r)"
    if "lookup_entry s ns k = Some e" for ns k e
  proof -
    from key [of ns k] unch [OF that] that
    obtain r where "r \<in> rows_of rows ns k" "kr_version r = e_version e" "decodes r e"
      "\<forall>r' \<in> rows_of rows ns k. r' = r \<or> kr_version r' < e_version e"
      unfolding key_synced_def by auto
    then show ?thesis by (intro bexI [of _ r]) simp_all
  qed
  have none: "rows_of rows ns k = {}" if "lookup_entry s ns k = None" for ns k
    using key [of ns k] that by (simp add: key_synced_def)
  have grp: "\<exists>r \<in> rows_of rows ns k. atoi (kr_created r) \<noteq> None \<and>
      (\<forall>r' \<in> rows_of rows ns k. r' = r \<or> kr_version r' < kr_version r)"
    if "rows_of rows ns k \<noteq> {}" for ns k
  proof -
    have "lookup_entry s ns k \<noteq> None"
      by (rule notI) (rule notE [OF that none])
    then obtain e where "lookup_entry s ns k = Some e" by (cases "lookup_entry s ns k") simp_all
    from row [OF this] obtain r where "r \<in> rows_of rows ns k" "decodes r e"
      "\<forall>r' \<in> rows_of rows ns k. r' = r \<or> kr_version r' < kr_version r" by blast
    then show ?thesis by (intro bexI [of _ r]) (simp_all add: decodes_row_decoded)
  qed
  have "\<exists>s'. LoadFromTransaction rows = Inr s' \<and> store_wf s' \<and>
    (\<forall>ns k. rows_of rows ns k = {} \<longrightarrow> lookup_entry s' ns k = None) \<and>
    (\<forall>ns k r. r \<in> rows_of rows ns k \<and> (\<forall>r' \<in> rows_of rows ns k. r' = r \<or> kr_version r' < kr_version r) \<longrightarrow>
       lookup_entry s' ns k = Some (row_decoded r))"
    by (rule load_groups) (rule grp)
  then obtain s' where s'1: "LoadFromTransaction rows = Inr s'" "store_wf s'"
    and s'2: "\<forall>ns k. rows_of rows ns k = {} \<longrightarrow> lookup_entry s' ns k = None"
    and s'3: "\<forall>ns k r. r \<in> rows_of rows ns k \<and>
       (\<forall>r' \<in> rows_of rows ns k. r' = r \<or> kr_version r' < kr_version r) \<longrightarrow>
       lookup_entry s' ns k = Some (row_decoded r)"
    by (elim exE conjE) (rule that)
  note s' = s'1 s'2 [rule_format] s'3 [rule_format, OF conjI]
  have "lookup_entry s' ns k = lookup_entry s ns k" for ns k
  proof (cases "lookup_entry s ns k")
    case None
    then show ?thesis using s'(3) none by simp
  next
    case (Some e)
    from row [OF this] obtain r where "r \<in> rows_of rows ns k" "decodes r e"
      "\<forall>r' \<in> rows_of rows ns k. r' = r \<or> kr_version r' < kr_version r" by blast
    then show ?thesis using s'(4) Some by (auto simp: decodes_row_decoded)
  qed
  then show ?thesis using s' by blast
qed


section \<open>What purging keeps\<close>

text \<open>Every key that has rows has one latest row, and its date parses.\<close>

definition newest :: "kv_table \<Rightarrow> string \<Rightarrow> string \<Rightarrow> kv_row \<Rightarrow> bool" where
  "newest rows ns k r \<longleftrightarrow> r \<in> rows_of rows ns k \<and>
     (\<forall>r' \<in> rows_of rows ns k. r' = r \<or> kr_version r' < kr_version r)"

definition table_ok :: "kv_table \<Rightarrow> bool" where
  "table_ok rows \<longleftrightarrow> (\<forall>ns k. rows_of rows ns k \<noteq> {} \<longrightarrow>
     (\<exists>r. newest rows ns k r \<and> atoi (kr_created r) \<noteq> None))"

lemma load_table_ok:
  assumes "table_ok rows"
  shows "\<exists>s'. LoadFromTransaction rows = Inr s' \<and> store_wf s' \<and>
    (\<forall>ns k. rows_of rows ns k = {} \<longrightarrow> lookup_entry s' ns k = None) \<and>
    (\<forall>ns k r. newest rows ns k r \<longrightarrow> lookup_entry s' ns k = Some (row_decoded r))"
  unfolding newest_def
proof (rule load_groups)
  fix ns k
  assume "rows_of rows ns k \<noteq> {}"
  then obtain r where "newest rows ns k r" "atoi (kr_created r) \<noteq> None"
    using assms unfolding table_ok_def by metis
  then show "\<exists>r \<in> rows_of rows ns k. atoi (kr_created r) \<noteq> None \<and>
      (\<forall>r' \<in> rows_of rows ns k. r' = r \<or> kr_version r' < kr_version r)"
    unfolding newest_def by (intro bexI [of _ r]) simp_all
qed

lemma group_latest_newest: "newest rows ns k r \<Longrightarrow> group_latest rows ns k = Some r"
proof -
  assume n: "newest rows ns k r"
  then have key: "kr_namespace r = ns" "kr_key r = k" by (simp_all add: newest_def same_key_def)
  have mem: "r \<in> set (latest_rows rows)"
    using n unfolding set_latest_rows key by (auto simp: newest_def intro: less_imp_le)
  have uniq: "r' = r" if "r' \<in> set (latest_rows rows)" "same_key r' ns k" for r'
  proof -
    have "r' \<in> rows_of rows ns k" "kr_version r \<le> kr_version r'"
      using that n by (auto simp: set_latest_rows same_key_def newest_def)
    then show ?thesis using n by (auto simp: newest_def)
  qed
  have "find (\<lambda>r. same_key r ns k) (latest_rows rows) \<noteq> None"
    using mem n by (auto simp: find_None_iff newest_def)
  then obtain r' where r': "find (\<lambda>r. same_key r ns k) (latest_rows rows) = Some r'" by blast
  then have "r' \<in> set (latest_rows rows)" "same_key r' ns k"
    by (auto simp: find_Some_iff)
  with uniq r' show ?thesis by (simp add: group_latest_def)
qed

definition old_enough :: "int \<Rightarrow> int \<Rightarrow> kv_row \<Rightarrow> bool" where
  "old_enough now days latest \<longleftrightarrow> text_less (kr_created latest) (itoa (now - days * 24 * 60 * 60))"

lemma purge_row_newest:
  assumes "newest rows ns k l" and "same_key r ns k"
  shows "purge_row now days rows r \<longleftrightarrow>
    (kr_version r < kr_version l - MaxVersionsToKeep \<or> kr_deleted l) \<and> old_enough now days l"
  using assms(2) group_latest_newest [OF assms(1)]
  by (simp add: purge_row_def same_key_def old_enough_def)

lemma rows_of_Purge:
  assumes "newest rows ns k l"
  shows "rows_of (PurgeStaleVersions now days rows) ns k =
    {r \<in> rows_of rows ns k. \<not> ((kr_version r < kr_version l - MaxVersionsToKeep \<or> kr_deleted l) \<and>
       old_enough now (max 0 days) l)}"
  using purge_row_newest [OF assms] by (auto simp: PurgeStaleVersions_def max_def)

lemma rows_of_Purge_empty:
  "rows_of rows ns k = {} \<Longrightarrow> rows_of (PurgeStaleVersions now days rows) ns k = {}"
  by (auto simp: PurgeStaleVersions_def)

lemma newest_Purge:
  assumes "newest rows ns k l" and "\<not> (kr_deleted l \<and> old_enough now (max 0 days) l)"
  shows "newest (PurgeStaleVersions now days rows) ns k l"
  using assms unfolding newest_def rows_of_Purge [OF assms(1)]
  by (auto simp: MaxVersionsToKeep_def)

lemma Purge_gone:
  assumes "newest rows ns k l" and "kr_deleted l" and "old_enough now (max 0 days) l"
  shows "rows_of (PurgeStaleVersions now days rows) ns k = {}"
  using assms(2,3) by (simp add: rows_of_Purge [OF assms(1)])

lemma newest_cases:
  assumes "table_ok rows"
  obtains "rows_of rows ns k = {}"
    | r where "newest rows ns k r" "atoi (kr_created r) \<noteq> None"
  using assms unfolding table_ok_def by metis

lemma table_ok_Purge:
  assumes "table_ok rows"
  shows "table_ok (PurgeStaleVersions now days rows)"
  unfolding table_ok_def
proof (intro allI impI)
  fix ns k
  assume ne: "rows_of (PurgeStaleVersions now days rows) ns k \<noteq> {}"
  show "\<exists>r. newest (PurgeStaleVersions now days rows) ns k r \<and> atoi (kr_created r) \<noteq> None"
  proof (rule newest_cases [OF assms, of ns k])
    assume "rows_of rows ns k = {}"
    from notE [OF ne rows_of_Purge_empty [OF this]] show ?thesis .
  next
    fix r
    assume r: "newest rows ns k r" "atoi (kr_created r) \<noteq> None"
    then have "\<not> (kr_deleted r \<and> old_enough now (max 0 days) r)"
      using notE [OF ne Purge_gone [OF r(1)]] by blast
    with r newest_Purge show ?thesis by blast
  qed
qed

lemma live_row_decoded:
  "lookup_entry s ns k = Some (row_decoded r) \<Longrightarrow>
   live s ns k = (if kr_deleted r then None else Some (kr_value r))"
  by (simp add: live_def row_decoded_def row_entry_def)

text \<open>Purging changes no live value, whatever the dates and the retention.\<close>

lemma live_after_Purge:
  assumes ok: "table_ok rows" and s: "LoadFromTransaction rows = Inr s"
    and s': "LoadFromTransaction (PurgeStaleVersions now days rows) = Inr s'"
  shows "live s' = live s"
proof (intro ext)
  fix ns k
  let ?p = "PurgeStaleVersions now days rows"
  have l: "rows_of rows ns k = {} \<Longrightarrow> lookup_entry s ns k = None"
    "\<And>r. newest rows ns k r \<Longrightarrow> lookup_entry s ns k = Some (row_decoded r)"
    using load_table_ok [OF ok] s by auto
  have l': "rows_of ?p ns k = {} \<Longrightarrow> lookup_entry s' ns k = None"
    "\<And>r. newest ?p ns k r \<Longrightarrow> lookup_entry s' ns k = Some (row_decoded r)"
    using load_table_ok [OF table_ok_Purge [OF ok, of now days]] s' by auto
  show "live s' ns k = live s ns k"
  proof (rule newest_cases [OF ok, of ns k])
    assume "rows_of rows ns k = {}"
    with l(1) l'(1) [OF rows_of_Purge_empty] show ?thesis by (simp add: live_def)
  next
    fix r
    assume r: "newest rows ns k r"
    show ?thesis
    proof (cases "kr_deleted r \<and> old_enough now (max 0 days) r")
      case True
      then show ?thesis using l(2) [OF r] l'(1) [OF Purge_gone [OF r]]
        by (simp add: live_row_decoded live_def row_decoded_def row_entry_def)
    next
      case False
      then show ?thesis using l(2) [OF r] l'(2) [OF newest_Purge [OF r]]
        by (simp add: live_row_decoded)
    qed
  qed
qed


section \<open>Properties\<close>

text \<open>The map a store stands for, and what each operation does to it.\<close>

fun abs_step :: "(string \<Rightarrow> string \<Rightarrow> string option) \<Rightarrow> kv_op \<Rightarrow> (string \<Rightarrow> string \<Rightarrow> string option)" where
  "abs_step f (OpPut ns k v ttl) = f(ns := (f ns)(k \<mapsto> trim_space v))"
| "abs_step f (OpPutSecret ns k c ttl) = f(ns := (f ns)(k \<mapsto> c))"
| "abs_step f (OpDelete ns k) = f(ns := (f ns)(k := None))"
| "abs_step f (OpPurge ns) = f(ns := Map.empty)"

lemma Delete_Err_live: "Delete s ns k = Inl e \<Longrightarrow> live s ns k = None"
  using Delete_Ok_iff [of s ns k] by (auto simp: live_def)

lemma live_kv_step: "live (kv_step s x) = abs_step (live s) x"
proof (cases x)
  case (OpDelete ns k)
  then show ?thesis
    by (auto simp: live_Delete fun_eq_iff Delete_Err_live split: sum.split)
qed (simp_all add: live_Put live_putValue live_PurgeNamespace)

lemma synced_lookup:
  "synced s rows \<Longrightarrow> store_wf t \<Longrightarrow> lookup_entry t = lookup_entry s \<Longrightarrow> synced t rows"
  by (simp add: synced_def)

text \<open>Property C27: a store refines a plain map. After any sequence of puts, secret puts, deletes and
  namespace purges, starting from a well-formed store, the live contents are those of the map on
  which the same operations were run, \<open>Get\<close> returns exactly those values (and \<open>ErrNotFound\<close> for the
  rest), and \<open>GetKeys\<close> lists exactly the live keys, each once.\<close>

theorem store_refines_map:
  assumes "store_wf s"
  shows "live (kv_run s ops) = foldl abs_step (live s) ops \<and>
    (\<forall>ns k. map_sum id e_value (Get (kv_run s ops) ns k) =
       (case foldl abs_step (live s) ops ns k of None \<Rightarrow> Err ErrNotFound | Some v \<Rightarrow> Ok v)) \<and>
    (\<forall>ns. distinct (GetKeys (kv_run s ops) ns) \<and>
       set (GetKeys (kv_run s ops) ns) = dom (foldl abs_step (live s) ops ns))"
proof -
  have l: "live (kv_run s ops) = foldl abs_step (live s) ops" for s ops
    by (induction ops arbitrary: s) (simp_all add: live_kv_step)
  have "map_sum id e_value (Get t ns k) =
      (case live t ns k of None \<Rightarrow> Err ErrNotFound | Some v \<Rightarrow> Ok v)" for t ns k
    by (auto simp: Get_live live_def split: option.split)
  moreover have "store_wf (kv_run s ops)" using assms by (rule kv_run_wf)
  ultimately show ?thesis
    by (simp add: l [symmetric] distinct_GetKeys GetKeys_live)
qed

lemma store_refines_map_witness:
  "map_sum id e_value (Get (kv_run NewStore [OpPut ''a'' ''k'' '' v '' 0, OpDelete ''a'' ''k'',
     OpPut ''a'' ''k'' ''w'' 0]) ''a'' ''k'') = Ok ''w''"
  using store_refines_map [OF store_wf_NewStore, of "[OpPut ''a'' ''k'' '' v '' 0,
     OpDelete ''a'' ''k'', OpPut ''a'' ''k'' ''w'' 0]"]
  by (simp add: trim_space_def trim_left_def go_space_def)

text \<open>Property C2: saving and loading loses nothing. Take a store that is in step with the table
  \<open>key_value\<close>, run any operations and persist at a time that fits 63 bits: loading the new table
  succeeds and gives back every entry's value, version, lifetime and tombstone, with no change
  pending, and the loaded store is again in step with the table, so the next session starts from
  the same hypothesis.\<close>

theorem persist_load_roundtrip:
  assumes "synced s rows" and "0 \<le> now" and "now < 2 ^ 63"
    and "PersistToTransaction now (kv_run s ops) rows = (rows', s')"
  shows "\<exists>t. LoadFromTransaction rows' = Inr t \<and> synced t rows' \<and>
    live t = live (kv_run s ops) \<and>
    (\<forall>ns k. lookup_entry t ns k = map_option (persist_entry now) (lookup_entry (kv_run s ops) ns k))"
proof -
  have sy: "synced (kv_run s ops) rows" using assms(1) by (rule synced_kv_run)
  note p = synced_persist [OF sy assms(2,3,4)]
  obtain t where t: "LoadFromTransaction rows' = Inr t" "store_wf t" "lookup_entry t = lookup_entry s'"
    using load_synced [OF p(1,2)] by blast
  have look: "lookup_entry t ns k = map_option (persist_entry now) (lookup_entry (kv_run s ops) ns k)"
    for ns k using p(3) t(3) by simp
  have "live t = live (kv_run s ops)"
    by (intro ext) (auto simp: live_def look persist_entry_def split: option.split)
  with t look synced_lookup [OF p(1) t(2,3)] show ?thesis by blast
qed

lemma persist_load_roundtrip_witness:
  "\<exists>t. LoadFromTransaction (fst (PersistToTransaction 7 (kv_run NewStore [OpPut ''a'' ''k'' ''v'' 0]) []))
     = Inr t \<and> live t ''a'' ''k'' = Some ''v''"
  using persist_load_roundtrip [OF synced_NewStore, of 7 "[OpPut ''a'' ''k'' ''v'' 0]"
      "fst (PersistToTransaction 7 (kv_run NewStore [OpPut ''a'' ''k'' ''v'' 0]) [])"
      "snd (PersistToTransaction 7 (kv_run NewStore [OpPut ''a'' ''k'' ''v'' 0]) [])"]
  by (auto simp: live_Put trim_space_def trim_left_def go_space_def)

text \<open>Property C39: purging stale versions is safe. On a table in which every key has one latest row
  with a readable date, \<open>PurgeStaleVersions\<close> with any retention at any time leaves a table that
  loads to the same live values, that has the same form, and that still has every row of a live
  key whose version is within \<open>MaxVersionsToKeep\<close> of the latest.\<close>

theorem purge_keeps_live:
  assumes "table_ok rows"
  shows "table_ok (PurgeStaleVersions now days rows) \<and>
    (\<exists>s s'. LoadFromTransaction rows = Inr s \<and>
       LoadFromTransaction (PurgeStaleVersions now days rows) = Inr s' \<and> live s' = live s) \<and>
    (\<forall>ns k l r. newest rows ns k l \<and> \<not> kr_deleted l \<and> r \<in> rows_of rows ns k \<and>
       kr_version l - MaxVersionsToKeep \<le> kr_version r \<longrightarrow>
       r \<in> set (PurgeStaleVersions now days rows))"
proof (intro conjI)
  note ok = assms table_ok_Purge [OF assms, of now days]
  show "table_ok (PurgeStaleVersions now days rows)" by (rule ok(2))
  obtain s s' where s: "LoadFromTransaction rows = Inr s"
    "LoadFromTransaction (PurgeStaleVersions now days rows) = Inr s'"
    using load_table_ok [OF ok(1)] load_table_ok [OF ok(2)] by blast
  then show "\<exists>s s'. LoadFromTransaction rows = Inr s \<and>
       LoadFromTransaction (PurgeStaleVersions now days rows) = Inr s' \<and> live s' = live s"
    using live_after_Purge [OF ok(1) s] by blast
  show "\<forall>ns k l r. newest rows ns k l \<and> \<not> kr_deleted l \<and> r \<in> rows_of rows ns k \<and>
       kr_version l - MaxVersionsToKeep \<le> kr_version r \<longrightarrow>
       r \<in> set (PurgeStaleVersions now days rows)"
  proof (intro allI impI, elim conjE)
    fix ns k l r
    assume n: "newest rows ns k l" and "\<not> kr_deleted l" and "r \<in> rows_of rows ns k"
      and "kr_version l - MaxVersionsToKeep \<le> kr_version r"
    then have "r \<in> rows_of (PurgeStaleVersions now days rows) ns k"
      unfolding rows_of_Purge [OF n] by auto
    then show "r \<in> set (PurgeStaleVersions now days rows)" by simp
  qed
qed

definition purge_example :: kv_table where
  "purge_example =
     [\<lparr>kr_key = ''k'', kr_value = ''v'', kr_namespace = ''n'', kr_version = 1, kr_ttl = 0,
       kr_created = ''1700000000'', kr_deleted = False\<rparr>]"

lemma purge_keeps_live_witness: "table_ok (PurgeStaleVersions 1800000000 7 purge_example)"
proof -
  have "newest purge_example ''n'' ''k'' (hd purge_example)" "atoi (kr_created (hd purge_example)) \<noteq> None"
    by (simp_all add: newest_def purge_example_def same_key_def atoi_def parse_digits_def is_digit_def
        digits_val_def digit_val_def)
  moreover have "ns = ''n'' \<and> k = ''k''" if "rows_of purge_example ns k \<noteq> {}" for ns k
    using that by (auto simp: purge_example_def same_key_def)
  ultimately have "table_ok purge_example" unfolding table_ok_def by metis
  from purge_keeps_live [OF this] show ?thesis by blast
qed

text \<open>
  The comparison of dates is textual: with a retention so long that the cutoff has fewer digits
  than today's dates, a tombstone written a second ago is already purged.
\<close>

lemma purge_young_tombstone:
  "PurgeStaleVersions 1700000000 12000
     [\<lparr>kr_key = ''k'', kr_value = ''v'', kr_namespace = ''n'', kr_version = 2, kr_ttl = 0,
       kr_created = ''1699999999'', kr_deleted = True\<rparr>] = []"
  by (simp add: PurgeStaleVersions_def purge_row_def group_latest_def latest_rows_def same_key_def
      text_less_def itoa_def digits_of.simps)

end
