(* ===== verification/Versions.thy ===== *)
theory Versions
  imports Prelude
begin

text \<open>
  Job versions and demand constraints (\<open>workspace/version.go\<close>, \<open>workspace/demands.go\<close>): parsing,
  printing, the order, and the min/max constraint of a command demand.
\<close>

section \<open>Versions (workspace/version.go)\<close>

record version =
  v_major :: int
  v_minor :: int
  v_patch :: int
  v_prerelease :: string

definition zero_version :: version where
  "zero_version = \<lparr>v_major = 0, v_minor = 0, v_patch = 0, v_prerelease = []\<rparr>"

text \<open>\<open>raw[:idx]\<close> and \<open>raw[idx+1:]\<close> at the first occurrence of a character.\<close>

definition before_char :: "char \<Rightarrow> string \<Rightarrow> string" where
  "before_char d s = takeWhile (\<lambda>c. c \<noteq> d) s"

definition after_char :: "char \<Rightarrow> string \<Rightarrow> string" where
  "after_char d s = tl (dropWhile (\<lambda>c. c \<noteq> d) s)"

definition parse_segment :: "string \<Rightarrow> error + int" where
  "parse_segment part =
     (let part = trim_space part
      in if part = [] then Err ErrInvalidJobVersion
         else (case atoi part of
                 None \<Rightarrow> Err ErrInvalidJobVersion
               | Some n \<Rightarrow> if n < 0 then Err ErrInvalidJobVersion else Ok n))"

definition nth_or_0 :: "int list \<Rightarrow> nat \<Rightarrow> int" where
  "nth_or_0 ns i = (if i < length ns then ns ! i else 0)"

definition parse_numbers :: "string \<Rightarrow> string \<Rightarrow> error + version" where
  "parse_numbers raw prerelease =
     (let parts = split_char (CHR ''.'') raw
      in if parts = [] \<or> 3 < length parts then Err ErrInvalidJobVersion
         else rbind (rmap parse_segment parts) (\<lambda>ns.
                Ok \<lparr>v_major = nth_or_0 ns 0, v_minor = nth_or_0 ns 1, v_patch = nth_or_0 ns 2,
                    v_prerelease = prerelease\<rparr>))"

definition ParseVersion :: "string \<Rightarrow> error + version" where
  "ParseVersion raw0 =
     (let raw = trim_space raw0
      in if raw = [] then Err ErrInvalidJobVersion
         else if equal_fold raw ''unknown'' then Err ErrInvalidJobVersion
         else let raw = trim_prefix ''V'' (trim_prefix ''v'' raw)
         in if CHR ''-'' \<in> set raw then
              (let prerelease = trim_space (after_char (CHR ''-'') raw)
               in if prerelease = [] then Err ErrInvalidJobVersion
                  else parse_numbers (before_char (CHR ''-'') raw) prerelease)
            else parse_numbers raw [])"

definition version_String :: "version \<Rightarrow> string" where
  "version_String v =
     itoa (v_major v) @ ''.'' @ itoa (v_minor v) @ ''.'' @ itoa (v_patch v) @
     (if v_prerelease v \<noteq> [] then ''-'' @ v_prerelease v else [])"

fun compare_pairs :: "(int \<times> int) list \<Rightarrow> int" where
  "compare_pairs [] = 0"
| "compare_pairs ((a, b) # ps) = (if a < b then -1 else if a > b then 1 else compare_pairs ps)"

definition string_less :: "string \<Rightarrow> string \<Rightarrow> bool" where
  "string_less s t \<longleftrightarrow> \<not> string_le t s"

definition version_Compare :: "version \<Rightarrow> version \<Rightarrow> int" where
  "version_Compare v w =
     (let n = compare_pairs [(v_major v, v_major w), (v_minor v, v_minor w), (v_patch v, v_patch w)];
          vPre = v_prerelease v \<noteq> [];
          oPre = v_prerelease w \<noteq> []
      in if n \<noteq> 0 then n
         else if vPre \<and> \<not> oPre then -1
         else if \<not> vPre \<and> oPre then 1
         else if vPre \<and> oPre then
           (if string_less (v_prerelease v) (v_prerelease w) then -1
            else if string_less (v_prerelease w) (v_prerelease v) then 1
            else 0)
         else 0)"

section \<open>Constraints (workspace/demands.go)\<close>

text \<open>A decoded JSON value of \<open>demands.config\<close>: a string, an integral number, or anything else.\<close>

datatype cfg_value = CfgString string | CfgInt int | CfgFraction | CfgOther

record version_constraint =
  vc_min :: "version option"
  vc_max :: "version option"

definition parseConfigVersion :: "cfg_value \<Rightarrow> error + version" where
  "parseConfigVersion raw =
     (case raw of
        CfgString s \<Rightarrow> ParseVersion s
      | CfgInt n \<Rightarrow> ParseVersion (itoa n)
      | CfgFraction \<Rightarrow> Err ErrInvalidJobVersion
      | CfgOther \<Rightarrow> Err ErrInvalidJobVersion)"

definition parse_bound :: "(string \<times> cfg_value) list \<Rightarrow> string \<Rightarrow> error + version option" where
  "parse_bound config k =
     (case map_of config k of
        None \<Rightarrow> Ok None
      | Some raw \<Rightarrow> rbind (parseConfigVersion raw) (\<lambda>v. Ok (Some v)))"

definition ParseVersionConstraint :: "(string \<times> cfg_value) list \<Rightarrow> error + version_constraint" where
  "ParseVersionConstraint config =
     (if config = [] then Ok \<lparr>vc_min = None, vc_max = None\<rparr>
      else rbind (parse_bound config ''min_version'') (\<lambda>mn.
           rbind (parse_bound config ''max_version'') (\<lambda>mx.
             (case (mn, mx) of
                (Some a, Some b) \<Rightarrow>
                  if version_Compare a b > 0 then Err ErrInvalidJobCommandConfiguration
                  else Ok \<lparr>vc_min = mn, vc_max = mx\<rparr>
              | _ \<Rightarrow> Ok \<lparr>vc_min = mn, vc_max = mx\<rparr>))))"

definition Satisfies :: "version_constraint \<Rightarrow> version \<Rightarrow> error + unit" where
  "Satisfies c upstream =
     (let below = (case vc_min c of None \<Rightarrow> False | Some m \<Rightarrow> version_Compare upstream m < 0);
          above = (case vc_max c of None \<Rightarrow> False | Some m \<Rightarrow> version_Compare upstream m > 0)
      in if below then Err ErrJobCommandDemandVersionMismatch
         else if above then Err ErrJobCommandDemandVersionMismatch
         else Ok ())"

section \<open>The order\<close>

lemma string_less_irrefl [simp]: "\<not> string_less s s"
  by (simp add: string_less_def)

lemma string_less_cases: "string_less s t \<or> s = t \<or> string_less t s"
  using string_le_antisym by (auto simp: string_less_def)

lemma string_less_asym: "string_less s t \<Longrightarrow> \<not> string_less t s"
  using string_le_total by (auto simp: string_less_def)

lemma string_less_trans: "string_less s t \<Longrightarrow> string_less t u \<Longrightarrow> string_less s u"
  unfolding string_less_def using string_le_total string_le_trans by blast

text \<open>\<^const>\<open>version_Compare\<close> as a strict order: numbers first, then releases above prereleases.\<close>

definition pre_less :: "string \<Rightarrow> string \<Rightarrow> bool" where
  "pre_less p q \<longleftrightarrow> p \<noteq> [] \<and> (q = [] \<or> string_less p q)"

lemma pre_less_total: "pre_less p q \<or> p = q \<or> pre_less q p"
  using string_less_cases [of p q] by (auto simp: pre_less_def)

lemma pre_less_asym: "pre_less p q \<Longrightarrow> \<not> pre_less q p"
  using string_less_asym by (auto simp: pre_less_def)

lemma pre_less_irrefl [simp]: "\<not> pre_less p p"
  by (auto simp: pre_less_def)

lemma pre_less_trans: "pre_less p q \<Longrightarrow> pre_less q r \<Longrightarrow> pre_less p r"
  using string_less_trans by (auto simp: pre_less_def)

definition version_less :: "version \<Rightarrow> version \<Rightarrow> bool" where
  "version_less v w \<longleftrightarrow>
     v_major v < v_major w \<or> v_major v = v_major w \<and>
     (v_minor v < v_minor w \<or> v_minor v = v_minor w \<and>
     (v_patch v < v_patch w \<or> v_patch v = v_patch w \<and> pre_less (v_prerelease v) (v_prerelease w)))"

lemma Compare_less: "version_Compare v w = -1 \<longleftrightarrow> version_less v w"
  by (auto simp: version_Compare_def version_less_def pre_less_def Let_def)

lemma Compare_greater: "version_Compare v w = 1 \<longleftrightarrow> version_less w v"
  using string_less_asym
  by (auto simp: version_Compare_def version_less_def pre_less_def Let_def)

lemma Compare_range: "version_Compare v w \<in> {-1, 0, 1}"
  by (auto simp: version_Compare_def Let_def)

lemma version_less_total: "version_less v w \<or> v = w \<or> version_less w v"
  using pre_less_total [of "v_prerelease v" "v_prerelease w"]
  by (cases v, cases w) (auto simp: version_less_def)

lemma version_less_irrefl [simp]: "\<not> version_less v v"
  by (simp add: version_less_def)

lemma version_less_trans: "version_less u v \<Longrightarrow> version_less v w \<Longrightarrow> version_less u w"
  using pre_less_trans by (auto simp: version_less_def)

lemma version_less_asym: "version_less v w \<Longrightarrow> \<not> version_less w v"
  using version_less_trans version_less_irrefl by blast

lemma Compare_eq: "version_Compare v w = 0 \<longleftrightarrow> v = w"
proof -
  have "version_Compare v w = 0 \<longleftrightarrow> version_Compare v w \<noteq> -1 \<and> version_Compare v w \<noteq> 1"
    using Compare_range [of v w] by auto
  then show ?thesis
    using version_less_total [of v w] by (auto simp: Compare_less Compare_greater)
qed

lemma Compare_refl [simp]: "version_Compare v v = 0"
  by (simp add: Compare_eq)

lemma Compare_sign:
  "version_Compare v w < 0 \<longleftrightarrow> version_less v w"
  "version_Compare v w > 0 \<longleftrightarrow> version_less w v"
  using Compare_range [of v w] Compare_less [of v w] Compare_greater [of v w]
  by (auto dest: version_less_asym)

section \<open>Parsing what was printed\<close>

definition printable :: "version \<Rightarrow> bool" where
  "printable v \<longleftrightarrow>
     0 \<le> v_major v \<and> v_major v < 2 ^ 63 \<and> 0 \<le> v_minor v \<and> v_minor v < 2 ^ 63 \<and>
     0 \<le> v_patch v \<and> v_patch v < 2 ^ 63 \<and> trim_space (v_prerelease v) = v_prerelease v"

lemma itoa_set: "0 \<le> n \<Longrightarrow> c \<in> set (itoa n) \<Longrightarrow> is_digit c"
  by (auto simp: itoa_def digits_of_set)

lemma itoa_ends:
  assumes "0 \<le> n"
  shows "itoa n \<noteq> []" "is_digit (hd (itoa n))" "is_digit (last (itoa n))"
  using assms itoa_set [OF assms] by (auto simp: itoa_def)

lemma trim_itoa: "0 \<le> n \<Longrightarrow> trim_space (itoa n) = itoa n"
  using itoa_ends [of n] digit_not_space by (intro trim_space_id) blast

lemma parse_segment_itoa: "0 \<le> n \<Longrightarrow> n < 2 ^ 63 \<Longrightarrow> parse_segment (itoa n) = Ok n"
  using itoa_ends(1) [of n] by (simp add: parse_segment_def trim_itoa) (simp add: itoa_def atoi_digits_of)

lemma parse_numbers_print:
  assumes "0 \<le> a" "a < 2 ^ 63" "0 \<le> b" "b < 2 ^ 63" "0 \<le> c" "c < 2 ^ 63"
  shows "parse_numbers (itoa a @ ''.'' @ itoa b @ ''.'' @ itoa c) pre =
    Ok \<lparr>v_major = a, v_minor = b, v_patch = c, v_prerelease = pre\<rparr>"
proof -
  have free: "CHR ''.'' \<notin> set (itoa n)" if "0 \<le> n" for n
    using itoa_set [OF that] digit_no_sign by blast
  have "split_char (CHR ''.'') (itoa a @ ''.'' @ itoa b @ ''.'' @ itoa c) = [itoa a, itoa b, itoa c]"
    using split_join [of "[itoa a, itoa b, itoa c]" "CHR ''.''"] free assms by simp
  then show ?thesis
    using assms by (simp add: parse_numbers_def parse_segment_itoa nth_or_0_def)
qed

lemma has_prefix_single: "s \<noteq> [] \<Longrightarrow> has_prefix [c] s \<longleftrightarrow> hd s = c"
  by (cases s) (auto simp: has_prefix_def)

lemma lower_digit: "is_digit c \<Longrightarrow> lower_char c = c"
  by (auto simp: is_digit_def lower_char_def Let_def)

lemma string_parse: "printable v \<Longrightarrow> ParseVersion (version_String v) = Ok v"
proof -
  assume p: "printable v"
  define body where "body = itoa (v_major v) @ ''.'' @ itoa (v_minor v) @ ''.'' @ itoa (v_patch v)"
  define pre where "pre = v_prerelease v"
  have range: "0 \<le> v_major v" "0 \<le> v_minor v" "0 \<le> v_patch v" and trim: "trim_space pre = pre"
    using p by (auto simp: printable_def pre_def)
  have str: "version_String v = body @ (if pre \<noteq> [] then CHR ''-'' # pre else [])"
    by (simp add: version_String_def body_def pre_def)
  have body: "body \<noteq> []" "is_digit (hd body)" "is_digit (last body)"
    using itoa_ends range by (auto simp: body_def)
  have dash: "CHR ''-'' \<notin> set body"
    using itoa_set range digit_no_sign by (auto simp: body_def)
  let ?s = "version_String v"
  have hd: "?s \<noteq> []" "is_digit (hd ?s)" using body by (auto simp: str)
  have "\<not> go_space (last ?s)"
  proof (cases "pre = []")
    case True
    then show ?thesis using body digit_not_space by (simp add: str)
  next
    case False
    then have "\<not> go_space (last pre)" using trim_space_ends(2) [of pre] trim by simp
    then show ?thesis using False by (simp add: str)
  qed
  then have t: "trim_space ?s = ?s" using hd digit_not_space by (intro trim_space_id) blast
  have fold: "\<not> equal_fold ?s ''unknown''"
  proof
    assume "equal_fold ?s ''unknown''"
    then have "hd (to_lower ?s) = hd (to_lower ''unknown'')" by (simp add: equal_fold_def)
    then have "lower_char (hd ?s) = lower_char (CHR ''u'')"
      using hd(1) by (simp add: to_lower_def hd_map)
    then have "hd ?s = lower_char (CHR ''u'')" using lower_digit [OF hd(2)] by simp
    with hd(2) show False by (simp add: lower_char_def Let_def is_digit_def)
  qed
  have pfx: "trim_prefix ''V'' (trim_prefix ''v'' ?s) = ?s"
    using hd by (auto simp: trim_prefix_def has_prefix_single is_digit_def)
  have num: "parse_numbers body pre = Ok v"
    unfolding body_def using p by (subst parse_numbers_print) (auto simp: printable_def pre_def)
  show ?thesis
  proof (cases "pre = []")
    case True
    then have "?s = body" by (simp add: str)
    then show ?thesis
      using t fold pfx num dash body(1) True by (simp add: ParseVersion_def Let_def)
  next
    case False
    have s: "?s = body @ CHR ''-'' # pre" using False by (simp add: str)
    have "before_char (CHR ''-'') ?s = body" "after_char (CHR ''-'') ?s = pre"
      using dash unfolding s before_char_def after_char_def
      by (auto simp: takeWhile_append dropWhile_append)
    moreover have "CHR ''-'' \<in> set ?s" by (simp add: s)
    ultimately show ?thesis
      using t fold pfx num trim False hd(1) by (simp add: ParseVersion_def Let_def)
  qed
qed

section \<open>Properties\<close>

text \<open>\<open>Compare\<close> is a total order on versions. It answers -1, 0 or 1; 0 exactly on equal
  versions; swapping the arguments negates the answer; and it is transitive.\<close>

theorem Compare_total_order:
  "version_Compare v w \<in> {-1, 0, 1} \<and>
   (version_Compare v w = 0 \<longleftrightarrow> v = w) \<and>
   version_Compare w v = - version_Compare v w \<and>
   (version_Compare u v \<le> 0 \<and> version_Compare v w \<le> 0 \<longrightarrow> version_Compare u w \<le> 0)"
proof (intro conjI impI)
  show "version_Compare v w \<in> {-1, 0, 1}" by (rule Compare_range)
  show "version_Compare v w = 0 \<longleftrightarrow> v = w" by (rule Compare_eq)
  show "version_Compare w v = - version_Compare v w"
    using Compare_range [of v w] Compare_less [of v w] Compare_greater [of v w] Compare_eq [of v w]
      Compare_less [of w v] Compare_greater [of w v] Compare_eq [of w v] by auto
  assume "version_Compare u v \<le> 0 \<and> version_Compare v w \<le> 0"
  then have "\<not> version_less v u" "\<not> version_less w v"
    using Compare_sign(2) [of u v] Compare_sign(2) [of v w] by auto
  then have "\<not> version_less w u"
    using version_less_total [of u v] version_less_trans [of w u v] by blast
  then show "version_Compare u w \<le> 0" using Compare_sign(2) [of u w] by linarith
qed

lemma Compare_total_order_witness:
  "version_Compare \<lparr>v_major = 1, v_minor = 2, v_patch = 0, v_prerelease = ''rc''\<rparr>
     \<lparr>v_major = 1, v_minor = 3, v_patch = 0, v_prerelease = []\<rparr> \<le> 0"
  using Compare_total_order
    [of "\<lparr>v_major = 1, v_minor = 2, v_patch = 0, v_prerelease = []\<rparr>"
       "\<lparr>v_major = 1, v_minor = 3, v_patch = 0, v_prerelease = []\<rparr>"
       "\<lparr>v_major = 1, v_minor = 2, v_patch = 0, v_prerelease = ''rc''\<rparr>"]
  by (simp add: version_Compare_def Let_def)

text \<open>Property C40: parsing a printed version gives it back. For a version with non-negative components
  that fit 63 bits and a prerelease without surrounding white space, \<open>ParseVersion\<close> of \<open>String\<close>
  succeeds with the same version.\<close>

theorem parse_print_version:
  assumes "0 \<le> v_major v" "v_major v < 2 ^ 63" "0 \<le> v_minor v" "v_minor v < 2 ^ 63"
    and "0 \<le> v_patch v" "v_patch v < 2 ^ 63" and "trim_space (v_prerelease v) = v_prerelease v"
  shows "ParseVersion (version_String v) = Ok v"
  using assms by (intro string_parse) (simp add: printable_def)

lemma parse_print_version_witness:
  "ParseVersion (version_String \<lparr>v_major = 1, v_minor = 20, v_patch = 3, v_prerelease = ''rc-1''\<rparr>) =
     Ok \<lparr>v_major = 1, v_minor = 20, v_patch = 3, v_prerelease = ''rc-1''\<rparr>"
  by (rule parse_print_version)
    (simp_all add: trim_space_def trim_left_def go_space_def)

text \<open>A constraint accepts exactly the versions between its bounds. Whatever config map a
  constraint was parsed from, \<open>Satisfies\<close> succeeds for a version iff the version is not below the
  parsed minimum and not above the parsed maximum, and the interval of an accepted constraint is
  not empty.\<close>

theorem constraint_interval:
  assumes "ParseVersionConstraint config = Ok c"
  shows "(Satisfies c u = Ok () \<longleftrightarrow>
      (\<forall>m. parse_bound config ''min_version'' = Ok (Some m) \<longrightarrow> version_Compare m u \<le> 0) \<and>
      (\<forall>m. parse_bound config ''max_version'' = Ok (Some m) \<longrightarrow> version_Compare u m \<le> 0)) \<and>
    (\<exists>w. Satisfies c w = Ok ())"
proof -
  have neg: "version_Compare m u \<le> 0 \<longleftrightarrow> \<not> version_Compare u m < 0" for m u
    using Compare_sign [of m u] Compare_sign [of u m] by linarith
  have bounds: "parse_bound config ''min_version'' = Ok (vc_min c) \<and>
    parse_bound config ''max_version'' = Ok (vc_max c) \<and>
    (\<forall>a b. vc_min c = Some a \<and> vc_max c = Some b \<longrightarrow> \<not> 0 < version_Compare a b)"
  proof (cases "config = []")
    case True
    then show ?thesis using assms by (auto simp: ParseVersionConstraint_def parse_bound_def)
  next
    case False
    then obtain mn mx where b: "parse_bound config ''min_version'' = Ok mn"
      "parse_bound config ''max_version'' = Ok mx"
      using assms by (auto simp: ParseVersionConstraint_def rbind_Inr_conv)
    then show ?thesis using assms False
      by (auto simp: ParseVersionConstraint_def split: option.splits if_splits)
  qed
  have sat: "Satisfies c w = Ok () \<longleftrightarrow>
      (\<forall>m. vc_min c = Some m \<longrightarrow> version_Compare m w \<le> 0) \<and>
      (\<forall>m. vc_max c = Some m \<longrightarrow> version_Compare w m \<le> 0)" for w
    by (auto simp: Satisfies_def Let_def neg [of _ w] not_less split: option.split)
  have ord: "version_Compare a b \<le> 0" if "vc_min c = Some a" "vc_max c = Some b" for a b
    using bounds that by (simp add: not_less)
  have "\<exists>w. Satisfies c w = Ok ()"
  proof (cases "vc_min c")
    case None
    then show ?thesis
      by (cases "vc_max c") (auto simp: sat Compare_eq intro: exI [of _ "the (vc_max c)"])
  next
    case (Some a)
    then have "Satisfies c a = Ok ()" using ord by (auto simp: sat Compare_eq)
    then show ?thesis by blast
  qed
  then show ?thesis by (auto simp: sat bounds)
qed

lemma constraint_interval_witness:
  "Satisfies \<lparr>vc_min = None, vc_max = Some zero_version\<rparr> zero_version = Ok ()"
proof -
  have p: "parse_bound [(''max_version'', CfgInt 0)] ''max_version'' = Ok (Some zero_version)"
    "parse_bound [(''max_version'', CfgInt 0)] ''min_version'' = Ok None"
    by (simp_all add: parse_bound_def parseConfigVersion_def ParseVersion_def itoa_def Let_def
        digits_of.simps trim_space_def trim_left_def go_space_def equal_fold_def to_lower_def
        trim_prefix_def has_prefix_def parse_numbers_def parse_segment_def atoi_def parse_digits_def
        is_digit_def digits_val_def digit_val_def nth_or_0_def zero_version_def)
  have "ParseVersionConstraint [(''max_version'', CfgInt 0)] =
      Ok \<lparr>vc_min = None, vc_max = Some zero_version\<rparr>"
    unfolding ParseVersionConstraint_def p by simp
  note constraint_interval [OF this, of zero_version]
  with p show ?thesis by (simp add: Compare_eq)
qed

end
