(* ===== verification/Pathmatch.thy ===== *)
theory Pathmatch
  imports Prelude
begin

text \<open>
  Glob matching of changed files (\<open>utils/pathmatch/glob.go\<close>), on top of Go's \<open>path.Match\<close> and
  \<open>path.Base\<close>. \<open>filepath.ToSlash\<close> is the identity on the systems maand runs on.
\<close>

section \<open>path.Base and path.Match of the standard library\<close>

definition strip_slashes :: "string \<Rightarrow> string" where
  "strip_slashes s = rev (dropWhile (\<lambda>c. c = CHR ''/'') (rev s))"

definition path_base :: "string \<Rightarrow> string" where
  "path_base s =
     (if s = [] then ''.''
      else let t = strip_slashes s
           in if t = [] then ''/'' else rev (takeWhile (\<lambda>c. c \<noteq> CHR ''/'') (rev t)))"

datatype glob_token = GStar | GAny | GLit char | GClass bool "(char \<times> char) list"

text \<open>One bound of a character range; \<open>None\<close> is \<open>ErrBadPattern\<close>.\<close>

definition get_esc :: "string \<Rightarrow> (char \<times> string) option" where
  "get_esc p =
     (if p = [] \<or> hd p = CHR ''-'' \<or> hd p = CHR '']'' then None
      else let q = (if hd p = char_of (92 :: nat) then tl p else p)
           in if q = [] \<or> tl q = [] then None else Some (hd q, tl q))"

text \<open>The ranges up to the closing bracket, with a bound on the number of ranges.\<close>

fun parse_ranges :: "nat \<Rightarrow> bool \<Rightarrow> string \<Rightarrow> ((char \<times> char) list \<times> string) option" where
  "parse_ranges 0 seen p = None"
| "parse_ranges (Suc n) seen p =
     (if p \<noteq> [] \<and> hd p = CHR '']'' \<and> seen then Some ([], tl p)
      else case get_esc p of
             None \<Rightarrow> None
           | Some (lo, p') \<Rightarrow>
               (case (if p' \<noteq> [] \<and> hd p' = CHR ''-'' then get_esc (tl p') else Some (lo, p')) of
                  None \<Rightarrow> None
                | Some (hi, p'') \<Rightarrow>
                    map_option (\<lambda>(rs, rest). ((lo, hi) # rs, rest)) (parse_ranges n True p'')))"

fun parse_glob :: "nat \<Rightarrow> string \<Rightarrow> glob_token list option" where
  "parse_glob 0 p = None"
| "parse_glob (Suc n) p =
     (if p = [] then Some []
      else if hd p = CHR ''*'' then map_option ((#) GStar) (parse_glob n (tl p))
      else if hd p = CHR ''?'' then map_option ((#) GAny) (parse_glob n (tl p))
      else if hd p = CHR ''['' then
        (let neg = (tl p \<noteq> [] \<and> hd (tl p) = CHR ''^'')
         in case parse_ranges (length p) False (if neg then tl (tl p) else tl p) of
              None \<Rightarrow> None
            | Some (rs, rest) \<Rightarrow> map_option ((#) (GClass neg rs)) (parse_glob n rest))
      else if hd p = char_of (92 :: nat) then
        (if tl p = [] then None
         else map_option ((#) (GLit (hd (tl p)))) (parse_glob n (tl (tl p))))
      else map_option ((#) (GLit (hd p))) (parse_glob n (tl p)))"

definition char_le :: "char \<Rightarrow> char \<Rightarrow> bool" where
  "char_le c d \<longleftrightarrow> (of_char c :: nat) \<le> of_char d"

fun match_chunk :: "glob_token list \<Rightarrow> string \<Rightarrow> string option" where
  "match_chunk [] s = Some s"
| "match_chunk (t # ts) [] = None"
| "match_chunk (t # ts) (c # s) =
     (case t of
        GStar \<Rightarrow> None
      | GAny \<Rightarrow> if c = CHR ''/'' then None else match_chunk ts s
      | GLit d \<Rightarrow> if c = d then match_chunk ts s else None
      | GClass neg rs \<Rightarrow>
          if list_ex (\<lambda>(lo, hi). char_le lo c \<and> char_le c hi) rs \<noteq> neg then match_chunk ts s else None)"

text \<open>The pattern split at its stars: each chunk with whether a star stands before it.\<close>

function glob_chunks :: "bool \<Rightarrow> glob_token list \<Rightarrow> (bool \<times> glob_token list) list" where
  "glob_chunks star [] = (if star then [(True, [])] else [])"
| "glob_chunks star (t # ts) =
     (if t = GStar then glob_chunks True ts
      else (star, takeWhile (\<lambda>t. t \<noteq> GStar) (t # ts)) # glob_chunks False (dropWhile (\<lambda>t. t \<noteq> GStar) ts))"
  by pat_completeness auto
termination
  by (relation "measure (\<lambda>(star, ts). length ts)") (auto simp: less_Suc_eq_le length_dropWhile_le)

fun star_match :: "glob_token list \<Rightarrow> bool \<Rightarrow> string \<Rightarrow> string option" where
  "star_match chunk last_chunk [] = None"
| "star_match chunk last_chunk (c # s) =
     (if c = CHR ''/'' then None
      else case match_chunk chunk s of
             Some t \<Rightarrow> if last_chunk \<and> t \<noteq> [] then star_match chunk last_chunk s else Some t
           | None \<Rightarrow> star_match chunk last_chunk s)"

fun match_chunks :: "(bool \<times> glob_token list) list \<Rightarrow> string \<Rightarrow> bool" where
  "match_chunks [] name = (name = [])"
| "match_chunks ((star, chunk) # gs) name =
     (if star \<and> chunk = [] then CHR ''/'' \<notin> set name
      else case match_chunk chunk name of
             Some t \<Rightarrow>
               if t = [] \<or> gs \<noteq> [] then match_chunks gs t
               else (case (if star then star_match chunk (gs = []) name else None) of
                       Some t \<Rightarrow> match_chunks gs t | None \<Rightarrow> False)
           | None \<Rightarrow> (case (if star then star_match chunk (gs = []) name else None) of
                       Some t \<Rightarrow> match_chunks gs t | None \<Rightarrow> False))"

text \<open>\<open>None\<close> is \<open>ErrBadPattern\<close>.\<close>

definition path_Match :: "string \<Rightarrow> string \<Rightarrow> bool option" where
  "path_Match pattern name =
     map_option (\<lambda>ts. match_chunks (glob_chunks False ts) name) (parse_glob (Suc (length pattern)) pattern)"

definition matched :: "string \<Rightarrow> string \<Rightarrow> bool" where
  "matched pattern name \<longleftrightarrow> path_Match pattern name = Some True"

section \<open>utils/pathmatch/glob.go\<close>

function split_sub :: "string \<Rightarrow> string \<Rightarrow> string list" where
  "split_sub sep s =
     (if sep \<noteq> [] \<and> s \<noteq> [] \<and> has_prefix sep s then [] # split_sub sep (drop (length sep) s)
      else case s of
             [] \<Rightarrow> [[]]
           | c # r \<Rightarrow> (case split_sub sep r of [] \<Rightarrow> [[c]] | w # ws \<Rightarrow> (c # w) # ws))"
  by auto
termination by (relation "measure (\<lambda>(sep, s). length s)") auto

declare split_sub.simps [simp del]

definition trim_suffix :: "string \<Rightarrow> string \<Rightarrow> string" where
  "trim_suffix p s = (if has_suffix p s then take (length s - length p) s else s)"

definition probeDoubleStar :: "string \<Rightarrow> error + unit" where
  "probeDoubleStar pattern =
     (if has_prefix ''**/'' pattern then
        (let suffix = trim_prefix ''**/'' pattern
         in if CHR ''/'' \<in> set suffix then
              (if path_Match (tl (dropWhile (\<lambda>c. c \<noteq> CHR ''/'') suffix)) ''probe'' = None
               then Err ErrInvalidManifest else Ok ())
            else if path_Match suffix ''probe'' = None then Err ErrInvalidManifest
            else Ok ())
      else Ok ())"

definition ValidatePattern :: "string \<Rightarrow> error + unit" where
  "ValidatePattern pattern0 =
     (let pattern = trim_space pattern0
      in if pattern = [] then Err ErrInvalidManifest
         else if contains_sub ''**'' pattern then probeDoubleStar pattern
         else if path_Match pattern ''probe'' = None then Err ErrInvalidManifest
         else Ok ())"

definition isLiteralPattern :: "string \<Rightarrow> bool" where
  "isLiteralPattern pattern \<longleftrightarrow> \<not> list_ex (\<lambda>c. c \<in> {CHR ''*'', CHR ''?'', CHR ''[''}) pattern"

definition matchDoubleStarPattern :: "string \<Rightarrow> string \<Rightarrow> bool" where
  "matchDoubleStarPattern pattern rel =
     (if has_prefix ''**/'' pattern then
        (let suffix = trim_prefix ''**/'' pattern
         in if CHR ''/'' \<in> set suffix then
              (let dir = takeWhile (\<lambda>c. c \<noteq> CHR ''/'') suffix;
                   name = tl (dropWhile (\<lambda>c. c \<noteq> CHR ''/'') suffix)
               in has_prefix (dir @ ''/'') rel \<and> matched name (drop (length dir + 1) rel))
            else matched suffix (path_base rel) \<or> matched suffix rel)
      else if has_suffix ''/**'' pattern then
        (let prefix = trim_suffix ''/**'' pattern
         in rel = prefix \<or> has_prefix (prefix @ ''/'') rel)
      else (case split_sub ''**'' pattern of
              [pre, suf] \<Rightarrow>
                if pre \<noteq> [] \<and> \<not> has_prefix pre rel then False
                else (let rest = trim_prefix ''/'' (trim_prefix pre rel)
                      in if suf = [] then True
                         else let suf = trim_prefix ''/'' suf
                         in if suf = [] then True
                            else matched suf rest \<or> matched suf (path_base rest))
            | _ \<Rightarrow> False))"

definition matchPattern :: "string \<Rightarrow> string \<Rightarrow> bool" where
  "matchPattern pattern0 rel0 =
     (let pattern = trim_space pattern0; rel = trim_prefix ''/'' rel0
      in if pattern = [] then False
         else if isLiteralPattern pattern \<and> (pattern = rel \<or> pattern = path_base rel) then True
         else if contains_sub ''**'' pattern then matchDoubleStarPattern pattern rel
         else if CHR ''/'' \<in> set pattern then
           (if matched pattern rel then True
            else let dir = trim_suffix ''/'' pattern
                 in if dir \<noteq> pattern then rel = dir \<or> has_prefix (dir @ ''/'') rel else False)
         else matched pattern (path_base rel) \<or> matched pattern rel)"

text \<open>The loop of \<open>MatchAny\<close> over the files; \<open>seen\<close> holds the files already listed.\<close>

fun match_any_from :: "string list \<Rightarrow> string list \<Rightarrow> string list \<Rightarrow> string list" where
  "match_any_from patterns seen [] = []"
| "match_any_from patterns seen (rel # rels) =
     (if list_ex (\<lambda>p. matchPattern p rel) patterns \<and> rel \<notin> set seen
      then rel # match_any_from patterns (rel # seen) rels
      else match_any_from patterns seen rels)"

definition MatchAny :: "string list \<Rightarrow> string list \<Rightarrow> string list" where
  "MatchAny patterns rels =
     (if patterns = [] \<or> rels = [] then [] else match_any_from patterns [] rels)"

section \<open>Literal patterns\<close>

definition plain :: "string \<Rightarrow> bool" where
  "plain p \<longleftrightarrow> set p \<inter> {CHR ''*'', CHR ''?'', CHR ''['', char_of (92 :: nat)} = {}"

lemma backslash [simp]: "char_of (92 :: nat) = CHR 0x5C"
  by code_simp

lemma plain_Cons: "plain (c # p) \<longleftrightarrow>
    c \<noteq> CHR ''*'' \<and> c \<noteq> CHR ''?'' \<and> c \<noteq> CHR ''['' \<and> c \<noteq> CHR 0x5C \<and> plain p"
  by (auto simp: plain_def)

lemma parse_glob_plain: "plain p \<Longrightarrow> length p < n \<Longrightarrow> parse_glob n p = Some (map GLit p)"
proof (induction p arbitrary: n)
  case Nil
  then show ?case by (cases n) auto
next
  case (Cons c p)
  then obtain m where "n = Suc m" by (cases n) auto
  with Cons show ?case by (simp add: plain_Cons)
qed

lemma match_chunk_lits: "match_chunk (map GLit p) s = Some t \<longleftrightarrow> s = p @ t"
proof (induction p arbitrary: s)
  case (Cons c p)
  then show ?case by (cases s) auto
qed auto

lemma glob_chunks_lits: "glob_chunks False (map GLit p) = (if p = [] then [] else [(False, map GLit p)])"
  by (cases p) (simp_all add: dropWhile_eq_Nil_conv [THEN iffD2] takeWhile_eq_all_conv [THEN iffD2])

lemma match_chunks_lits: "match_chunks (glob_chunks False (map GLit p)) s \<longleftrightarrow> s = p"
proof (cases "match_chunk (map GLit p) s")
  case None
  then have "s \<noteq> p" using match_chunk_lits [of p s "[]"] by auto
  with None show ?thesis by (auto simp: glob_chunks_lits)
next
  case (Some t)
  then show ?thesis using match_chunk_lits [of p s t] by (auto simp: glob_chunks_lits)
qed

lemma matched_plain: "plain p \<Longrightarrow> matched p s \<longleftrightarrow> s = p"
  using parse_glob_plain [of p "Suc (length p)"] match_chunks_lits [of p s]
  by (simp add: matched_def path_Match_def del: parse_glob.simps)

lemma contains_dstar: "plain p \<Longrightarrow> \<not> contains_sub ''**'' p"
proof (induction p)
  case (Cons c p)
  then show ?case by (auto simp: plain_Cons has_prefix_def)
qed simp

lemma literal_plain: "plain p \<Longrightarrow> isLiteralPattern p"
  by (auto simp: plain_def isLiteralPattern_def list_ex_iff)

lemma contains_sub_append: "contains_sub p (xs @ p @ ys)"
proof (induction xs)
  case Nil
  show ?case
  proof (cases "p @ ys")
    case (Cons c r)
    have "take (length p) (p @ ys) = p" by simp
    then show ?thesis unfolding Cons by (simp add: has_prefix_def Cons)
  qed simp
qed simp

lemma has_suffix_append [simp]: "has_suffix q (p @ q)"
  by (simp add: has_suffix_def has_prefix_def)

lemma trim_suffix_append [simp]: "trim_suffix q (p @ q) = p"
  by (simp add: trim_suffix_def)

lemma set_match_any_from:
  "set (match_any_from ps seen rels) =
     {r \<in> set rels. (\<exists>p \<in> set ps. matchPattern p r)} - set seen"
  by (induction rels arbitrary: seen) (auto simp: list_ex_iff)

lemma distinct_match_any_from: "distinct (match_any_from ps seen rels)"
  by (induction rels arbitrary: seen) (auto simp: set_match_any_from)

section \<open>Properties\<close>

text \<open>A pattern \<open>dir/**\<close> means the directory and everything below it. For a directory
  path without glob characters and without surrounding white space, the pattern matches a file iff
  the file is that path or lies under it, and \<open>ValidatePattern\<close> accepts the pattern.\<close>

theorem dir_glob_subtree:
  assumes "plain dir" and "dir \<noteq> []" and "\<not> go_space (hd dir)"
  shows "ValidatePattern (dir @ ''/**'') = Ok () \<and>
    (matchPattern (dir @ ''/**'') rel \<longleftrightarrow>
       trim_prefix ''/'' rel = dir \<or> has_prefix (dir @ ''/'') (trim_prefix ''/'' rel))"
proof -
  let ?p = "dir @ ''/**''"
  have t: "trim_space ?p = ?p"
    by (rule trim_space_id) (use assms in \<open>auto simp: go_space_def\<close>)
  obtain c d where dir: "dir = c # d" using assms(2) by (cases dir) auto
  have pre: "\<not> has_prefix ''**/'' ?p"
    using assms(1) dir by (auto simp: has_prefix_def plain_Cons)
  have dbl: "contains_sub ''**'' ?p"
    using contains_sub_append [of "''**''" "dir @ ''/''" "[]"] by simp
  have lit: "\<not> isLiteralPattern ?p" by (simp add: isLiteralPattern_def)
  have "ValidatePattern ?p = Ok ()"
    using t dbl pre assms(2) by (simp add: ValidatePattern_def probeDoubleStar_def)
  moreover have "matchDoubleStarPattern ?p r \<longleftrightarrow> r = dir \<or> has_prefix (dir @ ''/'') r" for r
    using pre has_suffix_append [of "''/**''" dir] trim_suffix_append [of "''/**''" dir]
    by (simp add: matchDoubleStarPattern_def Let_def)
  ultimately show ?thesis
    using t dbl lit assms(2) by (simp add: matchPattern_def Let_def)
qed

lemma dir_glob_subtree_witness: "matchPattern ''bin/**'' ''bin/app'' \<and> \<not> matchPattern ''bin/**'' ''etc''"
  using dir_glob_subtree [of "''bin''" "''bin/app''"] dir_glob_subtree [of "''bin''" "''etc''"]
  by (simp add: plain_def go_space_def trim_prefix_def has_prefix_def)

text \<open>A file name without glob characters matches exactly the files of that name, and
  \<open>MatchAny\<close> is the filter of the changed files by the patterns. \<open>MatchAny\<close> lists each changed file
  that some pattern matches, and nothing else, once each.\<close>

theorem match_any_exact:
  "distinct (MatchAny patterns rels) \<and>
   set (MatchAny patterns rels) = {r \<in> set rels. \<exists>p \<in> set patterns. matchPattern p r} \<and>
   (plain name \<and> name \<noteq> [] \<and> trim_space name = name \<and> CHR ''/'' \<notin> set name \<longrightarrow>
     (matchPattern name rel \<longleftrightarrow>
        path_base (trim_prefix ''/'' rel) = name \<or> trim_prefix ''/'' rel = name))"
proof (intro conjI impI)
  show "distinct (MatchAny patterns rels)"
    by (simp add: MatchAny_def distinct_match_any_from)
  show "set (MatchAny patterns rels) = {r \<in> set rels. \<exists>p \<in> set patterns. matchPattern p r}"
    by (auto simp: MatchAny_def set_match_any_from)
  assume "plain name \<and> name \<noteq> [] \<and> trim_space name = name \<and> CHR ''/'' \<notin> set name"
  then show "matchPattern name rel \<longleftrightarrow>
        path_base (trim_prefix ''/'' rel) = name \<or> trim_prefix ''/'' rel = name"
    by (auto simp: matchPattern_def Let_def contains_dstar literal_plain matched_plain)
qed

lemma match_any_exact_witness:
  "set (MatchAny [''Makefile''] [''a/Makefile'', ''b'']) = {''a/Makefile''}"
proof -
  have "matchPattern ''Makefile'' r \<longleftrightarrow> path_base r = ''Makefile'' \<or> r = ''Makefile''"
    if "trim_prefix ''/'' r = r" for r
    using match_any_exact [of "[]" "[]" "''Makefile''" r] that
    by (simp add: plain_def trim_space_def trim_left_def go_space_def)
  then have "matchPattern ''Makefile'' ''a/Makefile''" "\<not> matchPattern ''Makefile'' ''b''"
    by (simp_all add: path_base_def strip_slashes_def trim_prefix_def has_prefix_def)
  with match_any_exact [of "[''Makefile'']" "[''a/Makefile'', ''b'']"] show ?thesis by auto
qed

end
