(* ===== verification/Manifest.thy ===== *)
theory Manifest
  imports Versions Pathmatch Utils
begin

text \<open>
  The workspace as decoded from its JSON files: job manifests (\<open>workspace/types.go\<close>,
  \<open>manifest.go\<close>, \<open>ports.go\<close>, \<open>health_check.go\<close>, \<open>restart_policy.go\<close>, \<open>demands.go\<close>) and workers
  (\<open>worker.go\<close>, \<open>workspace.go\<close>, \<open>workers_file.go\<close>). JSON decoding of text is left to
  \<open>encoding/json\<close>; the records below are its results.
\<close>

section \<open>Manifests (workspace/types.go)\<close>

record job_command =
  jc_name :: string
  jc_executed_on :: "string list"
  jc_demand_job :: string
  jc_demand_command :: string
  jc_config :: "(string \<times> cfg_value) list"

text \<open>A port binding is \<open>None\<close> when maand provisions the number (\<open>{}\<close>), else the fixed number.\<close>

type_synonym port_binding = "int option"
type_synonym manifest_ports = "(string \<times> port_binding) list"

record cert_config =
  cc_pkcs8 :: bool
  cc_one :: bool
  cc_common_name :: string

record health_probe =
  hp_type :: string
  hp_port :: string
  hp_command :: string
  hp_path :: string
  hp_expect_status :: int
  hp_scheme :: string

record health_wait =
  hw_attempts :: int
  hw_interval_seconds :: int

record health_check =
  hc_checks :: "health_probe list"
  hc_timeout_seconds :: int
  hc_wait :: "health_wait option"

record manifest =
  m_version :: string
  m_selectors :: "string list"
  m_memory_min :: string
  m_memory_max :: string
  m_cpu_min :: string
  m_cpu_max :: string
  m_ports :: manifest_ports
  m_commands :: "(string \<times> job_command) list"
  m_certs :: "(string \<times> cert_config) list"
  m_health_check :: "health_check option"
  m_max_concurrent_upgrades :: int
  m_max_concurrent_starts :: int
  m_min_allocations_count :: int
  m_restart_policy :: string
  m_restart_globs :: "string list"

section \<open>Accessors (workspace/manifest.go)\<close>

definition MinMemory :: "manifest \<Rightarrow> string" where
  "MinMemory m = (if m_memory_min m = [] then ''0 mb'' else m_memory_min m)"

definition MaxMemory :: "manifest \<Rightarrow> string" where
  "MaxMemory m = (if m_memory_max m = [] then ''0 mb'' else m_memory_max m)"

definition MinCPU :: "manifest \<Rightarrow> string" where
  "MinCPU m = (if m_cpu_min m = [] then ''0 mhz'' else m_cpu_min m)"

definition MaxCPU :: "manifest \<Rightarrow> string" where
  "MaxCPU m = (if m_cpu_max m = [] then ''0 mhz'' else m_cpu_max m)"

definition JobVersion :: "manifest \<Rightarrow> string" where
  "JobVersion m = (if m_version m = [] then ''unknown'' else m_version m)"

definition manifestMaxConcurrentStarts :: "manifest \<Rightarrow> int" where
  "manifestMaxConcurrentStarts m =
     (if m_max_concurrent_starts m < 0 then 0 else m_max_concurrent_starts m)"

definition manifestMaxConcurrentUpgrades :: "manifest \<Rightarrow> int" where
  "manifestMaxConcurrentUpgrades m =
     (if m_max_concurrent_upgrades m \<le> 0 then 1 else m_max_concurrent_upgrades m)"

definition MinRequiredAllocations :: "manifest \<Rightarrow> int" where
  "MinRequiredAllocations m = (if m_min_allocations_count m < 0 then 0 else m_min_allocations_count m)"

definition PlacementSelectors :: "string \<Rightarrow> manifest \<Rightarrow> string list" where
  "PlacementSelectors jobName m =
     (if m_selectors m \<noteq> [] then unique_from [[]] (m_selectors m) else [jobName])"

definition ListedCommands :: "manifest \<Rightarrow> job_command list" where
  "ListedCommands m = map (\<lambda>(name, c). c\<lparr>jc_name := name\<rparr>) (m_commands m)"

definition JobVersionParsed :: "manifest \<Rightarrow> error + version" where
  "JobVersionParsed m =
     (let raw = trim_space (m_version m)
      in if raw = [] then Ok zero_version else ParseVersion raw)"

definition RequiresExplicitVersion :: "manifest \<Rightarrow> bool" where
  "RequiresExplicitVersion m \<longleftrightarrow> list_ex (\<lambda>c. trim_space (jc_demand_job c) \<noteq> []) (ListedCommands m)"

definition ValidateDemandReference :: "string \<Rightarrow> string \<Rightarrow> job_command \<Rightarrow> error + unit" where
  "ValidateDemandReference jobName commandName demand =
     (let demandJob = trim_space (jc_demand_job demand);
          demandCommand = trim_space (jc_demand_command demand)
      in if demandJob = [] \<and> demandCommand = [] then Ok ()
         else if demandJob = [] \<or> demandCommand = [] then Err ErrInvalidJobCommandDemand
         else if demandJob = jobName then Err ErrInvalidJobCommandConfiguration
         else Ok ())"

section \<open>Ports (workspace/ports.go)\<close>

definition Provisioned :: "port_binding \<Rightarrow> bool" where
  "Provisioned b \<longleftrightarrow> b = None"

definition port_key_char :: "char \<Rightarrow> bool" where
  "port_key_char c \<longleftrightarrow>
     (97 \<le> (of_char c :: nat) \<and> (of_char c :: nat) \<le> 122) \<or> is_digit c \<or> c = CHR ''_''"

definition port_key_pattern :: "string \<Rightarrow> bool" where
  "port_key_pattern s \<longleftrightarrow>
     s \<noteq> [] \<and> 97 \<le> (of_char (hd s) :: nat) \<and> (of_char (hd s) :: nat) \<le> 122 \<and>
     list_all port_key_char (tl s)"

definition ValidatePortKey :: "string \<Rightarrow> error + unit" where
  "ValidatePortKey name0 =
     (let name = trim_space name0
      in if name = [] then Err ErrPortKeyFormat
         else if \<not> port_key_pattern name then Err ErrPortKeyFormat
         else Ok ())"

text \<open>A raw JSON value of the ports object: \<open>{}\<close>, an integer, \<open>null\<close>, which leaves the integer it is decoded into
  at 0, or something else.\<close>

datatype json_port = PortEmptyObject | PortInteger int | PortNull | PortOther

definition port_of_json :: "string \<times> json_port \<Rightarrow> error + (string \<times> port_binding)" where
  "port_of_json entry =
     (case entry of (name, v) \<Rightarrow>
        rbind (ValidatePortKey name) (\<lambda>_.
          (case v of
             PortEmptyObject \<Rightarrow> Ok (name, None)
           | PortInteger p \<Rightarrow> Ok (name, Some p)
           | PortNull \<Rightarrow> Ok (name, Some 0)
           | PortOther \<Rightarrow> Err ErrInvalidManifestPort)))"

definition ports_UnmarshalJSON :: "(string \<times> json_port) list \<Rightarrow> error + manifest_ports" where
  "ports_UnmarshalJSON raw = rmap port_of_json raw"

definition port_Names :: "manifest_ports \<Rightarrow> string list" where
  "port_Names p = (if p = [] then [] else sort_strings (map fst p))"

section \<open>Health checks (workspace/health_check.go)\<close>

definition hasManifestHealthChecks :: "manifest \<Rightarrow> bool" where
  "hasManifestHealthChecks m \<longleftrightarrow>
     (case m_health_check m of None \<Rightarrow> False | Some hc \<Rightarrow> hc_checks hc \<noteq> [])"

definition validate_probe :: "string list \<Rightarrow> health_probe \<Rightarrow> error + unit" where
  "validate_probe declared probe =
     (let probeType = to_lower (trim_space (hp_type probe))
      in if probeType \<notin> {''tcp'', ''http'', ''ssh''} then Err ErrInvalidManifest
         else if probeType = ''ssh'' then
           (if trim_space (hp_command probe) = [] then Err ErrInvalidManifest else Ok ())
         else
           (let portName = trim_space (hp_port probe)
            in if portName = [] then Err ErrInvalidManifest
               else if portName \<notin> set declared then Err ErrInvalidManifest
               else if probeType = ''http'' then
                 (let p = (if hp_path probe = [] then ''/'' else hp_path probe)
                  in if \<not> has_prefix ''/'' p then Err ErrInvalidManifest else Ok ())
               else Ok ()))"

definition ValidateHealthCheck :: "manifest \<Rightarrow> error + unit" where
  "ValidateHealthCheck m =
     (if \<not> hasManifestHealthChecks m then Ok ()
      else (case m_health_check m of
              None \<Rightarrow> Ok ()
            | Some hc \<Rightarrow> rfold (\<lambda>_. validate_probe (port_Names (m_ports m))) () (hc_checks hc)))"

section \<open>Restart policy (workspace/restart_policy.go)\<close>

definition NormalizeRestartPolicy :: "string \<Rightarrow> error + string" where
  "NormalizeRestartPolicy raw =
     (if raw = [] then Ok ''always''
      else if raw \<in> {''always'', ''reload'', ''never''} then Ok raw
      else Err ErrInvalidManifest)"

definition EffectiveRestartPolicy :: "manifest \<Rightarrow> string" where
  "EffectiveRestartPolicy m =
     (case NormalizeRestartPolicy (m_restart_policy m) of Inl _ \<Rightarrow> ''always'' | Inr p \<Rightarrow> p)"

definition ValidateRestartGlobs :: "manifest \<Rightarrow> error + unit" where
  "ValidateRestartGlobs m =
     (if m_restart_globs m = [] then Ok ()
      else (case NormalizeRestartPolicy (m_restart_policy m) of
              Inl _ \<Rightarrow> Err ErrInvalidManifest
            | Inr policy \<Rightarrow>
                if policy \<noteq> ''reload'' then Err ErrInvalidManifest
                else rfold (\<lambda>_ p. case ValidatePattern p of Inl _ \<Rightarrow> Err ErrInvalidManifest | Inr _ \<Rightarrow> Ok ())
                       () (m_restart_globs m)))"

definition ValidateRestartPolicy :: "manifest \<Rightarrow> error + unit" where
  "ValidateRestartPolicy m =
     (case NormalizeRestartPolicy (m_restart_policy m) of
        Inl _ \<Rightarrow> Err ErrInvalidManifest
      | Inr _ \<Rightarrow> ValidateRestartGlobs m)"

section \<open>Workers (workspace/worker.go, workspace.go, workers_file.go)\<close>

record worker_record =
  wr_host :: string
  wr_hostname :: string
  wr_labels :: "string list"
  wr_memory :: string
  wr_cpu :: string
  wr_tags :: "(string \<times> string) list"
  wr_position :: "int option"

record worker =
  wk_host :: string
  wk_hostname :: string
  wk_labels :: "string list"
  wk_memory :: string
  wk_cpu :: string
  wk_tags :: "(string \<times> string) list"
  wk_position :: int

definition norm_label :: "string \<Rightarrow> string" where
  "norm_label l = to_lower (trim_space l)"

definition NewWorker ::
  "string \<Rightarrow> string list \<Rightarrow> string \<Rightarrow> string \<Rightarrow> (string \<times> string) list \<Rightarrow> int \<Rightarrow> worker" where
  "NewWorker host labels memory cpu tags position =
     \<lparr>wk_host = trim_space host, wk_hostname = [],
      wk_labels = map norm_label (labels @ [''worker'']),
      wk_memory = (if trim_space memory = [] then ''0 MB'' else memory),
      wk_cpu = (if trim_space cpu = [] then ''0 MHZ'' else cpu),
      wk_tags = foldl (\<lambda>m (k, v). AList.update (norm_label k) (norm_label v) m) [] tags,
      wk_position = position\<rparr>"

fun get_workers_from :: "string list \<Rightarrow> int \<Rightarrow> worker_record list \<Rightarrow> error + worker list" where
  "get_workers_from seen idx [] = Ok []"
| "get_workers_from seen idx (raw # rs) =
     (let host = trim_space (wr_host raw)
      in if host = [] then Err ErrInvalidWorkerJSON
         else if host \<in> set seen then Err ErrInvalidWorkerJSON
         else
           (let position = (case wr_position raw of None \<Rightarrow> idx | Some p \<Rightarrow> p);
                w = NewWorker host (wr_labels raw) (wr_memory raw) (wr_cpu raw) (wr_tags raw) position;
                hn = trim_space (wr_hostname raw);
                w' = (if hn \<noteq> [] then w\<lparr>wk_hostname := hn\<rparr> else w)
            in rbind (get_workers_from (host # seen) (idx + 1) rs) (\<lambda>ws. Ok (w' # ws))))"

definition workspaceGetWorkers :: "worker_record list \<Rightarrow> error + worker list" where
  "workspaceGetWorkers raw = get_workers_from [] 0 raw"

definition FilterWorkersByLabels :: "worker_record list \<Rightarrow> string list \<Rightarrow> worker_record list" where
  "FilterWorkersByLabels workers filterLabels =
     (if filterLabels = [] then workers
      else let normalized = filter (\<lambda>l. l \<noteq> []) (map norm_label filterLabels)
           in if normalized = [] then workers
              else filter (\<lambda>w. list_ex (\<lambda>want. want \<in> set (map norm_label (wr_labels w @ [''worker''])))
                                 normalized) workers)"

section \<open>Lemmas\<close>

lemma set_PlacementSelectors:
  "set (PlacementSelectors job m) = (if m_selectors m = [] then {job} else set (m_selectors m) - {[]})"
  by (auto simp: PlacementSelectors_def set_unique_from)

lemma distinct_PlacementSelectors [simp]: "distinct (PlacementSelectors job m)"
  by (simp add: PlacementSelectors_def distinct_unique_from)

lemma set_port_Names [simp]: "set (port_Names p) = fst ` set p"
  by (simp add: port_Names_def)

lemma distinct_port_Names [simp]: "distinct_keys p \<Longrightarrow> distinct (port_Names p)"
  by (simp add: port_Names_def)

lemma NormalizeRestartPolicy_Ok:
  "NormalizeRestartPolicy raw = Ok p \<longleftrightarrow>
     p \<in> {''always'', ''reload'', ''never''} \<and> (raw = p \<or> raw = [] \<and> p = ''always'')"
  by (auto simp: NormalizeRestartPolicy_def)

lemma norm_label_idem_worker: "norm_label ''worker'' = ''worker''"
  by (simp add: norm_label_def trim_space_def trim_left_def go_space_def to_lower_def lower_char_def)

lemma NewWorker_worker: "''worker'' \<in> set (wk_labels (NewWorker h l m c t p))"
  by (simp add: NewWorker_def norm_label_idem_worker)

lemma NewWorker_host [simp]: "wk_host (NewWorker h l m c t p) = trim_space h"
  by (simp add: NewWorker_def)

lemma get_workers_from_Ok:
  "get_workers_from seen idx rs = Ok ws \<Longrightarrow>
   map (\<lambda>r. trim_space (wr_host r)) rs = map wk_host ws \<and> distinct (map wk_host ws) \<and>
   set (map wk_host ws) \<inter> set seen = {} \<and> [] \<notin> set (map wk_host ws) \<and>
   (\<forall>w \<in> set ws. ''worker'' \<in> set (wk_labels w))"
proof (induction seen idx rs arbitrary: ws rule: get_workers_from.induct)
  case (2 seen idx raw rs)
  define host where "host = trim_space (wr_host raw)"
  have ok: "host \<noteq> []" "host \<notin> set seen"
    using 2(2) by (auto simp: host_def Let_def split: if_splits)
  define pos where "pos = (case wr_position raw of None \<Rightarrow> idx | Some p \<Rightarrow> p)"
  define w where "w = (let w = NewWorker host (wr_labels raw) (wr_memory raw) (wr_cpu raw) (wr_tags raw) pos
     in if trim_space (wr_hostname raw) \<noteq> [] then w\<lparr>wk_hostname := trim_space (wr_hostname raw)\<rparr> else w)"
  have w: "wk_host w = host" "''worker'' \<in> set (wk_labels w)"
    using NewWorker_worker by (simp_all add: w_def Let_def) (simp add: host_def)
  have "rbind (get_workers_from (host # seen) (idx + 1) rs) (\<lambda>ws. Ok (w # ws)) = Ok ws"
    using 2(2) ok by (simp add: host_def w_def pos_def Let_def)
  then obtain ws' where ws: "ws = w # ws'" and rest: "get_workers_from (host # seen) (idx + 1) rs = Ok ws'"
    by (auto simp: rbind_Inr_conv)
  have "map (\<lambda>r. trim_space (wr_host r)) rs = map wk_host ws' \<and> distinct (map wk_host ws') \<and>
   set (map wk_host ws') \<inter> set (host # seen) = {} \<and> [] \<notin> set (map wk_host ws') \<and>
   (\<forall>w \<in> set ws'. ''worker'' \<in> set (wk_labels w))"
    by (rule 2(1)) (use ok rest in \<open>simp_all add: host_def\<close>)
  with ok w show ?case by (auto simp: ws host_def)
qed simp

text \<open>The worker that the record at a place of the file stands for.\<close>

definition worker_as_read :: "int \<Rightarrow> worker_record \<Rightarrow> worker \<Rightarrow> bool" where
  "worker_as_read idx raw w \<longleftrightarrow>
     wk_host w = trim_space (wr_host raw) \<and> wk_hostname w = trim_space (wr_hostname raw) \<and>
     wk_labels w = map norm_label (wr_labels raw) @ [''worker''] \<and>
     wk_memory w = (if trim_space (wr_memory raw) = [] then ''0 MB'' else wr_memory raw) \<and>
     wk_cpu w = (if trim_space (wr_cpu raw) = [] then ''0 MHZ'' else wr_cpu raw) \<and>
     wk_position w = (case wr_position raw of None \<Rightarrow> idx | Some p \<Rightarrow> p) \<and>
     fst ` set (wk_tags w) = norm_label ` fst ` set (wr_tags raw) \<and>
     set (wk_tags w) \<subseteq> (\<lambda>(k, v). (norm_label k, norm_label v)) ` set (wr_tags raw)"

lemma normalised_tags:
  "fst ` set (foldl (\<lambda>m (k, v). AList.update (norm_label k) (norm_label v) m) m tags) = fst ` set m \<union> norm_label ` fst ` set tags \<and>
   set (foldl (\<lambda>m (k, v). AList.update (norm_label k) (norm_label v) m) m tags) \<subseteq>
     set m \<union> (\<lambda>(k, v). (norm_label k, norm_label v)) ` set tags"
proof (induction tags arbitrary: m)
  case (Cons t tags)
  obtain k v where t: "t = (k, v)" by (cases t)
  have sub: "set (AList.update (norm_label k) (norm_label v) m) \<subseteq> insert (norm_label k, norm_label v) (set m)"
    by (induction m) auto
  show ?case using Cons.IH [of "AList.update (norm_label k) (norm_label v) m"] sub by (auto simp: t keys_update)
qed simp

lemma NewWorker_as_read:
  assumes "hn = trim_space (wr_hostname raw)"
  shows "worker_as_read idx raw
     (let w = NewWorker (trim_space (wr_host raw)) (wr_labels raw) (wr_memory raw) (wr_cpu raw) (wr_tags raw)
        (case wr_position raw of None \<Rightarrow> idx | Some p \<Rightarrow> p) in if hn \<noteq> [] then w\<lparr>wk_hostname := hn\<rparr> else w)"
  using assms normalised_tags [of "[]" "wr_tags raw"]
  by (auto simp: worker_as_read_def NewWorker_def norm_label_idem_worker Let_def)

lemma get_workers_from_iff:
  "(\<exists>ws. get_workers_from seen idx rs = Ok ws) \<longleftrightarrow>
     distinct (map (\<lambda>r. trim_space (wr_host r)) rs) \<and> set (map (\<lambda>r. trim_space (wr_host r)) rs) \<inter> set seen = {} \<and>
     [] \<notin> set (map (\<lambda>r. trim_space (wr_host r)) rs)"
proof (induction rs arbitrary: seen idx)
  case (Cons raw rs)
  show ?case using Cons.IH [of "trim_space (wr_host raw) # seen" "idx + 1"]
    by (auto simp: Let_def rbind_Inr_conv)
qed simp

lemma get_workers_from_as_read:
  "get_workers_from seen idx rs = Ok ws \<Longrightarrow>
   length ws = length rs \<and> (\<forall>i < length rs. worker_as_read (idx + int i) (rs ! i) (ws ! i))"
proof (induction rs arbitrary: seen idx ws)
  case (Cons raw rs)
  define w where "w = (let w = NewWorker (trim_space (wr_host raw)) (wr_labels raw) (wr_memory raw) (wr_cpu raw) (wr_tags raw)
        (case wr_position raw of None \<Rightarrow> idx | Some p \<Rightarrow> p); hn = trim_space (wr_hostname raw)
      in if hn \<noteq> [] then w\<lparr>wk_hostname := hn\<rparr> else w)"
  have w: "worker_as_read idx raw w" using NewWorker_as_read [OF refl, of idx raw] by (simp add: w_def Let_def)
  from Cons.prems obtain ws' where ws: "ws = w # ws'"
    and rest: "get_workers_from (trim_space (wr_host raw) # seen) (idx + 1) rs = Ok ws'"
    by (auto simp: w_def Let_def rbind_Inr_conv split: if_splits)
  from Cons.IH [OF rest] w show ?case by (auto simp: ws nth_Cons' add.assoc) (metis Suc_pred of_nat_Suc less_Suc_eq_0_disj add.commute Suc_less_eq)
qed simp

section \<open>Properties\<close>

text \<open>Property C38: what \<open>workers.json\<close> may hold. \<open>GetWorkers\<close> accepts the file exactly when the trimmed hosts
  are pairwise different and not empty, and then returns one worker for each record, in the order of the file: with
  the trimmed host and hostname, with the normalised labels of the record followed by \<open>worker\<close>, with the
  normalised tags, with the defaults for memory and CPU that are not given, and at the position of the record or, if it
  gives none, at its place in the file.\<close>

theorem get_workers_valid:
  "((\<exists>ws. workspaceGetWorkers raw = Ok ws) \<longleftrightarrow>
      distinct (map (\<lambda>r. trim_space (wr_host r)) raw) \<and> [] \<notin> set (map (\<lambda>r. trim_space (wr_host r)) raw)) \<and>
   (\<forall>ws. workspaceGetWorkers raw = Ok ws \<longrightarrow>
      length ws = length raw \<and> (\<forall>i < length raw. worker_as_read (int i) (raw ! i) (ws ! i)))"
  using get_workers_from_iff [of "[]" 0 raw] get_workers_from_as_read [of "[]" 0 raw]
  by (simp add: workspaceGetWorkers_def)

lemma get_workers_valid_witness:
  "\<exists>w. workspaceGetWorkers [\<lparr>wr_host = '' a '', wr_hostname = [], wr_labels = [''DB''],
     wr_memory = [], wr_cpu = [], wr_tags = [], wr_position = None\<rparr>] = Ok [w] \<and>
     wk_host w = ''a'' \<and> wk_labels w = [norm_label ''DB'', ''worker''] \<and> wk_position w = 0"
proof -
  let ?raw = "[\<lparr>wr_host = '' a '', wr_hostname = [], wr_labels = [''DB''],
     wr_memory = [], wr_cpu = [], wr_tags = [], wr_position = None\<rparr>]"
  have t: "trim_space '' a '' = ''a''"
    by (simp add: trim_space_def trim_left_def go_space_def)
  note th = get_workers_valid [of ?raw]
  from th [THEN conjunct1] obtain ws where ws: "workspaceGetWorkers ?raw = Ok ws" by (auto simp: t)
  with th [THEN conjunct2, rule_format, OF ws] show ?thesis
    by (auto simp: worker_as_read_def t length_Suc_conv)
qed

end
