(* ===== verification/Catalog.thy ===== *)
theory Catalog
  imports Manifest KvPersist
begin

text \<open>
  The catalog \<open>maand.db\<close> (\<open>data/schema.go\<close>) and its queries and updates (\<open>data/*.go\<close>). A table is the
  list of its rows; a query without \<open>ORDER BY\<close> returns rows in table order, and theorems hold for
  every order of the tables. A nullable column is an option, a 0/1 column a \<^typ>\<open>bool\<close>. The JSON
  columns hold the decoded value. Failures of the database itself are not modelled; a
  \<open>QueryRow\<close> without a row, or a \<open>Scan\<close> of NULL into a string, is.
\<close>

section \<open>Tables\<close>

record bucket_row =
  b_id :: string
  b_update_seq :: int

record worker_row =
  w_id :: string
  w_ip :: string
  w_memory :: string
  w_cpu :: string
  w_position :: int

record alloc_row =
  a_id :: string
  a_ip :: string
  a_job :: string
  a_disabled :: bool
  a_removed :: bool
  a_seq :: int
  a_new_version :: "string option"

record job_row =
  j_id :: string
  j_name :: string
  j_version :: string
  j_min_memory :: string
  j_max_memory :: string
  j_memory :: string
  j_memory_source :: string
  j_min_cpu :: string
  j_max_cpu :: string
  j_cpu :: string
  j_cpu_source :: string
  j_max_upgrades :: int
  j_max_starts :: int
  j_restart_policy :: string
  j_restart_globs :: "string list"
  j_health_check :: "health_check option"

record port_row =
  p_job_id :: string
  p_name :: string
  p_port :: int

record file_row =
  f_job_id :: string
  f_path :: string
  f_content :: string
  f_isdir :: bool

record command_row =
  q_job_id :: string
  q_job :: string
  q_name :: string
  q_executed_on :: string
  q_demand_job :: string
  q_demand_command :: string
  q_demand_config :: "(string \<times> cfg_value) list"

type_synonym file_manifest = "(string \<times> string) list"

record hash_row =
  h_namespace :: string
  h_key :: string
  h_current_hash :: "string option"
  h_previous_hash :: "string option"
  h_current_files :: "file_manifest option"
  h_previous_files :: "file_manifest option"
  h_current_version :: "string option"

record catalog =
  t_bucket :: "bucket_row list"
  t_worker :: "worker_row list"
  t_worker_labels :: "(string \<times> string) list"
  t_worker_tags :: "(string \<times> string \<times> string) list"
  t_allocations :: "alloc_row list"
  t_job :: "job_row list"
  t_job_selectors :: "(string \<times> string) list"
  t_job_ports :: "port_row list"
  t_job_certs :: "(string \<times> string \<times> cert_config) list"
  t_job_files :: "file_row list"
  t_job_commands :: "command_row list"
  t_hash :: "hash_row list"

text \<open>\<open>QueryRow(...).Scan\<close>: the first row, or \<open>sql.ErrNoRows\<close> wrapped as a database error.\<close>

definition query_row :: "'r list \<Rightarrow> error + 'r" where
  "query_row rows = (case rows of [] \<Rightarrow> Err ErrDatabase | r # _ \<Rightarrow> Ok r)"

definition ifnull :: "'a option \<Rightarrow> 'a \<Rightarrow> 'a" where
  "ifnull x d = (case x of None \<Rightarrow> d | Some y \<Rightarrow> y)"

lemma ifnull_simps [simp]: "ifnull None d = d" "ifnull (Some y) d = y"
  by (simp_all add: ifnull_def)

section \<open>Versions of allocations (data/version.go, data/allocation_version.go)\<close>

definition DefaultAllocationVersion :: string where
  "DefaultAllocationVersion = ''0.0.0''"

definition NormalizeDeployVersion :: "string \<Rightarrow> string" where
  "NormalizeDeployVersion raw0 =
     (let raw = trim_space raw0
      in if raw = [] \<or> equal_fold raw ''unknown'' then DefaultAllocationVersion else raw)"

definition normalizeStoredVersion :: "string option \<Rightarrow> string" where
  "normalizeStoredVersion v =
     (case v of None \<Rightarrow> DefaultAllocationVersion | Some s \<Rightarrow> NormalizeDeployVersion s)"

definition allocation_namespace :: "string \<Rightarrow> string" where
  "allocation_namespace job = job @ ''_allocation''"

definition jobs_named :: "catalog \<Rightarrow> string \<Rightarrow> job_row list" where
  "jobs_named c name = filter (\<lambda>j. j_name j = name) (t_job c)"

definition GetJobVersion :: "catalog \<Rightarrow> string \<Rightarrow> error + string" where
  "GetJobVersion c job = map_sum id j_version (query_row (jobs_named c job))"

definition TargetJobVersion :: "catalog \<Rightarrow> string \<Rightarrow> error + string" where
  "TargetJobVersion c job = rbind (GetJobVersion c job) (\<lambda>v. Ok (NormalizeDeployVersion v))"

definition SetAllocationNewVersion :: "catalog \<Rightarrow> string \<Rightarrow> string \<Rightarrow> catalog" where
  "SetAllocationNewVersion c allocID version =
     c\<lparr>t_allocations := map (\<lambda>a. if a_id a = allocID
         then a\<lparr>a_new_version := Some (NormalizeDeployVersion version)\<rparr> else a) (t_allocations c)\<rparr>"

definition GetAllocationNewVersion :: "catalog \<Rightarrow> string \<Rightarrow> string" where
  "GetAllocationNewVersion c allocID =
     (case filter (\<lambda>a. a_id a = allocID) (t_allocations c) of
        [] \<Rightarrow> DefaultAllocationVersion
      | a # _ \<Rightarrow> normalizeStoredVersion (a_new_version a))"

text \<open>\<open>hash\<close> has the primary key (namespace, key).\<close>

definition hash_rows :: "catalog \<Rightarrow> string \<Rightarrow> string \<Rightarrow> hash_row list" where
  "hash_rows c ns k = filter (\<lambda>h. h_namespace h = ns \<and> h_key h = k) (t_hash c)"

definition left_join_versions :: "catalog \<Rightarrow> string \<Rightarrow> string \<Rightarrow> string option list" where
  "left_join_versions c ns k =
     (case hash_rows c ns k of [] \<Rightarrow> [None] | hs \<Rightarrow> map h_current_version hs)"

definition version_pending :: "catalog \<Rightarrow> string \<Rightarrow> alloc_row \<Rightarrow> string list" where
  "version_pending c job a =
     map (\<lambda>_. a_ip a)
       (filter (\<lambda>cur. ifnull cur DefaultAllocationVersion \<noteq> ifnull (a_new_version a) DefaultAllocationVersion)
          (left_join_versions c (allocation_namespace job) (a_id a)))"

definition GetVersionPendingNonRemovedAllocations :: "catalog \<Rightarrow> string \<Rightarrow> string list" where
  "GetVersionPendingNonRemovedAllocations c job =
     concat (map (version_pending c job)
       (filter (\<lambda>a. a_job a = job \<and> \<not> a_removed a) (t_allocations c)))"

definition GetVersionPendingAllocations :: "catalog \<Rightarrow> string \<Rightarrow> string list" where
  "GetVersionPendingAllocations c job =
     concat (map (version_pending c job)
       (filter (\<lambda>a. a_job a = job \<and> \<not> a_removed a \<and> \<not> a_disabled a) (t_allocations c)))"

section \<open>Hashes (data/hash.go, data/hash_allocation.go, data/hash_read.go)\<close>

definition update_hash :: "(hash_row \<Rightarrow> hash_row) \<Rightarrow> string \<Rightarrow> string \<Rightarrow> catalog \<Rightarrow> catalog" where
  "update_hash f ns k c =
     c\<lparr>t_hash := map (\<lambda>h. if h_namespace h = ns \<and> h_key h = k then f h else h) (t_hash c)\<rparr>"

definition insert_hash :: "string \<Rightarrow> string \<Rightarrow> (hash_row \<Rightarrow> hash_row) \<Rightarrow> catalog \<Rightarrow> catalog" where
  "insert_hash ns k f c =
     c\<lparr>t_hash := t_hash c @ [f \<lparr>h_namespace = ns, h_key = k, h_current_hash = None, h_previous_hash = None,
         h_current_files = None, h_previous_files = None, h_current_version = None\<rparr>]\<rparr>"

definition UpdateHash :: "catalog \<Rightarrow> string \<Rightarrow> string \<Rightarrow> string \<Rightarrow> error + catalog" where
  "UpdateHash c ns k hash =
     (case hash_rows c ns k of
        [] \<Rightarrow> Ok (insert_hash ns k (\<lambda>h. h\<lparr>h_current_hash := Some hash\<rparr>) c)
      | h # _ \<Rightarrow> (if h_current_hash h = None then Err ErrDatabase
                  else Ok (update_hash (\<lambda>h. h\<lparr>h_current_hash := Some hash\<rparr>) ns k c)))"

definition HashChanged :: "catalog \<Rightarrow> string \<Rightarrow> string \<Rightarrow> bool" where
  "HashChanged c ns k =
     (case hash_rows c ns k of
        [] \<Rightarrow> True
      | h # _ \<Rightarrow> ifnull (h_current_hash h) [] \<noteq> ifnull (h_previous_hash h) [])"

definition PromoteHash :: "catalog \<Rightarrow> string \<Rightarrow> string \<Rightarrow> catalog" where
  "PromoteHash c ns k = update_hash (\<lambda>h. h\<lparr>h_previous_hash := h_current_hash h\<rparr>) ns k c"

definition RemoveHash :: "catalog \<Rightarrow> string \<Rightarrow> string \<Rightarrow> catalog" where
  "RemoveHash c ns k = c\<lparr>t_hash := filter (\<lambda>h. \<not> (h_namespace h = ns \<and> h_key h = k)) (t_hash c)\<rparr>"

definition GetPreviousHash :: "catalog \<Rightarrow> string \<Rightarrow> string \<Rightarrow> string" where
  "GetPreviousHash c ns k =
     (case hash_rows c ns k of [] \<Rightarrow> [] | h # _ \<Rightarrow> ifnull (h_previous_hash h) [])"

definition RemoveAllocationHash :: "catalog \<Rightarrow> string \<Rightarrow> string \<Rightarrow> catalog" where
  "RemoveAllocationHash c job allocID = RemoveHash c (allocation_namespace job) allocID"

definition UpdateAllocationPlan ::
  "catalog \<Rightarrow> string \<Rightarrow> string \<Rightarrow> string \<Rightarrow> file_manifest \<Rightarrow> catalog" where
  "UpdateAllocationPlan c ns k hash currentFiles =
     (case hash_rows c ns k of
        [] \<Rightarrow> insert_hash ns k (\<lambda>h. h\<lparr>h_current_hash := Some hash,
                h_current_version := Some DefaultAllocationVersion,
                h_current_files := Some currentFiles\<rparr>) c
      | _ \<Rightarrow> update_hash (\<lambda>h. h\<lparr>h_current_hash := Some hash, h_current_files := Some currentFiles\<rparr>) ns k c)"

definition PromoteAllocationState :: "catalog \<Rightarrow> string \<Rightarrow> string \<Rightarrow> catalog" where
  "PromoteAllocationState c ns k =
     update_hash (\<lambda>h. h\<lparr>h_previous_hash := h_current_hash h, h_previous_files := h_current_files h,
         h_current_version := Some (case filter (\<lambda>a. a_id a = k) (t_allocations c) of
             [] \<Rightarrow> DefaultAllocationVersion
           | a # _ \<Rightarrow> ifnull (a_new_version a) DefaultAllocationVersion)\<rparr>) ns k c"

definition MarkAllocationStartPending :: "catalog \<Rightarrow> string \<Rightarrow> string \<Rightarrow> catalog" where
  "MarkAllocationStartPending c job allocID =
     update_hash (\<lambda>h. h\<lparr>h_previous_hash := None, h_previous_files := None\<rparr>)
       (allocation_namespace job) allocID c"

definition ClearAllocationLiveState :: "catalog \<Rightarrow> string \<Rightarrow> string \<Rightarrow> catalog" where
  "ClearAllocationLiveState c ns k =
     update_hash (\<lambda>h. h\<lparr>h_previous_hash := None, h_previous_files := None, h_current_version := None\<rparr>) ns k c"

record allocation_versions =
  av_current :: string
  av_new :: string

definition GetAllocationVersions :: "catalog \<Rightarrow> string \<Rightarrow> string \<Rightarrow> allocation_versions" where
  "GetAllocationVersions c ns k =
     \<lparr>av_current = normalizeStoredVersion
        (case hash_rows c ns k of [] \<Rightarrow> None | h # _ \<Rightarrow> Some (ifnull (h_current_version h) [])),
      av_new = GetAllocationNewVersion c k\<rparr>"

definition GetAllocationHash :: "catalog \<Rightarrow> string \<Rightarrow> string \<Rightarrow> string \<times> string \<times> bool" where
  "GetAllocationHash c ns k =
     (case hash_rows c ns k of
        [] \<Rightarrow> ([], [], False)
      | h # _ \<Rightarrow> (ifnull (h_current_hash h) [], ifnull (h_previous_hash h) [], True))"

section \<open>File manifests (data/file_manifest.go, data/file_manifest_read.go)\<close>

text \<open>\<open>ParseFileManifest\<close>: NULL is no manifest; a stored one is decoded.\<close>

record allocation_file_manifests =
  af_current :: file_manifest
  af_previous :: file_manifest
  af_has_current :: bool
  af_has_previous :: bool

definition GetAllocationFileManifests :: "catalog \<Rightarrow> string \<Rightarrow> string \<Rightarrow> allocation_file_manifests" where
  "GetAllocationFileManifests c ns k =
     (case hash_rows c ns k of
        [] \<Rightarrow> \<lparr>af_current = [], af_previous = [], af_has_current = False, af_has_previous = False\<rparr>
      | h # _ \<Rightarrow> \<lparr>af_current = ifnull (h_current_files h) [], af_previous = ifnull (h_previous_files h) [],
                  af_has_current = (h_current_files h \<noteq> None),
                  af_has_previous = (h_previous_files h \<noteq> None)\<rparr>)"

definition DiffFileManifests :: "file_manifest \<Rightarrow> file_manifest \<Rightarrow> string list" where
  "DiffFileManifests previous current =
     (let added = map fst (filter (\<lambda>(path, hash). map_of previous path \<noteq> Some hash) current);
          gone = filter (\<lambda>path. map_of current path = None \<and> path \<notin> set added) (map fst previous)
      in sort_strings (added @ gone))"

section \<open>Allocations and jobs (data/worker.go, data/job.go, data/allocations_meta.go)\<close>

definition position_le :: "int \<times> string \<Rightarrow> int \<times> string \<Rightarrow> bool" where
  "position_le x y \<longleftrightarrow> fst x < fst y \<or> fst x = fst y \<and> string_le (snd x) (snd y)"

definition GetWorkers :: "catalog \<Rightarrow> string list \<Rightarrow> string list" where
  "GetWorkers c labels =
     (let sorted = sort_by (\<lambda>x y. w_position x \<le> w_position y) (t_worker c)
      in if labels = [] then map w_ip sorted
         else Unique (map w_ip (filter (\<lambda>w. list_ex (\<lambda>(wid, l). wid = w_id w \<and> l \<in> set labels)
                                              (t_worker_labels c)) sorted)))"

definition workers_at :: "catalog \<Rightarrow> string \<Rightarrow> worker_row list" where
  "workers_at c ip = filter (\<lambda>w. w_ip w = ip) (t_worker c)"

definition GetWorkerID :: "catalog \<Rightarrow> string \<Rightarrow> error + string" where
  "GetWorkerID c ip = map_sum id w_id (query_row (workers_at c ip))"

definition GetWorkerPosition :: "catalog \<Rightarrow> string \<Rightarrow> error + int" where
  "GetWorkerPosition c ip = map_sum id w_position (query_row (workers_at c ip))"

definition GetWorkerCPU :: "catalog \<Rightarrow> string \<Rightarrow> error + string" where
  "GetWorkerCPU c ip = map_sum id w_cpu (query_row (workers_at c ip))"

definition GetWorkerMemory :: "catalog \<Rightarrow> string \<Rightarrow> error + string" where
  "GetWorkerMemory c ip = map_sum id w_memory (query_row (workers_at c ip))"

definition GetWorkerLabels :: "catalog \<Rightarrow> string \<Rightarrow> string list" where
  "GetWorkerLabels c workerID =
     sort_strings (map snd (filter (\<lambda>(wid, _). wid = workerID) (t_worker_labels c)))"

definition GetLabels :: "catalog \<Rightarrow> string list" where
  "GetLabels c = sort_strings (Unique (map snd (t_worker_labels c)))"

definition GetWorkerTags :: "catalog \<Rightarrow> string \<Rightarrow> (string \<times> string) list" where
  "GetWorkerTags c workerID =
     foldl (\<lambda>m (k, v). AList.update k v m) []
       (sort_by (\<lambda>x y. string_le (fst x) (fst y)) (map snd (filter (\<lambda>(wid, _). wid = workerID) (t_worker_tags c))))"

definition GetAllWorkers :: "catalog \<Rightarrow> string list" where
  "GetAllWorkers c = map w_ip (t_worker c)"

definition allocs_of :: "catalog \<Rightarrow> string \<Rightarrow> alloc_row list" where
  "allocs_of c job = filter (\<lambda>a. a_job a = job) (t_allocations c)"

definition alloc_at :: "catalog \<Rightarrow> string \<Rightarrow> string \<Rightarrow> alloc_row list" where
  "alloc_at c ip job = filter (\<lambda>a. a_ip a = ip \<and> a_job a = job) (t_allocations c)"

definition GetAllocationID :: "catalog \<Rightarrow> string \<Rightarrow> string \<Rightarrow> error + string" where
  "GetAllocationID c ip job = map_sum id a_id (query_row (alloc_at c ip job))"

definition AllocationNeedsVersionRollout :: "catalog \<Rightarrow> string \<Rightarrow> string \<Rightarrow> error + bool" where
  "AllocationNeedsVersionRollout c job ip =
     rbind (GetAllocationID c ip job) (\<lambda>allocID.
       let v = GetAllocationVersions c (allocation_namespace job) allocID
       in Ok (av_current v \<noteq> av_new v))"

definition IsAllocationDisabled :: "catalog \<Rightarrow> string \<Rightarrow> string \<Rightarrow> error + bool" where
  "IsAllocationDisabled c ip job = map_sum id a_disabled (query_row (alloc_at c ip job))"

definition IsAllocationRemoved :: "catalog \<Rightarrow> string \<Rightarrow> string \<Rightarrow> error + bool" where
  "IsAllocationRemoved c ip job = map_sum id a_removed (query_row (alloc_at c ip job))"

definition IsActiveAllocation :: "bool \<Rightarrow> bool \<Rightarrow> bool" where
  "IsActiveAllocation removed disabled \<longleftrightarrow> \<not> removed \<and> \<not> disabled"

definition IsAllocationActive :: "catalog \<Rightarrow> string \<Rightarrow> string \<Rightarrow> error + bool" where
  "IsAllocationActive c ip job =
     rbind (IsAllocationRemoved c ip job) (\<lambda>removed.
       if removed then Ok False
       else rbind (IsAllocationDisabled c ip job) (\<lambda>disabled. Ok (\<not> disabled)))"

definition GetAllocatedWorkers :: "catalog \<Rightarrow> string \<Rightarrow> string list" where
  "GetAllocatedWorkers c job = map a_ip (allocs_of c job)"

definition GetAllocatedJobs :: "catalog \<Rightarrow> string \<Rightarrow> string list" where
  "GetAllocatedJobs c ip = map a_job (filter (\<lambda>a. a_ip a = ip) (t_allocations c))"

definition GetActiveAllocatedJobs :: "catalog \<Rightarrow> string \<Rightarrow> string list" where
  "GetActiveAllocatedJobs c ip =
     map a_job (filter (\<lambda>a. a_ip a = ip \<and> \<not> a_removed a \<and> \<not> a_disabled a) (t_allocations c))"

definition GetAllocatedWorkerIPs :: "catalog \<Rightarrow> string list" where
  "GetAllocatedWorkerIPs c = sort_strings (Unique (map a_ip (t_allocations c)))"

definition GetActiveAllocations :: "catalog \<Rightarrow> string \<Rightarrow> error + string list" where
  "GetActiveAllocations c job =
     rfold (\<lambda>acc ip.
        rbind (IsAllocationRemoved c ip job) (\<lambda>removed.
        rbind (IsAllocationDisabled c ip job) (\<lambda>disabled.
          Ok (if IsActiveAllocation removed disabled then acc @ [ip] else acc)))) [] (GetAllocatedWorkers c job)"

definition JobHasActiveAllocations :: "catalog \<Rightarrow> string \<Rightarrow> error + bool" where
  "JobHasActiveAllocations c job = rbind (GetActiveAllocations c job) (\<lambda>ws. Ok (ws \<noteq> []))"

definition joined_positions :: "catalog \<Rightarrow> alloc_row list \<Rightarrow> (int \<times> string) list" where
  "joined_positions c as =
     concat (map (\<lambda>a. map (\<lambda>w. (w_position w, a_ip a)) (workers_at c (a_ip a))) as)"

definition GetActiveAllocationsOrdered :: "catalog \<Rightarrow> string \<Rightarrow> string list" where
  "GetActiveAllocationsOrdered c job =
     map snd (sort_by position_le (joined_positions c
       (filter (\<lambda>a. \<not> a_removed a \<and> \<not> a_disabled a) (allocs_of c job))))"

definition GetNonRemovedAllocationsOrdered :: "catalog \<Rightarrow> string \<Rightarrow> string list" where
  "GetNonRemovedAllocationsOrdered c job =
     map snd (sort_by position_le (joined_positions c (filter (\<lambda>a. \<not> a_removed a) (allocs_of c job))))"

definition GetNonRemovedAllocations :: "catalog \<Rightarrow> string \<Rightarrow> string list" where
  "GetNonRemovedAllocations c job =
     sort_strings (map a_ip (filter (\<lambda>a. \<not> a_removed a) (allocs_of c job)))"

definition JobHasNonRemovedAllocations :: "catalog \<Rightarrow> string \<Rightarrow> bool" where
  "JobHasNonRemovedAllocations c job \<longleftrightarrow> GetNonRemovedAllocations c job \<noteq> []"

definition CountJobAllocations :: "catalog \<Rightarrow> string \<Rightarrow> bool \<Rightarrow> int" where
  "CountJobAllocations c job activeOnly =
     int (length (filter (\<lambda>a. \<not> a_removed a \<and> (activeOnly \<longrightarrow> \<not> a_disabled a)) (allocs_of c job)))"

definition CountAllocations :: "catalog \<Rightarrow> bool \<Rightarrow> int" where
  "CountAllocations c activeOnly =
     int (length (filter (\<lambda>a. activeOnly \<longrightarrow> \<not> a_removed a) (t_allocations c)))"

text \<open>The joins of \<open>hash\<close> with \<open>allocations\<close> behind the rollout queries.\<close>

definition hash_join :: "catalog \<Rightarrow> string \<Rightarrow> (hash_row \<Rightarrow> bool) \<Rightarrow> (alloc_row \<Rightarrow> bool) \<Rightarrow> string list" where
  "hash_join c job P Q =
     concat (map (\<lambda>h. map a_ip (filter (\<lambda>a. h_key h = a_id a \<and> a_job a = job \<and> Q a) (t_allocations c)))
       (filter (\<lambda>h. h_namespace h = allocation_namespace job \<and> P h) (t_hash c)))"

text \<open>\<open>previous_hash IS NOT NULL AND previous_hash != current_hash\<close>: a NULL \<open>current_hash\<close> makes it unknown.\<close>

definition hash_updated :: "hash_row \<Rightarrow> bool" where
  "hash_updated h \<longleftrightarrow>
     (case (h_previous_hash h, h_current_hash h) of (Some p, Some q) \<Rightarrow> p \<noteq> q | _ \<Rightarrow> False)"

definition GetNewAllocations :: "catalog \<Rightarrow> string \<Rightarrow> string list" where
  "GetNewAllocations c job =
     hash_join c job (\<lambda>h. h_previous_hash h = None) (\<lambda>a. \<not> a_removed a \<and> \<not> a_disabled a)"

definition GetUpdatedNonRemovedAllocations :: "catalog \<Rightarrow> string \<Rightarrow> string list" where
  "GetUpdatedNonRemovedAllocations c job = hash_join c job hash_updated (\<lambda>a. \<not> a_removed a)"

definition GetUpdatedAllocations :: "catalog \<Rightarrow> string \<Rightarrow> string list" where
  "GetUpdatedAllocations c job =
     hash_join c job hash_updated (\<lambda>a. \<not> a_removed a \<and> \<not> a_disabled a)"

definition GetJobs :: "catalog \<Rightarrow> string list" where
  "GetJobs c = map j_name (t_job c)"

definition job_id_of :: "catalog \<Rightarrow> string \<Rightarrow> string option" where
  "job_id_of c name = (case jobs_named c name of [] \<Rightarrow> None | j # _ \<Rightarrow> Some (j_id j))"

definition GetJobMemoryLimits :: "catalog \<Rightarrow> string \<Rightarrow> error + string \<times> string" where
  "GetJobMemoryLimits c job = map_sum id (\<lambda>j. (j_min_memory j, j_max_memory j)) (query_row (jobs_named c job))"

definition GetJobMemory :: "catalog \<Rightarrow> string \<Rightarrow> error + string" where
  "GetJobMemory c job = map_sum id j_memory (query_row (jobs_named c job))"

definition GetJobCPULimits :: "catalog \<Rightarrow> string \<Rightarrow> error + string \<times> string" where
  "GetJobCPULimits c job = map_sum id (\<lambda>j. (j_min_cpu j, j_max_cpu j)) (query_row (jobs_named c job))"

definition GetJobCPU :: "catalog \<Rightarrow> string \<Rightarrow> error + string" where
  "GetJobCPU c job = map_sum id j_cpu (query_row (jobs_named c job))"

definition GetJobSelectors :: "catalog \<Rightarrow> string \<Rightarrow> string list" where
  "GetJobSelectors c job = map snd (filter (\<lambda>(jid, _). job_id_of c job = Some jid) (t_job_selectors c))"

definition GetJobCommands :: "catalog \<Rightarrow> string \<Rightarrow> string \<Rightarrow> string list" where
  "GetJobCommands c job event =
     Unique (map q_name (filter (\<lambda>q. q_job q = job \<and> q_executed_on q = event) (t_job_commands c)))"

definition GetJobsWithCommand :: "catalog \<Rightarrow> string \<Rightarrow> string \<Rightarrow> string list" where
  "GetJobsWithCommand c commandName event =
     sort_strings (Unique (map q_job
       (filter (\<lambda>q. q_name q = commandName \<and> q_executed_on q = event) (t_job_commands c))))"

definition GetMaxConcurrentUpgrades :: "catalog \<Rightarrow> string \<Rightarrow> error + int" where
  "GetMaxConcurrentUpgrades c job = map_sum id j_max_upgrades (query_row (jobs_named c job))"

definition GetMaxConcurrentStarts :: "catalog \<Rightarrow> string \<Rightarrow> error + int" where
  "GetMaxConcurrentStarts c job =
     rbind (query_row (jobs_named c job)) (\<lambda>j. Ok (if j_max_starts j < 0 then 0 else j_max_starts j))"

definition GetRestartPolicy :: "catalog \<Rightarrow> string \<Rightarrow> error + string" where
  "GetRestartPolicy c job =
     rbind (query_row (jobs_named c job)) (\<lambda>j. NormalizeRestartPolicy (j_restart_policy j))"

definition GetRestartGlobs :: "catalog \<Rightarrow> string \<Rightarrow> error + string list" where
  "GetRestartGlobs c job = map_sum id j_restart_globs (query_row (jobs_named c job))"

definition GetJobsByDeploymentSeq :: "catalog \<Rightarrow> int \<Rightarrow> string list" where
  "GetJobsByDeploymentSeq c n =
     Unique (map a_job (filter (\<lambda>a. a_seq a = n \<and> \<not> a_removed a \<and> jobs_named c (a_job a) \<noteq> []) (t_allocations c)))"

definition GetAllAllocatedJobs :: "catalog \<Rightarrow> string list" where
  "GetAllAllocatedJobs c = Unique (map a_job (t_allocations c))"

definition GetJobHealthCheck :: "catalog \<Rightarrow> string \<Rightarrow> health_check option" where
  "GetJobHealthCheck c job =
     (case jobs_named c job of
        [] \<Rightarrow> None
      | j # _ \<Rightarrow> (case j_health_check j of
                    None \<Rightarrow> None
                  | Some spec \<Rightarrow> if hc_checks spec = [] then None else Some spec))"

definition GetJobPortNumber :: "catalog \<Rightarrow> string \<Rightarrow> string \<Rightarrow> error + int" where
  "GetJobPortNumber c job portName =
     (case filter (\<lambda>p. job_id_of c job = Some (p_job_id p) \<and> p_name p = portName) (t_job_ports c) of
        [] \<Rightarrow> Err ErrInvalidManifest
      | p # _ \<Rightarrow> Ok (p_port p))"

section \<open>Bucket and worker catalog (data/bucket_meta.go, data/worker_catalog.go, data/stopped_allocations.go)\<close>

definition BucketInitialized :: "catalog \<Rightarrow> bool" where
  "BucketInitialized c \<longleftrightarrow> (case t_bucket c of [] \<Rightarrow> False | b # _ \<Rightarrow> b_id b \<noteq> [])"

definition GetBucketID :: "catalog \<Rightarrow> error + string" where
  "GetBucketID c = map_sum id b_id (query_row (t_bucket c))"

definition GetBucketUpdateSeq :: "catalog \<Rightarrow> error + int" where
  "GetBucketUpdateSeq c = map_sum id b_update_seq (query_row (t_bucket c))"

definition SetBucketUpdateSeq :: "catalog \<Rightarrow> int \<Rightarrow> catalog" where
  "SetBucketUpdateSeq c n = c\<lparr>t_bucket := map (\<lambda>b. b\<lparr>b_update_seq := n\<rparr>) (t_bucket c)\<rparr>"

definition GetMaxDeploymentSeq :: "catalog \<Rightarrow> int" where
  "GetMaxDeploymentSeq c =
     (case map a_seq (t_allocations c) of [] \<Rightarrow> 0 | n # ns \<Rightarrow> foldl max n ns)"

definition JobCatalogNamespace :: "string \<Rightarrow> string" where
  "JobCatalogNamespace job = ''maand/job/'' @ job"

definition BuildJobKVNamespaces :: "string \<Rightarrow> string list" where
  "BuildJobKVNamespaces job = [''maand/job/'' @ job, ''vars/bucket/job/'' @ job]"

definition JobCommandKVNamespaces :: "string \<Rightarrow> string list" where
  "JobCommandKVNamespaces job = [''vars/job/'' @ job, ''secrets/job/'' @ job]"

definition JobKVNamespaces :: "string \<Rightarrow> string list" where
  "JobKVNamespaces job = BuildJobKVNamespaces job @ JobCommandKVNamespaces job"

definition AllowedKVNamespaces :: "string \<Rightarrow> string \<Rightarrow> string list" where
  "AllowedKVNamespaces job ip =
     [''maand/bucket'', ''vars/bucket'', ''maand/worker'', ''maand/worker/'' @ ip,
      ''maand/worker/'' @ ip @ ''/tags'', ''maand/job/'' @ job, ''vars/bucket/job/'' @ job,
      ''vars/job/'' @ job, ''secrets/job/'' @ job, ''maand/job/'' @ job @ ''/worker/'' @ ip,
      ''maand/prometheus'']"

text \<open>SQL's \<open>trim\<close> removes spaces only.\<close>

definition sql_trim :: "string \<Rightarrow> string" where
  "sql_trim s = rev (dropWhile (\<lambda>c. c = CHR '' '') (rev (dropWhile (\<lambda>c. c = CHR '' '') s)))"

definition UpstreamDemandKVNamespaces :: "catalog \<Rightarrow> string \<Rightarrow> string list" where
  "UpstreamDemandKVNamespaces c job =
     concat (map (\<lambda>u. [''maand/job/'' @ u, ''vars/job/'' @ u, ''secrets/job/'' @ u])
       (Unique (map q_demand_job
          (filter (\<lambda>q. q_job q = job \<and> sql_trim (q_demand_job q) \<noteq> []) (t_job_commands c)))))"

definition AllowedKVNamespacesWithUpstream :: "catalog \<Rightarrow> string \<Rightarrow> string \<Rightarrow> string list" where
  "AllowedKVNamespacesWithUpstream c job ip = AllowedKVNamespaces job ip @ UpstreamDemandKVNamespaces c job"

definition AccessibleKVNamespacesForJob :: "catalog \<Rightarrow> string \<Rightarrow> string list" where
  "AccessibleKVNamespacesForJob c job =
     Unique (concat (map (AllowedKVNamespacesWithUpstream c job) (GetNonRemovedAllocations c job)))"

record stopped_allocation =
  sa_ip :: string
  sa_job :: string
  sa_removed :: bool
  sa_disabled :: bool

definition ListStoppedAllocations :: "catalog \<Rightarrow> stopped_allocation list" where
  "ListStoppedAllocations c =
     map (\<lambda>a. \<lparr>sa_ip = a_ip a, sa_job = a_job a, sa_removed = a_removed a, sa_disabled = a_disabled a\<rparr>)
       (filter (\<lambda>a. a_removed a \<or> a_disabled a) (t_allocations c))"

definition LoadWorkerCatalog :: "catalog \<Rightarrow> string list" where
  "LoadWorkerCatalog c = GetWorkers c []"

definition StoppedAllocationAssumeDead :: "stopped_allocation \<Rightarrow> string list \<Rightarrow> bool" where
  "StoppedAllocationAssumeDead alloc workers \<longleftrightarrow> sa_removed alloc \<and> sa_ip alloc \<notin> set workers"

section \<open>Port assignments (data/ports.go)\<close>

type_synonym port_assignments = "(string \<times> (string \<times> int) list) list"

definition inner_map :: "(string \<times> (string \<times> 'v) list) list \<Rightarrow> string \<Rightarrow> (string \<times> 'v) list" where
  "inner_map m j = (case map_of m j of None \<Rightarrow> [] | Some x \<Rightarrow> x)"

definition assign :: "port_assignments \<Rightarrow> string \<Rightarrow> string \<Rightarrow> int \<Rightarrow> port_assignments" where
  "assign m j n p = AList.update j (AList.update n p (inner_map m j)) m"

definition joined_ports :: "catalog \<Rightarrow> (string \<times> string \<times> int) list" where
  "joined_ports c =
     concat (map (\<lambda>p. map (\<lambda>j. (j_name j, p_name p, p_port p)) (filter (\<lambda>j. j_id j = p_job_id p) (t_job c)))
       (t_job_ports c))"

definition GetAllJobPortAssignments :: "catalog \<Rightarrow> port_assignments" where
  "GetAllJobPortAssignments c = foldl (\<lambda>m (j, n, p). assign m j n p) [] (joined_ports c)"

definition GetJobPortMapInt :: "catalog \<Rightarrow> string \<Rightarrow> (string \<times> int) list" where
  "GetJobPortMapInt c job =
     foldl (\<lambda>m p. AList.update (p_name p) (p_port p) m) []
       (filter (\<lambda>p. job_id_of c job = Some (p_job_id p)) (t_job_ports c))"

end
