(* ===== verification/Ports.thy ===== *)
theory Ports
  imports Catalog
begin

text \<open>
  Port assignment during \<open>maand build\<close> (\<open>build/build_ports.go\<close>, \<open>bucket/port_range.go\<close>): each job
  port is a fixed number of its manifest or one from the bucket's pool; a number once assigned from
  the pool is kept.
\<close>

section \<open>The pool (bucket/port_range.go)\<close>

record port_range =
  pr_min :: int
  pr_max :: int

definition Contains :: "port_range \<Rightarrow> int \<Rightarrow> bool" where
  "Contains r port \<longleftrightarrow> port \<ge> pr_min r \<and> port \<le> pr_max r"

definition port_range_Validate :: "port_range \<Rightarrow> error + unit" where
  "port_range_Validate r =
     (if pr_min r < 1 \<or> pr_max r > 65535 \<or> pr_min r > pr_max r then Err ErrInvalidPortRange else Ok ())"

definition range_setting :: "(string \<times> string) list \<Rightarrow> string \<Rightarrow> int \<Rightarrow> error + int" where
  "range_setting settings k d =
     (case map_of settings k of
        None \<Rightarrow> Ok d
      | Some raw \<Rightarrow>
          if trim_space raw = [] then Ok d
          else (case atoi (trim_space raw) of None \<Rightarrow> Err ErrInvalidPortRange | Some n \<Rightarrow> Ok n))"

text \<open>\<open>settings\<close> is the decoded \<open>bucket.conf\<close>, \<open>None\<close> when there is no such file.\<close>

definition LoadPortRange :: "(string \<times> string) list option \<Rightarrow> error + port_range" where
  "LoadPortRange settings =
     (case settings of
        None \<Rightarrow> Ok \<lparr>pr_min = 30000, pr_max = 39999\<rparr>
      | Some conf \<Rightarrow>
          rbind (range_setting conf ''port_min'' 30000) (\<lambda>mn.
          rbind (range_setting conf ''port_max'' 39999) (\<lambda>mx.
          let r = \<lparr>pr_min = mn, pr_max = mx\<rparr>
          in rbind (port_range_Validate r) (\<lambda>_. Ok r))))"

section \<open>The allocator (build/build_ports.go)\<close>

text \<open>\<open>usedNumbers\<close> is a set of numbers, here a list of which only membership is read.\<close>

record port_allocator =
  pa_range :: port_range
  pa_existing :: port_assignments
  pa_used :: "int list"

definition newPortAllocator :: "port_assignments \<Rightarrow> port_range \<Rightarrow> port_allocator" where
  "newPortAllocator existing r =
     \<lparr>pa_range = r, pa_existing = existing, pa_used = concat (map (\<lambda>(_, ports). map snd ports) existing)\<rparr>"

definition assigned :: "port_allocator \<Rightarrow> string \<Rightarrow> string \<Rightarrow> int option" where
  "assigned a job name = map_of (inner_map (pa_existing a) job) name"

definition claimPort :: "port_allocator \<Rightarrow> string \<Rightarrow> string \<Rightarrow> int \<Rightarrow> error + port_allocator" where
  "claimPort a job name port =
     (if assigned a job name = Some port then Ok (a\<lparr>pa_used := List.insert port (pa_used a)\<rparr>)
      else if port \<in> set (pa_used a) then Err ErrPortCollision
      else Ok (a\<lparr>pa_used := List.insert port (pa_used a),
                 pa_existing := assign (pa_existing a) job name port\<rparr>))"

definition releaseAssignedNumber :: "port_allocator \<Rightarrow> string \<Rightarrow> string \<Rightarrow> port_allocator" where
  "releaseAssignedNumber a job name =
     (case assigned a job name of
        None \<Rightarrow> a
      | Some prev \<Rightarrow> a\<lparr>pa_used := removeAll prev (pa_used a)\<rparr>)"

text \<open>\<open>for port := Min; port <= Max; port++\<close>: the first number that is not taken.\<close>

definition first_free :: "port_allocator \<Rightarrow> int option" where
  "first_free a = find (\<lambda>p. p \<notin> set (pa_used a)) [pr_min (pa_range a)..pr_max (pa_range a)]"

definition assignProvisioned ::
  "port_allocator \<Rightarrow> string \<Rightarrow> string \<Rightarrow> error + (int \<times> port_allocator)" where
  "assignProvisioned a job name =
     rbind (ValidatePortKey name) (\<lambda>_.
       (let pool = (\<lambda>b. case first_free b of
                          None \<Rightarrow> Err ErrPortRangeExhausted
                        | Some port \<Rightarrow> rbind (claimPort b job name port) (\<lambda>b'. Ok (port, b')))
        in case assigned a job name of
             None \<Rightarrow> pool a
           | Some prev \<Rightarrow>
               if Contains (pa_range a) prev then Ok (prev, a\<lparr>pa_used := List.insert prev (pa_used a)\<rparr>)
               else pool (releaseAssignedNumber a job name)))"

definition assignFixed ::
  "port_allocator \<Rightarrow> string \<Rightarrow> string \<Rightarrow> int \<Rightarrow> error + (int \<times> port_allocator)" where
  "assignFixed a job name port =
     rbind (ValidatePortKey name) (\<lambda>_.
       (let b = (case assigned a job name of
                   None \<Rightarrow> a
                 | Some prev \<Rightarrow> if prev \<noteq> port then releaseAssignedNumber a job name else a)
        in rbind (claimPort b job name port) (\<lambda>b'. Ok (port, b'))))"

definition port_resolve ::
  "port_allocator \<Rightarrow> string \<Rightarrow> string \<Rightarrow> port_binding \<Rightarrow> error + (int \<times> port_allocator)" where
  "port_resolve a job name binding =
     (case binding of None \<Rightarrow> assignProvisioned a job name | Some port \<Rightarrow> assignFixed a job name port)"

definition releaseRemoved :: "port_allocator \<Rightarrow> string \<Rightarrow> string list \<Rightarrow> port_allocator" where
  "releaseRemoved a job keepNames =
     (let prev = inner_map (pa_existing a) job
      in if prev = [] then a
         else a\<lparr>pa_used := fold removeAll (map snd (filter (\<lambda>(n, _). n \<notin> set keepNames) prev)) (pa_used a),
                pa_existing := AList.update job (filter (\<lambda>(n, _). n \<in> set keepNames) prev) (pa_existing a)\<rparr>)"

definition sync_one_port ::
  "string \<Rightarrow> string \<Rightarrow> manifest_ports \<Rightarrow> port_row list \<times> port_allocator \<Rightarrow> string \<Rightarrow>
   error + (port_row list \<times> port_allocator)" where
  "sync_one_port jobID job ports s name =
     (case s of (rows, a) \<Rightarrow>
        rbind (port_resolve a job name (case map_of ports name of None \<Rightarrow> None | Some b \<Rightarrow> b)) (\<lambda>(port, a').
          Ok (rows @ [\<lparr>p_job_id = jobID, p_name = name, p_port = port\<rparr>], a')))"

definition syncJobPorts ::
  "string \<Rightarrow> string \<Rightarrow> manifest_ports \<Rightarrow> port_row list \<times> port_allocator \<Rightarrow>
   error + (port_row list \<times> port_allocator)" where
  "syncJobPorts jobID job ports s =
     (case s of (rows, a) \<Rightarrow>
        rfold (sync_one_port jobID job ports)
          (filter (\<lambda>p. p_job_id p \<noteq> jobID) rows, releaseRemoved a job (port_Names ports)) (port_Names ports))"

definition buildPortAllocator ::
  "catalog \<Rightarrow> manifest list \<Rightarrow> (string \<times> string) list option \<Rightarrow> error + port_allocator" where
  "buildPortAllocator c manifests settings =
     (let needsPorts = list_ex (\<lambda>m. m_ports m \<noteq> []) manifests
      in rbind (LoadPortRange settings) (\<lambda>r.
           rbind (if needsPorts then port_range_Validate r else Ok ()) (\<lambda>_.
             Ok (newPortAllocator (GetAllJobPortAssignments c) r))))"

section \<open>The allocator invariant\<close>

text \<open>
  No number is assigned to two job ports, and the used numbers are exactly the assigned ones.
  Between \<open>releaseAssignedNumber\<close> and the claim that follows one port is exempt.
\<close>

definition asg :: "port_allocator \<Rightarrow> string \<times> string \<Rightarrow> int option" where
  "asg a k = assigned a (fst k) (snd k)"

definition exact_but :: "('k \<Rightarrow> 'v option) \<Rightarrow> 'v set \<Rightarrow> 'k set \<Rightarrow> bool" where
  "exact_but F U X \<longleftrightarrow>
     (\<forall>k k' p. k \<notin> X \<longrightarrow> k' \<notin> X \<longrightarrow> F k = Some p \<longrightarrow> F k' = Some p \<longrightarrow> k = k') \<and>
     (\<forall>p. p \<in> U \<longleftrightarrow> (\<exists>k. k \<notin> X \<and> F k = Some p))"

definition ports_ok :: "port_allocator \<Rightarrow> bool" where
  "ports_ok a \<longleftrightarrow> exact_but (asg a) (set (pa_used a)) {}"

lemma exact_claim:
  assumes "exact_but F U X" and "X \<subseteq> {k}" and "p \<notin> U" and "k \<in> X \<or> F k = None"
  shows "exact_but (F(k \<mapsto> p)) (insert p U) {}"
proof -
  have out: "k' \<notin> X" if "k' \<noteq> k" for k' using that assms(2) by blast
  have fresh: "F k' \<noteq> Some p" if "k' \<noteq> k" for k'
    using assms(1,3) out [OF that] unfolding exact_but_def by blast
  have "q \<in> insert p U \<longleftrightarrow> (\<exists>k'. (F(k \<mapsto> p)) k' = Some q)" for q
  proof
    assume "q \<in> insert p U"
    then show "\<exists>k'. (F(k \<mapsto> p)) k' = Some q"
    proof
      assume "q = p" then show ?thesis by (intro exI [of _ k]) simp
    next
      assume "q \<in> U"
      then obtain k' where k': "k' \<notin> X" "F k' = Some q" using assms(1) unfolding exact_but_def by blast
      then have "k' \<noteq> k" using assms(4) by auto
      with k' show ?thesis by (intro exI [of _ k']) simp
    qed
  next
    assume "\<exists>k'. (F(k \<mapsto> p)) k' = Some q"
    then obtain k' where "(F(k \<mapsto> p)) k' = Some q" by blast
    then show "q \<in> insert p U"
      using out [of k'] assms(1) unfolding exact_but_def by (cases "k' = k") auto
  qed
  moreover have "k1 = k2" if "(F(k \<mapsto> p)) k1 = Some q" "(F(k \<mapsto> p)) k2 = Some q" for k1 k2 q
    using that fresh [of k1] fresh [of k2] out [of k1] out [of k2] assms(1)
    unfolding exact_but_def by (cases "k1 = k"; cases "k2 = k") auto
  ultimately show ?thesis unfolding exact_but_def by blast
qed

lemma exact_butI:
  assumes "\<And>k k' p. k \<notin> X \<Longrightarrow> k' \<notin> X \<Longrightarrow> F k = Some p \<Longrightarrow> F k' = Some p \<Longrightarrow> k = k'"
    and "\<And>p. p \<in> U \<Longrightarrow> \<exists>k. k \<notin> X \<and> F k = Some p"
    and "\<And>k p. k \<notin> X \<Longrightarrow> F k = Some p \<Longrightarrow> p \<in> U"
  shows "exact_but F U X"
  using assms unfolding exact_but_def by blast

lemma exact_inj: "exact_but F U {} \<Longrightarrow> F k = Some p \<Longrightarrow> F k' = Some p \<Longrightarrow> k = k'"
  unfolding exact_but_def by blast

lemma exact_mem: "exact_but F U {} \<Longrightarrow> p \<in> U \<longleftrightarrow> (\<exists>k. F k = Some p)"
  unfolding exact_but_def by blast

lemma exact_release:
  assumes e: "exact_but F U {}" and k: "F k = Some p"
  shows "exact_but F (U - {p}) {k}"
proof (rule exact_butI)
  fix q
  assume "q \<in> U - {p}"
  then obtain k' where "F k' = Some q" "q \<noteq> p" using exact_mem [OF e] by blast
  then show "\<exists>k'. k' \<notin> {k} \<and> F k' = Some q" using k by (intro exI [of _ k']) auto
next
  fix k' q
  assume "k' \<notin> {k}" "F k' = Some q"
  then show "q \<in> U - {p}" using exact_mem [OF e] exact_inj [OF e k, of k'] by auto
qed (rule exact_inj [OF e])

lemma exact_keep:
  assumes "exact_but F U {}" and "F k = Some p"
  shows "exact_but F (insert p U) {}"
  using assms unfolding exact_but_def by auto

lemma exact_restrict:
  assumes e: "exact_but F U {}"
  shows "exact_but (F |` (- D)) (U - {p. \<exists>k \<in> D. F k = Some p}) {}"
proof (rule exact_butI)
  fix k k' q
  assume "(F |` (- D)) k = Some q" "(F |` (- D)) k' = Some q"
  then show "k = k'" using exact_inj [OF e] by (auto simp: restrict_map_def split: if_splits)
next
  fix q
  assume "q \<in> U - {p. \<exists>k \<in> D. F k = Some p}"
  then show "\<exists>k. k \<notin> {} \<and> (F |` (- D)) k = Some q"
    using exact_mem [OF e, of q] by (auto simp: restrict_map_def)
next
  fix k q
  assume "(F |` (- D)) k = Some q"
  then have k: "F k = Some q" "k \<notin> D" by (auto simp: restrict_map_def split: if_splits)
  then have "\<not> (\<exists>k' \<in> D. F k' = Some q)" using exact_inj [OF e] by blast
  with k show "q \<in> U - {p. \<exists>k \<in> D. F k = Some p}" using exact_mem [OF e] by blast
qed

lemma inner_map_assign: "inner_map (assign m j n p) j' =
    (if j' = j then AList.update n p (inner_map m j) else inner_map m j')"
  by (simp add: inner_map_def assign_def)

lemma asg_claim:
  "asg (a\<lparr>pa_used := u, pa_existing := assign (pa_existing a) j n p\<rparr>) = (asg a)((j, n) \<mapsto> p)"
  by (auto simp: asg_def assigned_def inner_map_assign fun_eq_iff)

lemma asg_used [simp]: "asg (a\<lparr>pa_used := u\<rparr>) = asg a"
  by (simp add: asg_def assigned_def fun_eq_iff)

lemma claimPort_step:
  assumes c: "claimPort a job name port = Inr a'" and e: "exact_but (asg a) (set (pa_used a)) X"
    and X: "X \<subseteq> {(job, name)}" and old: "(job, name) \<in> X \<longrightarrow> asg a (job, name) \<noteq> Some port"
    and none: "(job, name) \<in> X \<or> asg a (job, name) = None \<or> asg a (job, name) = Some port"
  shows "ports_ok a'" and "asg a' = (asg a)((job, name) \<mapsto> port)" and "pa_range a' = pa_range a"
proof -
  have "ports_ok a' \<and> asg a' = (asg a)((job, name) \<mapsto> port) \<and> pa_range a' = pa_range a"
  proof (cases "asg a (job, name) = Some port")
    case True
    then have "X = {}" using X old by auto
    moreover have a': "a' = a\<lparr>pa_used := List.insert port (pa_used a)\<rparr>"
      using c True by (simp add: claimPort_def asg_def)
    ultimately show ?thesis
      using e True exact_keep [of "asg a" "set (pa_used a)"] by (auto simp: ports_ok_def)
  next
    case False
    then have u: "port \<notin> set (pa_used a)"
      and a': "a' = a\<lparr>pa_used := List.insert port (pa_used a),
        pa_existing := assign (pa_existing a) job name port\<rparr>"
      using c by (auto simp: claimPort_def asg_def split: if_splits)
    have "asg a' = (asg a)((job, name) \<mapsto> port)" unfolding a' by (rule asg_claim)
    then show ?thesis
      using exact_claim [OF e X u] none False by (simp add: a' ports_ok_def)
  qed
  then show "ports_ok a'" "asg a' = (asg a)((job, name) \<mapsto> port)" "pa_range a' = pa_range a" by auto
qed

lemma release_step:
  assumes "ports_ok a" and "asg a (job, name) = Some prev"
  shows "exact_but (asg (releaseAssignedNumber a job name))
      (set (pa_used (releaseAssignedNumber a job name))) {(job, name)}"
    and "asg (releaseAssignedNumber a job name) = asg a"
    and "pa_range (releaseAssignedNumber a job name) = pa_range a"
    and "set (pa_used (releaseAssignedNumber a job name)) = set (pa_used a) - {prev}"
  using assms exact_release [of "asg a" "set (pa_used a)" "(job, name)" prev]
  by (simp_all add: releaseAssignedNumber_def ports_ok_def asg_def assigned_def fun_eq_iff)

lemma first_free_Some:
  "first_free a = Some p \<Longrightarrow> Contains (pa_range a) p \<and> p \<notin> set (pa_used a)"
  by (auto simp: first_free_def find_Some_iff Contains_def)

lemma first_free_None:
  "first_free a = None \<longleftrightarrow> (\<forall>p. Contains (pa_range a) p \<longrightarrow> p \<in> set (pa_used a))"
  by (auto simp: first_free_def find_None_iff Contains_def)

text \<open>One resolved port: the invariant holds again, exactly one assignment changed, and the number is
  the fixed one, or the old one when it lies in the pool, or the smallest free number of the pool.\<close>

lemma provisioned_step:
  assumes r: "assignProvisioned a job name = Inr (port, a')" and ok: "ports_ok a"
  shows "ports_ok a' \<and> asg a' = (asg a)((job, name) \<mapsto> port) \<and> pa_range a' = pa_range a \<and>
    Contains (pa_range a) port \<and>
    (\<forall>prev. asg a (job, name) = Some prev \<and> Contains (pa_range a) prev \<longrightarrow> port = prev)"
proof (cases "asg a (job, name)")
  case None
  then have "assigned a job name = None" by (simp add: asg_def)
  with r obtain p b where f: "first_free a = Some port" and c: "claimPort a job name port = Inr a'"
    by (auto simp: assignProvisioned_def rbind_Inr_conv Let_def split: option.splits)
  have e: "exact_but (asg a) (set (pa_used a)) {}" using ok by (simp add: ports_ok_def)
  show ?thesis
    using claimPort_step [OF c e] first_free_Some [OF f] None by simp
next
  case (Some prev)
  then have as: "assigned a job name = Some prev" by (simp add: asg_def)
  show ?thesis
  proof (cases "Contains (pa_range a) prev")
    case True
    then have "port = prev" "a' = a\<lparr>pa_used := List.insert prev (pa_used a)\<rparr>"
      using r as by (auto simp: assignProvisioned_def rbind_Inr_conv)
    then show ?thesis
      using ok True Some exact_keep [of "asg a" "set (pa_used a)"] by (auto simp: ports_ok_def)
  next
    case False
    let ?b = "releaseAssignedNumber a job name"
    note rel = release_step [OF ok Some]
    from r as False have f: "first_free ?b = Some port" and c: "claimPort ?b job name port = Inr a'"
      by (auto simp: assignProvisioned_def rbind_Inr_conv Let_def split: option.splits)
    have cont: "Contains (pa_range a) port" using first_free_Some [OF f] rel(3) by simp
    then have "asg ?b (job, name) \<noteq> Some port" using rel(2) Some False by auto
    then show ?thesis
      using claimPort_step [OF c rel(1)] rel cont Some False by simp
  qed
qed

lemma fixed_step:
  assumes r: "assignFixed a job name port0 = Inr (port, a')" and ok: "ports_ok a"
  shows "ports_ok a' \<and> asg a' = (asg a)((job, name) \<mapsto> port) \<and> pa_range a' = pa_range a \<and> port = port0"
proof -
  define b where "b = (case assigned a job name of None \<Rightarrow> a
     | Some prev \<Rightarrow> if prev \<noteq> port0 then releaseAssignedNumber a job name else a)"
  have p: "port = port0" and c: "claimPort b job name port = Inr a'"
    using r by (auto simp: assignFixed_def rbind_Inr_conv Let_def b_def)
  have e: "exact_but (asg a) (set (pa_used a)) {}" using ok by (simp add: ports_ok_def)
  show ?thesis
  proof (cases "\<exists>prev. asg a (job, name) = Some prev \<and> prev \<noteq> port")
    case True
    then obtain prev where prev: "asg a (job, name) = Some prev" "prev \<noteq> port" by blast
    then have b: "b = releaseAssignedNumber a job name" by (simp add: b_def asg_def p)
    note rel = release_step [OF ok prev(1)]
    show ?thesis
      using claimPort_step [OF c [unfolded b] rel(1)] rel prev p by simp
  next
    case False
    then have b: "b = a" by (auto simp: b_def asg_def p split: option.split)
    show ?thesis
      using claimPort_step [OF c [unfolded b] e] False p by (cases "asg a (job, name)") auto
  qed
qed


definition maps_ok :: "port_allocator \<Rightarrow> bool" where
  "maps_ok a \<longleftrightarrow> (\<forall>j. distinct_keys (inner_map (pa_existing a) j))"

definition binding_ok :: "port_range \<Rightarrow> int option \<Rightarrow> port_binding \<Rightarrow> int \<Rightarrow> bool" where
  "binding_ok r old b p \<longleftrightarrow>
     (case b of
        Some f \<Rightarrow> p = f
      | None \<Rightarrow> Contains r p \<and> (\<forall>prev. old = Some prev \<and> Contains r prev \<longrightarrow> p = prev))"

lemma maps_ok_claim: "claimPort a j n p = Inr a' \<Longrightarrow> maps_ok a \<Longrightarrow> maps_ok a'"
  by (auto simp: claimPort_def maps_ok_def inner_map_assign split: if_splits)

lemma maps_ok_release [simp]: "maps_ok (releaseAssignedNumber a j n) = maps_ok a"
  by (simp add: releaseAssignedNumber_def maps_ok_def split: option.split)

lemma maps_ok_used [simp]: "maps_ok (a\<lparr>pa_used := u\<rparr>) = maps_ok a"
  by (simp add: maps_ok_def)

lemma resolve_step:
  assumes "port_resolve a job name b = Inr (port, a')" and "ports_ok a" and "maps_ok a"
  shows "ports_ok a' \<and> maps_ok a' \<and> asg a' = (asg a)((job, name) \<mapsto> port) \<and> pa_range a' = pa_range a \<and>
    binding_ok (pa_range a) (asg a (job, name)) b port"
proof (cases b)
  case None
  then have r: "assignProvisioned a job name = Inr (port, a')"
    using assms(1) by (simp add: port_resolve_def)
  moreover have "maps_ok a'"
    using r assms(3) by (auto simp: assignProvisioned_def rbind_Inr_conv Let_def
        split: option.splits if_splits dest!: maps_ok_claim)
  ultimately show ?thesis
    using provisioned_step [OF r assms(2)] None by (simp add: binding_ok_def)
next
  case (Some f)
  then have r: "assignFixed a job name f = Inr (port, a')"
    using assms(1) by (simp add: port_resolve_def)
  moreover have "maps_ok a'"
    using r assms(3) by (auto simp: assignFixed_def rbind_Inr_conv Let_def
        split: option.splits if_splits dest!: maps_ok_claim)
  ultimately show ?thesis
    using fixed_step [OF r assms(2)] Some by (simp add: binding_ok_def)
qed

lemma map_of_filter_key: "map_of (filter (\<lambda>(n, _). P n) m) k = (if P k then map_of m k else None)"
  by (induction m) auto

lemma set_fold_removeAll: "set (fold removeAll xs ys) = set ys - set xs"
  by (induction xs arbitrary: ys) auto

lemma releaseRemoved_step:
  assumes ok: "ports_ok a" and m: "maps_ok a"
  shows "ports_ok (releaseRemoved a job keep) \<and> maps_ok (releaseRemoved a job keep) \<and>
    pa_range (releaseRemoved a job keep) = pa_range a \<and>
    asg (releaseRemoved a job keep) = asg a |` (- {k. fst k = job \<and> snd k \<notin> set keep})"
proof (cases "inner_map (pa_existing a) job = []")
  case True
  then have "asg a k = None" if "fst k = job" for k
    using that by (simp add: asg_def assigned_def)
  then have "asg a = asg a |` (- {k. fst k = job \<and> snd k \<notin> set keep})"
    by (auto simp: fun_eq_iff restrict_map_def)
  with True ok m show ?thesis by (simp add: releaseRemoved_def)
next
  case False
  let ?m = "inner_map (pa_existing a) job"
  let ?D = "{k. fst k = job \<and> snd k \<notin> set keep}"
  let ?b = "releaseRemoved a job keep"
  have inner: "inner_map (pa_existing ?b) j =
      (if j = job then filter (\<lambda>(n, _). n \<in> set keep) ?m else inner_map (pa_existing a) j)" for j
    using False by (simp add: releaseRemoved_def Let_def inner_map_def)
  have as: "asg ?b = asg a |` (- ?D)"
    by (auto simp: asg_def assigned_def inner map_of_filter_key fun_eq_iff restrict_map_def)
  have d: "distinct_keys ?m" using m by (simp add: maps_ok_def)
  have gone: "set (map snd (filter (\<lambda>(n, _). n \<notin> set keep) ?m)) = {p. \<exists>k \<in> ?D. asg a k = Some p}"
    using d by (force simp: asg_def assigned_def dest: map_of_SomeD)
  have used: "set (pa_used ?b) = set (pa_used a) - {p. \<exists>k \<in> ?D. asg a k = Some p}"
    using False gone by (simp add: releaseRemoved_def Let_def set_fold_removeAll)
  have "ports_ok ?b"
    using exact_restrict [of "asg a" "set (pa_used a)" ?D] ok by (simp add: ports_ok_def as used)
  moreover have "maps_ok ?b"
    using m by (auto simp: maps_ok_def inner intro: distinct_map_filter)
  moreover have "pa_range ?b = pa_range a" by (simp add: releaseRemoved_def Let_def)
  ultimately show ?thesis using as by blast
qed

abbreviation binding_of :: "manifest_ports \<Rightarrow> string \<Rightarrow> port_binding" where
  "binding_of ports n \<equiv> (case map_of ports n of None \<Rightarrow> None | Some b \<Rightarrow> b)"

lemma sync_loop:
  assumes "rfold (sync_one_port jid job ports) (rows, a) names = Inr (rows', a')"
    and "ports_ok a" and "maps_ok a" and "distinct names"
  shows "ports_ok a' \<and> maps_ok a' \<and> pa_range a' = pa_range a \<and>
    (\<forall>k. fst k \<noteq> job \<or> snd k \<notin> set names \<longrightarrow> asg a' k = asg a k) \<and>
    rows' = rows @ map (\<lambda>n. \<lparr>p_job_id = jid, p_name = n, p_port = the (asg a' (job, n))\<rparr>) names \<and>
    (\<forall>n \<in> set names. \<exists>p. asg a' (job, n) = Some p \<and>
       binding_ok (pa_range a) (asg a (job, n)) (binding_of ports n) p)"
  using assms
proof (induction names arbitrary: rows a)
  case (Cons n ns)
  obtain port a1 where r: "port_resolve a job n (binding_of ports n) = Inr (port, a1)"
    and rest: "rfold (sync_one_port jid job ports)
        (rows @ [\<lparr>p_job_id = jid, p_name = n, p_port = port\<rparr>], a1) ns = Inr (rows', a')"
  proof -
    from Cons.prems(1) obtain s1 where s1: "sync_one_port jid job ports (rows, a) n = Inr s1"
      and r1: "rfold (sync_one_port jid job ports) s1 ns = Inr (rows', a')"
      by (auto simp: rbind_Inr_conv)
    from s1 obtain port a1 where "port_resolve a job n (binding_of ports n) = Inr (port, a1)"
      and "s1 = (rows @ [\<lparr>p_job_id = jid, p_name = n, p_port = port\<rparr>], a1)"
      by (auto simp: sync_one_port_def rbind_Inr_conv)
    with r1 that show thesis by simp
  qed
  note st = resolve_step [OF r Cons.prems(2,3)]
  have d: "n \<notin> set ns" "distinct ns" using Cons.prems(4) by auto
  note ih = Cons.IH [OF rest _ _ d(2)]
  have "asg a' (job, n) = Some port" using ih st d by simp
  moreover have "asg a1 (job, m) = asg a (job, m)" if "m \<in> set ns" for m
    using st d that by auto
  ultimately show ?case using ih st d by auto
qed simp

lemma syncJobPorts_step:
  assumes s: "syncJobPorts jid job ports (rows, a) = Inr (rows', a')"
    and ok: "ports_ok a" "maps_ok a" and d: "distinct_keys ports"
  shows "ports_ok a' \<and> maps_ok a' \<and> pa_range a' = pa_range a \<and>
    (\<forall>k. fst k \<noteq> job \<longrightarrow> asg a' k = asg a k) \<and>
    (\<forall>n. n \<notin> fst ` set ports \<longrightarrow> asg a' (job, n) = None) \<and>
    rows' = filter (\<lambda>p. p_job_id p \<noteq> jid) rows @
      map (\<lambda>n. \<lparr>p_job_id = jid, p_name = n, p_port = the (asg a' (job, n))\<rparr>) (port_Names ports) \<and>
    (\<forall>n \<in> fst ` set ports. \<exists>p. asg a' (job, n) = Some p \<and>
       binding_ok (pa_range a) (asg a (job, n)) (binding_of ports n) p)"
proof -
  let ?b = "releaseRemoved a job (port_Names ports)"
  note rel = releaseRemoved_step [OF ok, of job "port_Names ports"]
  have "rfold (sync_one_port jid job ports) (filter (\<lambda>p. p_job_id p \<noteq> jid) rows, ?b) (port_Names ports) =
      Inr (rows', a')" using s by (simp add: syncJobPorts_def)
  note lp = sync_loop [OF this _ _ distinct_port_Names [OF d]]
  have same: "asg ?b (job, n) = asg a (job, n)" if "n \<in> fst ` set ports" for n
    using rel that by (simp add: restrict_map_def)
  have other: "asg ?b k = asg a k" if "fst k \<noteq> job" for k
    using rel that by (simp add: restrict_map_def)
  have none: "asg ?b (job, n) = None" if "n \<notin> fst ` set ports" for n
    using rel that by (simp add: restrict_map_def)
  show ?thesis using lp rel same other none by auto
qed

text \<open>The loop of \<open>BuildJobs\<close> over the jobs of the workspace, in sorted order.\<close>

definition syncAllPorts ::
  "(string \<times> string \<times> manifest_ports) list \<Rightarrow> port_row list \<times> port_allocator \<Rightarrow>
   error + (port_row list \<times> port_allocator)" where
  "syncAllPorts jobs s = rfold (\<lambda>s (jid, job, ports). syncJobPorts jid job ports s) s jobs"

text \<open>Every port of a job has a number that its binding allows.\<close>

definition bound_ports :: "port_allocator \<Rightarrow> port_allocator \<Rightarrow> string \<times> string \<times> manifest_ports \<Rightarrow> bool" where
  "bound_ports a a' x \<longleftrightarrow>
     (case x of (jid, job, ports) \<Rightarrow> \<forall>n \<in> fst ` set ports. \<exists>p. asg a' (job, n) = Some p \<and>
        binding_ok (pa_range a) (asg a (job, n)) (binding_of ports n) p)"

lemma syncAllPorts_run:
  assumes "syncAllPorts jobs (rows, a) = Inr (rows', a')"
    and "ports_ok a" "maps_ok a"
    and "distinct (map (fst \<circ> snd) jobs)" and "\<forall>(jid, job, ports) \<in> set jobs. distinct_keys ports"
  shows "ports_ok a' \<and> maps_ok a' \<and> pa_range a' = pa_range a \<and>
    (\<forall>k. fst k \<notin> (fst \<circ> snd) ` set jobs \<longrightarrow> asg a' k = asg a k) \<and>
    (\<forall>x \<in> set jobs. bound_ports a a' x)"
  using assms
proof (induction jobs arbitrary: rows a)
  case Nil
  then show ?case by (simp add: syncAllPorts_def)
next
  case (Cons x jobs)
  obtain jid job ports where x: "x = (jid, job, ports)" by (cases x) auto
  obtain rows1 a1 where s: "syncJobPorts jid job ports (rows, a) = Inr (rows1, a1)"
    and rest: "syncAllPorts jobs (rows1, a1) = Inr (rows', a')"
    using Cons.prems(1) by (auto simp: syncAllPorts_def rbind_Inr_conv x)
  note st = syncJobPorts_step [OF s Cons.prems(2,3)]
  have st: "ports_ok a1" "maps_ok a1" "pa_range a1 = pa_range a" "\<And>k. fst k \<noteq> job \<Longrightarrow> asg a1 k = asg a k"
    "\<And>n. n \<in> fst ` set ports \<Longrightarrow> \<exists>p. asg a1 (job, n) = Some p \<and>
       binding_ok (pa_range a) (asg a (job, n)) (binding_of ports n) p"
    using st Cons.prems(5) x by auto
  have fresh: "job \<notin> (fst \<circ> snd) ` set jobs" and d: "distinct (map (fst \<circ> snd) jobs)"
    using Cons.prems(4) by (auto simp: x comp_def)
  have ih: "ports_ok a'" "maps_ok a'" "pa_range a' = pa_range a1"
    "\<And>k. fst k \<notin> (fst \<circ> snd) ` set jobs \<Longrightarrow> asg a' k = asg a1 k"
    "\<And>y. y \<in> set jobs \<Longrightarrow> bound_ports a1 a' y"
    using Cons.IH [OF rest st(1,2) d] Cons.prems(5) by auto
  have "asg a' (job, n) = asg a1 (job, n)" for n
    using ih(4) [of "(job, n)"] fresh by simp
  then have here: "bound_ports a a' x"
    using st(5) by (simp add: bound_ports_def x)
  have "bound_ports a a' y" if y: "y \<in> set jobs" for y
  proof -
    have "fst (snd y) \<noteq> job" using fresh y by force
    then have "asg a1 (fst (snd y), n) = asg a (fst (snd y), n)" for n using st(4) by simp
    then show ?thesis using ih(5) [OF y] st(3) by (auto simp: bound_ports_def)
  qed
  moreover have "asg a' k = asg a k" if "fst k \<notin> (fst \<circ> snd) ` set (x # jobs)" for k
    using ih(4) [of k] st(4) [of k] that by (simp add: x)
  ultimately show ?case using ih(1,2,3) st(3) here by auto
qed

section \<open>Properties\<close>

text \<open>Property C26: port assignment keeps every number unique. Start from an allocator whose assignments
  are injective and whose used numbers are exactly the assigned ones (what \<open>newPortAllocator\<close> makes
  of a table without a duplicate number), and sync the ports of any list of jobs with different
  names. If it succeeds, no two ports of any jobs share a number, every fixed port has its number,
  every provisioned port lies in the pool and keeps the number it had there before, and the
  assignments of jobs that were not synced are as before.\<close>

theorem port_assignment_sound:
  assumes "syncAllPorts jobs (rows, a) = Inr (rows', a')" and "ports_ok a" and "maps_ok a"
    and "distinct (map (fst \<circ> snd) jobs)" and "\<forall>(jid, job, ports) \<in> set jobs. distinct_keys ports"
  shows "(\<forall>j n j' n' p. asg a' (j, n) = Some p \<and> asg a' (j', n') = Some p \<longrightarrow> j = j' \<and> n = n') \<and>
    (\<forall>x \<in> set jobs. bound_ports a a' x) \<and>
    (\<forall>k. fst k \<notin> (fst \<circ> snd) ` set jobs \<longrightarrow> asg a' k = asg a k) \<and> ports_ok a'"
proof -
  note run = syncAllPorts_run [OF assms]
  have e: "exact_but (asg a') (set (pa_used a')) {}" using run by (simp add: ports_ok_def)
  have "j = j' \<and> n = n'" if "asg a' (j, n) = Some p" "asg a' (j', n') = Some p" for j n j' n' p
    using exact_inj [OF e that] by simp
  with run show ?thesis by blast
qed

definition two_jobs :: "(string \<times> string \<times> manifest_ports) list" where
  "two_jobs = [(''1'', ''api'', [(''web'', None), (''admin'', Some 9000)]), (''2'', ''db'', [(''sql'', None)])]"

definition small_pool :: port_allocator where
  "small_pool = newPortAllocator [] \<lparr>pr_min = 30000, pr_max = 30002\<rparr>"

lemma small_pool_ok: "ports_ok small_pool" "maps_ok small_pool"
  by (simp_all add: ports_ok_def maps_ok_def exact_but_def small_pool_def newPortAllocator_def asg_def
      assigned_def inner_map_def)

lemma two_jobs_run: "map_sum id (map p_port \<circ> fst) (syncAllPorts two_jobs ([], small_pool)) = Ok [9000, 30000, 30001]"
  by (simp add: two_jobs_def small_pool_def newPortAllocator_def syncAllPorts_def syncJobPorts_def
      port_Names_def sort_strings_def releaseRemoved_def sync_one_port_def port_resolve_def
      assignProvisioned_def assignFixed_def ValidatePortKey_def trim_space_def trim_left_def go_space_def
      port_key_pattern_def port_key_char_def is_digit_def assigned_def inner_map_def first_free_def
      claimPort_def assign_def Let_def upto.simps)

lemma port_assignment_sound_witness:
  "\<exists>rows' a'. syncAllPorts two_jobs ([], small_pool) = Inr (rows', a') \<and>
     asg a' (''api'', ''admin'') = Some 9000 \<and> asg a' (''db'', ''sql'') \<noteq> asg a' (''api'', ''web'')"
proof -
  obtain rows' a' where r: "syncAllPorts two_jobs ([], small_pool) = Inr (rows', a')"
    using two_jobs_run by (cases "syncAllPorts two_jobs ([], small_pool)") auto
  have "distinct (map (fst \<circ> snd) two_jobs)" "\<forall>(jid, job, ports) \<in> set two_jobs. distinct_keys ports"
    by (simp_all add: two_jobs_def)
  note p = port_assignment_sound [OF r small_pool_ok this]
  from p have q: "\<forall>x \<in> set two_jobs. bound_ports small_pool a' x" by blast
  then have "bound_ports small_pool a' (''1'', ''api'', [(''web'', None), (''admin'', Some 9000)])"
    by (simp add: two_jobs_def)
  then have "asg a' (''api'', ''admin'') = Some 9000" "\<exists>p. asg a' (''api'', ''web'') = Some p"
    by (auto simp: bound_ports_def binding_ok_def)
  moreover have "asg a' (''db'', ''sql'') \<noteq> Some q" if "asg a' (''api'', ''web'') = Some q" for q
    using p [THEN conjunct1, rule_format, of "''db''" "''sql''" q "''api''" "''web''"] that by auto
  ultimately show ?thesis using r by (intro exI conjI) auto
qed

text \<open>A provisioned port is refused only for a reason. When \<open>assignProvisioned\<close> fails, the
  port name is malformed, or the error is \<open>ErrPortRangeExhausted\<close> and every number of the pool is
  assigned to another port.\<close>

theorem provisioned_failure:
  assumes "assignProvisioned a job name = Inl e" and "ports_ok a"
  shows "ValidatePortKey name = Inl e \<or>
    e = ErrPortRangeExhausted \<and>
    (\<forall>p. Contains (pa_range a) p \<longrightarrow> (\<exists>k. k \<noteq> (job, name) \<and> asg a k = Some p))"
proof (cases "ValidatePortKey name")
  case (Inl e')
  then show ?thesis using assms(1) by (simp add: assignProvisioned_def)
next
  case (Inr u)
  have claim: "claimPort b job name p \<noteq> Inl e'" if "first_free b = Some p" for b p e'
    using first_free_Some [OF that] by (simp add: claimPort_def)
  have e: "exact_but (asg a) (set (pa_used a)) {}" using assms(2) by (simp add: ports_ok_def)
  show ?thesis
  proof (cases "asg a (job, name)")
    case None
    then have f: "e = ErrPortRangeExhausted" "first_free a = None"
      using assms(1) Inr claim
      by (auto simp: assignProvisioned_def Let_def asg_def rbind_Inl_conv split: option.splits)
    have "\<exists>k. k \<noteq> (job, name) \<and> asg a k = Some p" if "Contains (pa_range a) p" for p
    proof -
      have "p \<in> set (pa_used a)" using f(2) that by (simp add: first_free_None)
      then obtain k where "asg a k = Some p" using exact_mem [OF e, of p] by blast
      with None show ?thesis by (intro exI [of _ k]) auto
    qed
    with f(1) show ?thesis by blast
  next
    case (Some prev)
    let ?b = "releaseAssignedNumber a job name"
    note rel = release_step [OF assms(2) Some]
    have out: "\<not> Contains (pa_range a) prev" and f: "e = ErrPortRangeExhausted" "first_free ?b = None"
      using assms(1) Inr claim Some
      by (auto simp: assignProvisioned_def Let_def asg_def rbind_Inl_conv split: option.splits if_splits)
    have "\<exists>k. k \<noteq> (job, name) \<and> asg a k = Some p" if p: "Contains (pa_range a) p" for p
    proof -
      have "p \<in> set (pa_used a)" using f(2) p rel(3,4) by (simp add: first_free_None)
      then obtain k where "asg a k = Some p" using exact_mem [OF e, of p] by blast
      with Some out p show ?thesis by (intro exI [of _ k]) auto
    qed
    with f(1) show ?thesis by blast
  qed
qed

definition full_pool :: port_allocator where
  "full_pool = newPortAllocator [(''db'', [(''sql'', 30000)])] \<lparr>pr_min = 30000, pr_max = 30000\<rparr>"

lemma provisioned_failure_witness:
  "\<exists>k. k \<noteq> (''api'', ''web'') \<and> asg full_pool k = Some 30000"
proof -
  have as: "asg full_pool k = (if k = (''db'', ''sql'') then Some 30000 else None)" for k
    by (cases k) (auto simp: asg_def assigned_def inner_map_def full_pool_def newPortAllocator_def)
  have "set (pa_used full_pool) = {30000}" by (simp add: full_pool_def newPortAllocator_def)
  then have "ports_ok full_pool"
    unfolding ports_ok_def exact_but_def as by auto
  moreover have "ValidatePortKey ''web'' = Ok ()"
    by (simp add: ValidatePortKey_def trim_space_def trim_left_def go_space_def port_key_pattern_def
        port_key_char_def Let_def)
  moreover have "assignProvisioned full_pool ''api'' ''web'' = Inl ErrPortRangeExhausted"
    using calculation(2) as [of "(''api'', ''web'')"]
    by (simp add: assignProvisioned_def asg_def)
      (simp add: full_pool_def newPortAllocator_def first_free_def)
  ultimately show ?thesis
    using provisioned_failure [of full_pool "''api''" "''web''" ErrPortRangeExhausted]
    by (simp add: full_pool_def newPortAllocator_def Contains_def)
qed

text \<open>
  A job may not swap two of its fixed ports in one build: the number of the second port is still in
  use when the first claims it.
\<close>

lemma swapped_fixed_ports_collide:
  "syncAllPorts [(''1'', ''api'', [(''a'', Some 9001), (''b'', Some 9000)])]
     ([], newPortAllocator [(''api'', [(''a'', 9000), (''b'', 9001)])] \<lparr>pr_min = 30000, pr_max = 30001\<rparr>) =
   Err ErrPortCollision"
  by (simp add: newPortAllocator_def syncAllPorts_def syncJobPorts_def port_Names_def sort_strings_def
      releaseRemoved_def sync_one_port_def port_resolve_def assignFixed_def ValidatePortKey_def
      trim_space_def trim_left_def go_space_def port_key_pattern_def assigned_def inner_map_def
      releaseAssignedNumber_def claimPort_def Let_def)

end
