(* ===== verification/CatalogLaws.thy ===== *)
theory CatalogLaws
  imports Catalog
begin

text \<open>
  Facts about the catalog that the later components share: its keys, what the hash updates do to one
  row, and when an allocation is settled. The primary keys of \<open>data/schema.go\<close> are the invariant
  \<open>catalog_ok\<close>; that allocation ids are different comes from their being UUIDs of worker and job.
\<close>

section \<open>Keys\<close>

definition catalog_ok :: "catalog \<Rightarrow> bool" where
  "catalog_ok c \<longleftrightarrow>
     distinct (map (\<lambda>a. (a_ip a, a_job a)) (t_allocations c)) \<and>
     distinct (map a_id (t_allocations c)) \<and>
     distinct (map (\<lambda>h. (h_namespace h, h_key h)) (t_hash c)) \<and>
     distinct (map w_ip (t_worker c)) \<and>
     distinct (map j_name (t_job c))"

lemma filter_distinct_key:
  "distinct (map f xs) \<Longrightarrow> x \<in> set xs \<Longrightarrow> filter (\<lambda>y. f y = f x) xs = [x]"
proof (induction xs)
  case (Cons y ys)
  show ?case
  proof (cases "y = x")
    case True
    then have "filter (\<lambda>z. f z = f x) ys = []"
      using Cons.prems(1) by (auto simp: filter_empty_conv image_iff)
    with True show ?thesis by simp
  next
    case False
    then have "x \<in> set ys" "f y \<noteq> f x" using Cons.prems by (auto simp: image_iff)
    with Cons show ?thesis by simp
  qed
qed simp

lemma alloc_at_unique:
  assumes "catalog_ok c" and "a \<in> set (t_allocations c)"
  shows "alloc_at c (a_ip a) (a_job a) = [a]"
  using filter_distinct_key [of "\<lambda>a. (a_ip a, a_job a)" "t_allocations c" a] assms
  by (simp add: alloc_at_def catalog_ok_def)

lemma alloc_id_unique:
  assumes "catalog_ok c" and "a \<in> set (t_allocations c)"
  shows "filter (\<lambda>b. a_id b = a_id a) (t_allocations c) = [a]"
  using filter_distinct_key [of a_id "t_allocations c" a] assms by (simp add: catalog_ok_def)

lemma same_id:
  assumes "catalog_ok c" and "a \<in> set (t_allocations c)" and "b \<in> set (t_allocations c)" and "a_id b = a_id a"
  shows "b = a"
proof -
  from alloc_id_unique [OF assms(1,3), unfolded assms(4)] alloc_id_unique [OF assms(1,2)]
  have "[b] = [a]" by (rule trans [OF sym])
  then show ?thesis by simp
qed

lemma job_unique:
  assumes "catalog_ok c" and "j \<in> set (t_job c)"
  shows "jobs_named c (j_name j) = [j]"
  using filter_distinct_key [of j_name "t_job c" j] assms by (simp add: jobs_named_def catalog_ok_def)

lemma worker_unique:
  assumes "catalog_ok c" and "w \<in> set (t_worker c)"
  shows "workers_at c (w_ip w) = [w]"
  using filter_distinct_key [of w_ip "t_worker c" w] assms by (simp add: workers_at_def catalog_ok_def)

lemma hash_rows_unique:
  assumes "catalog_ok c" and "h \<in> set (t_hash c)"
  shows "hash_rows c (h_namespace h) (h_key h) = [h]"
  using filter_distinct_key [of "\<lambda>h. (h_namespace h, h_key h)" "t_hash c" h] assms
  by (simp add: hash_rows_def catalog_ok_def)

lemma hash_rows_cases:
  assumes "catalog_ok c"
  obtains "hash_rows c ns k = []"
    | h where "hash_rows c ns k = [h]" "h \<in> set (t_hash c)" "h_namespace h = ns" "h_key h = k"
proof (cases "hash_rows c ns k")
  case (Cons h hs)
  then have "h \<in> set (hash_rows c ns k)" by simp
  then have h: "h \<in> set (t_hash c)" "h_namespace h = ns" "h_key h = k" by (auto simp: hash_rows_def)
  with hash_rows_unique [OF assms h(1)] that(2) show ?thesis by simp
qed (rule that(1))

lemma GetAllocationID_Ok:
  "catalog_ok c \<Longrightarrow> a \<in> set (t_allocations c) \<Longrightarrow> GetAllocationID c (a_ip a) (a_job a) = Ok (a_id a)"
  by (simp add: GetAllocationID_def alloc_at_unique query_row_def)

lemma IsAllocationRemoved_Ok:
  "catalog_ok c \<Longrightarrow> a \<in> set (t_allocations c) \<Longrightarrow> IsAllocationRemoved c (a_ip a) (a_job a) = Ok (a_removed a)"
  by (simp add: IsAllocationRemoved_def alloc_at_unique query_row_def)

lemma IsAllocationDisabled_Ok:
  "catalog_ok c \<Longrightarrow> a \<in> set (t_allocations c) \<Longrightarrow> IsAllocationDisabled c (a_ip a) (a_job a) = Ok (a_disabled a)"
  by (simp add: IsAllocationDisabled_def alloc_at_unique query_row_def)

lemma IsAllocationActive_Ok:
  "catalog_ok c \<Longrightarrow> a \<in> set (t_allocations c) \<Longrightarrow>
   IsAllocationActive c (a_ip a) (a_job a) = Ok (\<not> a_removed a \<and> \<not> a_disabled a)"
  by (auto simp: IsAllocationActive_def IsAllocationRemoved_Ok IsAllocationDisabled_Ok)

lemma set_allocs_of: "a \<in> set (allocs_of c job) \<longleftrightarrow> a \<in> set (t_allocations c) \<and> a_job a = job"
  by (auto simp: allocs_of_def)

lemma distinct_allocs_ip: "catalog_ok c \<Longrightarrow> distinct (map a_ip (allocs_of c job))"
proof -
  assume "catalog_ok c"
  then have d: "distinct (map (\<lambda>a. (a_ip a, a_job a)) (t_allocations c))" by (simp add: catalog_ok_def)
  have "distinct (map a_ip (filter (\<lambda>a. a_job a = job) as))"
    if "distinct (map (\<lambda>a. (a_ip a, a_job a)) as)" for as
    using that by (induction as) (auto simp: image_iff)
  with d show ?thesis by (simp add: allocs_of_def)
qed

lemma GetActiveAllocations_Ok:
  assumes "catalog_ok c"
  shows "GetActiveAllocations c job =
    Ok (map a_ip (filter (\<lambda>a. \<not> a_removed a \<and> \<not> a_disabled a) (allocs_of c job)))"
proof -
  let ?step = "\<lambda>acc ip.
        rbind (IsAllocationRemoved c ip job) (\<lambda>removed.
        rbind (IsAllocationDisabled c ip job) (\<lambda>disabled.
          Ok (if IsActiveAllocation removed disabled then acc @ [ip] else acc)))"
  have "rfold ?step acc (map a_ip as) =
      Ok (acc @ map a_ip (filter (\<lambda>a. \<not> a_removed a \<and> \<not> a_disabled a) as))"
    if "\<forall>a \<in> set as. a \<in> set (t_allocations c) \<and> a_job a = job" for as acc
    using that
  proof (induction as arbitrary: acc)
    case (Cons a as)
    then have "IsAllocationRemoved c (a_ip a) job = Ok (a_removed a)"
      "IsAllocationDisabled c (a_ip a) job = Ok (a_disabled a)"
      using IsAllocationRemoved_Ok [OF assms] IsAllocationDisabled_Ok [OF assms] by auto
    with Cons show ?case by (simp add: IsActiveAllocation_def)
  qed simp
  from this [of "allocs_of c job" "[]"] show ?thesis
    by (simp add: GetActiveAllocations_def GetAllocatedWorkers_def set_allocs_of)
qed

lemma set_GetNonRemoved:
  "set (GetNonRemovedAllocations c job) = a_ip ` {a \<in> set (t_allocations c). a_job a = job \<and> \<not> a_removed a}"
  by (auto simp: GetNonRemovedAllocations_def allocs_of_def)

lemma distinct_GetNonRemoved: "catalog_ok c \<Longrightarrow> distinct (GetNonRemovedAllocations c job)"
  using distinct_allocs_ip [of c job] by (simp add: GetNonRemovedAllocations_def distinct_map_filter)

section \<open>Hash updates\<close>

text \<open>An update of a hash row keeps its key.\<close>

definition keeps_key :: "(hash_row \<Rightarrow> hash_row) \<Rightarrow> bool" where
  "keeps_key f \<longleftrightarrow> (\<forall>h. h_namespace (f h) = h_namespace h \<and> h_key (f h) = h_key h)"

lemma hash_rows_update [catalog_simps]:
  assumes "keeps_key f"
  shows "hash_rows (update_hash f ns k c) ns' k' =
    (if ns' = ns \<and> k' = k then map f (hash_rows c ns k) else hash_rows c ns' k')"
proof -
  have "filter (\<lambda>h. h_namespace h = ns' \<and> h_key h = k')
      (map (\<lambda>h. if h_namespace h = ns \<and> h_key h = k then f h else h) hs) =
    (if ns' = ns \<and> k' = k then map f (filter (\<lambda>h. h_namespace h = ns \<and> h_key h = k) hs)
     else filter (\<lambda>h. h_namespace h = ns' \<and> h_key h = k') hs)" for hs
    using assms by (induction hs) (auto simp: keeps_key_def)
  then show ?thesis by (simp add: hash_rows_def update_hash_def)
qed

lemma hash_rows_insert [catalog_simps]:
  assumes "keeps_key f"
  shows "hash_rows (insert_hash ns k f c) ns' k' = hash_rows c ns' k' @
    (if ns' = ns \<and> k' = k then [f \<lparr>h_namespace = ns, h_key = k, h_current_hash = None, h_previous_hash = None,
         h_current_files = None, h_previous_files = None, h_current_version = None\<rparr>] else [])"
  using assms by (auto simp: hash_rows_def insert_hash_def keeps_key_def)

lemma update_hash_frame [frame]:
  "t_allocations (update_hash f ns k c) = t_allocations c" "t_job (update_hash f ns k c) = t_job c"
  "t_worker (update_hash f ns k c) = t_worker c" "t_job_commands (update_hash f ns k c) = t_job_commands c"
  "t_bucket (update_hash f ns k c) = t_bucket c"
  by (simp_all add: update_hash_def)

lemma insert_hash_frame [frame]:
  "t_allocations (insert_hash ns k f c) = t_allocations c" "t_job (insert_hash ns k f c) = t_job c"
  "t_worker (insert_hash ns k f c) = t_worker c" "t_job_commands (insert_hash ns k f c) = t_job_commands c"
  "t_bucket (insert_hash ns k f c) = t_bucket c"
  by (simp_all add: insert_hash_def)

lemma catalog_ok_update_hash: "keeps_key f \<Longrightarrow> catalog_ok c \<Longrightarrow> catalog_ok (update_hash f ns k c)"
proof -
  assume f: "keeps_key f" and c: "catalog_ok c"
  have "map (\<lambda>h. (h_namespace h, h_key h)) (map (\<lambda>h. if h_namespace h = ns \<and> h_key h = k then f h else h) hs) =
      map (\<lambda>h. (h_namespace h, h_key h)) hs" for hs
    using f by (induction hs) (auto simp: keeps_key_def)
  then show ?thesis using c unfolding catalog_ok_def update_hash_def
    by (simp del: map_map)
qed

lemma catalog_ok_insert_hash:
  assumes "keeps_key f" and "catalog_ok c" and "hash_rows c ns k = []"
  shows "catalog_ok (insert_hash ns k f c)"
proof -
  have "(ns, k) \<notin> (\<lambda>h. (h_namespace h, h_key h)) ` set (t_hash c)"
    using assms(3) by (auto simp: hash_rows_def filter_empty_conv)
  then show ?thesis using assms(1,2) by (simp add: catalog_ok_def insert_hash_def keeps_key_def)
qed

lemma PromoteAllocationState_rows:
  "hash_rows (PromoteAllocationState c ns k) ns' k' =
    (if ns' = ns \<and> k' = k then
       map (\<lambda>h. h\<lparr>h_previous_hash := h_current_hash h, h_previous_files := h_current_files h,
         h_current_version := Some (case filter (\<lambda>a. a_id a = k) (t_allocations c) of
             [] \<Rightarrow> DefaultAllocationVersion
           | a # _ \<Rightarrow> ifnull (a_new_version a) DefaultAllocationVersion)\<rparr>) (hash_rows c ns k)
     else hash_rows c ns' k')"
  unfolding PromoteAllocationState_def by (rule hash_rows_update) (simp add: keeps_key_def)

lemma PromoteAllocationState_frame [frame]:
  "t_allocations (PromoteAllocationState c ns k) = t_allocations c"
  "t_job (PromoteAllocationState c ns k) = t_job c"
  "t_worker (PromoteAllocationState c ns k) = t_worker c"
  "t_job_commands (PromoteAllocationState c ns k) = t_job_commands c"
  "t_bucket (PromoteAllocationState c ns k) = t_bucket c"
  by (simp_all add: PromoteAllocationState_def frame)

lemma catalog_ok_Promote: "catalog_ok c \<Longrightarrow> catalog_ok (PromoteAllocationState c ns k)"
  unfolding PromoteAllocationState_def by (rule catalog_ok_update_hash) (simp_all add: keeps_key_def)

lemma UpdateAllocationPlan_rows:
  "hash_rows (UpdateAllocationPlan c ns k hash files) ns' k' =
    (if ns' = ns \<and> k' = k then
       (if hash_rows c ns k = [] then
          [\<lparr>h_namespace = ns, h_key = k, h_current_hash = Some hash, h_previous_hash = None,
            h_current_files = Some files, h_previous_files = None,
            h_current_version = Some DefaultAllocationVersion\<rparr>]
        else map (\<lambda>h. h\<lparr>h_current_hash := Some hash, h_current_files := Some files\<rparr>) (hash_rows c ns k))
     else hash_rows c ns' k')"
  by (cases "hash_rows c ns k")
    (simp_all add: UpdateAllocationPlan_def hash_rows_update hash_rows_insert keeps_key_def)

lemma UpdateAllocationPlan_frame [frame]:
  "t_allocations (UpdateAllocationPlan c ns k hash files) = t_allocations c"
  "t_job (UpdateAllocationPlan c ns k hash files) = t_job c"
  "t_worker (UpdateAllocationPlan c ns k hash files) = t_worker c"
  "t_job_commands (UpdateAllocationPlan c ns k hash files) = t_job_commands c"
  "t_bucket (UpdateAllocationPlan c ns k hash files) = t_bucket c"
  by (auto simp: UpdateAllocationPlan_def frame split: list.split)

lemma catalog_ok_UpdatePlan: "catalog_ok c \<Longrightarrow> catalog_ok (UpdateAllocationPlan c ns k hash files)"
  by (auto simp: UpdateAllocationPlan_def keeps_key_def
      intro!: catalog_ok_update_hash catalog_ok_insert_hash split: list.split)

section \<open>Pending allocations\<close>

text \<open>One allocation with its hash row: a new one was never started, an updated one has other content
  than what was promoted, a version-pending one has another target version.\<close>

definition row_new :: "alloc_row \<Rightarrow> hash_row \<Rightarrow> bool" where
  "row_new a h \<longleftrightarrow> h_previous_hash h = None \<and> \<not> a_disabled a"

definition row_version_pending :: "alloc_row \<Rightarrow> hash_row \<Rightarrow> bool" where
  "row_version_pending a h \<longleftrightarrow>
     ifnull (h_current_version h) DefaultAllocationVersion \<noteq> ifnull (a_new_version a) DefaultAllocationVersion"

definition alloc_pending :: "catalog \<Rightarrow> alloc_row \<Rightarrow> bool" where
  "alloc_pending c a \<longleftrightarrow>
     (case hash_rows c (allocation_namespace (a_job a)) (a_id a) of
        [] \<Rightarrow> True
      | h # _ \<Rightarrow> row_new a h \<or> hash_updated h \<or> row_version_pending a h)"

lemma hash_join_iff:
  assumes "catalog_ok c"
  shows "ip \<in> set (hash_join c job P Q) \<longleftrightarrow>
    (\<exists>a h. a \<in> set (t_allocations c) \<and> a_job a = job \<and> a_ip a = ip \<and> Q a \<and>
       hash_rows c (allocation_namespace job) (a_id a) = [h] \<and> P h)"
proof
  assume "ip \<in> set (hash_join c job P Q)"
  then obtain a h where ah: "a \<in> set (t_allocations c)" "a_job a = job" "a_ip a = ip" "Q a"
    "h \<in> set (t_hash c)" "h_namespace h = allocation_namespace job" "h_key h = a_id a" "P h"
    by (auto simp: hash_join_def)
  with hash_rows_unique [OF assms ah(5)] show "\<exists>a h. a \<in> set (t_allocations c) \<and> a_job a = job \<and> a_ip a = ip \<and> Q a \<and>
       hash_rows c (allocation_namespace job) (a_id a) = [h] \<and> P h" by auto
next
  assume "\<exists>a h. a \<in> set (t_allocations c) \<and> a_job a = job \<and> a_ip a = ip \<and> Q a \<and>
       hash_rows c (allocation_namespace job) (a_id a) = [h] \<and> P h"
  then obtain a h where a: "a \<in> set (t_allocations c)" "a_job a = job" "a_ip a = ip" "Q a" "P h"
    and h: "h \<in> set (hash_rows c (allocation_namespace job) (a_id a))" by auto
  then have "h \<in> set (t_hash c)" "h_namespace h = allocation_namespace job" "h_key h = a_id a"
    by (auto simp: hash_rows_def)
  with a show "ip \<in> set (hash_join c job P Q)" by (auto simp: hash_join_def)
qed

lemma version_pending_iff:
  assumes "catalog_ok c" and "a_job a = job" and h: "hash_rows c (allocation_namespace job) (a_id a) = [h]"
  shows "version_pending c job a = (if row_version_pending a h then [a_ip a] else [])"
  by (simp add: version_pending_def left_join_versions_def h row_version_pending_def)

section \<open>Small catalogs for the witnesses\<close>

definition empty_catalog :: catalog where
  "empty_catalog = \<lparr>t_bucket = [], t_worker = [], t_worker_labels = [], t_worker_tags = [],
     t_allocations = [], t_job = [], t_job_selectors = [], t_job_ports = [], t_job_certs = [],
     t_job_files = [], t_job_commands = [], t_hash = []\<rparr>"

definition plain_alloc :: "string \<Rightarrow> string \<Rightarrow> alloc_row" where
  "plain_alloc ip job = \<lparr>a_id = job @ ''|'' @ ip, a_ip = ip, a_job = job, a_disabled = False, a_removed = False,
     a_seq = 0, a_new_version = None\<rparr>"

definition plain_worker :: "string \<Rightarrow> int \<Rightarrow> worker_row" where
  "plain_worker ip n = \<lparr>w_id = ip, w_ip = ip, w_memory = [], w_cpu = [], w_position = n\<rparr>"

definition plain_job :: "string \<Rightarrow> job_row" where
  "plain_job job = \<lparr>j_id = job, j_name = job, j_version = [], j_min_memory = [], j_max_memory = [], j_memory = [],
     j_memory_source = [], j_min_cpu = [], j_max_cpu = [], j_cpu = [], j_cpu_source = [], j_max_upgrades = 1, j_max_starts = 0, j_restart_policy = [],
     j_restart_globs = [], j_health_check = None\<rparr>"

text \<open>The hash row of an allocation that was deployed with content \<open>q\<close> and has content \<open>p\<close> now.\<close>

definition plain_hash :: "alloc_row \<Rightarrow> string option \<Rightarrow> string \<Rightarrow> hash_row" where
  "plain_hash a q p = \<lparr>h_namespace = allocation_namespace (a_job a), h_key = a_id a, h_current_hash = Some p,
     h_previous_hash = q, h_current_files = Some [], h_previous_files = None,
     h_current_version = Some DefaultAllocationVersion\<rparr>"

end
