(* ===== verification/Sequence.thy ===== *)
theory Sequence
  imports CatalogLaws
begin

text \<open>
  The deployment sequence (\<open>build/build_deployment_sequence.go\<close>): the cycle check over job command
  demands, and the recursive query that gives every allocation the length of its longest demand
  chain.
\<close>

section \<open>The cycle check\<close>

type_synonym dependencies = "(string \<times> string list) list"

definition dep_edges :: "command_row list \<Rightarrow> (string \<times> string) list" where
  "dep_edges cmds = Unique (map (\<lambda>q. (q_job q, q_demand_job q)) (filter (\<lambda>q. q_demand_job q \<noteq> []) cmds))"

definition deps_of :: "dependencies \<Rightarrow> string \<Rightarrow> string list" where
  "deps_of deps job = (case map_of deps job of None \<Rightarrow> [] | Some ds \<Rightarrow> ds)"

definition add_dependency :: "dependencies \<Rightarrow> string \<times> string \<Rightarrow> dependencies" where
  "add_dependency deps e =
     (let deps' = AList.update (fst e) (deps_of deps (fst e) @ [snd e]) deps
      in if map_of deps' (snd e) = None then AList.update (snd e) [] deps' else deps')"

definition loadJobCommandDependencies :: "catalog \<Rightarrow> dependencies" where
  "loadJobCommandDependencies c = foldl add_dependency [] (dep_edges (t_job_commands c))"

datatype visit_state = Unseen | Visiting | Complete

type_synonym visit_states = "(string \<times> visit_state) list"

definition state_of :: "visit_states \<Rightarrow> string \<Rightarrow> visit_state" where
  "state_of st job = (case map_of st job of None \<Rightarrow> Unseen | Some v \<Rightarrow> v)"

text \<open>\<open>visitJob\<close> with a bound on the depth of the recursion; \<open>None\<close> is running out of it.\<close>

fun visitJob :: "dependencies \<Rightarrow> nat \<Rightarrow> visit_states \<Rightarrow> string \<Rightarrow> (error + visit_states) option"
  and visitAll :: "dependencies \<Rightarrow> nat \<Rightarrow> visit_states \<Rightarrow> string list \<Rightarrow> (error + visit_states) option"
where
  "visitJob deps 0 st job = None"
| "visitJob deps (Suc n) st job =
     (case state_of st job of
        Complete \<Rightarrow> Some (Ok st)
      | Visiting \<Rightarrow> Some (Err ErrCircularJobCommandDependency)
      | Unseen \<Rightarrow>
          map_option (map_sum id (AList.update job Complete))
            (visitAll deps n (AList.update job Visiting st) (deps_of deps job)))"
| "visitAll deps n st [] = Some (Ok st)"
| "visitAll deps n st (d # ds) =
     (case visitJob deps n st d of
        None \<Rightarrow> None
      | Some (Inl e) \<Rightarrow> Some (Inl e)
      | Some (Inr st') \<Rightarrow> visitAll deps n st' ds)"

text \<open>The outer loop visits the keys that are still unseen; a complete key is skipped there, which is
  what visiting it does.\<close>

definition detectCircularJobCommandDependencies :: "dependencies \<Rightarrow> (error + unit) option" where
  "detectCircularJobCommandDependencies deps =
     map_option (map_sum id (\<lambda>_. ())) (visitAll deps (Suc (length deps)) [] (map fst deps))"

section \<open>The recursive query\<close>

text \<open>One generation of \<open>job_command_seq\<close>: the rows that join with the rows of the previous one.\<close>

definition seq_base :: "command_row list \<Rightarrow> (string \<times> nat) list" where
  "seq_base cmds = map (\<lambda>q. (q_job q, 0)) (filter (\<lambda>q. q_demand_job q = []) cmds)"

definition seq_step :: "command_row list \<Rightarrow> (string \<times> nat) list \<Rightarrow> (string \<times> nat) list" where
  "seq_step cmds front =
     concat (map (\<lambda>(j, l). map (\<lambda>q. (q_job q, l + 1)) (filter (\<lambda>q. q_demand_job q = j) cmds)) front)"

fun job_command_seq :: "command_row list \<Rightarrow> nat \<Rightarrow> (string \<times> nat) list \<Rightarrow> (string \<times> nat) list option" where
  "job_command_seq cmds 0 front = None"
| "job_command_seq cmds (Suc n) front =
     (if front = [] then Some []
      else map_option ((@) front) (job_command_seq cmds n (seq_step cmds front)))"

definition max_level :: "(string \<times> nat) list \<Rightarrow> string \<Rightarrow> nat option" where
  "max_level rows job =
     (case map snd (filter (\<lambda>(j, _). j = job) rows) of [] \<Rightarrow> None | l # ls \<Rightarrow> Some (foldl max l ls))"

definition set_deployment_seq :: "(string \<times> nat) list \<Rightarrow> alloc_row \<Rightarrow> alloc_row" where
  "set_deployment_seq rows a =
     (case max_level rows (a_job a) of None \<Rightarrow> a | Some l \<Rightarrow> a\<lparr>a_seq := int l\<rparr>)"

text \<open>\<open>None\<close> is not returning: the depth bounds of the two searches are shown to be enough.\<close>

definition BuildDeploymentSequence :: "catalog \<Rightarrow> (error + catalog) option" where
  "BuildDeploymentSequence c =
     (let cmds = t_job_commands c
      in case detectCircularJobCommandDependencies (loadJobCommandDependencies c) of
           None \<Rightarrow> None
         | Some (Inl e) \<Rightarrow> Some (Inl e)
         | Some (Inr _) \<Rightarrow>
             map_option (\<lambda>rows. Inr (c\<lparr>t_allocations := map (set_deployment_seq rows) (t_allocations c)\<rparr>))
               (job_command_seq cmds (length cmds + 2) (seq_base cmds)))"

section \<open>The search decides whether there is a cycle\<close>

definition edges :: "dependencies \<Rightarrow> (string \<times> string) set" where
  "edges deps = {(j, d). d \<in> set (deps_of deps j)}"

lemma state_of_update [simp]: "state_of (AList.update j v st) k = (if k = j then v else state_of st k)"
  by (simp add: state_of_def)

text \<open>The complete jobs are closed under demands and on no cycle.\<close>

definition settled :: "dependencies \<Rightarrow> visit_states \<Rightarrow> bool" where
  "settled deps st \<longleftrightarrow>
     (\<forall>j d. state_of st j = Complete \<and> (j, d) \<in> edges deps \<longrightarrow> state_of st d = Complete) \<and>
     (\<forall>j. state_of st j = Complete \<longrightarrow> (j, j) \<notin> (edges deps)\<^sup>+)"

definition grows :: "visit_states \<Rightarrow> visit_states \<Rightarrow> bool" where
  "grows st st' \<longleftrightarrow>
     (\<forall>j. state_of st' j = Visiting \<longleftrightarrow> state_of st j = Visiting) \<and>
     (\<forall>j. state_of st j = Complete \<longrightarrow> state_of st' j = Complete)"

lemma grows_refl [simp]: "grows st st"
  by (simp add: grows_def)

lemma grows_trans: "grows a b \<Longrightarrow> grows b c \<Longrightarrow> grows a c"
  by (simp add: grows_def)

lemma settled_reach:
  "(j, k) \<in> (edges deps)\<^sup>+ \<Longrightarrow> settled deps st \<Longrightarrow> state_of st j = Complete \<Longrightarrow> state_of st k = Complete"
  by (induction rule: trancl_induct) (auto simp: settled_def)

lemma settled_complete:
  assumes s: "settled deps st" and "state_of st job \<noteq> Complete"
    and d: "\<And>d. (job, d) \<in> edges deps \<Longrightarrow> state_of st d = Complete"
  shows "settled deps (AList.update job Complete st)"
  unfolding settled_def
proof (intro conjI allI impI)
  fix j k
  assume "state_of (AList.update job Complete st) j = Complete \<and> (j, k) \<in> edges deps"
  then show "state_of (AList.update job Complete st) k = Complete"
    using s d by (auto simp: settled_def split: if_splits)
next
  fix j
  assume j: "state_of (AList.update job Complete st) j = Complete"
  show "(j, j) \<notin> (edges deps)\<^sup>+"
  proof
    assume cyc: "(j, j) \<in> (edges deps)\<^sup>+"
    show False
    proof (cases "j = job")
      case True
      from cyc obtain d where "(j, d) \<in> edges deps" "(d, j) \<in> (edges deps)\<^sup>*" by (meson tranclD)
      then have "state_of st d = Complete" "d = j \<or> (d, j) \<in> (edges deps)\<^sup>+"
        using d True by (auto simp: rtrancl_eq_or_trancl)
      then have "state_of st job = Complete" using settled_reach [OF _ s] True by auto
      with assms(2) show False by simp
    next
      case False
      with j cyc s show False by (simp add: settled_def)
    qed
  qed
qed

lemma visit_Ok:
  "visitJob deps n st job = Some (Inr st') \<Longrightarrow> settled deps st \<Longrightarrow>
     settled deps st' \<and> grows st st' \<and> state_of st' job = Complete"
  "visitAll deps n st ds = Some (Inr st') \<Longrightarrow> settled deps st \<Longrightarrow>
     settled deps st' \<and> grows st st' \<and> (\<forall>d \<in> set ds. state_of st' d = Complete)"
proof (induction deps n st job and deps n st ds arbitrary: st' and st' rule: visitJob_visitAll.induct)
  case (2 deps n st job)
  show ?case
  proof (cases "state_of st job")
    case Unseen
    let ?v = "AList.update job Visiting st"
    from 2(2) Unseen obtain s where s: "visitAll deps n ?v (deps_of deps job) = Some (Inr s)"
      and st': "st' = AList.update job Complete s"
      by auto
    have "settled deps ?v" using 2(3) Unseen by (auto simp: settled_def)
    then have ih: "settled deps s" "grows ?v s" "\<forall>d \<in> set (deps_of deps job). state_of s d = Complete"
      using 2(1) [OF Unseen s] by auto
    have vis: "state_of s job = Visiting" using ih(2) by (simp add: grows_def)
    have "settled deps st'"
      unfolding st' by (rule settled_complete [OF ih(1)]) (use vis ih(3) in \<open>auto simp: edges_def\<close>)
    moreover have "grows st st'"
      using ih(2) Unseen vis by (auto simp: grows_def st')
    ultimately show ?thesis by (simp add: st')
  qed (use 2 in auto)
next
  case (4 deps n st d ds)
  from 4(3) obtain s where s: "visitJob deps n st d = Some (Inr s)" "visitAll deps n s ds = Some (Inr st')"
    by (auto split: option.splits sum.splits)
  have a: "settled deps s" "grows st s" "state_of s d = Complete" using 4(1) [OF s(1) 4(4)] by auto
  have b: "settled deps st'" "grows s st'" "\<forall>d \<in> set ds. state_of st' d = Complete"
    using 4(2) [OF s(1) refl s(2) a(1)] by auto
  have "state_of st' d = Complete" using a(3) b(2) by (simp add: grows_def)
  with a b grows_trans show ?case by auto
qed auto

lemma visit_Err:
  "visitJob deps n st job = Some (Inl e) \<Longrightarrow> settled deps st \<Longrightarrow>
     (\<forall>v. state_of st v = Visiting \<longrightarrow> (v, job) \<in> (edges deps)\<^sup>+) \<Longrightarrow>
     e = ErrCircularJobCommandDependency \<and> (\<exists>x. (x, x) \<in> (edges deps)\<^sup>+)"
  "visitAll deps n st ds = Some (Inl e) \<Longrightarrow> settled deps st \<Longrightarrow>
     (\<forall>v d. state_of st v = Visiting \<and> d \<in> set ds \<longrightarrow> (v, d) \<in> (edges deps)\<^sup>+) \<Longrightarrow>
     e = ErrCircularJobCommandDependency \<and> (\<exists>x. (x, x) \<in> (edges deps)\<^sup>+)"
proof (induction deps n st job and deps n st ds rule: visitJob_visitAll.induct)
  case (2 deps n st job)
  show ?case
  proof (cases "state_of st job")
    case Unseen
    let ?v = "AList.update job Visiting st"
    from 2(2) Unseen have s: "visitAll deps n ?v (deps_of deps job) = Some (Inl e)"
      by auto
    have "settled deps ?v" using 2(3) Unseen by (auto simp: settled_def)
    moreover have "(v, d) \<in> (edges deps)\<^sup>+" if "state_of ?v v = Visiting" "d \<in> set (deps_of deps job)" for v d
    proof -
      have e: "(job, d) \<in> edges deps" using that(2) by (simp add: edges_def)
      show ?thesis using that(1) 2(4) e by (cases "v = job") (auto intro: trancl_into_trancl)
    qed
    ultimately show ?thesis using 2(1) [OF Unseen s] by blast
  next
    case Visiting
    then show ?thesis using 2(2,4) by auto
  qed (use 2 in simp)
next
  case (4 deps n st d ds)
  from 4(3) consider "visitJob deps n st d = Some (Inl e)"
    | s where "visitJob deps n st d = Some (Inr s)" "visitAll deps n s ds = Some (Inl e)"
    by (auto split: option.splits sum.splits)
  then show ?case
  proof cases
    case 1
    then show ?thesis using 4(1) 4(4,5) by auto
  next
    case 2
    have "settled deps s" "grows st s" using visit_Ok(1) [OF 2(1) 4(4)] by auto
    then show ?thesis using 4(2) [OF 2(1) refl 2(2)] 4(5) by (auto simp: grows_def)
  qed
qed auto

text \<open>Each nested call has one more job under visit, so the number of jobs bounds the depth.\<close>

definition unseen_in :: "string set \<Rightarrow> visit_states \<Rightarrow> string set" where
  "unseen_in U st = {j \<in> U. state_of st j = Unseen}"

lemma visit_returns:
  "job \<in> U \<Longrightarrow> card (unseen_in U st) < n \<Longrightarrow> finite U \<Longrightarrow> (\<forall>j \<in> U. set (deps_of deps j) \<subseteq> U) \<Longrightarrow>
     \<exists>r. visitJob deps n st job = Some r \<and>
       (\<forall>st'. r = Inr st' \<longrightarrow> unseen_in U st' \<subseteq> unseen_in U st)"
  "set ds \<subseteq> U \<Longrightarrow> card (unseen_in U st) < n \<Longrightarrow> finite U \<Longrightarrow> (\<forall>j \<in> U. set (deps_of deps j) \<subseteq> U) \<Longrightarrow>
     \<exists>r. visitAll deps n st ds = Some r \<and>
       (\<forall>st'. r = Inr st' \<longrightarrow> unseen_in U st' \<subseteq> unseen_in U st)"
proof (induction deps n st job and deps n st ds rule: visitJob_visitAll.induct)
  case (2 deps n st job)
  show ?case
  proof (cases "state_of st job")
    case Unseen
    let ?v = "AList.update job Visiting st"
    have sub: "unseen_in U ?v = unseen_in U st - {job}" by (auto simp: unseen_in_def)
    have "finite (unseen_in U st)" "job \<in> unseen_in U st"
      using 2 Unseen by (auto simp: unseen_in_def)
    then have "card (unseen_in U ?v) < card (unseen_in U st)"
      unfolding sub by (rule card_Diff1_less)
    then have "card (unseen_in U ?v) < n" using 2(3) by simp
    then obtain r where r: "visitAll deps n ?v (deps_of deps job) = Some r"
      "\<forall>st'. r = Inr st' \<longrightarrow> unseen_in U st' \<subseteq> unseen_in U ?v"
      using 2(1) [OF Unseen _ _ 2(4,5)] 2(2,5) by auto
    have "unseen_in U (AList.update job Complete s) \<subseteq> unseen_in U st" if "r = Inr s" for s
      using r(2) that by (auto simp: unseen_in_def split: if_splits)
    with r(1) Unseen show ?thesis by (cases r) auto
  qed auto
next
  case (4 deps n st d ds)
  obtain r where r: "visitJob deps n st d = Some r"
    "\<forall>st'. r = Inr st' \<longrightarrow> unseen_in U st' \<subseteq> unseen_in U st"
    using 4(1) [OF _ 4(4,5,6)] 4(3) by auto
  show ?case
  proof (cases r)
    case (Inr s)
    have sub: "unseen_in U s \<subseteq> unseen_in U st" using r(2) Inr by simp
    have "finite (unseen_in U st)" using 4(5) by (simp add: unseen_in_def)
    then have "card (unseen_in U s) < n" using card_mono [OF _ sub] 4(4) by simp
    then obtain r' where "visitAll deps n s ds = Some r'"
      "\<forall>st'. r' = Inr st' \<longrightarrow> unseen_in U st' \<subseteq> unseen_in U s"
      using 4(2) [OF r(1) Inr _ _ 4(5,6)] 4(3) by auto
    with r(1) Inr sub show ?thesis by auto
  qed (use r in auto)
qed auto

definition deps_closed :: "dependencies \<Rightarrow> bool" where
  "deps_closed deps \<longleftrightarrow> (\<forall>j d. (j, d) \<in> edges deps \<longrightarrow> d \<in> fst ` set deps)"

lemma edges_key: "(j, d) \<in> edges deps \<Longrightarrow> j \<in> fst ` set deps"
  using map_of_eq_None_iff [of deps j] by (cases "map_of deps j") (auto simp: edges_def deps_of_def)

lemma detect_decides:
  assumes closed: "deps_closed deps"
  shows "detectCircularJobCommandDependencies deps =
    Some (if acyclic (edges deps) then Ok () else Err ErrCircularJobCommandDependency)"
proof -
  let ?U = "fst ` set deps"
  have U: "\<forall>j \<in> ?U. set (deps_of deps j) \<subseteq> ?U"
    using closed by (auto simp: deps_closed_def edges_def)
  have "card (unseen_in ?U []) \<le> card ?U" by (rule card_mono) (auto simp: unseen_in_def)
  also have "card ?U \<le> length deps" using card_image_le [of "set deps" fst] card_length [of deps] by simp
  finally have "card (unseen_in ?U []) < Suc (length deps)" by simp
  then obtain r where r: "visitAll deps (Suc (length deps)) [] (map fst deps) = Some r"
    using visit_returns(2) [of "map fst deps" ?U "[]" "Suc (length deps)" deps] U by auto
  have s0: "settled deps []" by (simp add: settled_def state_of_def)
  show ?thesis
  proof (cases r)
    case (Inl e)
    then have "e = ErrCircularJobCommandDependency \<and> (\<exists>x. (x, x) \<in> (edges deps)\<^sup>+)"
      using visit_Err(2) [of deps _ "[]" "map fst deps" e] r s0 by (simp add: state_of_def)
    then show ?thesis using r Inl by (auto simp: detectCircularJobCommandDependencies_def acyclic_def)
  next
    case (Inr st')
    then have ok: "settled deps st'" "\<forall>d \<in> ?U. state_of st' d = Complete"
      using visit_Ok(2) [of deps _ "[]" "map fst deps" st'] r s0 by auto
    have "acyclic (edges deps)"
      unfolding acyclic_def
    proof (intro allI notI)
      fix x
      assume "(x, x) \<in> (edges deps)\<^sup>+"
      then obtain d where "(x, d) \<in> edges deps" by (meson tranclD)
      then have "state_of st' x = Complete" using ok(2) edges_key by blast
      with ok(1) \<open>(x, x) \<in> (edges deps)\<^sup>+\<close> show False by (simp add: settled_def)
    qed
    then show ?thesis using r Inr by (simp add: detectCircularJobCommandDependencies_def)
  qed
qed


lemma set_dep_edges:
  "set (dep_edges cmds) = {(q_job q, q_demand_job q) | q. q \<in> set cmds \<and> q_demand_job q \<noteq> []}"
  by (auto simp: dep_edges_def)

lemma deps_of_update: "deps_of (AList.update j ds deps) k = (if k = j then ds else deps_of deps k)"
  by (simp add: deps_of_def)

lemma edges_add: "edges (add_dependency deps e) = insert e (edges deps)"
  by (cases e) (auto simp: edges_def add_dependency_def Let_def deps_of_def split: if_splits)

lemma keys_add: "fst ` set (add_dependency deps e) = insert (fst e) (insert (snd e) (fst ` set deps))"
proof -
  have "map_of m k \<noteq> None \<longleftrightarrow> k \<in> fst ` set m" for m :: dependencies and k
    by (simp add: map_of_eq_None_iff)
  then show ?thesis by (auto simp: add_dependency_def Let_def keys_update split: if_splits)
qed

lemma load_edges:
  "edges (foldl add_dependency deps es) = set es \<union> edges deps \<and>
   fst ` set (foldl add_dependency deps es) = fst ` set es \<union> snd ` set es \<union> fst ` set deps"
  by (induction es arbitrary: deps) (auto simp: edges_add keys_add)

definition demand_edges :: "command_row list \<Rightarrow> (string \<times> string) set" where
  "demand_edges cmds = {(q_job q, q_demand_job q) | q. q \<in> set cmds \<and> q_demand_job q \<noteq> []}"

lemma edges_load: "edges (loadJobCommandDependencies c) = demand_edges (t_job_commands c)"
  using load_edges [of "[]" "dep_edges (t_job_commands c)"]
  by (simp add: loadJobCommandDependencies_def set_dep_edges demand_edges_def)
    (simp add: edges_def deps_of_def)

lemma closed_load: "deps_closed (loadJobCommandDependencies c)"
proof -
  have "fst ` set (loadJobCommandDependencies c) =
      fst ` demand_edges (t_job_commands c) \<union> snd ` demand_edges (t_job_commands c)"
    using load_edges [of "[]" "dep_edges (t_job_commands c)"]
    by (simp add: loadJobCommandDependencies_def set_dep_edges demand_edges_def)
  then show ?thesis by (force simp: deps_closed_def edges_load)
qed

lemma detect_load:
  "detectCircularJobCommandDependencies (loadJobCommandDependencies c) =
     Some (if acyclic (demand_edges (t_job_commands c)) then Ok () else Err ErrCircularJobCommandDependency)"
  using detect_decides [OF closed_load, of c] by (simp add: edges_load)

section \<open>The recursive query returns, and levels follow the demands\<close>

text \<open>The rows of \<open>job_command_seq\<close>, by its two \<open>SELECT\<close>s.\<close>

inductive seq_row :: "command_row list \<Rightarrow> string \<Rightarrow> nat \<Rightarrow> bool" for cmds where
  base: "q \<in> set cmds \<Longrightarrow> q_demand_job q = [] \<Longrightarrow> seq_row cmds (q_job q) 0"
| step: "seq_row cmds j l \<Longrightarrow> q \<in> set cmds \<Longrightarrow> q_demand_job q = j \<Longrightarrow> seq_row cmds (q_job q) (Suc l)"

inductive_cases seq_row_0E: "seq_row cmds j 0"
inductive_cases seq_row_SucE: "seq_row cmds j (Suc l)"

definition generation :: "command_row list \<Rightarrow> nat \<Rightarrow> (string \<times> nat) list" where
  "generation cmds n = (seq_step cmds ^^ n) (seq_base cmds)"

lemma set_generation: "set (generation cmds n) = {(j, n) | j. seq_row cmds j n}"
proof (induction n)
  case 0
  show ?case by (auto simp: generation_def seq_base_def intro: seq_row.base elim: seq_row_0E)
next
  case (Suc n)
  have "generation cmds (Suc n) = seq_step cmds (generation cmds n)"
    by (simp add: generation_def)
  then have "set (generation cmds (Suc n)) =
      {(q_job q, Suc n) | q j. q \<in> set cmds \<and> q_demand_job q = j \<and> (j, n) \<in> set (generation cmds n)}"
    using Suc by (auto simp: seq_step_def)
  also have "\<dots> = {(j, Suc n) | j. seq_row cmds j (Suc n)}"
    using Suc by (auto intro: seq_row.step elim!: seq_row_SucE)
  finally show ?case .
qed

lemma job_command_seq_generations:
  "job_command_seq cmds n (generation cmds m) = Some rows \<Longrightarrow>
   set rows = {(j, l) | j l. m \<le> l \<and> seq_row cmds j l}"
proof (induction n arbitrary: m rows)
  case (Suc n)
  show ?case
  proof (cases "generation cmds m = []")
    case True
    have "\<not> seq_row cmds j l" if "m \<le> l" for j l
      using that
    proof (induction l arbitrary: j rule: dec_induct)
      case base
      then show ?case using set_generation [of cmds m] True by auto
    next
      case (step l)
      then show ?case by (auto elim: seq_row_SucE)
    qed
    with Suc.prems True show ?thesis by auto
  next
    case False
    have "generation cmds (Suc m) = seq_step cmds (generation cmds m)" by (simp add: generation_def)
    with Suc.prems False obtain rest where r: "job_command_seq cmds n (generation cmds (Suc m)) = Some rest"
      and rows: "rows = generation cmds m @ rest" by auto
    have "set rows = set (generation cmds m) \<union> {(j, l) | j l. Suc m \<le> l \<and> seq_row cmds j l}"
      using Suc.IH [OF r] by (simp add: rows)
    also have "\<dots> = {(j, l) | j l. m \<le> l \<and> seq_row cmds j l}"
      unfolding set_generation by (auto simp: Suc_le_eq dest: le_neq_implies_less)
    finally show ?thesis .
  qed
qed simp

lemma job_command_seq_returns:
  "generation cmds (m + k) = [] \<Longrightarrow> k < n \<Longrightarrow> job_command_seq cmds n (generation cmds m) \<noteq> None"
proof (induction n arbitrary: m k)
  case (Suc n)
  show ?case
  proof (cases "generation cmds m = []")
    case False
    then obtain k' where k: "k = Suc k'" using Suc.prems(1) by (cases k) auto
    have "generation cmds (Suc m) = seq_step cmds (generation cmds m)" by (simp add: generation_def)
    then show ?thesis using Suc.IH [of "Suc m" k'] Suc.prems k False by auto
  qed simp
qed simp

text \<open>A chain in a finite relation without cycles is no longer than its domain.\<close>

lemma acyclic_chain_length:
  assumes "finite (Domain R)" and "acyclic R" and "(a, b) \<in> R ^^ n"
  shows "n \<le> card (Domain R)"
proof -
  obtain f where f: "f 0 = a" "\<And>i. i < n \<Longrightarrow> (f i, f (Suc i)) \<in> R"
    using assms(3) by (auto simp: relpow_fun_conv)
  have path: "(f i, f j) \<in> R\<^sup>+" if "i < j" "j \<le> n" for i j
    using that
  proof (induction j)
    case (Suc j)
    then have e: "(f j, f (Suc j)) \<in> R" using f(2) by simp
    show ?case
    proof (cases "i = j")
      case True
      then show ?thesis using e by auto
    next
      case False
      then show ?thesis using Suc e by (auto intro: trancl_into_trancl)
    qed
  qed simp
  have "inj_on f {..<n}"
  proof (rule inj_onI)
    fix i j
    assume ij: "i \<in> {..<n}" "j \<in> {..<n}" "f i = f j"
    show "i = j"
      using ij path [of i j] path [of j i] assms(2) unfolding acyclic_def
      by (metis lessThan_iff linorder_neqE_nat order_less_imp_le)
  qed
  moreover have "f ` {..<n} \<subseteq> Domain R" using f(2) by auto
  ultimately show ?thesis using card_inj_on_le [of f "{..<n}" "Domain R"] assms(1) by simp
qed

lemma Domain_demand: "Domain (demand_edges cmds) \<subseteq> q_job ` set cmds"
  by (auto simp: demand_edges_def)

lemma seq_row_chain:
  assumes "\<forall>q \<in> set cmds. q_job q \<noteq> []"
  shows "seq_row cmds j l \<Longrightarrow> j \<noteq> [] \<and> (\<exists>b. (j, b) \<in> demand_edges cmds ^^ l)"
proof (induction rule: seq_row.induct)
  case (step j l q)
  then obtain b where b: "(j, b) \<in> demand_edges cmds ^^ l" and "j \<noteq> []" by blast
  then have "(q_job q, j) \<in> demand_edges cmds" using step by (auto simp: demand_edges_def)
  then have "(q_job q, b) \<in> demand_edges cmds ^^ Suc l" using b by (rule relpow_Suc_I2)
  with step assms show ?case by blast
qed (use assms in auto)

lemma generations_end:
  assumes "\<forall>q \<in> set cmds. q_job q \<noteq> []" and "acyclic (demand_edges cmds)"
  shows "generation cmds (Suc (length cmds)) = []"
proof -
  have fin: "finite (Domain (demand_edges cmds))"
    by (rule finite_subset [OF Domain_demand]) simp
  have "card (Domain (demand_edges cmds)) \<le> card (q_job ` set cmds)"
    by (rule card_mono [OF _ Domain_demand]) simp
  also have "\<dots> \<le> length cmds" using card_image_le [of "set cmds" q_job] card_length [of cmds] by simp
  finally have "\<not> seq_row cmds j (Suc (length cmds))" for j
    using seq_row_chain [OF assms(1), of j] acyclic_chain_length [OF fin assms(2)]
    by (metis Suc_n_not_le_n le_trans)
  then show ?thesis using set_generation [of cmds "Suc (length cmds)"] by (cases "generation cmds (Suc (length cmds))") auto
qed

lemma seq_returns:
  assumes "\<forall>q \<in> set cmds. q_job q \<noteq> []" and "acyclic (demand_edges cmds)"
  obtains rows where "job_command_seq cmds (length cmds + 2) (seq_base cmds) = Some rows"
    and "set rows = {(j, l) | j l. seq_row cmds j l}"
proof -
  have "generation cmds 0 = seq_base cmds" by (simp add: generation_def)
  with job_command_seq_returns [of cmds 0 "Suc (length cmds)" "length cmds + 2"] generations_end [OF assms]
  obtain rows where "job_command_seq cmds (length cmds + 2) (generation cmds 0) = Some rows" by auto
  with job_command_seq_generations [OF this] that show thesis by (simp add: generation_def)
qed

lemma foldl_max: "foldl max (l :: nat) ls = Max (insert l (set ls))"
proof (induction ls arbitrary: l)
  case (Cons a ls)
  have "insert l (set (a # ls)) = insert l (insert a (set ls))" by simp
  have "foldl max l (a # ls) = Max (insert (max l a) (set ls))" using Cons by simp
  also have "\<dots> = Max (insert l (insert a (set ls)))"
    by (cases "ls = []") (auto simp: max.assoc)
  finally show ?case by simp
qed simp

lemma max_level_Max:
  "max_level rows j = (if \<exists>l. (j, l) \<in> set rows then Some (Max {l. (j, l) \<in> set rows}) else None)"
proof -
  have s: "set (map snd (filter (\<lambda>(k, _). k = j) rows)) = {l. (j, l) \<in> set rows}" by force
  show ?thesis
  proof (cases "map snd (filter (\<lambda>(k, _). k = j) rows)")
    case Nil
    then have "{l. (j, l) \<in> set rows} = {}" unfolding s [symmetric] by simp
    then show ?thesis using Nil unfolding max_level_def by auto
  next
    case (Cons l ls)
    then have e: "insert l (set ls) = {l. (j, l) \<in> set rows}" unfolding s [symmetric] by simp
    then have "\<exists>l. (j, l) \<in> set rows" by blast
    then show ?thesis using Cons foldl_max [of l ls] e unfolding max_level_def by simp
  qed
qed

lemma max_level_demand:
  assumes rows: "set rows = {(j, l) | j l. seq_row cmds j l}" and q: "q \<in> set cmds"
    and d: "max_level rows (q_demand_job q) = Some l"
  shows "\<exists>l'. max_level rows (q_job q) = Some l' \<and> l < l'"
proof -
  have fin: "finite {l. (j, l) \<in> set rows}" for j
    by (rule finite_subset [of _ "snd ` set rows"]) force+
  have l: "(q_demand_job q, l) \<in> set rows"
    using d Max_in [OF fin [of "q_demand_job q"]] by (auto simp: max_level_Max split: if_splits)
  then have up: "(q_job q, Suc l) \<in> set rows" using rows q by (auto intro: seq_row.step)
  then have "max_level rows (q_job q) = Some (Max {l. (q_job q, l) \<in> set rows})"
    by (auto simp: max_level_Max)
  moreover have "Suc l \<le> Max {l. (q_job q, l) \<in> set rows}" using up fin by (intro Max_ge) auto
  ultimately show ?thesis by (auto simp: Suc_le_eq)
qed

text \<open>When every demanded job has commands of its own, every job with commands gets a level.\<close>

lemma seq_row_total:
  assumes ac: "acyclic (demand_edges cmds)"
    and d: "\<forall>q \<in> set cmds. q_demand_job q \<noteq> [] \<longrightarrow> q_demand_job q \<in> q_job ` set cmds"
  shows "q \<in> set cmds \<Longrightarrow> \<exists>l. seq_row cmds (q_job q) l"
proof -
  have "finite (demand_edges cmds)"
    by (rule finite_subset [of _ "(\<lambda>q. (q_job q, q_demand_job q)) ` set cmds"]) (auto simp: demand_edges_def)
  then have wf: "wf ((demand_edges cmds)\<inverse>)" by (rule finite_acyclic_wf_converse) (rule ac)
  have "\<forall>q \<in> set cmds. q_job q = j \<longrightarrow> (\<exists>l. seq_row cmds j l)" for j
    using wf
  proof (induction j rule: wf_induct_rule)
    case (less j)
    show ?case
    proof (intro ballI impI)
      fix q
      assume q: "q \<in> set cmds" "q_job q = j"
      show "\<exists>l. seq_row cmds j l"
      proof (cases "q_demand_job q = []")
        case True
        then show ?thesis using seq_row.base [OF q(1)] q(2) by auto
      next
        case False
        then have "(q_demand_job q, j) \<in> (demand_edges cmds)\<inverse>" using q by (auto simp: demand_edges_def)
        moreover obtain q' where "q' \<in> set cmds" "q_job q' = q_demand_job q" using d q False by force
        ultimately obtain l where "seq_row cmds (q_demand_job q) l" using less by blast
        then have "seq_row cmds (q_job q) (Suc l)" by (rule seq_row.step) (use q in auto)
        then show ?thesis using q(2) by blast
      qed
    qed
  qed
  then show "q \<in> set cmds \<Longrightarrow> \<exists>l. seq_row cmds (q_job q) l" by blast
qed

section \<open>Properties\<close>

text \<open>Property C28: building the deployment sequence always returns, and it decides exactly whether the
  demands are circular. For commands of jobs with a name, \<open>BuildDeploymentSequence\<close> fails with
  \<open>ErrCircularJobCommandDependency\<close> iff some job demands itself over any number of steps, and
  succeeds otherwise; neither the recursive search nor the recursive query runs for ever.\<close>

theorem deployment_sequence_decides:
  assumes "\<forall>q \<in> set (t_job_commands c). q_job q \<noteq> []"
  shows "if acyclic (demand_edges (t_job_commands c))
     then \<exists>c'. BuildDeploymentSequence c = Some (Ok c')
     else BuildDeploymentSequence c = Some (Err ErrCircularJobCommandDependency)"
proof (cases "acyclic (demand_edges (t_job_commands c))")
  case True
  obtain rows where
    "job_command_seq (t_job_commands c) (length (t_job_commands c) + 2) (seq_base (t_job_commands c)) = Some rows"
    by (rule seq_returns [OF assms True])
  with True show ?thesis by (simp add: BuildDeploymentSequence_def detect_load Let_def)
next
  case False
  then show ?thesis by (simp add: BuildDeploymentSequence_def detect_load Let_def)
qed

definition demand_row :: "string \<Rightarrow> string \<Rightarrow> command_row" where
  "demand_row j d = \<lparr>q_job_id = j, q_job = j, q_name = ''command_x'', q_executed_on = ''post_deploy'',
     q_demand_job = d, q_demand_command = ''command_x'', q_demand_config = []\<rparr>"

lemma deployment_sequence_decides_witness:
  "BuildDeploymentSequence (empty_catalog\<lparr>t_job_commands := [demand_row ''a'' ''b'', demand_row ''b'' ''a'']\<rparr>)
     = Some (Err ErrCircularJobCommandDependency)"
proof -
  let ?c = "empty_catalog\<lparr>t_job_commands := [demand_row ''a'' ''b'', demand_row ''b'' ''a'']\<rparr>"
  have "(''a'', ''b'') \<in> demand_edges (t_job_commands ?c)" "(''b'', ''a'') \<in> demand_edges (t_job_commands ?c)"
    by (force simp: demand_edges_def demand_row_def)+
  then have "(''a'', ''a'') \<in> (demand_edges (t_job_commands ?c))\<^sup>+" by (meson r_into_trancl trancl_into_trancl)
  then have "\<not> acyclic (demand_edges (t_job_commands ?c))" by (auto simp: acyclic_def)
  then show ?thesis using deployment_sequence_decides [of ?c] by (simp add: demand_row_def)
qed

text \<open>Property C12: the sequence is a topological order of the demands. Once \<open>BuildDeploymentSequence\<close>
  has succeeded, and every demanded job has commands of its own, an allocation of a job that
  demands another job has a strictly higher \<open>deployment_seq\<close> than every allocation of the demanded
  job, so deploying wave by wave deploys demanded jobs first.\<close>

theorem deployment_sequence_topological:
  assumes "BuildDeploymentSequence c = Some (Ok c')"
    and "\<forall>q \<in> set (t_job_commands c). q_job q \<noteq> []"
    and "\<forall>q \<in> set (t_job_commands c). q_demand_job q \<noteq> [] \<longrightarrow> q_demand_job q \<in> q_job ` set (t_job_commands c)"
    and "q \<in> set (t_job_commands c)" and "q_demand_job q \<noteq> []"
    and "a \<in> set (t_allocations c')" and "a_job a = q_job q"
    and "b \<in> set (t_allocations c')" and "a_job b = q_demand_job q"
  shows "a_seq b < a_seq a"
proof -
  let ?cmds = "t_job_commands c"
  have ac: "acyclic (demand_edges ?cmds)"
    using assms(1) by (auto simp: BuildDeploymentSequence_def detect_load Let_def split: if_splits)
  obtain rows where rows: "job_command_seq ?cmds (length ?cmds + 2) (seq_base ?cmds) = Some rows"
    "set rows = {(j, l) | j l. seq_row ?cmds j l}"
    by (rule seq_returns [OF assms(2) ac])
  have c': "t_allocations c' = map (set_deployment_seq rows) (t_allocations c)"
    using assms(1) ac rows(1) by (auto simp: BuildDeploymentSequence_def detect_load Let_def)
  obtain q' where "q' \<in> set ?cmds" "q_job q' = q_demand_job q" using assms(3,4,5) by force
  then have "\<exists>l. (q_demand_job q, l) \<in> set rows"
    using seq_row_total [OF ac assms(3), of q'] rows(2) by auto
  then obtain l where l: "max_level rows (q_demand_job q) = Some l" by (auto simp: max_level_Max)
  then obtain l' where l': "max_level rows (q_job q) = Some l'" "l < l'"
    using max_level_demand [OF rows(2) assms(4)] by blast
  have job [simp]: "a_job (set_deployment_seq rows x) = a_job x" for x
    by (simp add: set_deployment_seq_def split: option.split)
  have seq: "a_seq y = int m" if y: "y \<in> set (t_allocations c')" and m: "max_level rows (a_job y) = Some m" for y m
  proof -
    obtain x where "y = set_deployment_seq rows x" using y unfolding c' set_map by blast
    then show ?thesis using m by (simp only: job) (simp add: set_deployment_seq_def)
  qed
  show ?thesis using seq [OF assms(6)] seq [OF assms(8)] l l' assms(7,9) by simp
qed

definition two_waves :: catalog where
  "two_waves = empty_catalog\<lparr>t_job_commands := [demand_row ''api'' ''db'', demand_row ''db'' []],
     t_allocations := [plain_alloc ''w1'' ''api'', plain_alloc ''w1'' ''db'']\<rparr>"

lemma deployment_sequence_topological_witness:
  "\<exists>c'. BuildDeploymentSequence two_waves = Some (Ok c') \<and>
     (\<forall>a \<in> set (t_allocations c'). \<forall>b \<in> set (t_allocations c').
        a_job a = ''api'' \<longrightarrow> a_job b = ''db'' \<longrightarrow> a_seq b < a_seq a)"
proof -
  have cmds: "t_job_commands two_waves = [demand_row ''api'' ''db'', demand_row ''db'' []]"
    by (simp add: two_waves_def)
  have "BuildDeploymentSequence two_waves \<noteq> None \<and> (\<exists>c'. BuildDeploymentSequence two_waves = Some (Ok c'))"
    by (simp add: two_waves_def empty_catalog_def BuildDeploymentSequence_def demand_row_def
        loadJobCommandDependencies_def dep_edges_def Unique_def add_dependency_def deps_of_def Let_def
        detectCircularJobCommandDependencies_def state_of_def seq_base_def seq_step_def numeral_2_eq_2)
  then obtain c' where c': "BuildDeploymentSequence two_waves = Some (Ok c')" by blast
  have "a_seq b < a_seq a" if "a \<in> set (t_allocations c')" "b \<in> set (t_allocations c')"
    "a_job a = ''api''" "a_job b = ''db''" for a b
    by (rule deployment_sequence_topological [OF c', of "demand_row ''api'' ''db''"])
      (use that in \<open>auto simp: cmds demand_row_def\<close>)
  with c' show ?thesis by blast
qed

end
