(* ===== verification/Rollout.thy ===== *)
theory Rollout
  imports CatalogLaws
begin

text \<open>
  The decisions of a rollout, without side effects: the order of workers (\<open>deploy/ordering.go\<close>), the
  lifecycle action (\<open>deploy/rollout_policy.go\<close>), the batches and whether a job needs a rollout
  (\<open>deploy/rollout.go\<close>), the job filter (\<open>deploy/filters.go\<close>), and the dry run's plan
  (\<open>deploy/dry_run.go\<close>).
\<close>

section \<open>The order of workers (deploy/ordering.go)\<close>

datatype order_source = OrderKV | OrderDefault

record resolved_order =
  ro_ordered :: "string list"
  ro_full :: string
  ro_source :: order_source

definition readRolloutOrderKV :: "store \<Rightarrow> string \<Rightarrow> string option" where
  "readRolloutOrderKV kv job =
     (case Get kv (JobCatalogNamespace job) ''rollout_order'' of
        Inl _ \<Rightarrow> None
      | Inr e \<Rightarrow> if trim_space (e_value e) = [] then None else Some (trim_space (e_value e)))"

definition parseOrderList :: "string \<Rightarrow> string list" where
  "parseOrderList raw = filter (\<lambda>p. p \<noteq> []) (map trim_space (split_char (CHR '','') raw))"

text \<open>The reason string of a rejection is only logged.\<close>

fun order_entries_ok :: "string list \<Rightarrow> string list \<Rightarrow> string list \<Rightarrow> bool" where
  "order_entries_ok seen active [] = list_all (\<lambda>ip. ip \<in> set seen) active"
| "order_entries_ok seen active (ip # ips) =
     (ip \<notin> set seen \<and> ip \<in> set active \<and> order_entries_ok (ip # seen) active ips)"

definition validateRolloutOrderList :: "string list \<Rightarrow> string list \<Rightarrow> bool" where
  "validateRolloutOrderList orderList active \<longleftrightarrow>
     \<not> (orderList = [] \<and> active \<noteq> []) \<and> order_entries_ok [] active orderList"

fun append_missing :: "string list \<Rightarrow> string list \<Rightarrow> string list" where
  "append_missing ordered [] = ordered"
| "append_missing ordered (ip # ips) =
     append_missing (if ip \<in> set ordered then ordered else ordered @ [ip]) ips"

definition defaultCatalogOrder :: "catalog \<Rightarrow> string \<Rightarrow> string list \<Rightarrow> string list" where
  "defaultCatalogOrder c job candidates =
     append_missing (filter (\<lambda>ip. ip \<in> set candidates) (GetNonRemovedAllocationsOrdered c job)) candidates"

definition orderByList :: "string list \<Rightarrow> string list \<Rightarrow> string list" where
  "orderByList candidates orderList = filter (\<lambda>ip. ip \<in> set candidates) orderList"

definition ResolveRolloutOrder :: "catalog \<Rightarrow> store \<Rightarrow> string \<Rightarrow> string list \<Rightarrow> resolved_order" where
  "ResolveRolloutOrder c kv job candidates =
     (if candidates = [] then \<lparr>ro_ordered = [], ro_full = [], ro_source = OrderDefault\<rparr>
      else let dflt = defaultCatalogOrder c job candidates;
               fallback = \<lparr>ro_ordered = dflt, ro_full = join '','' dflt, ro_source = OrderDefault\<rparr>
           in case readRolloutOrderKV kv job of
                None \<Rightarrow> fallback
              | Some raw \<Rightarrow>
                  if validateRolloutOrderList (parseOrderList raw) candidates
                  then \<lparr>ro_ordered = orderByList candidates (parseOrderList raw), ro_full = raw,
                        ro_source = OrderKV\<rparr>
                  else fallback)"

section \<open>The lifecycle action (deploy/rollout_policy.go)\<close>

datatype rollout_action =
  ActStart | ActRestart | ActReload | ActSync | ActSkip | ActStop | ActPromote | ActStopPromote

definition resolveUpdateAction ::
  "bool \<Rightarrow> string \<Rightarrow> string list \<Rightarrow> file_manifest \<Rightarrow> file_manifest \<Rightarrow> bool \<Rightarrow> bool \<Rightarrow> bool \<Rightarrow>
   rollout_action \<times> string list" where
  "resolveUpdateAction syncOnly policy globs previousFiles currentFiles hashChanged versionOnly legacy =
     (if syncOnly then (ActSync, [])
      else if policy = ''never'' then (ActSync, [])
      else if policy = ''always'' then (ActRestart, [])
      else if policy = ''reload'' then
        (if versionOnly \<and> \<not> hashChanged then (ActReload, [])
         else if legacy \<and> hashChanged then (ActReload, [])
         else if globs = [] then (ActReload, [])
         else let m = MatchAny globs (DiffFileManifests previousFiles currentFiles)
              in if m \<noteq> [] then (ActRestart, m) else (ActReload, []))
      else (ActRestart, []))"

definition effectiveUpdateAction :: "bool \<Rightarrow> string \<Rightarrow> rollout_action" where
  "effectiveUpdateAction syncOnly policy = fst (resolveUpdateAction syncOnly policy [] [] [] True False False)"

definition validateSyncOnlyRollout :: "catalog \<Rightarrow> string \<Rightarrow> error + unit" where
  "validateSyncOnlyRollout c job =
     (if GetNewAllocations c job = [] then Ok () else Err ErrSyncOnlyNewAllocations)"

record deploy_options =
  o_force :: bool
  o_sync_only :: bool

definition resolveAllocationLifecycle ::
  "catalog \<Rightarrow> string \<Rightarrow> string \<Rightarrow> deploy_options \<Rightarrow> string \<Rightarrow> string list \<Rightarrow> bool \<Rightarrow> bool \<Rightarrow>
   error + (rollout_action \<times> string list)" where
  "resolveAllocationLifecycle c job ip opts policy globs hashChanged versionOnly =
     rbind (GetAllocationID c ip job) (\<lambda>allocID.
       let m = GetAllocationFileManifests c (allocation_namespace job) allocID
       in Ok (resolveUpdateAction (o_sync_only opts) policy globs (af_previous m) (af_current m)
                hashChanged versionOnly (\<not> af_has_previous m)))"

section \<open>Batches and the need for a rollout (deploy/rollout.go, deploy/batch_hooks.go)\<close>

definition effectiveBatchSize :: "int \<Rightarrow> int \<Rightarrow> int" where
  "effectiveBatchSize requested n =
     (if requested < 1 then n else if requested > n then n else requested)"

definition batchCount :: "int \<Rightarrow> int \<Rightarrow> int" where
  "batchCount count batchSize =
     (if count = 0 then 0
      else let n = (if batchSize < 1 then count else batchSize) in (count + n - 1) div n)"

fun any_without_hash :: "catalog \<Rightarrow> string \<Rightarrow> string list \<Rightarrow> error + bool" where
  "any_without_hash c job [] = Ok False"
| "any_without_hash c job (ip # ips) =
     rbind (GetAllocationID c ip job) (\<lambda>allocID.
       if length (hash_rows c (allocation_namespace job) allocID) = 0 then Ok True
       else any_without_hash c job ips)"

definition JobNeedsRollout :: "catalog \<Rightarrow> string \<Rightarrow> error + bool" where
  "JobNeedsRollout c job =
     rbind (any_without_hash c job (GetNonRemovedAllocations c job)) (\<lambda>missing.
       if missing then Ok True
       else if GetNewAllocations c job \<noteq> [] then Ok True
       else if GetUpdatedNonRemovedAllocations c job \<noteq> [] then Ok True
       else Ok (GetVersionPendingNonRemovedAllocations c job \<noteq> []))"

fun activeWorkers :: "catalog \<Rightarrow> string list \<Rightarrow> string \<Rightarrow> error + string list" where
  "activeWorkers c [] job = Ok []"
| "activeWorkers c (ip # ips) job =
     rbind (IsAllocationActive c ip job) (\<lambda>ok.
     rbind (activeWorkers c ips job) (\<lambda>rest. Ok (if ok then ip # rest else rest)))"

definition allocationsNeedingRestart :: "catalog \<Rightarrow> string \<Rightarrow> bool \<Rightarrow> error + string list" where
  "allocationsNeedingRestart c job force =
     (let new = GetNewAllocations c job
      in if \<not> force then
           Ok (Difference (Unique (GetUpdatedAllocations c job @ GetVersionPendingAllocations c job)) new)
         else rbind (GetActiveAllocations c job) (\<lambda>active. Ok (Difference active new)))"

section \<open>Job filter (deploy/filters.go)\<close>

definition normalizeJobFilter :: "string list \<Rightarrow> string list" where
  "normalizeJobFilter jobsFilter = (if jobsFilter = [] then [] else Unique jobsFilter)"

definition selectJobsForDeploy :: "string list \<Rightarrow> string list \<Rightarrow> string list" where
  "selectJobsForDeploy available jobsFilter =
     (let f = normalizeJobFilter jobsFilter
      in if f = [] then available else filter (\<lambda>j. j \<in> set f) available)"

definition parseJobsCSV :: "string \<Rightarrow> string list" where
  "parseJobsCSV raw =
     (let csv = trim_space raw
      in if csv = [] then [] else Unique (filter (\<lambda>p. p \<noteq> []) (map trim_space (split_char (CHR '','') csv))))"

section \<open>The dry run's plan (deploy/dry_run.go)\<close>

record allocation_plan =
  ap_ip :: string
  ap_action :: rollout_action
  ap_previous :: string
  ap_current :: string
  ap_matched :: "string list"

definition planDisabledAllocation ::
  "catalog \<Rightarrow> string \<Rightarrow> string \<Rightarrow> deploy_options \<Rightarrow> error + (allocation_plan \<times> bool)" where
  "planDisabledAllocation c job ip opts =
     rbind (GetAllocationID c ip job) (\<lambda>allocID.
     case GetAllocationHash c (allocation_namespace job) allocID of (current, previous, ok) \<Rightarrow>
     rbind (AllocationNeedsVersionRollout c job ip) (\<lambda>needsVersion.
       let wasDeployed = (ok \<and> previous \<noteq> []);
           hashMismatch = (wasDeployed \<and> previous \<noteq> current);
           needsPromote = (hashMismatch \<or> needsVersion \<or> (o_force opts \<and> wasDeployed));
           action = (if wasDeployed then (if needsPromote then ActStopPromote else ActStop)
                     else if needsPromote then ActPromote else ActSkip)
       in Ok (\<lparr>ap_ip = ip, ap_action = action, ap_previous = previous, ap_current = current,
               ap_matched = []\<rparr>, wasDeployed \<or> needsPromote)))"

definition planActiveAllocation ::
  "catalog \<Rightarrow> string \<Rightarrow> string \<Rightarrow> deploy_options \<Rightarrow> string \<Rightarrow> string list \<Rightarrow> error + (allocation_plan \<times> bool)" where
  "planActiveAllocation c job ip opts policy globs =
     rbind (GetAllocationID c ip job) (\<lambda>allocID.
     case GetAllocationHash c (allocation_namespace job) allocID of (current, previous, ok) \<Rightarrow>
       let lifecycle = (\<lambda>hashChanged versionOnly.
             rbind (resolveAllocationLifecycle c job ip opts policy globs hashChanged versionOnly) (\<lambda>(action, m).
               Ok (\<lparr>ap_ip = ip, ap_action = action, ap_previous = previous, ap_current = current,
                    ap_matched = m\<rparr>, True)))
       in if \<not> ok then
            Ok (\<lparr>ap_ip = ip, ap_action = ActStart, ap_previous = [], ap_current = [], ap_matched = []\<rparr>, True)
          else if previous = [] then
            Ok (\<lparr>ap_ip = ip, ap_action = ActStart, ap_previous = [], ap_current = current, ap_matched = []\<rparr>, True)
          else if previous \<noteq> current then lifecycle True False
          else if o_force opts then lifecycle False False
          else rbind (AllocationNeedsVersionRollout c job ip) (\<lambda>needsVersion.
                 if needsVersion then lifecycle False True
                 else Ok (\<lparr>ap_ip = ip, ap_action = ActSkip, ap_previous = previous, ap_current = current,
                           ap_matched = []\<rparr>, False)))"

record job_plan =
  jp_job :: string
  jp_seq :: int
  jp_needs :: bool
  jp_allocations :: "allocation_plan list"

definition plan_allocation ::
  "catalog \<Rightarrow> string \<Rightarrow> deploy_options \<Rightarrow> string \<Rightarrow> string list \<Rightarrow> string \<Rightarrow> error + (allocation_plan \<times> bool)" where
  "plan_allocation c job opts policy globs ip =
     rbind (IsAllocationDisabled c ip job) (\<lambda>disabled.
       if disabled then planDisabledAllocation c job ip opts
       else planActiveAllocation c job ip opts policy globs)"

definition planJobRollout ::
  "catalog \<Rightarrow> string \<Rightarrow> int \<Rightarrow> deploy_options \<Rightarrow> error + job_plan" where
  "planJobRollout c job seq opts =
     (let workers = GetNonRemovedAllocationsOrdered c job
      in if workers = [] then Ok \<lparr>jp_job = job, jp_seq = seq, jp_needs = False, jp_allocations = []\<rparr>
         else rbind (GetRestartPolicy c job) (\<lambda>policy.
              rbind (GetRestartGlobs c job) (\<lambda>globs.
              rbind (rmap (plan_allocation c job opts policy globs) workers) (\<lambda>plans.
                Ok \<lparr>jp_job = job, jp_seq = seq, jp_needs = list_ex snd plans,
                    jp_allocations = map fst plans\<rparr>))))"

section \<open>Facts about the order\<close>

lemma order_entries_ok_iff:
  "distinct seen \<Longrightarrow> set seen \<subseteq> set active \<Longrightarrow>
   order_entries_ok seen active ips \<longleftrightarrow>
     distinct (seen @ ips) \<and> set seen \<union> set ips = set active"
proof (induction seen active ips rule: order_entries_ok.induct)
  case (1 seen active)
  then show ?case by (auto simp: list_all_iff)
next
  case (2 seen active ip ips)
  show ?case
  proof (cases "ip \<notin> set seen \<and> ip \<in> set active")
    case True
    then have "order_entries_ok (ip # seen) active ips \<longleftrightarrow>
        distinct ((ip # seen) @ ips) \<and> set (ip # seen) \<union> set ips = set active"
      using 2 by auto
    with True show ?thesis by auto
  qed auto
qed

lemma validate_order_iff:
  "validateRolloutOrderList order active \<longleftrightarrow> distinct order \<and> set order = set active"
  using order_entries_ok_iff [of "[]" active order]
  by (auto simp: validateRolloutOrderList_def)

lemma append_missing_props:
  "set (append_missing ordered ips) = set ordered \<union> set ips"
  "distinct ordered \<Longrightarrow> distinct (append_missing ordered ips)"
  by (induction ips arbitrary: ordered) auto

lemma set_sort_by_snd: "set (map snd (sort_by le xs)) = snd ` set xs"
  by simp

lemma distinct_GetNonRemovedOrdered:
  assumes "catalog_ok c"
  shows "distinct (GetNonRemovedAllocationsOrdered c job)"
proof -
  have w: "length (workers_at c ip) \<le> 1" for ip
  proof (cases "workers_at c ip")
    case (Cons w ws)
    then have "w \<in> set (workers_at c ip)" by simp
    then have "w \<in> set (t_worker c)" "w_ip w = ip" by (auto simp: workers_at_def)
    then have "workers_at c ip = [w]" using worker_unique [OF assms] by blast
    then show ?thesis by simp
  qed simp
  have j: "distinct (map snd (joined_positions c as)) \<and> snd ` set (joined_positions c as) \<subseteq> a_ip ` set as"
    if "distinct (map a_ip as)" for as
    using that
  proof (induction as)
    case (Cons a as)
    have "workers_at c (a_ip a) = [] \<or> (\<exists>x. workers_at c (a_ip a) = [x])"
      using w [of "a_ip a"] by (cases "workers_at c (a_ip a)") auto
    with Cons show ?case by (auto simp: joined_positions_def)
  qed (simp add: joined_positions_def)
  show ?thesis
    unfolding GetNonRemovedAllocationsOrdered_def distinct_map_sort_by
    using j distinct_allocs_ip [OF assms, of job] by (simp add: distinct_map_filter)
qed


section \<open>When a job needs a rollout\<close>

abbreviation live_allocs :: "catalog \<Rightarrow> string \<Rightarrow> alloc_row set" where
  "live_allocs c job \<equiv> {a \<in> set (t_allocations c). a_job a = job \<and> \<not> a_removed a}"

definition rows_of_alloc :: "catalog \<Rightarrow> alloc_row \<Rightarrow> hash_row list" where
  "rows_of_alloc c a = hash_rows c (allocation_namespace (a_job a)) (a_id a)"

lemma any_without_hash_Ok:
  assumes "catalog_ok c" and "set ips \<subseteq> a_ip ` live_allocs c job"
  shows "any_without_hash c job ips = Ok (\<exists>a \<in> live_allocs c job. a_ip a \<in> set ips \<and> rows_of_alloc c a = [])"
  using assms(2)
proof (induction ips)
  case (Cons ip ips)
  then obtain a where a: "a \<in> live_allocs c job" "a_ip a = ip" by auto
  then have gid: "GetAllocationID c ip job = Ok (a_id a)" using GetAllocationID_Ok [OF assms(1), of a] by auto
  have uniq: "b = a" if "b \<in> live_allocs c job" "a_ip b = ip" for b
  proof -
    have "alloc_at c ip job = [b]" "alloc_at c ip job = [a]"
      using alloc_at_unique [OF assms(1), of b] alloc_at_unique [OF assms(1), of a] that a by auto
    then show ?thesis by simp
  qed
  have ih: "any_without_hash c job ips = Ok (\<exists>a \<in> live_allocs c job. a_ip a \<in> set ips \<and> rows_of_alloc c a = [])"
    by (rule Cons.IH) (use Cons.prems in simp)
  have split: "(\<exists>b \<in> live_allocs c job. a_ip b \<in> set (ip # ips) \<and> rows_of_alloc c b = []) \<longleftrightarrow>
      rows_of_alloc c a = [] \<or> (\<exists>b \<in> live_allocs c job. a_ip b \<in> set ips \<and> rows_of_alloc c b = [])"
    (is "?l \<longleftrightarrow> _ \<or> ?r")
  proof
    assume ?l
    then obtain b where b: "b \<in> live_allocs c job" "a_ip b = ip \<or> a_ip b \<in> set ips" "rows_of_alloc c b = []"
      by auto
    show "rows_of_alloc c a = [] \<or> ?r"
    proof (cases "a_ip b = ip")
      case True
      with b(1,3) uniq [of b] show ?thesis by simp
    next
      case False
      with b(2) have "a_ip b \<in> set ips" by simp
      with b(1,3) show ?thesis by (intro disjI2 bexI [of _ b] conjI)
    qed
  next
    assume "rows_of_alloc c a = [] \<or> ?r"
    then show ?l
    proof
      assume e: "rows_of_alloc c a = []"
      show ?l by (rule bexI [OF _ a(1)]) (simp add: e a(2))
    next
      assume ?r
      then obtain b where "b \<in> live_allocs c job" "a_ip b \<in> set ips \<and> rows_of_alloc c b = []" by (elim bexE)
      then show ?l by (intro bexI [of _ b]) simp_all
    qed
  qed
  have r: "rows_of_alloc c a = hash_rows c (allocation_namespace job) (a_id a)"
    using a(1) by (simp add: rows_of_alloc_def)
  show ?case unfolding split by (simp add: gid ih r)
qed simp

lemma rows_of_alloc_cases:
  assumes "catalog_ok c"
  obtains "rows_of_alloc c a = []" | h where "rows_of_alloc c a = [h]"
  using hash_rows_cases [OF assms, of "allocation_namespace (a_job a)" "a_id a"]
  unfolding rows_of_alloc_def by blast

lemma hash_join_empty:
  assumes "catalog_ok c"
  shows "hash_join c job P Q \<noteq> [] \<longleftrightarrow>
    (\<exists>a \<in> set (t_allocations c). a_job a = job \<and> Q a \<and> (\<exists>h. rows_of_alloc c a = [h] \<and> P h))"
proof -
  have "hash_join c job P Q \<noteq> [] \<longleftrightarrow> (\<exists>ip. ip \<in> set (hash_join c job P Q))"
    by (cases "hash_join c job P Q") auto
  then show ?thesis unfolding hash_join_iff [OF assms] rows_of_alloc_def by blast
qed

lemma JobNeedsRollout_iff:
  assumes ok: "catalog_ok c"
  shows "JobNeedsRollout c job = Ok (\<exists>a \<in> live_allocs c job. alloc_pending c a)"
proof -
  have any: "any_without_hash c job (GetNonRemovedAllocations c job) =
      Ok (\<exists>a \<in> live_allocs c job. rows_of_alloc c a = [])"
  proof -
    have "any_without_hash c job (GetNonRemovedAllocations c job) =
        Ok (\<exists>a \<in> live_allocs c job. a_ip a \<in> set (GetNonRemovedAllocations c job) \<and> rows_of_alloc c a = [])"
      by (rule any_without_hash_Ok [OF ok]) (auto simp: set_GetNonRemoved)
    moreover have "a_ip a \<in> set (GetNonRemovedAllocations c job)" if "a \<in> live_allocs c job" for a
      using that by (auto simp: set_GetNonRemoved)
    ultimately show ?thesis by simp
  qed
  show ?thesis
  proof (cases "\<exists>a \<in> live_allocs c job. rows_of_alloc c a = []")
    case True
    then have "\<exists>a \<in> live_allocs c job. alloc_pending c a"
      by (auto simp: alloc_pending_def rows_of_alloc_def)
    with True any show ?thesis by (simp add: JobNeedsRollout_def)
  next
    case False
    have one: "\<exists>h. rows_of_alloc c a = [h]" if "a \<in> live_allocs c job" for a
      using False that rows_of_alloc_cases [OF ok, of a] by blast
    have pend: "alloc_pending c a \<longleftrightarrow> row_new a h \<or> hash_updated h \<or> row_version_pending a h"
      if "rows_of_alloc c a = [h]" for a h
      using that by (simp add: alloc_pending_def rows_of_alloc_def)
    have new: "GetNewAllocations c job \<noteq> [] \<longleftrightarrow>
        (\<exists>a \<in> live_allocs c job. \<exists>h. rows_of_alloc c a = [h] \<and> row_new a h)"
      unfolding GetNewAllocations_def hash_join_empty [OF ok] row_new_def by blast
    have upd: "GetUpdatedNonRemovedAllocations c job \<noteq> [] \<longleftrightarrow>
        (\<exists>a \<in> live_allocs c job. \<exists>h. rows_of_alloc c a = [h] \<and> hash_updated h)"
      unfolding GetUpdatedNonRemovedAllocations_def hash_join_empty [OF ok] by blast
    have ver: "GetVersionPendingNonRemovedAllocations c job \<noteq> [] \<longleftrightarrow>
        (\<exists>a \<in> live_allocs c job. \<exists>h. rows_of_alloc c a = [h] \<and> row_version_pending a h)"
    proof -
      have "GetVersionPendingNonRemovedAllocations c job \<noteq> [] \<longleftrightarrow>
          (\<exists>a \<in> live_allocs c job. version_pending c job a \<noteq> [])"
        by (auto simp: GetVersionPendingNonRemovedAllocations_def)
      moreover have "version_pending c job a \<noteq> [] \<longleftrightarrow> (\<exists>h. rows_of_alloc c a = [h] \<and> row_version_pending a h)"
        if a: "a \<in> live_allocs c job" for a
      proof -
        obtain h where h: "rows_of_alloc c a = [h]" using one [OF a] by blast
        have "a_job a = job" using a by simp
        then show ?thesis
          using version_pending_iff [OF ok, of a job h] h by (auto simp: rows_of_alloc_def)
      qed
      ultimately show ?thesis by blast
    qed
    have "(\<exists>a \<in> live_allocs c job. alloc_pending c a) \<longleftrightarrow>
        GetNewAllocations c job \<noteq> [] \<or> GetUpdatedNonRemovedAllocations c job \<noteq> [] \<or>
        GetVersionPendingNonRemovedAllocations c job \<noteq> []"
      unfolding new upd ver using one pend by blast
    moreover have "any_without_hash c job (GetNonRemovedAllocations c job) = Ok False"
      unfolding any using False by (simp only: simp_thms)
    ultimately show ?thesis by (auto simp: JobNeedsRollout_def)
  qed
qed

section \<open>What restarts\<close>

lemma set_allocationsNeedingRestart:
  assumes ok: "catalog_ok c" and r: "allocationsNeedingRestart c job force = Ok ws"
    and rows: "\<forall>a \<in> live_allocs c job. rows_of_alloc c a \<noteq> []"
  shows "set ws = {a_ip a | a h. a \<in> live_allocs c job \<and> \<not> a_disabled a \<and> rows_of_alloc c a = [h] \<and>
    h_previous_hash h \<noteq> None \<and> (force \<or> hash_updated h \<or> row_version_pending a h)}"
proof -
  have one: "\<exists>h. rows_of_alloc c a = [h]" if "a \<in> live_allocs c job" for a
    using rows that rows_of_alloc_cases [OF ok, of a] by blast
  have same: "b = a" if "a \<in> live_allocs c job" "b \<in> live_allocs c job" "a_ip a = a_ip b" for a b
  proof -
    have "alloc_at c (a_ip a) job = [b]" "alloc_at c (a_ip a) job = [a]"
      using alloc_at_unique [OF ok, of b] alloc_at_unique [OF ok, of a] that by auto
    then show ?thesis by simp
  qed
  have new: "set (GetNewAllocations c job) =
      {a_ip a | a h. a \<in> live_allocs c job \<and> \<not> a_disabled a \<and> rows_of_alloc c a = [h] \<and> h_previous_hash h = None}"
    by (rule set_eqI) (unfold GetNewAllocations_def hash_join_iff [OF ok] rows_of_alloc_def, force)
  have upd: "set (GetUpdatedAllocations c job) =
      {a_ip a | a h. a \<in> live_allocs c job \<and> \<not> a_disabled a \<and> rows_of_alloc c a = [h] \<and> hash_updated h}"
    by (rule set_eqI) (unfold GetUpdatedAllocations_def hash_join_iff [OF ok] rows_of_alloc_def, force)
  have ver: "set (GetVersionPendingAllocations c job) =
      {a_ip a | a h. a \<in> live_allocs c job \<and> \<not> a_disabled a \<and> rows_of_alloc c a = [h] \<and> row_version_pending a h}"
  proof -
    have "set (version_pending c job a) = (if row_version_pending a h then {a_ip a} else {})"
      if "a \<in> live_allocs c job" "rows_of_alloc c a = [h]" for a h
      using version_pending_iff [OF ok, of a job h] that by (auto simp: rows_of_alloc_def)
    then show ?thesis
      using one by (fastforce simp: GetVersionPendingAllocations_def split: if_splits)
  qed
  have act: "set (map a_ip (filter (\<lambda>a. \<not> a_removed a \<and> \<not> a_disabled a) (allocs_of c job))) =
      {a_ip a | a h. a \<in> live_allocs c job \<and> \<not> a_disabled a \<and> rows_of_alloc c a = [h]}"
    using one by (fastforce simp: allocs_of_def)
  let ?cand = "{a_ip a | a h. a \<in> live_allocs c job \<and> \<not> a_disabled a \<and> rows_of_alloc c a = [h] \<and>
     (force \<or> hash_updated h \<or> row_version_pending a h)}"
  have "set ws = ?cand - set (GetNewAllocations c job)"
  proof (cases force)
    case True
    then have "ws = Difference (map a_ip (filter (\<lambda>a. \<not> a_removed a \<and> \<not> a_disabled a) (allocs_of c job)))
        (GetNewAllocations c job)"
      using r by (simp add: allocationsNeedingRestart_def GetActiveAllocations_Ok [OF ok] Let_def)
    then have "set ws = {a_ip a | a h. a \<in> live_allocs c job \<and> \<not> a_disabled a \<and> rows_of_alloc c a = [h]} -
        set (GetNewAllocations c job)"
      by (simp only: set_Difference act)
    with True show ?thesis by simp
  next
    case False
    then have "set ws = set (GetUpdatedAllocations c job) \<union> set (GetVersionPendingAllocations c job) -
        set (GetNewAllocations c job)"
      using r by (auto simp: allocationsNeedingRestart_def Let_def)
    with False show ?thesis unfolding upd ver by blast
  qed
  also have "\<dots> = {a_ip a | a h. a \<in> live_allocs c job \<and> \<not> a_disabled a \<and> rows_of_alloc c a = [h] \<and>
    h_previous_hash h \<noteq> None \<and> (force \<or> hash_updated h \<or> row_version_pending a h)}"
    unfolding new using same by fastforce
  finally show ?thesis .
qed

section \<open>Facts about the dry run\<close>

text \<open>What \<open>UpdateAllocationPlan\<close>, \<open>PromoteAllocationState\<close> and \<open>SetAllocationNewVersion\<close> store: a hash is
  not empty and a version is normalised.\<close>

definition stored_ok :: "catalog \<Rightarrow> bool" where
  "stored_ok c \<longleftrightarrow>
     (\<forall>h \<in> set (t_hash c). h_current_hash h \<noteq> None \<and> h_previous_hash h \<noteq> Some [] \<and>
        pred_option (\<lambda>v. NormalizeDeployVersion v = v) (h_current_version h)) \<and>
     (\<forall>a \<in> set (t_allocations c). pred_option (\<lambda>v. NormalizeDeployVersion v = v) (a_new_version a))"

lemma NormalizeDeployVersion_default [simp]:
  "NormalizeDeployVersion [] = DefaultAllocationVersion"
  by (simp add: NormalizeDeployVersion_def trim_space_def trim_left_def)

lemma normalized_default: "NormalizeDeployVersion DefaultAllocationVersion = DefaultAllocationVersion"
  by code_simp

lemma normalizeStored_normal:
  "pred_option (\<lambda>v. NormalizeDeployVersion v = v) v \<Longrightarrow> normalizeStoredVersion v = ifnull v DefaultAllocationVersion"
  "pred_option (\<lambda>v. NormalizeDeployVersion v = v) v \<Longrightarrow>
     normalizeStoredVersion (Some (ifnull v [])) = ifnull v DefaultAllocationVersion"
  by (cases v; simp add: normalizeStoredVersion_def)+

lemma AllocationNeedsVersionRollout_row:
  assumes ok: "catalog_ok c" and st: "stored_ok c" and a: "a \<in> set (t_allocations c)"
    and h: "rows_of_alloc c a = [h]"
  shows "AllocationNeedsVersionRollout c (a_job a) (a_ip a) = Ok (row_version_pending a h)"
proof -
  have hr: "hash_rows c (allocation_namespace (a_job a)) (a_id a) = [h]"
    using h by (simp add: rows_of_alloc_def)
  then have "h \<in> set (hash_rows c (allocation_namespace (a_job a)) (a_id a))" by simp
  then have "h \<in> set (t_hash c)" by (auto simp: hash_rows_def)
  then have "pred_option (\<lambda>v. NormalizeDeployVersion v = v) (h_current_version h)"
    "pred_option (\<lambda>v. NormalizeDeployVersion v = v) (a_new_version a)"
    using st a by (auto simp: stored_ok_def)
  then show ?thesis
    by (simp add: AllocationNeedsVersionRollout_def GetAllocationID_Ok [OF ok a] GetAllocationVersions_def hr
        GetAllocationNewVersion_def alloc_id_unique [OF ok a] normalizeStored_normal row_version_pending_def Let_def)
qed

lemma resolveAllocationLifecycle_Ok:
  "catalog_ok c \<Longrightarrow> a \<in> set (t_allocations c) \<Longrightarrow>
   \<exists>r. resolveAllocationLifecycle c (a_job a) (a_ip a) opts policy globs hc vo = Ok r"
  by (simp add: resolveAllocationLifecycle_def GetAllocationID_Ok Let_def)

lemma planActiveAllocation_needs:
  assumes ok: "catalog_ok c" and st: "stored_ok c" and a: "a \<in> set (t_allocations c)"
    and nd: "\<not> a_disabled a" and nf: "\<not> o_force opts"
  shows "\<exists>p. planActiveAllocation c (a_job a) (a_ip a) opts policy globs = Ok (p, alloc_pending c a)"
proof (rule rows_of_alloc_cases [OF ok, of a])
  assume "rows_of_alloc c a = []"
  then have hr: "hash_rows c (allocation_namespace (a_job a)) (a_id a) = []" by (simp add: rows_of_alloc_def)
  then show ?thesis
    by (simp add: planActiveAllocation_def GetAllocationID_Ok [OF ok a] GetAllocationHash_def Let_def
        alloc_pending_def)
next
  fix h assume row: "rows_of_alloc c a = [h]"
  then have hr: "hash_rows c (allocation_namespace (a_job a)) (a_id a) = [h]" by (simp add: rows_of_alloc_def)
  then have "h \<in> set (hash_rows c (allocation_namespace (a_job a)) (a_id a))" by simp
  then have "h \<in> set (t_hash c)" by (auto simp: hash_rows_def)
  then obtain cur where cur: "h_current_hash h = Some cur" and prev: "h_previous_hash h \<noteq> Some []"
    using st by (auto simp: stored_ok_def)
  have ver: "AllocationNeedsVersionRollout c (a_job a) (a_ip a) = Ok (row_version_pending a h)"
    by (rule AllocationNeedsVersionRollout_row [OF ok st a row])
  have pend: "alloc_pending c a \<longleftrightarrow> h_previous_hash h = None \<or> hash_updated h \<or> row_version_pending a h"
    by (simp add: alloc_pending_def hr row_new_def nd)
  obtain r1 where r1: "resolveAllocationLifecycle c (a_job a) (a_ip a) opts policy globs True False = Ok r1"
    using resolveAllocationLifecycle_Ok [OF ok a] by blast
  obtain r2 where r2: "resolveAllocationLifecycle c (a_job a) (a_ip a) opts policy globs False True = Ok r2"
    using resolveAllocationLifecycle_Ok [OF ok a] by blast
  show ?thesis
  proof (cases "h_previous_hash h")
    case None
    with pend show ?thesis
      by (simp add: planActiveAllocation_def GetAllocationID_Ok [OF ok a] GetAllocationHash_def hr Let_def)
  next
    case (Some q)
    with prev have "q \<noteq> []" by simp
    with Some pend cur nf show ?thesis
      by (simp add: planActiveAllocation_def GetAllocationID_Ok [OF ok a] GetAllocationHash_def hr Let_def
          ver r1 r2 hash_updated_def split: prod.split)
  qed
qed

lemma rmap_flags:
  assumes "\<forall>x \<in> set xs. \<exists>p. f x = Ok (p, b x)"
  shows "\<exists>ps. rmap f xs = Ok ps \<and> list_ex snd ps = list_ex b xs"
  using assms
proof (induction xs)
  case (Cons x xs)
  then obtain p ps where "f x = Ok (p, b x)" "rmap f xs = Ok ps" "list_ex snd ps = list_ex b xs" by auto
  then show ?case by simp
qed simp

definition known_workers :: "catalog \<Rightarrow> bool" where
  "known_workers c \<longleftrightarrow> (\<forall>a \<in> set (t_allocations c). a_ip a \<in> w_ip ` set (t_worker c))"

lemma set_GetNonRemovedOrdered:
  assumes "known_workers c"
  shows "set (GetNonRemovedAllocationsOrdered c job) = a_ip ` live_allocs c job"
proof
  show "set (GetNonRemovedAllocationsOrdered c job) \<subseteq> a_ip ` live_allocs c job"
    by (auto simp: GetNonRemovedAllocationsOrdered_def joined_positions_def allocs_of_def)
  show "a_ip ` live_allocs c job \<subseteq> set (GetNonRemovedAllocationsOrdered c job)"
  proof (rule image_subsetI)
    fix a assume a: "a \<in> live_allocs c job"
    then obtain w where w: "w \<in> set (t_worker c)" "w_ip w = a_ip a"
      using assms unfolding known_workers_def by fastforce
    then have "(w_position w, a_ip a) \<in> set (joined_positions c (filter (\<lambda>a. \<not> a_removed a) (allocs_of c job)))"
      using a by (fastforce simp: joined_positions_def workers_at_def allocs_of_def)
    then show "a_ip a \<in> set (GetNonRemovedAllocationsOrdered c job)"
      by (force simp: GetNonRemovedAllocationsOrdered_def)
  qed
qed

section \<open>Properties\<close>

text \<open>The catalog of the witnesses: job \<open>api\<close> on two workers, the first settled, the second with new content.\<close>

definition rollout_catalog :: catalog where
  "rollout_catalog = empty_catalog\<lparr>t_worker := [plain_worker ''w1'' 0, plain_worker ''w2'' 1],
     t_allocations := [plain_alloc ''w1'' ''api'', plain_alloc ''w2'' ''api''], t_job := [plain_job ''api''],
     t_hash := [plain_hash (plain_alloc ''w1'' ''api'') (Some ''x'') ''x'',
                plain_hash (plain_alloc ''w2'' ''api'') (Some ''x'') ''y'']\<rparr>"

lemma rollout_catalog_ok: "catalog_ok rollout_catalog" "stored_ok rollout_catalog" "known_workers rollout_catalog"
  by (simp_all add: catalog_ok_def stored_ok_def known_workers_def rollout_catalog_def empty_catalog_def
      plain_alloc_def plain_worker_def plain_job_def plain_hash_def allocation_namespace_def normalized_default)

lemma order_of_candidates:
  assumes "catalog_ok c" and "distinct candidates" and "candidates \<noteq> []"
  shows "distinct (ro_ordered (ResolveRolloutOrder c kv job candidates)) \<and>
    set (ro_ordered (ResolveRolloutOrder c kv job candidates)) = set candidates \<and>
    (ro_source (ResolveRolloutOrder c kv job candidates) = OrderKV \<longleftrightarrow>
       (\<exists>raw. readRolloutOrderKV kv job = Some raw \<and> distinct (parseOrderList raw) \<and>
          set (parseOrderList raw) = set candidates \<and>
          ro_ordered (ResolveRolloutOrder c kv job candidates) = parseOrderList raw))"
proof -
  have d: "distinct (defaultCatalogOrder c job candidates)" "set (defaultCatalogOrder c job candidates) = set candidates"
    using distinct_GetNonRemovedOrdered [OF assms(1), of job]
    by (auto simp: defaultCatalogOrder_def append_missing_props)
  have k: "orderByList candidates raw = raw" if "set raw = set candidates" for raw
    using that by (simp add: orderByList_def)
  show ?thesis
  proof (cases "readRolloutOrderKV kv job")
    case None
    then show ?thesis using assms(3) d by (simp add: ResolveRolloutOrder_def Let_def)
  next
    case (Some raw)
    show ?thesis
    proof (cases "distinct (parseOrderList raw) \<and> set (parseOrderList raw) = set candidates")
      case True
      then show ?thesis using Some assms(3) k by (simp add: ResolveRolloutOrder_def Let_def validate_order_iff)
    next
      case False
      then show ?thesis using Some assms(3) d by (auto simp: ResolveRolloutOrder_def Let_def validate_order_iff)
    qed
  qed
qed

text \<open>Property C34: the order of a rollout is a permutation of its workers. Whatever is in the
  \<open>rollout_order\<close> key and in the catalog, every candidate worker is visited exactly once. When the candidates are
  all active allocations of the job, the key decides the order exactly when its list is a permutation of them, and
  then literally. What happens to the key when only some of the allocations change is \<open>partial_rollout_ignores_order\<close>
  below.\<close>

theorem rollout_order_permutation:
  assumes "catalog_ok c" and "distinct candidates" and "candidates \<noteq> []"
  shows "distinct (ro_ordered (ResolveRolloutOrder c kv job candidates)) \<and>
    set (ro_ordered (ResolveRolloutOrder c kv job candidates)) = set candidates \<and>
    (\<forall>active. GetActiveAllocations c job = Ok active \<and> set active = set candidates \<longrightarrow>
       (ro_source (ResolveRolloutOrder c kv job candidates) = OrderKV \<longleftrightarrow>
         (\<exists>raw. readRolloutOrderKV kv job = Some raw \<and> distinct (parseOrderList raw) \<and>
            set (parseOrderList raw) = set active \<and>
            ro_ordered (ResolveRolloutOrder c kv job candidates) = parseOrderList raw)))"
proof -
  have "distinct (ro_ordered (ResolveRolloutOrder c kv job candidates)) \<and>
    set (ro_ordered (ResolveRolloutOrder c kv job candidates)) = set candidates \<and>
    (ro_source (ResolveRolloutOrder c kv job candidates) = OrderKV \<longleftrightarrow>
       (\<exists>raw. readRolloutOrderKV kv job = Some raw \<and> distinct (parseOrderList raw) \<and>
          set (parseOrderList raw) = set candidates \<and>
          ro_ordered (ResolveRolloutOrder c kv job candidates) = parseOrderList raw))"
    by (rule order_of_candidates [OF assms])
  then show ?thesis by simp
qed

definition order_store :: "string \<Rightarrow> store" where
  "order_store v = Put NewStore (JobCatalogNamespace ''api'') ''rollout_order'' v 0"

lemma rollout_order_permutation_witness:
  "GetActiveAllocations rollout_catalog ''api'' = Ok [''w1'', ''w2''] \<and>
   ro_source (ResolveRolloutOrder rollout_catalog (order_store ''w2, w1'') ''api'' [''w1'', ''w2'']) = OrderKV \<and>
   ro_ordered (ResolveRolloutOrder rollout_catalog (order_store ''w2, w1'') ''api'' [''w1'', ''w2'']) = [''w2'', ''w1'']"
proof -
  let ?o = "ResolveRolloutOrder rollout_catalog (order_store ''w2, w1'') ''api'' [''w1'', ''w2'']"
  have v: "ro_ordered ?o = [''w2'', ''w1'']" and act: "GetActiveAllocations rollout_catalog ''api'' = Ok [''w1'', ''w2'']"
    and raw: "readRolloutOrderKV (order_store ''w2, w1'') ''api'' = Some ''w2, w1''" "parseOrderList ''w2, w1'' = [''w2'', ''w1'']"
    by code_simp+
  note th = rollout_order_permutation [OF rollout_catalog_ok(1), of "[''w1'', ''w2'']" "order_store ''w2, w1''" "''api''"]
  have "ro_source ?o = OrderKV" using th v act raw by (simp add: insert_commute)
  with v act show ?thesis by simp
qed

text \<open>A partial change set: the stored order is a permutation of all of the job's workers, but only some of
  them restart, so \<open>validateRolloutOrderList\<close> rejects it and the catalog order is used.\<close>

lemma partial_rollout_ignores_order:
  "ro_source (ResolveRolloutOrder rollout_catalog (order_store ''w3,w2,w1'') ''api'' [''w1'', ''w2'']) = OrderDefault"
  "ro_ordered (ResolveRolloutOrder rollout_catalog (order_store ''w3,w2,w1'') ''api'' [''w1'', ''w2'']) = [''w1'', ''w2'']"
  by code_simp+

text \<open>Property C30: \<open>JobNeedsRollout\<close> is true exactly when some allocation of the job that is not removed
  has no hash row, was never started (and is enabled), has other content than was promoted, or has
  another target version than was promoted; on a well-formed catalog it never fails.\<close>

theorem needs_rollout_exact:
  assumes "catalog_ok c"
  shows "JobNeedsRollout c job = Ok (\<exists>a \<in> set (t_allocations c). a_job a = job \<and> \<not> a_removed a \<and>
    (hash_rows c (allocation_namespace job) (a_id a) = [] \<or>
     (\<exists>h \<in> set (hash_rows c (allocation_namespace job) (a_id a)).
        (h_previous_hash h = None \<and> \<not> a_disabled a) \<or>
        (\<exists>p q. h_previous_hash h = Some p \<and> h_current_hash h = Some q \<and> p \<noteq> q) \<or>
        ifnull (h_current_version h) DefaultAllocationVersion \<noteq> ifnull (a_new_version a) DefaultAllocationVersion)))"
proof -
  have "alloc_pending c a \<longleftrightarrow>
     (hash_rows c (allocation_namespace (a_job a)) (a_id a) = [] \<or>
     (\<exists>h \<in> set (hash_rows c (allocation_namespace (a_job a)) (a_id a)).
        (h_previous_hash h = None \<and> \<not> a_disabled a) \<or>
        (\<exists>p q. h_previous_hash h = Some p \<and> h_current_hash h = Some q \<and> p \<noteq> q) \<or>
        ifnull (h_current_version h) DefaultAllocationVersion \<noteq> ifnull (a_new_version a) DefaultAllocationVersion))" for a
    by (rule hash_rows_cases [OF assms, of "allocation_namespace (a_job a)" "a_id a"])
      (auto simp: alloc_pending_def row_new_def hash_updated_def row_version_pending_def split: option.splits)
  then show ?thesis unfolding JobNeedsRollout_iff [OF assms] by (simp cong: conj_cong) metis
qed

lemma needs_rollout_exact_witness: "JobNeedsRollout rollout_catalog ''api'' = Ok True"
  unfolding needs_rollout_exact [OF rollout_catalog_ok(1)]
  by (rule arg_cong [of _ _ Inr])
    (simp add: rollout_catalog_def empty_catalog_def plain_alloc_def hash_rows_def plain_hash_def allocation_namespace_def)

text \<open>Property C35: the workers that restart. When every allocation has its hash row, the restart
  set of a rollout is exactly the workers of the enabled allocations that were started before and whose
  content or target version changed, or of all that were started before when \<open>--force\<close> is given; a
  never started allocation is never in it.\<close>

theorem restart_set_exact:
  assumes "catalog_ok c" and "allocationsNeedingRestart c job force = Ok ws"
    and "\<forall>a \<in> set (t_allocations c). a_job a = job \<and> \<not> a_removed a \<longrightarrow>
           hash_rows c (allocation_namespace job) (a_id a) \<noteq> []"
  shows "set ws = {a_ip a | a h. a \<in> set (t_allocations c) \<and> a_job a = job \<and> \<not> a_removed a \<and> \<not> a_disabled a \<and>
    hash_rows c (allocation_namespace job) (a_id a) = [h] \<and> h_previous_hash h \<noteq> None \<and>
    (force \<or> hash_updated h \<or> row_version_pending a h)}"
proof -
  have "\<forall>a \<in> live_allocs c job. rows_of_alloc c a \<noteq> []"
    using assms(3) by (auto simp: rows_of_alloc_def)
  from set_allocationsNeedingRestart [OF assms(1,2) this] show ?thesis
    unfolding rows_of_alloc_def by auto
qed

lemma restart_set_exact_witness:
  "allocationsNeedingRestart rollout_catalog ''api'' False = Ok [''w2''] \<and>
   ''w1'' \<notin> {a_ip a | a h. a \<in> set (t_allocations rollout_catalog) \<and> a_job a = ''api'' \<and> \<not> a_removed a \<and>
      \<not> a_disabled a \<and> hash_rows rollout_catalog (allocation_namespace ''api'') (a_id a) = [h] \<and>
      h_previous_hash h \<noteq> None \<and> (False \<or> hash_updated h \<or> row_version_pending a h)}"
proof -
  have v: "allocationsNeedingRestart rollout_catalog ''api'' False = Ok [''w2'']" by code_simp
  have rows: "\<forall>a \<in> set (t_allocations rollout_catalog). a_job a = ''api'' \<and> \<not> a_removed a \<longrightarrow>
      hash_rows rollout_catalog (allocation_namespace ''api'') (a_id a) \<noteq> []"
    by (simp add: rollout_catalog_def empty_catalog_def plain_alloc_def hash_rows_def plain_hash_def
        allocation_namespace_def)
  show ?thesis
    unfolding restart_set_exact [OF rollout_catalog_ok(1) v rows, symmetric] using v by simp
qed

lemma set_DiffFileManifests:
  assumes q: "distinct_keys q"
  shows "set (DiffFileManifests p q) = {path. map_of p path \<noteq> map_of q path}"
proof -
  define added where "added = map fst (filter (\<lambda>(path, hash). map_of p path \<noteq> Some hash) q)"
  have a: "set added = {path. \<exists>h. map_of q path = Some h \<and> map_of p path \<noteq> Some h}"
    unfolding added_def using q by (force simp: map_of_eq_Some_iff)
  have "set (DiffFileManifests p q) =
      set added \<union> {path \<in> fst ` set p. map_of q path = None \<and> path \<notin> set added}"
    by (auto simp: DiffFileManifests_def Let_def added_def [symmetric])
  also have "\<dots> = {path. map_of p path \<noteq> map_of q path}"
    unfolding a dom_map_of_conv_image_fst [symmetric] by (rule set_eqI) (simp add: domIff, metis not_None_eq)
  finally show ?thesis .
qed

lemma MatchAny_ne: "MatchAny globs paths \<noteq> [] \<longleftrightarrow> (\<exists>p \<in> set paths. \<exists>g \<in> set globs. matchPattern g p)"
proof -
  have "set (MatchAny globs paths) = {r \<in> set paths. \<exists>p \<in> set globs. matchPattern p r}"
    by (auto simp: MatchAny_def set_match_any_from)
  moreover have "MatchAny globs paths \<noteq> [] \<longleftrightarrow> set (MatchAny globs paths) \<noteq> {}" by simp
  ultimately show ?thesis by auto
qed

text \<open>\<open>restart_policy: reload\<close>. A changed allocation under the reload policy is restarted exactly
  when a path whose content differs between the promoted and the new manifest (added, changed or
  deleted) matches a \<open>restart_globs\<close> pattern; otherwise it is reloaded. No other action is possible.\<close>

theorem reload_restarts_on_glob:
  assumes "catalog_ok c" and "a \<in> set (t_allocations c)" and "a_job a = job" and "a_ip a = ip"
    and "hash_rows c (allocation_namespace job) (a_id a) = [h]"
    and "h_previous_files h = Some old" and "h_current_files h = Some new"
    and "distinct_keys new" and "\<not> o_sync_only opts"
  shows "map_sum id fst (resolveAllocationLifecycle c job ip opts ''reload'' globs True False) =
    Ok (if \<exists>path. map_of old path \<noteq> map_of new path \<and> (\<exists>g \<in> set globs. matchPattern g path)
        then ActRestart else ActReload)"
proof -
  have id: "GetAllocationID c ip job = Ok (a_id a)"
    using GetAllocationID_Ok [OF assms(1,2)] assms(3,4) by simp
  show ?thesis
    using assms(9)
    by (auto simp: resolveAllocationLifecycle_def id GetAllocationFileManifests_def assms(5,6,7)
        resolveUpdateAction_def Let_def MatchAny_ne set_DiffFileManifests [OF assms(8)])
qed

definition changed_files_catalog :: catalog where
  "changed_files_catalog = rollout_catalog\<lparr>t_hash :=
     [(plain_hash (plain_alloc ''w1'' ''api'') (Some ''x'') ''y'')
        \<lparr>h_previous_files := Some [(''a.conf'', ''1''), (''b'', ''2'')],
          h_current_files := Some [(''a.conf'', ''1''), (''b'', ''3'')]\<rparr>]\<rparr>"

lemma reload_restarts_on_glob_witness:
  "map_sum id fst (resolveAllocationLifecycle changed_files_catalog ''api'' ''w1'' \<lparr>o_force = False, o_sync_only = False\<rparr>
      ''reload'' [''*.conf''] True False) = Ok ActReload"
proof -
  let ?h = "(plain_hash (plain_alloc ''w1'' ''api'') (Some ''x'') ''y'')
        \<lparr>h_previous_files := Some [(''a.conf'', ''1''), (''b'', ''2'')],
          h_current_files := Some [(''a.conf'', ''1''), (''b'', ''3'')]\<rparr>"
  have c: "catalog_ok changed_files_catalog"
    by (simp add: catalog_ok_def changed_files_catalog_def rollout_catalog_def empty_catalog_def
        plain_alloc_def plain_worker_def plain_job_def plain_hash_def)
  have m: "\<not> matchPattern ''*.conf'' ''b''" by code_simp
  have "map_of [(''a.conf'', ''1''), (''b'', ''2'')] path \<noteq> map_of [(''a.conf'', ''1''), (''b'', ''3'')] path
     \<longleftrightarrow> path = ''b''" for path by auto
  with m reload_restarts_on_glob [OF c, of "plain_alloc ''w1'' ''api''" "''api''" "''w1''" ?h
      "[(''a.conf'', ''1''), (''b'', ''2'')]" "[(''a.conf'', ''1''), (''b'', ''3'')]"
      "\<lparr>o_force = False, o_sync_only = False\<rparr>" "[''*.conf'']"]
  show ?thesis
    by (simp add: changed_files_catalog_def rollout_catalog_def empty_catalog_def plain_alloc_def
        plain_hash_def hash_rows_def)
qed

text \<open>Property C33: the dry run tells the truth. Without \<open>--force\<close>, for a job whose allocations are enabled, the
  plan of \<open>maand deploy --dry-run\<close> is computed without an error and says that a rollout is needed
  exactly when \<open>JobNeedsRollout\<close>, which decides the real deploy, says so.\<close>

theorem dry_run_agrees:
  assumes "catalog_ok c" and "stored_ok c" and "known_workers c" and "\<not> o_force opts"
    and "\<forall>a \<in> set (t_allocations c). a_job a = job \<and> \<not> a_removed a \<longrightarrow> \<not> a_disabled a"
    and "GetRestartPolicy c job = Ok policy"
  shows "\<exists>p. planJobRollout c job n opts = Ok p \<and> JobNeedsRollout c job = Ok (jp_needs p)"
proof -
  define ws where "ws = GetNonRemovedAllocationsOrdered c job"
  have ws: "set ws = a_ip ` live_allocs c job"
    unfolding ws_def by (rule set_GetNonRemovedOrdered [OF assms(3)])
  obtain globs where globs: "GetRestartGlobs c job = Ok globs"
    using assms(6) by (auto simp: GetRestartPolicy_def GetRestartGlobs_def rbind_def split: sum.splits)
  define pend where "pend ip = (\<exists>a \<in> live_allocs c job. a_ip a = ip \<and> alloc_pending c a)" for ip
  have step: "\<forall>ip \<in> set ws. \<exists>p. plan_allocation c job opts policy globs ip = Ok (p, pend ip)"
  proof
    fix ip assume "ip \<in> set ws"
    then obtain a where a: "a \<in> live_allocs c job" "a_ip a = ip" using ws by auto
    then have a': "a \<in> set (t_allocations c)" "a_job a = job" "\<not> a_disabled a" using assms(5) by auto
    have uniq: "b = a" if "b \<in> live_allocs c job" "a_ip b = ip" for b
    proof -
      have "alloc_at c ip job = [b]" "alloc_at c ip job = [a]"
        using alloc_at_unique [OF assms(1), of b] alloc_at_unique [OF assms(1), of a] that a by auto
      then show ?thesis by simp
    qed
    have p: "pend ip = alloc_pending c a"
      unfolding pend_def using uniq a by (metis (no_types, lifting))
    obtain q where q: "planActiveAllocation c job ip opts policy globs = Ok (q, alloc_pending c a)"
      using planActiveAllocation_needs [OF assms(1,2) a'(1,3) assms(4)] a'(2) a(2) by metis
    have "IsAllocationDisabled c ip job = Ok False"
      using IsAllocationDisabled_Ok [OF assms(1) a'(1)] a' a(2) by simp
    then show "\<exists>p. plan_allocation c job opts policy globs ip = Ok (p, pend ip)"
      by (simp add: plan_allocation_def q p)
  qed
  from rmap_flags [OF step] obtain ps where ps: "rmap (plan_allocation c job opts policy globs) ws = Ok ps"
    "list_ex snd ps = list_ex pend ws" by blast
  have n: "JobNeedsRollout c job = Ok (list_ex pend ws)"
    unfolding JobNeedsRollout_iff [OF assms(1)] pend_def list_ex_iff ws by blast
  show ?thesis
  proof (cases "ws = []")
    case True
    then show ?thesis using n by (simp add: planJobRollout_def ws_def [symmetric])
  next
    case False
    then show ?thesis using n ps by (simp add: planJobRollout_def ws_def [symmetric] assms(6) globs)
  qed
qed

lemma dry_run_agrees_witness:
  "\<exists>p. planJobRollout rollout_catalog ''api'' 0 \<lparr>o_force = False, o_sync_only = False\<rparr> = Ok p \<and>
     JobNeedsRollout rollout_catalog ''api'' = Ok (jp_needs p)"
  by (rule dry_run_agrees [OF rollout_catalog_ok, of _ _ "''always''"])
    (simp_all add: rollout_catalog_def empty_catalog_def plain_alloc_def GetRestartPolicy_def query_row_def
      jobs_named_def plain_job_def NormalizeRestartPolicy_def)

text \<open>For a disabled allocation that was stopped and promoted the two differ: the real deploy has nothing to
  do, the dry run still plans a stop and reports that a deploy is required.\<close>

definition disabled_catalog :: catalog where
  "disabled_catalog = rollout_catalog\<lparr>
     t_allocations := [(plain_alloc ''w1'' ''api'')\<lparr>a_disabled := True\<rparr>],
     t_hash := [plain_hash (plain_alloc ''w1'' ''api'') (Some ''x'') ''x'']\<rparr>"

lemma dry_run_overstates_disabled:
  "JobNeedsRollout disabled_catalog ''api'' = Ok False"
  "map_sum id jp_needs (planJobRollout disabled_catalog ''api'' 0 \<lparr>o_force = False, o_sync_only = False\<rparr>) = Ok True"
  by code_simp+

end
