(* ===== verification/Semaphore.thy ===== *)
theory Semaphore
  imports Prelude
begin

text \<open>
  The allocation semaphores of the command runtime API (\<open>jobcommand/runtime_semaphore.go\<close>). Each
  function below is one critical section under the coordinator's mutex. A waiter's \<open>notify\<close> channel
  is a number, fresh for each \<open>make(chan struct{})\<close>; the transition system at the end interleaves
  the critical sections with the \<open>select\<close> of the blocked clients.
\<close>

section \<open>The coordinator\<close>

record sem_waiter =
  sw_alloc :: string
  sw_notify :: nat

record job_semaphore =
  js_capacity :: int
  js_holders :: "string list"
  js_waiters :: "sem_waiter list"

type_synonym semaphores = "(string \<times> job_semaphore) list"

definition defaultSemaphoreCapacity :: int where
  "defaultSemaphoreCapacity = 1"

definition maxSemaphoreCapacity :: int where
  "maxSemaphoreCapacity = 64"

definition new_semaphore :: "int \<Rightarrow> job_semaphore" where
  "new_semaphore cap = \<lparr>js_capacity = cap, js_holders = [], js_waiters = []\<rparr>"

definition register_on ::
  "semaphores \<Rightarrow> string \<Rightarrow> job_semaphore \<Rightarrow> string \<Rightarrow> nat \<Rightarrow> semaphores \<times> nat option" where
  "register_on c scope sem alloc ch =
     (if alloc \<in> set (js_holders sem) then (AList.update scope sem c, None)
      else if int (length (js_holders sem)) < js_capacity sem then
        (AList.update scope (sem\<lparr>js_holders := alloc # js_holders sem\<rparr>) c, None)
      else
        (AList.update scope
           (sem\<lparr>js_waiters := js_waiters sem @ [\<lparr>sw_alloc = alloc, sw_notify = ch\<rparr>]\<rparr>) c, Some ch))"

definition registerWait ::
  "semaphores \<Rightarrow> string \<Rightarrow> string \<Rightarrow> int \<Rightarrow> nat \<Rightarrow> error + (semaphores \<times> nat option)" where
  "registerWait c scope alloc capacity ch =
     (case map_of c scope of
        None \<Rightarrow> Ok (register_on c scope (new_semaphore capacity) alloc ch)
      | Some sem \<Rightarrow>
          if js_capacity sem \<noteq> capacity then Err ErrSemaphore
          else Ok (register_on c scope sem alloc ch))"

text \<open>\<open>acquire\<close> up to the \<open>select\<close>: \<open>None\<close> returns at once, \<open>Some\<close> blocks on the channel.\<close>

definition acquire_begin ::
  "semaphores \<Rightarrow> string \<Rightarrow> string \<Rightarrow> int \<Rightarrow> nat \<Rightarrow> error + (semaphores \<times> nat option)" where
  "acquire_begin c scope alloc capacity ch =
     (let capacity = (if capacity < 1 then defaultSemaphoreCapacity else capacity)
      in if capacity > maxSemaphoreCapacity then Err ErrSemaphore
         else registerWait c scope alloc capacity ch)"

definition cancelWait :: "semaphores \<Rightarrow> string \<Rightarrow> nat \<Rightarrow> semaphores" where
  "cancelWait c scope ch =
     (case map_of c scope of
        None \<Rightarrow> c
      | Some sem \<Rightarrow>
          AList.update scope
            (sem\<lparr>js_waiters := filter (\<lambda>w. sw_notify w \<noteq> ch) (js_waiters sem)\<rparr>) c)"

text \<open>The grant loop: new holders, remaining waiters, and the channels that were closed.\<close>

fun grant_loop :: "int \<Rightarrow> string list \<Rightarrow> sem_waiter list \<Rightarrow> string list \<times> sem_waiter list \<times> nat list" where
  "grant_loop cap holders [] = (holders, [], [])"
| "grant_loop cap holders (w # ws) =
     (if int (length holders) < cap then
        (case grant_loop cap (List.insert (sw_alloc w) holders) ws of
           (h, rest, closed) \<Rightarrow> (h, rest, sw_notify w # closed))
      else (holders, w # ws, []))"

definition grantNextWaiterLocked :: "job_semaphore \<Rightarrow> job_semaphore \<times> nat list" where
  "grantNextWaiterLocked sem =
     (case grant_loop (js_capacity sem) (js_holders sem) (js_waiters sem) of
        (h, rest, closed) \<Rightarrow> (sem\<lparr>js_holders := h, js_waiters := rest\<rparr>, closed))"

definition sem_release :: "semaphores \<Rightarrow> string \<Rightarrow> string \<Rightarrow> error + (semaphores \<times> nat list)" where
  "sem_release c scope alloc =
     (case map_of c scope of
        None \<Rightarrow> Err ErrSemaphore
      | Some sem \<Rightarrow>
          if alloc \<notin> set (js_holders sem) then Err ErrSemaphore
          else (case grantNextWaiterLocked (sem\<lparr>js_holders := removeAll alloc (js_holders sem)\<rparr>) of
                  (sem', closed) \<Rightarrow> Ok (AList.update scope sem' c, closed)))"

record sem_status =
  ss_capacity :: int
  ss_holders :: "string list"
  ss_waiting :: int
  ss_available :: int

definition semaphore_status :: "semaphores \<Rightarrow> string \<Rightarrow> sem_status \<times> bool" where
  "semaphore_status c scope =
     (case map_of c scope of
        None \<Rightarrow> (\<lparr>ss_capacity = 0, ss_holders = [], ss_waiting = 0, ss_available = 0\<rparr>, False)
      | Some sem \<Rightarrow>
          (\<lparr>ss_capacity = js_capacity sem, ss_holders = js_holders sem,
            ss_waiting = int (length (js_waiters sem)),
            ss_available = js_capacity sem - int (length (js_holders sem))\<rparr>, True))"

definition semaphoreScopeKey :: "string \<Rightarrow> string \<Rightarrow> string \<Rightarrow> string" where
  "semaphoreScopeKey job event name = job @ ''/'' @ event @ ''/'' @ name"

text \<open>A \<open>time.Duration\<close> counts nanoseconds in an \<open>int64\<close>: the product wraps.\<close>

definition seconds_duration :: "int \<Rightarrow> int" where
  "seconds_duration seconds = (seconds * 1000000000 + 2 ^ 63) mod 2 ^ 64 - 2 ^ 63"

definition normalizeAcquireTimeout :: "int \<Rightarrow> int" where
  "normalizeAcquireTimeout seconds =
     (if seconds \<le> 0 then seconds_duration 600
      else let timeout = seconds_duration seconds
           in if timeout > seconds_duration 3600 then seconds_duration 3600 else timeout)"

text \<open>A huge number of seconds is not cut off at an hour, but becomes a negative duration: the acquire times out at once.\<close>

lemma huge_timeout_is_negative: "normalizeAcquireTimeout 9223372037 < 0"
  by (simp add: normalizeAcquireTimeout_def seconds_duration_def)

section \<open>Clients and interleavings\<close>

datatype sem_outcome = Acquired | TimedOut | Refused

record sem_sys =
  sy_sems :: semaphores
  sy_closed :: "nat list"
  sy_next :: nat
  sy_pending :: "(nat \<times> string \<times> string) list"
  sy_returned :: "(string \<times> string \<times> sem_outcome) list"

datatype sem_event =
    EvAcquire string string int
  | EvNotified nat
  | EvTimeout nat
  | EvRelease string string

definition sem_init :: sem_sys where
  "sem_init = \<lparr>sy_sems = [], sy_closed = [], sy_next = 0, sy_pending = [], sy_returned = []\<rparr>"

definition finish :: "sem_sys \<Rightarrow> string \<Rightarrow> string \<Rightarrow> sem_outcome \<Rightarrow> sem_sys" where
  "finish s scope alloc r = s\<lparr>sy_returned := (scope, alloc, r) # sy_returned s\<rparr>"

text \<open>
  \<open>None\<close>: the event is not enabled. A \<open>select\<close> whose context is done may take that branch even when
  the channel is closed too.
\<close>

fun sem_exec :: "sem_sys \<Rightarrow> sem_event \<Rightarrow> sem_sys option" where
  "sem_exec s (EvAcquire scope alloc cap) =
     (case acquire_begin (sy_sems s) scope alloc cap (sy_next s) of
        Inl _ \<Rightarrow> Some (finish s scope alloc Refused)
      | Inr (c, None) \<Rightarrow> Some (finish (s\<lparr>sy_sems := c\<rparr>) scope alloc Acquired)
      | Inr (c, Some ch) \<Rightarrow>
          Some (s\<lparr>sy_sems := c, sy_next := Suc (sy_next s), sy_pending := (ch, scope, alloc) # sy_pending s\<rparr>))"
| "sem_exec s (EvNotified ch) =
     (case map_of (sy_pending s) ch of
        None \<Rightarrow> None
      | Some (scope, alloc) \<Rightarrow>
          if ch \<in> set (sy_closed s)
          then Some (finish (s\<lparr>sy_pending := AList.delete ch (sy_pending s)\<rparr>) scope alloc Acquired)
          else None)"
| "sem_exec s (EvTimeout ch) =
     (case map_of (sy_pending s) ch of
        None \<Rightarrow> None
      | Some (scope, alloc) \<Rightarrow>
          Some (finish (s\<lparr>sy_sems := cancelWait (sy_sems s) scope ch,
                          sy_pending := AList.delete ch (sy_pending s)\<rparr>) scope alloc TimedOut))"
| "sem_exec s (EvRelease scope alloc) =
     (case sem_release (sy_sems s) scope alloc of
        Inl _ \<Rightarrow> Some s
      | Inr (c, closed) \<Rightarrow> Some (s\<lparr>sy_sems := c, sy_closed := closed @ sy_closed s\<rparr>))"

inductive sem_reachable :: "sem_sys \<Rightarrow> bool" where
  init: "sem_reachable sem_init"
| step: "sem_reachable s \<Longrightarrow> sem_exec s e = Some s' \<Longrightarrow> sem_reachable s'"

section \<open>One semaphore\<close>

definition sem_ok :: "job_semaphore \<Rightarrow> bool" where
  "sem_ok m \<longleftrightarrow>
     1 \<le> js_capacity m \<and> js_capacity m \<le> maxSemaphoreCapacity \<and> distinct (js_holders m) \<and>
     int (length (js_holders m)) \<le> js_capacity m \<and>
     (js_waiters m \<noteq> [] \<longrightarrow> int (length (js_holders m)) = js_capacity m)"

lemma grant_loop_spec:
  assumes "grant_loop cap holders ws = (h, rest, closed)" and "distinct holders" and "int (length holders) \<le> cap"
  shows "distinct h \<and> int (length h) \<le> cap \<and> (rest \<noteq> [] \<longrightarrow> int (length h) = cap) \<and>
    (\<exists>k. rest = drop k ws \<and> closed = map sw_notify (take k ws) \<and>
       set h = set holders \<union> sw_alloc ` set (take k ws) \<and>
       (ws \<noteq> [] \<and> int (length holders) < cap \<longrightarrow> 0 < k))"
  using assms
proof (induction cap holders ws arbitrary: h rest closed rule: grant_loop.induct)
  case (1 cap holders)
  then show ?case by auto
next
  case (2 cap holders w ws)
  show ?case
  proof (cases "int (length holders) < cap")
    case False
    then show ?thesis using 2(2,3,4) by (intro conjI exI [of _ 0]) auto
  next
    case True
    then obtain cl where g: "grant_loop cap (List.insert (sw_alloc w) holders) ws = (h, rest, cl)"
      and closed: "closed = sw_notify w # cl"
      using 2(2) by (auto split: prod.splits)
    have len: "length (List.insert (sw_alloc w) holders) \<le> Suc (length holders)"
      by (simp add: List.insert_def)
    have "distinct h \<and> int (length h) \<le> cap \<and> (rest \<noteq> [] \<longrightarrow> int (length h) = cap) \<and>
      (\<exists>k. rest = drop k ws \<and> cl = map sw_notify (take k ws) \<and>
         set h = set (List.insert (sw_alloc w) holders) \<union> sw_alloc ` set (take k ws) \<and>
         (ws \<noteq> [] \<and> int (length (List.insert (sw_alloc w) holders)) < cap \<longrightarrow> 0 < k))"
      using 2(1) [OF True g] 2(3) len True by auto
    then obtain k where "distinct h" "int (length h) \<le> cap" "rest \<noteq> [] \<longrightarrow> int (length h) = cap"
      "rest = drop k ws" "cl = map sw_notify (take k ws)"
      "set h = set (List.insert (sw_alloc w) holders) \<union> sw_alloc ` set (take k ws)" by blast
    then show ?thesis using closed by (intro conjI exI [of _ "Suc k"]) auto
  qed
qed

lemma grant_spec:
  assumes "grantNextWaiterLocked m = (m', closed)" and "distinct (js_holders m)"
    and "int (length (js_holders m)) \<le> js_capacity m"
  shows "js_capacity m' = js_capacity m \<and> distinct (js_holders m') \<and>
    int (length (js_holders m')) \<le> js_capacity m \<and>
    (js_waiters m' \<noteq> [] \<longrightarrow> int (length (js_holders m')) = js_capacity m) \<and>
    (\<exists>k. js_waiters m' = drop k (js_waiters m) \<and> closed = map sw_notify (take k (js_waiters m)) \<and>
       set (js_holders m') = set (js_holders m) \<union> sw_alloc ` set (take k (js_waiters m)) \<and>
       (js_waiters m \<noteq> [] \<and> int (length (js_holders m)) < js_capacity m \<longrightarrow> 0 < k))"
proof -
  obtain h rest cl where g: "grant_loop (js_capacity m) (js_holders m) (js_waiters m) = (h, rest, cl)"
    by (cases "grant_loop (js_capacity m) (js_holders m) (js_waiters m)") auto
  then have "m' = m\<lparr>js_holders := h, js_waiters := rest\<rparr>" "closed = cl"
    using assms(1) by (auto simp: grantNextWaiterLocked_def)
  with grant_loop_spec [OF g assms(2,3)] show ?thesis by simp
qed

lemma length_removeAll_distinct: "distinct xs \<Longrightarrow> x \<in> set xs \<Longrightarrow> Suc (length (removeAll x xs)) = length xs"
  by (induction xs) (auto simp: removeAll_id)

lemma release_spec:
  assumes r: "sem_release c scope alloc = Inr (c', closed)" and ok: "\<And>m. map_of c scope = Some m \<Longrightarrow> sem_ok m"
  obtains m m' k where "map_of c scope = Some m" and "c' = AList.update scope m' c" and "sem_ok m'"
    and "alloc \<in> set (js_holders m)"
    and "js_waiters m' = drop k (js_waiters m)" and "closed = map sw_notify (take k (js_waiters m))"
    and "set (js_holders m') = set (js_holders m) - {alloc} \<union> sw_alloc ` set (take k (js_waiters m))"
    and "js_waiters m \<noteq> [] \<longrightarrow> 0 < k" and "js_capacity m' = js_capacity m"
proof -
  from r obtain m m' where m: "map_of c scope = Some m" "alloc \<in> set (js_holders m)"
    and g: "grantNextWaiterLocked (m\<lparr>js_holders := removeAll alloc (js_holders m)\<rparr>) = (m', closed)"
    and c': "c' = AList.update scope m' c"
    by (auto simp: sem_release_def split: option.splits if_splits prod.splits)
  have sm: "sem_ok m" by (rule ok [OF m(1)])
  then have d: "distinct (removeAll alloc (js_holders m))"
    and l: "int (length (removeAll alloc (js_holders m))) < js_capacity m"
    using length_removeAll_distinct [OF _ m(2)] by (auto simp: sem_ok_def distinct_removeAll)
  from grant_spec [OF g] d l obtain k where k: "js_capacity m' = js_capacity m" "distinct (js_holders m')"
    "int (length (js_holders m')) \<le> js_capacity m"
    "js_waiters m' \<noteq> [] \<longrightarrow> int (length (js_holders m')) = js_capacity m"
    "js_waiters m' = drop k (js_waiters m)" "closed = map sw_notify (take k (js_waiters m))"
    "set (js_holders m') = set (js_holders m) - {alloc} \<union> sw_alloc ` set (take k (js_waiters m))"
    "js_waiters m \<noteq> [] \<longrightarrow> 0 < k"
    by auto
  have "sem_ok m'" using k(1-4) sm by (simp add: sem_ok_def)
  with that m c' k show thesis by blast
qed

section \<open>Every reachable state\<close>

text \<open>
  The waiting channels of a state, with their scope and allocation. They are fresh, open, pairwise
  different, and each belongs to a blocked client; an open channel of a blocked client is waiting.
\<close>

definition waiting :: "semaphores \<Rightarrow> (nat \<times> string \<times> string) set" where
  "waiting c = {(sw_notify w, scope, sw_alloc w) | w scope m. map_of c scope = Some m \<and> w \<in> set (js_waiters m)}"

definition sys_ok :: "sem_sys \<Rightarrow> bool" where
  "sys_ok s \<longleftrightarrow>
     (\<forall>scope m. map_of (sy_sems s) scope = Some m \<longrightarrow> sem_ok m) \<and>
     distinct_keys (sy_pending s) \<and>
     (\<forall>x \<in> set (sy_pending s). fst x < sy_next s) \<and>
     (\<forall>ch \<in> set (sy_closed s). ch < sy_next s) \<and>
     waiting (sy_sems s) = {x \<in> set (sy_pending s). fst x \<notin> set (sy_closed s)} \<and>
     (\<forall>scope m. map_of (sy_sems s) scope = Some m \<longrightarrow> distinct (map sw_notify (js_waiters m)))"

lemma waiting_update:
  "waiting (AList.update scope m c) =
     {x \<in> waiting c. fst (snd x) \<noteq> scope} \<union> {(sw_notify w, scope, sw_alloc w) | w. w \<in> set (js_waiters m)}"
  by (auto simp: waiting_def split: if_splits) blast+

lemma waiting_scope:
  "map_of c scope = Some m \<Longrightarrow>
   {x \<in> waiting c. fst (snd x) = scope} = {(sw_notify w, scope, sw_alloc w) | w. w \<in> set (js_waiters m)}"
  by (auto simp: waiting_def)

lemma waiting_same:
  assumes "map_of c scope = Some m" and "js_waiters m' = js_waiters m"
  shows "waiting (AList.update scope m' c) = waiting c"
  using waiting_scope [OF assms(1)] unfolding waiting_update assms(2) by blast

lemma waiting_none:
  "map_of c scope = None \<Longrightarrow> js_waiters m = [] \<Longrightarrow> waiting (AList.update scope m c) = waiting c"
  unfolding waiting_update by (auto simp: waiting_def)


lemma sem_ok_new: "1 \<le> cap \<Longrightarrow> cap \<le> maxSemaphoreCapacity \<Longrightarrow> sem_ok (new_semaphore cap)"
  by (simp add: sem_ok_def new_semaphore_def)

text \<open>Registering on a semaphore that is well formed: at once, or at the end of the queue.\<close>

lemma register_spec:
  assumes "register_on c scope m alloc ch = (c', r)" and "sem_ok m"
  obtains m' where "c' = AList.update scope m' c" and "sem_ok m'"
    and "(r = None \<and> js_waiters m' = js_waiters m \<and> alloc \<in> set (js_holders m')) \<or>
      (r = Some ch \<and> js_waiters m' = js_waiters m @ [\<lparr>sw_alloc = alloc, sw_notify = ch\<rparr>])"
proof (cases "alloc \<in> set (js_holders m)")
  case True
  then show ?thesis using assms that [of m] by (simp add: register_on_def)
next
  case out: False
  show ?thesis
  proof (cases "int (length (js_holders m)) < js_capacity m")
    case True
    with assms out that [of "m\<lparr>js_holders := alloc # js_holders m\<rparr>"]
    show ?thesis by (auto simp: register_on_def sem_ok_def)
  next
    case False
    with assms out that [of "m\<lparr>js_waiters := js_waiters m @ [\<lparr>sw_alloc = alloc, sw_notify = ch\<rparr>]\<rparr>"]
    show ?thesis by (auto simp: register_on_def sem_ok_def)
  qed
qed

lemma acquire_spec:
  assumes a: "acquire_begin c scope alloc cap ch = Inr (c', r)"
    and ok: "\<And>m. map_of c scope = Some m \<Longrightarrow> sem_ok m"
  obtains m m' where "c' = AList.update scope m' c" and "sem_ok m'"
    and "map_of c scope = Some m \<or> map_of c scope = None \<and> js_waiters m = []"
    and "(r = None \<and> js_waiters m' = js_waiters m \<and> alloc \<in> set (js_holders m')) \<or>
      (r = Some ch \<and> js_waiters m' = js_waiters m @ [\<lparr>sw_alloc = alloc, sw_notify = ch\<rparr>])"
proof -
  define cap' where "cap' = (if cap < 1 then defaultSemaphoreCapacity else cap)"
  have range: "1 \<le> cap'" "cap' \<le> maxSemaphoreCapacity" and reg: "registerWait c scope alloc cap' ch = Inr (c', r)"
    using a by (auto simp: acquire_begin_def cap'_def Let_def defaultSemaphoreCapacity_def
        maxSemaphoreCapacity_def split: if_splits)
  show thesis
  proof (cases "map_of c scope")
    case None
    then have "register_on c scope (new_semaphore cap') alloc ch = (c', r)"
      using reg by (simp add: registerWait_def)
    from register_spec [OF this sem_ok_new [OF range]] that None show thesis
      by (metis job_semaphore.select_convs(3) new_semaphore_def)
  next
    case (Some m)
    then have "register_on c scope m alloc ch = (c', r)"
      using reg by (simp add: registerWait_def split: if_splits)
    from register_spec [OF this ok [OF Some]] that Some show thesis by metis
  qed
qed

lemma sys_ok_init: "sys_ok sem_init"
  by (simp add: sys_ok_def sem_init_def waiting_def)

lemma sys_ok_sem: "sys_ok s \<Longrightarrow> map_of (sy_sems s) scope = Some m \<Longrightarrow> sem_ok m"
  by (auto simp: sys_ok_def)

lemma sys_ok_acquire:
  assumes ok: "sys_ok s" and e: "sem_exec s (EvAcquire scope alloc cap) = Some s'"
  shows "sys_ok s'"
proof (cases "acquire_begin (sy_sems s) scope alloc cap (sy_next s)")
  case (Inl err)
  then have "s' = finish s scope alloc Refused" using e by simp
  then show ?thesis using ok by (simp add: sys_ok_def finish_def)
next
  case (Inr cr)
  obtain c r where cr: "cr = (c, r)" by (cases cr)
  obtain m m' where m: "c = AList.update scope m' (sy_sems s)" "sem_ok m'"
    "map_of (sy_sems s) scope = Some m \<or> map_of (sy_sems s) scope = None \<and> js_waiters m = []"
    "(r = None \<and> js_waiters m' = js_waiters m \<and> alloc \<in> set (js_holders m')) \<or>
      (r = Some (sy_next s) \<and> js_waiters m' = js_waiters m @ [\<lparr>sw_alloc = alloc, sw_notify = sy_next s\<rparr>])"
    by (rule acquire_spec [OF Inr [unfolded cr] sys_ok_sem [OF ok]])
  have W: "waiting (sy_sems s) = {x \<in> set (sy_pending s). fst x \<notin> set (sy_closed s)}"
    and P: "\<forall>x \<in> set (sy_pending s). fst x < sy_next s" "distinct_keys (sy_pending s)"
    and C: "\<forall>ch \<in> set (sy_closed s). ch < sy_next s"
    using ok by (auto simp: sys_ok_def)
  have scope_w: "{x \<in> waiting (sy_sems s). fst (snd x) = scope} =
      {(sw_notify w, scope, sw_alloc w) | w. w \<in> set (js_waiters m)}"
    using m(3) waiting_scope [of "sy_sems s" scope m] by (auto simp: waiting_def)
  have dm: "distinct (map sw_notify (js_waiters m))"
    using m(3) ok by (auto simp: sys_ok_def)
  have fresh: "sw_notify w < sy_next s" if "w \<in> set (js_waiters m)" for w
  proof -
    have "(sw_notify w, scope, sw_alloc w) \<in> waiting (sy_sems s)" using scope_w that by blast
    then show ?thesis using W P(1) by auto
  qed
  have sems: "map_of c k = Some n \<Longrightarrow> sem_ok n" for k n
    using m(1,2) ok by (auto simp: sys_ok_def split: if_splits)
  show ?thesis
  proof (cases r)
    case None
    then have s': "s' = finish (s\<lparr>sy_sems := c\<rparr>) scope alloc Acquired" using e Inr cr by simp
    have w: "js_waiters m' = js_waiters m" using m(4) None by auto
    have "waiting c = waiting (sy_sems s)"
      unfolding m(1) waiting_update w using scope_w by blast
    moreover have "distinct (map sw_notify (js_waiters n))" if "map_of c k = Some n" for k n
      using that ok dm w by (auto simp: m(1) sys_ok_def split: if_splits)
    ultimately show ?thesis
      using ok sems unfolding s' by (simp add: sys_ok_def finish_def)
  next
    case (Some ch)
    then have ch: "ch = sy_next s" and w: "js_waiters m' = js_waiters m @ [\<lparr>sw_alloc = alloc, sw_notify = ch\<rparr>]"
      using m(4) by auto
    have s': "s' = s\<lparr>sy_sems := c, sy_next := Suc (sy_next s), sy_pending := (ch, scope, alloc) # sy_pending s\<rparr>"
      using e Inr cr Some by (simp add: ch)
    have "{(sw_notify w, scope, sw_alloc w) | w. w \<in> set (js_waiters m')} =
        insert (ch, scope, alloc) {x \<in> waiting (sy_sems s). fst (snd x) = scope}"
      unfolding scope_w w by force
    then have "waiting c = insert (ch, scope, alloc) (waiting (sy_sems s))"
      unfolding m(1) waiting_update by auto
    also have "\<dots> = {x \<in> set ((ch, scope, alloc) # sy_pending s). fst x \<notin> set (sy_closed s)}"
      using W C ch by auto
    finally have wt: "waiting c = {x \<in> set ((ch, scope, alloc) # sy_pending s). fst x \<notin> set (sy_closed s)}" .
    have "ch \<notin> sw_notify ` set (js_waiters m)" using fresh ch by force
    then have "distinct (map sw_notify (js_waiters m'))" using dm by (simp add: w)
    then have "distinct (map sw_notify (js_waiters n))" if "map_of c k = Some n" for k n
      using that ok by (auto simp: m(1) sys_ok_def split: if_splits)
    moreover have "ch \<notin> fst ` set (sy_pending s)" using P(1) ch by auto
    ultimately show ?thesis
      using wt sems P C ch unfolding s' sys_ok_def by auto
  qed
qed

lemma sys_ok_cancel:
  assumes ok: "sys_ok s" and p: "map_of (sy_pending s) ch = Some (scope, alloc)"
  shows "sys_ok (finish (s\<lparr>sy_sems := cancelWait (sy_sems s) scope ch,
     sy_pending := AList.delete ch (sy_pending s)\<rparr>) scope alloc r)"
proof -
  have W: "waiting (sy_sems s) = {x \<in> set (sy_pending s). fst x \<notin> set (sy_closed s)}"
    and P: "\<forall>x \<in> set (sy_pending s). fst x < sy_next s" "distinct_keys (sy_pending s)"
    using ok by (auto simp: sys_ok_def)
  have mine: "x = (ch, scope, alloc)" if "x \<in> set (sy_pending s)" "fst x = ch" for x
  proof -
    have "(ch, snd x) \<in> set (sy_pending s)" using that by auto
    then have "map_of (sy_pending s) ch = Some (snd x)" using P(2) by (rule map_of_is_SomeI [rotated])
    with p that(2) show ?thesis by (cases x) simp
  qed
  have del: "set (AList.delete ch (sy_pending s)) = {x \<in> set (sy_pending s). fst x \<noteq> ch}"
    by (auto simp: AList.delete_eq)
  have sems: "sem_ok n \<and> distinct (map sw_notify (js_waiters n))"
    if "map_of (cancelWait (sy_sems s) scope ch) k = Some n" for k n
  proof -
    have old: "sem_ok m \<and> distinct (map sw_notify (js_waiters m))" if "map_of (sy_sems s) k = Some m" for k m
      using ok that by (auto simp: sys_ok_def)
    show ?thesis
      using that old by (fastforce simp: cancelWait_def sem_ok_def distinct_map_filter
          split: option.splits if_splits)
  qed
  have "waiting (cancelWait (sy_sems s) scope ch) = {x \<in> waiting (sy_sems s). fst x \<noteq> ch}"
  proof (cases "map_of (sy_sems s) scope")
    case None
    have "fst x \<noteq> ch" if "x \<in> waiting (sy_sems s)" for x
    proof
      assume "fst x = ch"
      then have "x = (ch, scope, alloc)" using that W mine by auto
      with that None show False by (auto simp: waiting_def)
    qed
    then show ?thesis using None by (auto simp: cancelWait_def)
  next
    case (Some m)
    have sc: "fst (snd x) = scope" if "x \<in> waiting (sy_sems s)" "fst x = ch" for x
    proof -
      have "x \<in> set (sy_pending s)" using that(1) W by blast
      from mine [OF this that(2)] show ?thesis by simp
    qed
    have "{(sw_notify w, scope, sw_alloc w) | w. w \<in> set (filter (\<lambda>w. sw_notify w \<noteq> ch) (js_waiters m))} =
        {x \<in> {x \<in> waiting (sy_sems s). fst (snd x) = scope}. fst x \<noteq> ch}"
    proof -
      have "{(sw_notify w, scope, sw_alloc w) | w. w \<in> set (filter (\<lambda>w. sw_notify w \<noteq> ch) ws)} =
          {x \<in> {(sw_notify w, scope, sw_alloc w) | w. w \<in> set ws}. fst x \<noteq> ch}" for ws
        by (rule set_eqI) force
      then show ?thesis unfolding waiting_scope [OF Some] .
    qed
    then have "waiting (AList.update scope (m\<lparr>js_waiters := filter (\<lambda>w. sw_notify w \<noteq> ch) (js_waiters m)\<rparr>) (sy_sems s)) =
        {x \<in> waiting (sy_sems s). fst x \<noteq> ch}"
      unfolding waiting_update using sc by auto
    then show ?thesis by (simp add: cancelWait_def Some)
  qed
  then have "waiting (cancelWait (sy_sems s) scope ch) =
      {x \<in> set (AList.delete ch (sy_pending s)). fst x \<notin> set (sy_closed s)}"
    using W del by auto
  then show ?thesis
    using ok sems P del by (auto simp: sys_ok_def finish_def)
qed

lemma sys_ok_release:
  assumes ok: "sys_ok s" and r: "sem_release (sy_sems s) scope alloc = Inr (c, closed)"
  shows "sys_ok (s\<lparr>sy_sems := c, sy_closed := closed @ sy_closed s\<rparr>)"
proof -
  have W: "waiting (sy_sems s) = {x \<in> set (sy_pending s). fst x \<notin> set (sy_closed s)}"
    and P: "\<forall>x \<in> set (sy_pending s). fst x < sy_next s" "distinct_keys (sy_pending s)"
    using ok by (auto simp: sys_ok_def)
  obtain m m' k where m: "map_of (sy_sems s) scope = Some m" "c = AList.update scope m' (sy_sems s)" "sem_ok m'"
    "js_waiters m' = drop k (js_waiters m)" "closed = map sw_notify (take k (js_waiters m))"
    by (rule release_spec [OF r sys_ok_sem [OF ok]])
  have dm: "distinct (map sw_notify (js_waiters m))" using ok m(1) by (auto simp: sys_ok_def)
  then have "distinct (map sw_notify (take k (js_waiters m)) @ map sw_notify (drop k (js_waiters m)))"
    by (simp flip: map_append)
  then have disj: "sw_notify w \<notin> set closed" if "w \<in> set (drop k (js_waiters m))" for w
    using that by (auto simp: m(5))
  have key: "x \<in> waiting (sy_sems s) \<Longrightarrow> y \<in> waiting (sy_sems s) \<Longrightarrow> fst x = fst y \<Longrightarrow> x = y" for x y
    using W P(2) by (cases x, cases y) (auto dest: eq_key_imp_eq_value)
  have parts: "set (js_waiters m) = set (take k (js_waiters m)) \<union> set (drop k (js_waiters m))"
    by (metis append_take_drop_id set_append)
  have scope_w: "{x \<in> waiting (sy_sems s). fst (snd x) = scope} =
      {(sw_notify w, scope, sw_alloc w) | w. w \<in> set (js_waiters m)}"
    by (rule waiting_scope [OF m(1)])
  have gone: "fst (snd x) = scope" if "x \<in> waiting (sy_sems s)" "fst x \<in> set closed" for x
  proof -
    from that(2) obtain w where w: "w \<in> set (take k (js_waiters m))" "fst x = sw_notify w"
      by (auto simp: m(5))
    then have "(sw_notify w, scope, sw_alloc w) \<in> waiting (sy_sems s)" using scope_w parts by blast
    with key [OF that(1) this] w(2) show ?thesis by simp
  qed
  have "waiting c = {x \<in> waiting (sy_sems s). fst x \<notin> set closed}"
  proof (intro equalityI subsetI)
    fix x
    assume "x \<in> waiting c"
    then consider "x \<in> waiting (sy_sems s)" "fst (snd x) \<noteq> scope"
      | w where "w \<in> set (drop k (js_waiters m))" "x = (sw_notify w, scope, sw_alloc w)"
      unfolding m(2) waiting_update m(4) by blast
    then show "x \<in> {x \<in> waiting (sy_sems s). fst x \<notin> set closed}"
    proof cases
      case 1
      then show ?thesis using gone [of x] by auto
    next
      case 2
      then have "x \<in> waiting (sy_sems s)" using scope_w parts by blast
      with 2 disj show ?thesis by simp
    qed
  next
    fix x
    assume x: "x \<in> {x \<in> waiting (sy_sems s). fst x \<notin> set closed}"
    show "x \<in> waiting c"
    proof (cases "fst (snd x) = scope")
      case True
      then obtain w where "w \<in> set (js_waiters m)" "x = (sw_notify w, scope, sw_alloc w)"
        using x scope_w by blast
      then show ?thesis using x parts unfolding m(2) waiting_update m(4) by (auto simp: m(5))
    next
      case False
      then show ?thesis using x unfolding m(2) waiting_update by simp
    qed
  qed
  then have wt: "waiting c = {x \<in> set (sy_pending s). fst x \<notin> set (closed @ sy_closed s)}"
    using W by auto
  have "sw_notify w < sy_next s" if "w \<in> set (js_waiters m)" for w
  proof -
    have "(sw_notify w, scope, sw_alloc w) \<in> waiting (sy_sems s)" using scope_w that by blast
    then show ?thesis using W P(1) by auto
  qed
  then have cl: "\<forall>ch \<in> set (closed @ sy_closed s). ch < sy_next s"
    using ok parts by (auto simp: m(5) sys_ok_def)
  have sems: "sem_ok n \<and> distinct (map sw_notify (js_waiters n))" if "map_of c j = Some n" for j n
  proof (cases "j = scope")
    case True
    have "distinct (map sw_notify (drop k (js_waiters m)))"
      using distinct_drop [OF dm, of k] by (simp add: drop_map)
    with True that m(2,3,4) show ?thesis by simp
  next
    case False
    with that ok m(2) show ?thesis by (simp add: sys_ok_def)
  qed
  show ?thesis using wt cl sems P ok by (auto simp: sys_ok_def)
qed

lemma sys_ok_exec: "sys_ok s \<Longrightarrow> sem_exec s e = Some s' \<Longrightarrow> sys_ok s'"
proof (cases e)
  case (EvNotified ch)
  assume ok: "sys_ok s" and "sem_exec s e = Some s'"
  then obtain scope alloc where p: "map_of (sy_pending s) ch = Some (scope, alloc)" "ch \<in> set (sy_closed s)"
    and s': "s' = finish (s\<lparr>sy_pending := AList.delete ch (sy_pending s)\<rparr>) scope alloc Acquired"
    by (auto simp: EvNotified split: option.splits if_splits)
  have "set (AList.delete ch (sy_pending s)) = {x \<in> set (sy_pending s). fst x \<noteq> ch}"
    by (auto simp: AList.delete_eq)
  with ok p show ?thesis by (auto simp: s' sys_ok_def finish_def)
next
  case (EvTimeout ch)
  assume "sys_ok s" and "sem_exec s e = Some s'"
  then show ?thesis using sys_ok_cancel by (auto simp: EvTimeout split: option.splits)
next
  case (EvRelease scope alloc)
  assume "sys_ok s" and "sem_exec s e = Some s'"
  then show ?thesis using sys_ok_release by (auto simp: EvRelease split: sum.splits)
next
  case (EvAcquire scope alloc cap)
  assume "sys_ok s" and "sem_exec s e = Some s'"
  then show ?thesis using sys_ok_acquire EvAcquire by blast
qed

lemma sem_reachable_ok: "sem_reachable s \<Longrightarrow> sys_ok s"
  by (induction rule: sem_reachable.induct) (auto intro: sys_ok_init sys_ok_exec)


section \<open>Properties\<close>

text \<open>Property C19: a semaphore never has more holders than its capacity, and no wake-up is lost. In every
  state reachable by any interleaving of acquires, releases, notifications and timeouts, every
  semaphore has a capacity between 1 and 64, its holders are different allocations and at most as
  many as the capacity, and allocations wait only while it is full. Every client still blocked in
  \<open>acquire\<close> either can return at once, its channel being closed, or is queued under its own
  allocation at a full semaphore.\<close>

theorem semaphore_safe:
  assumes "sem_reachable s"
  shows "(\<forall>scope m. map_of (sy_sems s) scope = Some m \<longrightarrow>
      1 \<le> js_capacity m \<and> js_capacity m \<le> 64 \<and> distinct (js_holders m) \<and>
      int (length (js_holders m)) \<le> js_capacity m \<and>
      (js_waiters m \<noteq> [] \<longrightarrow> int (length (js_holders m)) = js_capacity m)) \<and>
    (\<forall>ch scope alloc. map_of (sy_pending s) ch = Some (scope, alloc) \<longrightarrow>
      sem_exec s (EvNotified ch) \<noteq> None \<or>
      (\<exists>m. map_of (sy_sems s) scope = Some m \<and> \<lparr>sw_alloc = alloc, sw_notify = ch\<rparr> \<in> set (js_waiters m) \<and>
           int (length (js_holders m)) = js_capacity m))"
proof (intro conjI allI impI)
  note ok = sem_reachable_ok [OF assms]
  fix scope m
  assume "map_of (sy_sems s) scope = Some m"
  then have "sem_ok m" by (rule sys_ok_sem [OF ok])
  then show "1 \<le> js_capacity m" "js_capacity m \<le> 64" "distinct (js_holders m)"
    "int (length (js_holders m)) \<le> js_capacity m"
    "js_waiters m \<noteq> [] \<Longrightarrow> int (length (js_holders m)) = js_capacity m"
    by (auto simp: sem_ok_def maxSemaphoreCapacity_def)
next
  note ok = sem_reachable_ok [OF assms]
  fix ch scope alloc
  assume p: "map_of (sy_pending s) ch = Some (scope, alloc)"
  show "sem_exec s (EvNotified ch) \<noteq> None \<or>
      (\<exists>m. map_of (sy_sems s) scope = Some m \<and> \<lparr>sw_alloc = alloc, sw_notify = ch\<rparr> \<in> set (js_waiters m) \<and>
           int (length (js_holders m)) = js_capacity m)"
  proof (cases "ch \<in> set (sy_closed s)")
    case False
    then have "(ch, scope, alloc) \<in> waiting (sy_sems s)"
      using ok map_of_SomeD [OF p] by (simp add: sys_ok_def)
    then obtain m w where m: "map_of (sy_sems s) scope = Some m" "w \<in> set (js_waiters m)"
      "sw_notify w = ch" "sw_alloc w = alloc" by (auto simp: waiting_def)
    then have "w = \<lparr>sw_alloc = alloc, sw_notify = ch\<rparr>" by simp
    moreover have "int (length (js_holders m)) = js_capacity m"
      using sys_ok_sem [OF ok m(1)] m(2) by (auto simp: sem_ok_def)
    ultimately show ?thesis using m by blast
  qed (simp add: p)
qed

definition sem_trace :: "sem_event list \<Rightarrow> sem_sys option" where
  "sem_trace es = foldl (\<lambda>s e. case s of None \<Rightarrow> None | Some t \<Rightarrow> sem_exec t e) (Some sem_init) es"

lemma sem_trace_reachable: "sem_trace es = Some s \<Longrightarrow> sem_reachable s"
proof (induction es arbitrary: s rule: rev_induct)
  case Nil
  then show ?case by (simp add: sem_trace_def sem_reachable.init)
next
  case (snoc e es)
  then show ?case
    by (auto simp: sem_trace_def intro: sem_reachable.step split: option.splits)
qed

lemmas sem_eval = sem_trace_def sem_init_def acquire_begin_def registerWait_def register_on_def
  new_semaphore_def defaultSemaphoreCapacity_def maxSemaphoreCapacity_def finish_def sem_release_def
  grantNextWaiterLocked_def cancelWait_def

lemma semaphore_safe_witness:
  "\<exists>s m. sem_trace [EvAcquire ''k'' ''a'' 1, EvAcquire ''k'' ''b'' 1] = Some s \<and>
     map_of (sy_sems s) ''k'' = Some m \<and> length (js_holders m) \<le> 1"
proof -
  define s where "s = the (sem_trace [EvAcquire ''k'' ''a'' 1, EvAcquire ''k'' ''b'' 1])"
  have t: "sem_trace [EvAcquire ''k'' ''a'' 1, EvAcquire ''k'' ''b'' 1] = Some s"
    by (simp add: s_def sem_eval)
  obtain m where m: "map_of (sy_sems s) ''k'' = Some m" "js_capacity m = 1"
    by (simp add: s_def sem_eval)
  have "int (length (js_holders m)) \<le> js_capacity m"
    using semaphore_safe [OF sem_trace_reachable [OF t]] m(1) by blast
  with t m show ?thesis by auto
qed

text \<open>Property C37: releases serve the queue in order and always serve someone. When a holder releases a
  semaphore with waiting allocations in a reachable state, a non-empty prefix of the queue is
  granted: those allocations hold the semaphore, their clients can return, and the rest of the
  queue keeps its order. The releasing allocation holds it afterwards only if it was itself
  queued in that prefix.\<close>

theorem release_fifo:
  assumes "sem_reachable s" and "map_of (sy_sems s) scope = Some m" and "alloc \<in> set (js_holders m)"
    and "js_waiters m \<noteq> []"
  shows "\<exists>s' m' k. sem_exec s (EvRelease scope alloc) = Some s' \<and> map_of (sy_sems s') scope = Some m' \<and>
    0 < k \<and> js_waiters m' = drop k (js_waiters m) \<and>
    set (js_holders m') = set (js_holders m) - {alloc} \<union> sw_alloc ` set (take k (js_waiters m)) \<and>
    (\<forall>w \<in> set (take k (js_waiters m)). sem_exec s' (EvNotified (sw_notify w)) \<noteq> None)"
proof -
  note ok = sem_reachable_ok [OF assms(1)]
  obtain c closed where r: "sem_release (sy_sems s) scope alloc = Inr (c, closed)"
    using assms(2,3)
    by (cases "grantNextWaiterLocked (m\<lparr>js_holders := removeAll alloc (js_holders m)\<rparr>)")
      (auto simp: sem_release_def)
  obtain m0 m' k where m0: "map_of (sy_sems s) scope = Some m0" "c = AList.update scope m' (sy_sems s)"
    "js_waiters m' = drop k (js_waiters m0)" "closed = map sw_notify (take k (js_waiters m0))"
    "set (js_holders m') = set (js_holders m0) - {alloc} \<union> sw_alloc ` set (take k (js_waiters m0))"
    "js_waiters m0 \<noteq> [] \<longrightarrow> 0 < k"
    by (rule release_spec [OF r sys_ok_sem [OF ok]])
  have [simp]: "m0 = m" using m0(1) assms(2) by simp
  let ?s = "s\<lparr>sy_sems := c, sy_closed := closed @ sy_closed s\<rparr>"
  have "sem_exec ?s (EvNotified (sw_notify w)) \<noteq> None" if "w \<in> set (take k (js_waiters m))" for w
  proof -
    have "(sw_notify w, scope, sw_alloc w) \<in> waiting (sy_sems s)"
      using in_set_takeD [OF that] assms(2) by (auto simp: waiting_def)
    then have "map_of (sy_pending s) (sw_notify w) = Some (scope, sw_alloc w)"
      using ok by (auto simp: sys_ok_def)
    moreover have "sw_notify w \<in> set closed" using that by (simp add: m0(4))
    ultimately show ?thesis by simp
  qed
  then show ?thesis using r m0 assms(4) by (intro exI [of _ ?s] exI [of _ m'] exI [of _ k]) auto
qed

lemma release_fifo_witness:
  "\<exists>s s' m'. sem_trace [EvAcquire ''k'' ''a'' 1, EvAcquire ''k'' ''b'' 1] = Some s \<and>
     sem_exec s (EvRelease ''k'' ''a'') = Some s' \<and> map_of (sy_sems s') ''k'' = Some m' \<and>
     set (js_holders m') = {''b''}"
proof -
  define s where "s = the (sem_trace [EvAcquire ''k'' ''a'' 1, EvAcquire ''k'' ''b'' 1])"
  have t: "sem_trace [EvAcquire ''k'' ''a'' 1, EvAcquire ''k'' ''b'' 1] = Some s"
    by (simp add: s_def sem_eval)
  define m where "m = \<lparr>js_capacity = 1, js_holders = [''a''],
    js_waiters = [\<lparr>sw_alloc = ''b'', sw_notify = 0\<rparr>]\<rparr>"
  have m: "map_of (sy_sems s) ''k'' = Some m" by (simp add: s_def sem_eval m_def)
  have "\<exists>s' m' k. sem_exec s (EvRelease ''k'' ''a'') = Some s' \<and> map_of (sy_sems s') ''k'' = Some m' \<and>
    0 < k \<and> js_waiters m' = drop k (js_waiters m) \<and>
    set (js_holders m') = set (js_holders m) - {''a''} \<union> sw_alloc ` set (take k (js_waiters m)) \<and>
    (\<forall>w \<in> set (take k (js_waiters m)). sem_exec s' (EvNotified (sw_notify w)) \<noteq> None)"
    by (rule release_fifo [OF sem_trace_reachable [OF t] m]) (simp_all add: m_def)
  then obtain s' m' k where r: "sem_exec s (EvRelease ''k'' ''a'') = Some s'" "map_of (sy_sems s') ''k'' = Some m'"
    "0 < k" "set (js_holders m') = set (js_holders m) - {''a''} \<union> sw_alloc ` set (take k (js_waiters m))"
    by (elim exE conjE) (rule that)
  from r(3) obtain j where "k = Suc j" by (cases k) auto
  then have "set (js_holders m') = {''b''}" using r(4) by (simp add: m_def)
  with t r show ?thesis by blast
qed

text \<open>
  A client whose timeout fires after it was granted, but before it looked at its channel, may return
  a timeout and still hold the semaphore: \<open>cancelWait\<close> no longer finds it among the waiters.
\<close>

lemma timeout_race_leaks_slot:
  "\<exists>s m. sem_reachable s \<and> (''k'', ''b'', TimedOut) \<in> set (sy_returned s) \<and> sy_pending s = [] \<and>
     map_of (sy_sems s) ''k'' = Some m \<and> ''b'' \<in> set (js_holders m)"
proof -
  let ?es = "[EvAcquire ''k'' ''a'' 1, EvAcquire ''k'' ''b'' 1, EvRelease ''k'' ''a'', EvTimeout 0]"
  define s where "s = the (sem_trace ?es)"
  have t: "sem_trace ?es = Some s" by (simp add: s_def sem_eval)
  show ?thesis
    by (rule exI [of _ s], rule exI [of _ "\<lparr>js_capacity = 1, js_holders = [''b''], js_waiters = []\<rparr>"],
        intro conjI, rule sem_trace_reachable [OF t]) (simp_all add: s_def sem_eval)
qed

end
