(* ===== verification/RuntimeApi.thy ===== *)
theory RuntimeApi
  imports CatalogLaws Semaphore
begin

text \<open>
  The HTTP API that job commands call while they run (\<open>jobcommand/runtime_handlers.go\<close>,
  \<open>runtime_http.go\<close>, \<open>api_errors.go\<close>, \<open>runtime_semaphore_handlers.go\<close>). A request carries the headers the
  handlers read and the result of decoding its JSON body; a handler is a function from the catalog and the
  session store to the store afterwards and the response. The encryption of secrets is an argument.
\<close>

section \<open>Requests and responses\<close>

datatype http_method = GET | PUT | DELETE | POST | OtherMethod

datatype 'p json_body = EmptyBody | InvalidJSON | Decoded 'p

record store_key_payload =
  sk_namespace :: string
  sk_key :: string
  sk_value :: string

record 'p request =
  rq_method :: http_method
  rq_alloc :: string
  rq_event :: string
  rq_command :: string
  rq_name :: string
  rq_body :: "'p json_body"

record demand_payload =
  dp_job :: string
  dp_command :: string
  dp_config :: "(string \<times> cfg_value) list"

record semaphore_payload =
  sp_name :: string
  sp_capacity :: int
  sp_timeout :: int

datatype api_body =
    NoBody
  | StoreKeyBody store_key_payload
  | KeysBody "(string \<times> string list) list"
  | DemandsBody "demand_payload list"
  | AcquireBody string string int
  | StatusBody string sem_status

datatype api_error =
    MissingAllocation | UnknownAllocation | ApiEmptyBody | ApiInvalidJSON | MissingKeyFields | NamespaceDenied
  | StoreKeyNotFound | WriteDuringHealth | SemaphoreTimeout | SemaphoreConflict | InternalError | MethodNotAllowed

fun api_status :: "api_error \<Rightarrow> int" where
  "api_status MissingAllocation = 400"
| "api_status UnknownAllocation = 404"
| "api_status ApiEmptyBody = 400"
| "api_status ApiInvalidJSON = 400"
| "api_status MissingKeyFields = 400"
| "api_status NamespaceDenied = 400"
| "api_status StoreKeyNotFound = 404"
| "api_status WriteDuringHealth = 400"
| "api_status SemaphoreTimeout = 408"
| "api_status SemaphoreConflict = 409"
| "api_status InternalError = 500"
| "api_status MethodNotAllowed = 405"

type_synonym response = "api_error + api_body"

definition response_status :: "response \<Rightarrow> int" where
  "response_status r = (case r of Inl e \<Rightarrow> api_status e | Inr _ \<Rightarrow> 200)"

section \<open>Allocation and namespace checks\<close>

definition resolveAllocationFromRequest :: "catalog \<Rightarrow> 'p request \<Rightarrow> api_error + (string \<times> string)" where
  "resolveAllocationFromRequest c r =
     (if rq_alloc r = [] then Inl MissingAllocation
      else case filter (\<lambda>a. a_id a = rq_alloc r) (t_allocations c) of
             [] \<Rightarrow> Inl UnknownAllocation
           | a # _ \<Rightarrow> Inr (a_job a, a_ip a))"

definition decode_body :: "'p request \<Rightarrow> api_error + 'p" where
  "decode_body r =
     (case rq_body r of EmptyBody \<Rightarrow> Inl ApiEmptyBody | InvalidJSON \<Rightarrow> Inl ApiInvalidJSON | Decoded p \<Rightarrow> Inr p)"

definition VarsJobNamespace :: "string \<Rightarrow> string" where
  "VarsJobNamespace job = ''vars/job/'' @ job"

definition RolloutOrderKey :: string where
  "RolloutOrderKey = ''rollout_order''"

definition validateReadNamespace :: "catalog \<Rightarrow> string \<Rightarrow> string \<Rightarrow> string \<Rightarrow> api_error + unit" where
  "validateReadNamespace c ns job ip =
     (if Intersection (AllowedKVNamespacesWithUpstream c job ip) [ns] = [] then Inl NamespaceDenied else Inr ())"

definition validateStoreKeyWrite :: "store_key_payload \<Rightarrow> string \<Rightarrow> string \<Rightarrow> api_error + unit" where
  "validateStoreKeyWrite p job event =
     (if sk_namespace p = VarsJobNamespace job then Inr ()
      else if sk_namespace p = JobCatalogNamespace job \<and> sk_key p = RolloutOrderKey then
        (if event \<in> {''pre_deploy'', ''cli''} then Inr () else Inl NamespaceDenied)
      else Inl NamespaceDenied)"

definition validateStoreKeyPayload ::
  "catalog \<Rightarrow> store_key_payload \<Rightarrow> string \<Rightarrow> string \<Rightarrow> string \<Rightarrow> bool \<Rightarrow> api_error + unit" where
  "validateStoreKeyPayload c p job ip event isWrite =
     (if sk_namespace p = [] \<or> sk_key p = [] \<or> isWrite \<and> sk_value p = [] then Inl MissingKeyFields
      else if isWrite then validateStoreKeyWrite p job event
      else if Intersection (AllowedKVNamespacesWithUpstream c job ip) [sk_namespace p] = [] then Inl NamespaceDenied
      else Inr ())"

definition validateSecretNamespace :: "string \<Rightarrow> string \<Rightarrow> string \<Rightarrow> api_error + unit" where
  "validateSecretNamespace ns job ip =
     (if ns \<noteq> SecretJobNamespace job then Inl NamespaceDenied
      else if Intersection (AllowedKVNamespaces job ip) [ns] = [] then Inl NamespaceDenied
      else Inr ())"

definition validateStoreSecretPayload :: "store_key_payload \<Rightarrow> string \<Rightarrow> string \<Rightarrow> api_error + unit" where
  "validateStoreSecretPayload p job ip =
     (if sk_namespace p = [] \<or> sk_key p = [] \<or> sk_value p = [] then Inl MissingKeyFields
      else validateSecretNamespace (sk_namespace p) job ip)"

definition validateStoreSecretKeyPayload :: "store_key_payload \<Rightarrow> string \<Rightarrow> string \<Rightarrow> api_error + unit" where
  "validateStoreSecretKeyPayload p job ip =
     (if sk_namespace p = [] \<or> sk_key p = [] then Inl MissingKeyFields
      else validateSecretNamespace (sk_namespace p) job ip)"

definition isJobLevelListNamespace :: "string \<Rightarrow> string \<Rightarrow> bool" where
  "isJobLevelListNamespace ns job \<longleftrightarrow> ns = VarsJobNamespace job \<or> ns = SecretJobNamespace job"

definition jobLevelKVNamespaces :: "string \<Rightarrow> string list" where
  "jobLevelKVNamespaces job = [VarsJobNamespace job, SecretJobNamespace job]"

definition blockedWriteDuringHealthCheck :: "'p request \<Rightarrow> bool" where
  "blockedWriteDuringHealthCheck r \<longleftrightarrow> rq_event r = ''health_check''"

section \<open>The store handlers\<close>

text \<open>A handler that stops early keeps the store: \<open>reading\<close> for the ones that only answer, \<open>changing\<close> for the
  ones whose last step is a store operation.\<close>

definition reading :: "store \<Rightarrow> api_error + api_body \<Rightarrow> store \<times> response" where
  "reading s m = (s, m)"

definition changing :: "store \<Rightarrow> api_error + store \<Rightarrow> store \<times> response" where
  "changing s m = (case m of Inl e \<Rightarrow> (s, Inl e) | Inr s' \<Rightarrow> (s', Inr NoBody))"

definition rqbind :: "api_error + 'a \<Rightarrow> ('a \<Rightarrow> api_error + 'b) \<Rightarrow> api_error + 'b" where
  "rqbind m f = (case m of Inl e \<Rightarrow> Inl e | Inr x \<Rightarrow> f x)"

lemma rqbind_simps [simp]: "rqbind (Inl e) f = Inl e" "rqbind (Inr x) f = f x"
  by (simp_all add: rqbind_def)

lemma rqbind_Inr: "rqbind m f = Inr y \<longleftrightarrow> (\<exists>x. m = Inr x \<and> f x = Inr y)"
  by (cases m) simp_all

definition handleStoreKeyGet ::
  "(string \<Rightarrow> error + string) \<Rightarrow> catalog \<Rightarrow> store \<Rightarrow> store_key_payload request \<Rightarrow> store \<times> response" where
  "handleStoreKeyGet dec c s r = reading s
     (rqbind (resolveAllocationFromRequest c r) (\<lambda>(job, ip).
      rqbind (decode_body r) (\<lambda>p.
      rqbind (validateStoreKeyPayload c p job ip (rq_event r) False) (\<lambda>_.
      case Get s (sk_namespace p) (sk_key p) of
        Inl _ \<Rightarrow> Inl StoreKeyNotFound
      | Inr e \<Rightarrow>
          if IsSecretNamespace (sk_namespace p) then
            (case dec (e_value e) of
               Inl _ \<Rightarrow> Inl InternalError
             | Inr v \<Rightarrow> Inr (StoreKeyBody (p\<lparr>sk_value := v\<rparr>)))
          else Inr (StoreKeyBody (p\<lparr>sk_value := e_value e\<rparr>))))))"

definition handleStoreKeyPut :: "catalog \<Rightarrow> store \<Rightarrow> store_key_payload request \<Rightarrow> store \<times> response" where
  "handleStoreKeyPut c s r = changing s
     (rqbind (resolveAllocationFromRequest c r) (\<lambda>(job, ip).
      rqbind (decode_body r) (\<lambda>p.
      rqbind (validateStoreKeyPayload c p job ip (rq_event r) True) (\<lambda>_.
      if IsSecretNamespace (sk_namespace p) then Inl NamespaceDenied
      else if rq_event r = ''health_check'' then Inl WriteDuringHealth
      else Inr (Put s (sk_namespace p) (sk_key p) (sk_value p) 0)))))"

definition store_delete :: "store \<Rightarrow> store_key_payload \<Rightarrow> api_error + store" where
  "store_delete s p =
     (case Delete s (sk_namespace p) (sk_key p) of
        Inl e \<Rightarrow> Inl (if e = ErrNotFound then StoreKeyNotFound else InternalError)
      | Inr s' \<Rightarrow> Inr s')"

definition handleStoreKeyDelete :: "catalog \<Rightarrow> store \<Rightarrow> store_key_payload request \<Rightarrow> store \<times> response" where
  "handleStoreKeyDelete c s r = changing s
     (rqbind (resolveAllocationFromRequest c r) (\<lambda>(job, ip).
      rqbind (decode_body r) (\<lambda>p.
      if sk_namespace p = [] \<or> sk_key p = [] then Inl MissingKeyFields
      else if IsSecretNamespace (sk_namespace p) then Inl NamespaceDenied
      else if sk_namespace p \<noteq> VarsJobNamespace job then Inl NamespaceDenied
      else rqbind (validateReadNamespace c (sk_namespace p) job ip) (\<lambda>_.
        if blockedWriteDuringHealthCheck r then Inl WriteDuringHealth
        else store_delete s p))))"

definition handleStoreKeysList :: "catalog \<Rightarrow> store \<Rightarrow> store_key_payload request \<Rightarrow> store \<times> response" where
  "handleStoreKeysList c s r = reading s
     (rqbind (resolveAllocationFromRequest c r) (\<lambda>(job, ip).
      rqbind (decode_body r) (\<lambda>p.
      rqbind (if sk_namespace p = [] then Inr (jobLevelKVNamespaces job)
              else if \<not> isJobLevelListNamespace (sk_namespace p) job then Inl NamespaceDenied
              else rqbind (validateReadNamespace c (sk_namespace p) job ip) (\<lambda>_. Inr [sk_namespace p])) (\<lambda>nss.
      Inr (KeysBody (foldl (\<lambda>m ns. AList.update ns (GetKeys s ns) m) [] nss))))))"

definition handleStoreSecretPut ::
  "(string \<Rightarrow> error + string) \<Rightarrow> catalog \<Rightarrow> store \<Rightarrow> store_key_payload request \<Rightarrow> store \<times> response" where
  "handleStoreSecretPut enc c s r = changing s
     (rqbind (resolveAllocationFromRequest c r) (\<lambda>(job, ip).
      rqbind (decode_body r) (\<lambda>p.
      rqbind (validateStoreSecretPayload p job ip) (\<lambda>_.
      if rq_event r = ''health_check'' then Inl WriteDuringHealth
      else case PutSecret enc s (sk_namespace p) (sk_key p) (sk_value p) 0 of
             Inl _ \<Rightarrow> Inl InternalError
           | Inr s' \<Rightarrow> Inr s'))))"

definition handleStoreSecretDelete :: "catalog \<Rightarrow> store \<Rightarrow> store_key_payload request \<Rightarrow> store \<times> response" where
  "handleStoreSecretDelete c s r = changing s
     (rqbind (resolveAllocationFromRequest c r) (\<lambda>(job, ip).
      rqbind (decode_body r) (\<lambda>p.
      rqbind (validateStoreSecretKeyPayload p job ip) (\<lambda>_.
      if blockedWriteDuringHealthCheck r then Inl WriteDuringHealth
      else store_delete s p))))"

definition handleCommandDemandsGet :: "catalog \<Rightarrow> store \<Rightarrow> store_key_payload request \<Rightarrow> store \<times> response" where
  "handleCommandDemandsGet c s r = reading s
     (rqbind (resolveAllocationFromRequest c r) (\<lambda>(job, ip).
      Inr (DemandsBody (map (\<lambda>q. \<lparr>dp_job = q_job q, dp_command = q_name q, dp_config = q_demand_config q\<rparr>)
        (filter (\<lambda>q. q_demand_job q = job \<and> q_demand_command q = rq_command r) (t_job_commands c))))))"

section \<open>Routing of the store requests\<close>

datatype store_route = RouteStoreKeys | RouteStoreKeysList | RouteStoreSecret | RouteDemands

fun serve_store ::
  "(string \<Rightarrow> error + string) \<Rightarrow> (string \<Rightarrow> error + string) \<Rightarrow> catalog \<Rightarrow> store_route \<Rightarrow> store \<Rightarrow>
   store_key_payload request \<Rightarrow> store \<times> response" where
  "serve_store enc dec c RouteStoreKeys s r =
     (case rq_method r of
        GET \<Rightarrow> handleStoreKeyGet dec c s r
      | PUT \<Rightarrow> handleStoreKeyPut c s r
      | DELETE \<Rightarrow> handleStoreKeyDelete c s r
      | _ \<Rightarrow> (s, Inl MethodNotAllowed))"
| "serve_store enc dec c RouteStoreKeysList s r =
     (if rq_method r \<noteq> GET then (s, Inl MethodNotAllowed) else handleStoreKeysList c s r)"
| "serve_store enc dec c RouteStoreSecret s r =
     (case rq_method r of
        PUT \<Rightarrow> handleStoreSecretPut enc c s r
      | DELETE \<Rightarrow> handleStoreSecretDelete c s r
      | _ \<Rightarrow> (s, Inl MethodNotAllowed))"
| "serve_store enc dec c RouteDemands s r =
     (if rq_method r \<noteq> GET then (s, Inl MethodNotAllowed) else handleCommandDemandsGet c s r)"

section \<open>The semaphore handlers\<close>

text \<open>An acquire that has to wait blocks in the coordinator; its response follows from how the wait ends.\<close>

datatype acquire_step = Responds response | Blocks string string nat

definition acquire_response :: "semaphores \<Rightarrow> string \<Rightarrow> string \<Rightarrow> string \<Rightarrow> sem_outcome \<Rightarrow> response" where
  "acquire_response sems scope name alloc outcome =
     (case outcome of
        TimedOut \<Rightarrow> Inl SemaphoreTimeout
      | Refused \<Rightarrow> Inl SemaphoreConflict
      | Acquired \<Rightarrow> Inr (AcquireBody name alloc (ss_capacity (fst (semaphore_status sems scope)))))"

definition serveSemaphoreAcquire ::
  "catalog \<Rightarrow> semaphores \<Rightarrow> nat \<Rightarrow> semaphore_payload request \<Rightarrow> semaphores \<times> acquire_step" where
  "serveSemaphoreAcquire c sems ch r =
     (if rq_method r \<noteq> POST then (sems, Responds (Inl MethodNotAllowed))
      else case rqbind (resolveAllocationFromRequest c r) (\<lambda>(job, ip).
                rqbind (decode_body r) (\<lambda>p.
                if sp_name p = [] then Inl MissingKeyFields else Inr (job, p))) of
             Inl e \<Rightarrow> (sems, Responds (Inl e))
           | Inr (job, p) \<Rightarrow>
               (let scope = semaphoreScopeKey job (rq_event r) (sp_name p)
                in case acquire_begin sems scope (rq_alloc r) (sp_capacity p) ch of
                     Inl _ \<Rightarrow> (sems, Responds (acquire_response sems scope (sp_name p) (rq_alloc r) Refused))
                   | Inr (sems', None) \<Rightarrow>
                       (sems', Responds (acquire_response sems' scope (sp_name p) (rq_alloc r) Acquired))
                   | Inr (sems', Some w) \<Rightarrow> (sems', Blocks scope (rq_alloc r) w)))"

definition serveSemaphoreRelease ::
  "catalog \<Rightarrow> semaphores \<Rightarrow> semaphore_payload request \<Rightarrow> semaphores \<times> nat list \<times> response" where
  "serveSemaphoreRelease c sems r =
     (if rq_method r \<noteq> POST then (sems, [], Inl MethodNotAllowed)
      else case rqbind (resolveAllocationFromRequest c r) (\<lambda>(job, ip).
                rqbind (decode_body r) (\<lambda>p.
                if sp_name p = [] then Inl MissingKeyFields else Inr (job, p))) of
             Inl e \<Rightarrow> (sems, [], Inl e)
           | Inr (job, p) \<Rightarrow>
               (case sem_release sems (semaphoreScopeKey job (rq_event r) (sp_name p)) (rq_alloc r) of
                  Inl _ \<Rightarrow> (sems, [], Inl SemaphoreConflict)
                | Inr (sems', closed) \<Rightarrow> (sems', closed, Inr NoBody)))"

definition serveSemaphoreStatus :: "catalog \<Rightarrow> semaphores \<Rightarrow> semaphore_payload request \<Rightarrow> response" where
  "serveSemaphoreStatus c sems r =
     (if rq_method r \<noteq> GET then Inl MethodNotAllowed
      else rqbind (resolveAllocationFromRequest c r) (\<lambda>(job, ip).
        if rq_name r = [] then Inl MissingKeyFields
        else case semaphore_status sems (semaphoreScopeKey job (rq_event r) (rq_name r)) of
               (st, True) \<Rightarrow> Inr (StatusBody (rq_name r) st)
             | (st, False) \<Rightarrow> Inr (StatusBody (rq_name r)
                 (st\<lparr>ss_capacity := defaultSemaphoreCapacity, ss_available := defaultSemaphoreCapacity\<rparr>))))"

section \<open>Facts about the handlers\<close>

lemma resolve_Inr:
  "resolveAllocationFromRequest c r = Inr (job, ip) \<Longrightarrow>
   \<exists>a \<in> set (t_allocations c). a_id a = rq_alloc r \<and> a_job a = job \<and> a_ip a = ip \<and> rq_alloc r \<noteq> []"
proof -
  assume "resolveAllocationFromRequest c r = Inr (job, ip)"
  then obtain a as where a: "filter (\<lambda>a. a_id a = rq_alloc r) (t_allocations c) = a # as"
    "a_job a = job" "a_ip a = ip" "rq_alloc r \<noteq> []"
    by (auto simp: resolveAllocationFromRequest_def split: if_splits list.splits)
  then have "a \<in> set (filter (\<lambda>a. a_id a = rq_alloc r) (t_allocations c))" by simp
  then have "a \<in> set (t_allocations c)" "a_id a = rq_alloc r" by simp_all
  with a show ?thesis by blast
qed

lemma lookup_changed_Put:
  "lookup_entry (putValue s ns k v ttl tr) ns' k' \<noteq> lookup_entry s ns' k' \<Longrightarrow> ns' = ns \<and> k' = k"
  by (auto simp: kv_simps split: if_splits)

lemma lookup_changed_Delete:
  "Delete s ns k = Inr s' \<Longrightarrow> lookup_entry s' ns' k' \<noteq> lookup_entry s ns' k' \<Longrightarrow> ns' = ns \<and> k' = k"
  by (auto simp: kv_simps split: if_splits)

lemma store_delete_Inr: "store_delete s p = Inr s' \<Longrightarrow> Delete s (sk_namespace p) (sk_key p) = Inr s'"
  by (auto simp: store_delete_def split: sum.splits)

lemma reading_eq [simp]: "reading s m = (s', x) \<longleftrightarrow> s' = s \<and> x = m"
  by (auto simp: reading_def)

lemma changing_cases:
  assumes "changing s m = (s', x)"
  obtains e where "m = Inl e" "s' = s" "x = Inl e" | "m = Inr s'" "x = Inr NoBody"
  using assms by (auto simp: changing_def split: sum.splits)

text \<open>What a write may change: one key of a namespace that belongs to the job.\<close>

definition writable :: "string \<Rightarrow> string \<Rightarrow> string \<Rightarrow> string \<Rightarrow> bool" where
  "writable job event ns k \<longleftrightarrow>
     ns = ''vars/job/'' @ job \<or> ns = ''secrets/job/'' @ job \<or>
     ns = ''maand/job/'' @ job \<and> k = ''rollout_order'' \<and> event \<in> {''pre_deploy'', ''cli''}"

definition isolated :: "catalog \<Rightarrow> store_key_payload request \<Rightarrow> store \<Rightarrow> store \<Rightarrow> bool" where
  "isolated c r s s' \<longleftrightarrow>
     (\<exists>a \<in> set (t_allocations c). \<exists>p. a_id a = rq_alloc r \<and> rq_body r = Decoded p \<and>
        rq_event r \<noteq> ''health_check'' \<and> writable (a_job a) (rq_event r) (sk_namespace p) (sk_key p) \<and>
        (\<forall>ns k. lookup_entry s' ns k \<noteq> lookup_entry s ns k \<longrightarrow> ns = sk_namespace p \<and> k = sk_key p))"

lemma decode_Inr: "decode_body r = Inr p \<longleftrightarrow> rq_body r = Decoded p"
  by (auto simp: decode_body_def split: json_body.splits)

lemma handler_cases:
  assumes "rqbind (resolveAllocationFromRequest c r) (\<lambda>(job, ip). rqbind (decode_body r) (f job ip)) = Inr y"
  obtains a p where "a \<in> set (t_allocations c)" "a_id a = rq_alloc r" "rq_body r = Decoded p"
    "f (a_job a) (a_ip a) p = Inr y"
proof -
  obtain job ip where j: "resolveAllocationFromRequest c r = Inr (job, ip)"
    and f: "rqbind (decode_body r) (f job ip) = Inr y"
    using assms by (auto simp: rqbind_Inr)
  obtain p where p: "decode_body r = Inr p" "f job ip p = Inr y" using f by (auto simp: rqbind_Inr)
  obtain a where a: "a \<in> set (t_allocations c)" "a_id a = rq_alloc r" "a_job a = job" "a_ip a = ip"
    using resolve_Inr [OF j] by auto
  show ?thesis by (rule that [of a p]) (use a p in \<open>auto simp: decode_Inr\<close>)
qed

lemma put_isolated:
  assumes "handleStoreKeyPut c s r = (s', x)"
  shows "s' = s \<or> isolated c r s s'"
  using assms unfolding handleStoreKeyPut_def
proof (cases rule: changing_cases)
  case 2
  from 2(1) obtain a p where a: "a \<in> set (t_allocations c)" "a_id a = rq_alloc r" "rq_body r = Decoded p"
    and f: "rqbind (validateStoreKeyPayload c p (a_job a) (a_ip a) (rq_event r) True) (\<lambda>_.
      if IsSecretNamespace (sk_namespace p) then Inl NamespaceDenied
      else if rq_event r = ''health_check'' then Inl WriteDuringHealth
      else Inr (Put s (sk_namespace p) (sk_key p) (sk_value p) 0)) = Inr s'"
    by (rule handler_cases)
  from f have w: "writable (a_job a) (rq_event r) (sk_namespace p) (sk_key p)" "rq_event r \<noteq> ''health_check''"
    "s' = Put s (sk_namespace p) (sk_key p) (sk_value p) 0"
    by (auto simp: rqbind_Inr validateStoreKeyPayload_def validateStoreKeyWrite_def writable_def VarsJobNamespace_def
        JobCatalogNamespace_def RolloutOrderKey_def split: if_splits)
  then show ?thesis using a unfolding isolated_def Put_def by (metis lookup_changed_Put)
qed simp

lemma secret_put_isolated:
  assumes "handleStoreSecretPut enc c s r = (s', x)"
  shows "s' = s \<or> isolated c r s s'"
  using assms unfolding handleStoreSecretPut_def
proof (cases rule: changing_cases)
  case 2
  from 2(1) obtain a p where a: "a \<in> set (t_allocations c)" "a_id a = rq_alloc r" "rq_body r = Decoded p"
    and f: "rqbind (validateStoreSecretPayload p (a_job a) (a_ip a)) (\<lambda>_.
      if rq_event r = ''health_check'' then Inl WriteDuringHealth
      else case PutSecret enc s (sk_namespace p) (sk_key p) (sk_value p) 0 of
             Inl _ \<Rightarrow> Inl InternalError
           | Inr s' \<Rightarrow> Inr s') = Inr s'"
    by (rule handler_cases)
  from f obtain v where w: "sk_namespace p = SecretJobNamespace (a_job a)" "rq_event r \<noteq> ''health_check''"
    "s' = putValue s (sk_namespace p) (sk_key p) v 0 False"
    by (auto simp: rqbind_Inr validateStoreSecretPayload_def validateSecretNamespace_def PutSecret_def rbind_def
        split: if_splits sum.splits)
  then have "writable (a_job a) (rq_event r) (sk_namespace p) (sk_key p)"
    by (simp add: writable_def SecretJobNamespace_def)
  with w a show ?thesis unfolding isolated_def by (metis lookup_changed_Put)
qed simp

lemma delete_isolated:
  assumes "handleStoreKeyDelete c s r = (s', x)"
  shows "s' = s \<or> isolated c r s s'"
  using assms unfolding handleStoreKeyDelete_def
proof (cases rule: changing_cases)
  case 2
  from 2(1) obtain a p where a: "a \<in> set (t_allocations c)" "a_id a = rq_alloc r" "rq_body r = Decoded p"
    and f: "(if sk_namespace p = [] \<or> sk_key p = [] then Inl MissingKeyFields
      else if IsSecretNamespace (sk_namespace p) then Inl NamespaceDenied
      else if sk_namespace p \<noteq> VarsJobNamespace (a_job a) then Inl NamespaceDenied
      else rqbind (validateReadNamespace c (sk_namespace p) (a_job a) (a_ip a)) (\<lambda>_.
        if blockedWriteDuringHealthCheck r then Inl WriteDuringHealth
        else store_delete s p)) = Inr s'"
    by (rule handler_cases)
  from f have w: "writable (a_job a) (rq_event r) (sk_namespace p) (sk_key p)" "rq_event r \<noteq> ''health_check''"
    "Delete s (sk_namespace p) (sk_key p) = Inr s'"
    by (auto simp: rqbind_Inr writable_def VarsJobNamespace_def blockedWriteDuringHealthCheck_def
        dest!: store_delete_Inr split: if_splits)
  then show ?thesis using a unfolding isolated_def by (metis lookup_changed_Delete)
qed simp

lemma secret_delete_isolated:
  assumes "handleStoreSecretDelete c s r = (s', x)"
  shows "s' = s \<or> isolated c r s s'"
  using assms unfolding handleStoreSecretDelete_def
proof (cases rule: changing_cases)
  case 2
  from 2(1) obtain a p where a: "a \<in> set (t_allocations c)" "a_id a = rq_alloc r" "rq_body r = Decoded p"
    and f: "rqbind (validateStoreSecretKeyPayload p (a_job a) (a_ip a)) (\<lambda>_.
      if blockedWriteDuringHealthCheck r then Inl WriteDuringHealth else store_delete s p) = Inr s'"
    by (rule handler_cases)
  from f have w: "writable (a_job a) (rq_event r) (sk_namespace p) (sk_key p)" "rq_event r \<noteq> ''health_check''"
    "Delete s (sk_namespace p) (sk_key p) = Inr s'"
    by (auto simp: rqbind_Inr writable_def SecretJobNamespace_def blockedWriteDuringHealthCheck_def
        validateStoreSecretKeyPayload_def validateSecretNamespace_def
        dest!: store_delete_Inr split: if_splits)
  then show ?thesis using a unfolding isolated_def by (metis lookup_changed_Delete)
qed simp

lemma readers_keep:
  "fst (handleStoreKeyGet dec c s r) = s" "fst (handleStoreKeysList c s r) = s"
  "fst (handleCommandDemandsGet c s r) = s"
  by (simp_all add: handleStoreKeyGet_def handleStoreKeysList_def handleCommandDemandsGet_def reading_def)

lemma serve_isolated:
  assumes "serve_store enc dec c route s r = (s', x)"
  shows "s' = s \<or> isolated c r s s'"
proof (cases route)
  case RouteStoreKeys
  then show ?thesis
    using assms put_isolated delete_isolated readers_keep(1) [of dec c s r]
    by (cases "rq_method r") auto
next
  case RouteStoreSecret
  then show ?thesis
    using assms secret_put_isolated secret_delete_isolated by (cases "rq_method r") auto
next
  case RouteStoreKeysList
  then show ?thesis using assms readers_keep(2) [of c s r] by (auto split: if_splits)
next
  case RouteDemands
  then show ?thesis using assms readers_keep(3) [of c s r] by (auto split: if_splits)
qed

section \<open>What may be read\<close>

lemma set_Intersection_single: "Intersection xs [y] = [] \<longleftrightarrow> y \<notin> set xs"
  using Intersection_singleton [of xs y] by simp

lemma get_reads:
  assumes "handleStoreKeyGet dec c s r = (s', Inr b)"
  shows "\<exists>a p e v. a \<in> set (t_allocations c) \<and> a_id a = rq_alloc r \<and> rq_body r = Decoded p \<and>
    b = StoreKeyBody (p\<lparr>sk_value := v\<rparr>) \<and>
    sk_namespace p \<in> set (AllowedKVNamespacesWithUpstream c (a_job a) (a_ip a)) \<and>
    Get s (sk_namespace p) (sk_key p) = Inr e \<and>
    (if IsSecretNamespace (sk_namespace p) then dec (e_value e) = Inr v else v = e_value e)"
proof -
  from assms obtain a p where a: "a \<in> set (t_allocations c)" "a_id a = rq_alloc r" "rq_body r = Decoded p"
    and f: "rqbind (validateStoreKeyPayload c p (a_job a) (a_ip a) (rq_event r) False) (\<lambda>_.
      case Get s (sk_namespace p) (sk_key p) of
        Inl _ \<Rightarrow> Inl StoreKeyNotFound
      | Inr e \<Rightarrow>
          if IsSecretNamespace (sk_namespace p) then
            (case dec (e_value e) of
               Inl _ \<Rightarrow> Inl InternalError
             | Inr v \<Rightarrow> Inr (StoreKeyBody (p\<lparr>sk_value := v\<rparr>)))
          else Inr (StoreKeyBody (p\<lparr>sk_value := e_value e\<rparr>))) = Inr b"
    unfolding handleStoreKeyGet_def reading_eq by (elim conjE) (rule handler_cases, rule sym)
  from f have ns: "sk_namespace p \<in> set (AllowedKVNamespacesWithUpstream c (a_job a) (a_ip a))"
    by (auto simp: rqbind_Inr validateStoreKeyPayload_def set_Intersection_single split: if_splits)
  from f obtain e v where "Get s (sk_namespace p) (sk_key p) = Inr e" "b = StoreKeyBody (p\<lparr>sk_value := v\<rparr>)"
    "if IsSecretNamespace (sk_namespace p) then dec (e_value e) = Inr v else v = e_value e"
    by (auto simp: rqbind_Inr split: if_splits sum.splits)
  with a ns show ?thesis by blast
qed

lemma secret_namespaces:
  assumes "ns \<in> set (AllowedKVNamespacesWithUpstream c job ip)" and "IsSecretNamespace ns"
  shows "ns = SecretJobNamespace job \<or>
    (\<exists>q \<in> set (t_job_commands c). q_job q = job \<and> q_demand_job q \<noteq> [] \<and> ns = SecretJobNamespace (q_demand_job q))"
proof -
  have "ns \<in> set (AllowedKVNamespaces job ip) \<or> ns \<in> set (UpstreamDemandKVNamespaces c job)"
    using assms(1) by (simp add: AllowedKVNamespacesWithUpstream_def)
  then show ?thesis
  proof
    assume "ns \<in> set (AllowedKVNamespaces job ip)"
    then have "ns = SecretJobNamespace job"
      using assms(2) by (auto simp: AllowedKVNamespaces_def IsSecretNamespace_def has_prefix_def SecretJobNamespace_def)
    then show ?thesis ..
  next
    assume "ns \<in> set (UpstreamDemandKVNamespaces c job)"
    then obtain q where q: "q \<in> set (t_job_commands c)" "q_job q = job" "sql_trim (q_demand_job q) \<noteq> []"
      and ns: "ns \<in> {''maand/job/'' @ q_demand_job q, ''vars/job/'' @ q_demand_job q, ''secrets/job/'' @ q_demand_job q}"
      by (auto simp: UpstreamDemandKVNamespaces_def)
    have "q_demand_job q \<noteq> []" using q(3) by (auto simp: sql_trim_def)
    moreover have "ns = SecretJobNamespace (q_demand_job q)"
      using ns assms(2) by (auto simp: IsSecretNamespace_def has_prefix_def SecretJobNamespace_def)
    ultimately show ?thesis using q by blast
  qed
qed

section \<open>Properties\<close>

text \<open>Property C6: a job command can only write what belongs to its job. Whatever store request is served,
  the store stays as it is, or the request names an existing allocation, does not run for a health
  check, and only the one requested key changed, which lies in the variables or the secrets of the
  allocation's job or is that job's \<open>rollout_order\<close>, written before a deploy or from the command line.\<close>

theorem api_write_isolation:
  "fst (serve_store enc dec c route s r) = s \<or>
   (\<exists>a \<in> set (t_allocations c). \<exists>p. a_id a = rq_alloc r \<and> rq_body r = Decoded p \<and>
      rq_event r \<noteq> ''health_check'' \<and>
      (sk_namespace p \<in> {''vars/job/'' @ a_job a, ''secrets/job/'' @ a_job a} \<or>
       sk_namespace p = ''maand/job/'' @ a_job a \<and> sk_key p = ''rollout_order'' \<and>
         rq_event r \<in> {''pre_deploy'', ''cli''}) \<and>
      (\<forall>ns k. (ns, k) \<noteq> (sk_namespace p, sk_key p) \<longrightarrow>
         lookup_entry (fst (serve_store enc dec c route s r)) ns k = lookup_entry s ns k))"
proof -
  obtain s' x where "serve_store enc dec c route s r = (s', x)" by fastforce
  with serve_isolated [OF this] show ?thesis unfolding isolated_def writable_def by auto
qed

definition api_catalog :: catalog where
  "api_catalog = empty_catalog\<lparr>t_allocations := [plain_alloc ''w1'' ''api'', plain_alloc ''w1'' ''db''],
     t_job_commands := [\<lparr>q_job_id = ''api'', q_job = ''api'', q_name = ''command_x'', q_executed_on = ''post_deploy'',
       q_demand_job = ''db'', q_demand_command = ''command_y'', q_demand_config = []\<rparr>]\<rparr>"

definition key_request :: "http_method \<Rightarrow> string \<Rightarrow> string \<Rightarrow> string \<Rightarrow> string \<Rightarrow> store_key_payload request" where
  "key_request m alloc ns k v = \<lparr>rq_method = m, rq_alloc = alloc, rq_event = ''cli'', rq_command = ''command_x'',
     rq_name = [], rq_body = Decoded \<lparr>sk_namespace = ns, sk_key = k, sk_value = v\<rparr>\<rparr>"

lemma api_write_isolation_witness:
  "\<exists>a \<in> set (t_allocations api_catalog). a_id a = ''api|w1'' \<and>
     lookup_entry (fst (serve_store Inr Inr api_catalog RouteStoreKeys NewStore
        (key_request PUT ''api|w1'' ''vars/job/api'' ''k'' ''v''))) ''vars/job/db'' ''k'' = None"
proof -
  define r where "r = key_request PUT ''api|w1'' ''vars/job/api'' ''k'' ''v''"
  define t where "t = fst (serve_store Inr Inr api_catalog RouteStoreKeys NewStore r)"
  have ne: "t \<noteq> NewStore" unfolding t_def r_def by code_simp
  have r: "rq_alloc r = ''api|w1''" "rq_body r = Decoded \<lparr>sk_namespace = ''vars/job/api'', sk_key = ''k'', sk_value = ''v''\<rparr>"
    by (simp_all add: r_def key_request_def)
  from api_write_isolation [of Inr Inr api_catalog RouteStoreKeys NewStore r, folded t_def] ne
  obtain a p where a: "a \<in> set (t_allocations api_catalog)" "a_id a = rq_alloc r" "rq_body r = Decoded p"
    and l: "\<forall>ns k. (ns, k) \<noteq> (sk_namespace p, sk_key p) \<longrightarrow> lookup_entry t ns k = lookup_entry NewStore ns k"
    by blast
  have "lookup_entry t ''vars/job/db'' ''k'' = None" using l a(3) r(2) by (auto simp: kv_simps)
  then show ?thesis using a(1,2) r(1) unfolding t_def r_def by auto
qed

text \<open>Property C24: a job command can only read what it is entitled to. When \<open>GET /kv\<close> answers with a value,
  the request names an existing allocation, the namespace is one of that allocation's namespaces or of
  a job it demands, the value is the live one (decrypted for a secret), and a secret is one of the
  allocation's own job or of a job that it demands.\<close>

theorem api_read_scope:
  assumes "serve_store enc dec c RouteStoreKeys s r = (s', Inr (StoreKeyBody b))"
  shows "s' = s \<and> (\<exists>a \<in> set (t_allocations c). \<exists>e. a_id a = rq_alloc r \<and>
     sk_namespace b \<in> set (AllowedKVNamespacesWithUpstream c (a_job a) (a_ip a)) \<and>
     Get s (sk_namespace b) (sk_key b) = Inr e \<and>
     (if IsSecretNamespace (sk_namespace b) then dec (e_value e) = Inr (sk_value b) else sk_value b = e_value e) \<and>
     (IsSecretNamespace (sk_namespace b) \<longrightarrow> sk_namespace b = SecretJobNamespace (a_job a) \<or>
        (\<exists>q \<in> set (t_job_commands c). q_job q = a_job a \<and> q_demand_job q \<noteq> [] \<and>
           sk_namespace b = SecretJobNamespace (q_demand_job q))))"
proof -
  have m: "rq_method r = GET"
    using assms by (auto simp: handleStoreKeyPut_def handleStoreKeyDelete_def changing_def split: http_method.splits sum.splits)
  then have g: "handleStoreKeyGet dec c s r = (s', Inr (StoreKeyBody b))" using assms by simp
  then have "s' = s" by (simp add: handleStoreKeyGet_def)
  moreover from get_reads [OF g] obtain a p e v where a: "a \<in> set (t_allocations c)" "a_id a = rq_alloc r"
    and b: "b = p\<lparr>sk_value := v\<rparr>"
    and ns: "sk_namespace p \<in> set (AllowedKVNamespacesWithUpstream c (a_job a) (a_ip a))"
    and e: "Get s (sk_namespace p) (sk_key p) = Inr e"
      "if IsSecretNamespace (sk_namespace p) then dec (e_value e) = Inr v else v = e_value e"
    by auto
  moreover have "IsSecretNamespace (sk_namespace p) \<longrightarrow> sk_namespace p = SecretJobNamespace (a_job a) \<or>
      (\<exists>q \<in> set (t_job_commands c). q_job q = a_job a \<and> q_demand_job q \<noteq> [] \<and>
         sk_namespace p = SecretJobNamespace (q_demand_job q))"
    using secret_namespaces [OF ns] by blast
  ultimately show ?thesis by (intro conjI bexI [of _ a] exI [of _ e]) (simp_all split: if_splits)
qed

lemma api_read_scope_witness:
  "\<exists>a \<in> set (t_allocations api_catalog). a_id a = ''api|w1'' \<and>
     ''secrets/job/db'' \<in> set (AllowedKVNamespacesWithUpstream api_catalog (a_job a) (a_ip a))"
proof -
  let ?s = "putValue NewStore ''secrets/job/db'' ''k'' ''x'' 0 False"
  let ?r = "key_request GET ''api|w1'' ''secrets/job/db'' ''k'' []"
  have "serve_store Inr Inr api_catalog RouteStoreKeys ?s ?r =
      (?s, Inr (StoreKeyBody \<lparr>sk_namespace = ''secrets/job/db'', sk_key = ''k'', sk_value = ''x''\<rparr>))"
    by code_simp
  from api_read_scope [OF this] show ?thesis by (auto simp: key_request_def)
qed

text \<open>Property C36: secrets survive the API. When encryption is undone by decryption, a secret that an
  allocation stored with \<open>PUT /kv/secret\<close> is what \<open>GET /kv\<close> then returns to every allocation of the
  same job, byte for byte, while the value of the stored entry is the encryption of the secret, and no other entry of
  the store has changed.\<close>

theorem api_secret_roundtrip:
  assumes "\<And>x y. enc x = Inr y \<Longrightarrow> dec y = Inr x"
    and "serve_store enc dec c RouteStoreSecret s r = (s', Inr NoBody)" and "rq_method r = PUT"
    and "rq_body r = Decoded p" and "rq_method g = GET" and "rq_body g = Decoded (p\<lparr>sk_value := v\<rparr>)"
    and "catalog_ok c" and "a \<in> set (t_allocations c)" and "rq_alloc r = a_id a"
    and "b \<in> set (t_allocations c)" and "a_job b = a_job a" and "rq_alloc g = a_id b" and "a_id b \<noteq> []"
  shows "serve_store enc dec c RouteStoreKeys s' g = (s', Inr (StoreKeyBody p)) \<and>
    (\<exists>y e. enc (sk_value p) = Inr y \<and> Get s' (sk_namespace p) (sk_key p) = Inr e \<and> e_value e = y) \<and>
    (\<forall>ns k. (ns, k) \<noteq> (sk_namespace p, sk_key p) \<longrightarrow> lookup_entry s' ns k = lookup_entry s ns k)"
proof -
  have "handleStoreSecretPut enc c s r = (s', Inr NoBody)" using assms(2,3) by simp
  then obtain a' p' y where h: "a' \<in> set (t_allocations c)" "a_id a' = rq_alloc r" "rq_body r = Decoded p'"
    and f: "sk_namespace p' = SecretJobNamespace (a_job a')" "sk_key p' \<noteq> []"
      "enc (sk_value p') = Inr y" "s' = putValue s (sk_namespace p') (sk_key p') y 0 False"
    unfolding handleStoreSecretPut_def
  proof (cases rule: changing_cases)
    case 2
    from 2(1) obtain a' p' where h: "a' \<in> set (t_allocations c)" "a_id a' = rq_alloc r" "rq_body r = Decoded p'"
      and f: "rqbind (validateStoreSecretPayload p' (a_job a') (a_ip a')) (\<lambda>_.
        if rq_event r = ''health_check'' then Inl WriteDuringHealth
        else case PutSecret enc s (sk_namespace p') (sk_key p') (sk_value p') 0 of
               Inl _ \<Rightarrow> Inl InternalError
             | Inr s' \<Rightarrow> Inr s') = Inr s'"
      by (rule handler_cases)
    from f obtain y where "sk_namespace p' = SecretJobNamespace (a_job a')" "sk_key p' \<noteq> []"
      "enc (sk_value p') = Inr y" "s' = putValue s (sk_namespace p') (sk_key p') y 0 False"
      by (auto simp: rqbind_Inr validateStoreSecretPayload_def validateSecretNamespace_def PutSecret_def rbind_def
          split: if_splits sum.splits)
    then show ?thesis by (rule that [OF h])
  qed simp
  have p: "p' = p" using h(3) assms(4) by simp
  have "a' = a"
  proof -
    have "a_id a' = a_id a" using h(2) assms(9) by (rule trans)
    from alloc_id_unique [OF assms(7) h(1), unfolded this] alloc_id_unique [OF assms(7,8)]
    have "[a'] = [a]" by (rule trans [OF sym])
    then show ?thesis by simp
  qed
  then have ns: "sk_namespace p = SecretJobNamespace (a_job b)" using f(1) p assms(11) by simp
  have get: "Get s' (sk_namespace p) (sk_key p) =
      Inr (put_entry (lookup_entry s (sk_namespace p) (sk_key p)) y 0)"
    unfolding Get_Ok using f(4) p by (simp add: kv_simps)
  have res: "resolveAllocationFromRequest c g = Inr (a_job b, a_ip b)"
    using alloc_id_unique [OF assms(7,10)] assms(12,13) by (simp add: resolveAllocationFromRequest_def)
  have own: "sk_namespace p \<in> set (AllowedKVNamespacesWithUpstream c (a_job b) (a_ip b))"
    by (simp add: AllowedKVNamespacesWithUpstream_def AllowedKVNamespaces_def ns SecretJobNamespace_def)
  have sec: "IsSecretNamespace (sk_namespace p)" "sk_namespace p \<noteq> []"
    by (simp_all add: ns IsSecretNamespace_def SecretJobNamespace_def has_prefix_def)
  have "validateStoreKeyPayload c (p\<lparr>sk_value := v\<rparr>) (a_job b) (a_ip b) (rq_event g) False = Inr ()"
    using own sec(2) f(2) p by (simp add: validateStoreKeyPayload_def set_Intersection_single)
  moreover have "decode_body g = Inr (p\<lparr>sk_value := v\<rparr>)" by (simp add: decode_body_def assms(6))
  moreover have "dec y = Inr (sk_value p)" using assms(1) [OF f(3)] p by simp
  ultimately have "handleStoreKeyGet dec c s' g = (s', Inr (StoreKeyBody (p\<lparr>sk_value := v, sk_value := sk_value p\<rparr>)))"
    by (simp add: handleStoreKeyGet_def res get sec(1))
  moreover have "\<exists>y e. enc (sk_value p) = Inr y \<and> Get s' (sk_namespace p) (sk_key p) = Inr e \<and> e_value e = y"
    using f(3) p unfolding get by (simp add: put_entry_def split: option.split)
  moreover have "lookup_entry s' ns k = lookup_entry s ns k" if "(ns, k) \<noteq> (sk_namespace p, sk_key p)" for ns k
    using that f(4) p by (auto simp: kv_simps)
  ultimately show ?thesis by (simp add: assms(5))
qed

lemma api_secret_roundtrip_witness:
  "serve_store (\<lambda>x. Inr (rev x)) (\<lambda>x. Inr (rev x)) api_catalog RouteStoreKeys
     (putValue NewStore ''secrets/job/db'' ''k'' (rev '' top '') 0 False) (key_request GET ''db|w1'' ''secrets/job/db'' ''k'' []) =
   (putValue NewStore ''secrets/job/db'' ''k'' (rev '' top '') 0 False,
    Inr (StoreKeyBody \<lparr>sk_namespace = ''secrets/job/db'', sk_key = ''k'', sk_value = '' top ''\<rparr>))"
proof -
  have put: "serve_store (\<lambda>x. Inr (rev x)) (\<lambda>x. Inr (rev x)) api_catalog RouteStoreSecret NewStore
      (key_request PUT ''db|w1'' ''secrets/job/db'' ''k'' '' top '') =
      (putValue NewStore ''secrets/job/db'' ''k'' (rev '' top '') 0 False, Inr NoBody)"
    by code_simp
  show ?thesis
    by (rule api_secret_roundtrip [of "\<lambda>x. Inr (rev x)" "\<lambda>x. Inr (rev x)" api_catalog NewStore
        "key_request PUT ''db|w1'' ''secrets/job/db'' ''k'' '' top ''" _ _ _ "[]" "plain_alloc ''w1'' ''db''"
        "plain_alloc ''w1'' ''db''", OF _ put, THEN conjunct1])
      (simp_all add: key_request_def catalog_ok_def api_catalog_def empty_catalog_def plain_alloc_def)
qed

end
