(* ===== verification/Effects.thy ===== *)
theory Effects
  imports RuntimeApi
begin

text \<open>
  The setting in which deploy, the health checks and the job commands run. Their state is the catalog, the
  session store, the \<open>key_value\<close> table, the staging tree under the bucket's \<open>tmp/workers\<close>, and the list of
  what was done to the outside so far, the latest first. Everything outside (workers, scripts, templates,
  the clock, the scheduler) is a record of functions of that list, so that every theorem holds for every
  behaviour of it. A step is a function from state to a result and the next state; a Go function that
  returns an error keeps the effects it had before.
\<close>

section \<open>Events and state\<close>

record command_context =
  cc_job :: string
  cc_phase :: string
  cc_action :: string
  cc_cmd :: string

record script_run =
  sr_ip :: string
  sr_alloc :: string
  sr_job :: string
  sr_command :: string
  sr_event :: string
  sr_script :: string
  sr_env :: "string list"

datatype event =
    WorkerCommand string command_context "string list"
  | Rsync string "string list"
  | JobScript script_run
  | ProbeSSH string string
  | ProbeTCP string int
  | ProbeHTTP string string int string

record worker_data =
  wi_bucket :: string
  wi_id :: string
  wi_ip :: string
  wi_labels :: "string list"
  wi_seq :: int

record worker_job =
  wj_job :: string
  wj_disabled :: bool

text \<open>A path of the staging tree of one worker is a directory or a file. The two metadata files hold the
  value that is encoded as JSON.\<close>

datatype node = DirNode | FileNode string | WorkerFile worker_data | JobsFile "worker_job list"

type_synonym tree = "(string \<times> node) list"

record dstate =
  ds_cat :: catalog
  ds_store :: store
  ds_table :: kv_table
  ds_tmp :: "(string \<times> tree) list"
  ds_trace :: "event list"

section \<open>The outside\<close>

record allocation_data =
  ad_alloc :: string
  ad_job :: string
  ad_current :: string
  ad_new :: string
  ad_worker :: worker_data
  ad_bucket_path :: string
  ad_job_path :: string

record template_funcs =
  tf_get :: "string \<Rightarrow> string \<Rightarrow> error + string"
  tf_getOptional :: "string \<Rightarrow> string \<Rightarrow> error + string"
  tf_keys :: "string \<Rightarrow> error + string list"
  tf_getSecret :: "string \<Rightarrow> error + string"
  tf_int :: "string \<Rightarrow> error + int"

text \<open>
  \<open>wd_ok\<close>: whether the command, transfer, script or probe succeeds; \<open>wd_status\<close>: the status of an HTTP
  answer; \<open>wd_requests\<close>: the store requests a script makes while it runs; \<open>wd_order\<close>: in which order the
  goroutines of one parallel section take effect; \<open>wd_template\<close>: \<open>text/template\<close> on a function map, data
  and a template text; \<open>wd_prometheus\<close>: the files that the Prometheus assembly adds to a job directory;
  \<open>wd_workspace\<close>: the files of a job's workspace modules; \<open>wd_tool\<close>: whether a local tool is there.
\<close>

record world =
  wd_ok :: "event list \<Rightarrow> event \<Rightarrow> bool"
  wd_status :: "event list \<Rightarrow> event \<Rightarrow> int option"
  wd_requests :: "event list \<Rightarrow> event \<Rightarrow> (store_route \<times> store_key_payload request) list"
  wd_order :: "event list \<Rightarrow> string list \<Rightarrow> string list"
  wd_now :: "event list \<Rightarrow> int"
  wd_enc :: "string \<Rightarrow> error + string"
  wd_dec :: "string \<Rightarrow> error + string"
  wd_md5 :: "string \<Rightarrow> string"
  wd_template :: "template_funcs \<Rightarrow> allocation_data \<Rightarrow> string \<Rightarrow> error + string"
  wd_prometheus :: "catalog \<Rightarrow> string \<Rightarrow> error + (string \<times> string) list"
  wd_workspace :: "string \<Rightarrow> string list"
  wd_tool :: "string \<Rightarrow> bool"
  wd_embedded :: "string \<Rightarrow> string"

section \<open>Steps\<close>

type_synonym 'a act = "dstate \<Rightarrow> (error + 'a) \<times> dstate"

definition ret :: "'a \<Rightarrow> 'a act" where
  "ret x s = (Ok x, s)"

definition fail :: "error \<Rightarrow> 'a act" where
  "fail e s = (Err e, s)"

definition bnd :: "'a act \<Rightarrow> ('a \<Rightarrow> 'b act) \<Rightarrow> 'b act" where
  "bnd m f s = (case m s of (Inl e, s') \<Rightarrow> (Inl e, s') | (Inr x, s') \<Rightarrow> f x s')"

definition attempt :: "'a act \<Rightarrow> (error + 'a) act" where
  "attempt m s = (case m s of (r, s') \<Rightarrow> (Ok r, s'))"

definition pureR :: "error + 'a \<Rightarrow> 'a act" where
  "pureR r s = (r, s)"

definition query :: "(catalog \<Rightarrow> error + 'a) \<Rightarrow> 'a act" where
  "query q s = (q (ds_cat s), s)"

definition reads :: "(dstate \<Rightarrow> 'a) \<Rightarrow> 'a act" where
  "reads f s = (Ok (f s), s)"

definition change_cat :: "(catalog \<Rightarrow> catalog) \<Rightarrow> unit act" where
  "change_cat f s = (Ok (), s\<lparr>ds_cat := f (ds_cat s)\<rparr>)"

definition change_store :: "(store \<Rightarrow> error + store) \<Rightarrow> unit act" where
  "change_store f s =
     (case f (ds_store s) of Inl e \<Rightarrow> (Err e, s) | Inr st \<Rightarrow> (Ok (), s\<lparr>ds_store := st\<rparr>))"

definition change_tmp :: "string \<Rightarrow> (tree \<Rightarrow> error + tree) \<Rightarrow> unit act" where
  "change_tmp ip f s =
     (case f (inner_map (ds_tmp s) ip) of
        Inl e \<Rightarrow> (Err e, s)
      | Inr t \<Rightarrow> (Ok (), s\<lparr>ds_tmp := AList.update ip t (ds_tmp s)\<rparr>))"

fun dfor :: "('a \<Rightarrow> unit act) \<Rightarrow> 'a list \<Rightarrow> unit act" where
  "dfor f [] = ret ()"
| "dfor f (x # xs) = bnd (f x) (\<lambda>_. dfor f xs)"

fun dmap :: "('a \<Rightarrow> 'b act) \<Rightarrow> 'a list \<Rightarrow> 'b list act" where
  "dmap f [] = ret []"
| "dmap f (x # xs) = bnd (f x) (\<lambda>y. bnd (dmap f xs) (\<lambda>ys. ret (y # ys)))"

text \<open>All of them run; the errors are collected.\<close>

fun dall :: "('a \<Rightarrow> unit act) \<Rightarrow> 'a list \<Rightarrow> error list act" where
  "dall f [] = ret []"
| "dall f (x # xs) = bnd (attempt (f x)) (\<lambda>r. bnd (dall f xs) (\<lambda>es.
     ret (case r of Inl e \<Rightarrow> e # es | Inr _ \<Rightarrow> es)))"

text \<open>\<open>joinErrors\<close> (\<open>deploy/errors.go\<close>): the texts are joined, the wrapped errors are lost.\<close>

definition joinErrors :: "error list \<Rightarrow> error + unit" where
  "joinErrors es = (if es = [] then Ok () else Err ErrJoined)"

definition schedule :: "world \<Rightarrow> event list \<Rightarrow> string list \<Rightarrow> string list" where
  "schedule w t ips =
     (if sort_strings (wd_order w t ips) = sort_strings ips then wd_order w t ips else ips)"

text \<open>\<open>runParallelWorkers\<close> (\<open>deploy/parallel.go\<close>): the bound on the concurrency does not change what runs.\<close>

definition runParallelWorkers :: "world \<Rightarrow> string list \<Rightarrow> int \<Rightarrow> (string \<Rightarrow> unit act) \<Rightarrow> unit act" where
  "runParallelWorkers w ips parallelism fn =
     (if ips = [] then ret ()
      else bnd (reads (\<lambda>s. schedule w (ds_trace s) ips)) (\<lambda>order.
           bnd (dall fn order) (\<lambda>es. pureR (joinErrors es))))"

definition runWorkerBatches :: "world \<Rightarrow> string list \<Rightarrow> int \<Rightarrow> (string \<Rightarrow> unit act) \<Rightarrow> unit act" where
  "runWorkerBatches w ips batchSize fn =
     dfor (\<lambda>batch. runParallelWorkers w batch (int (length batch)) fn)
       (chunks (nat (if batchSize < 1 then 1 else batchSize)) ips)"

definition outside :: "world \<Rightarrow> event \<Rightarrow> error \<Rightarrow> unit act" where
  "outside w ev err s =
     ((if wd_ok w (ds_trace s) ev then Ok () else Err err), s\<lparr>ds_trace := ev # ds_trace s\<rparr>)"

definition runWorkerCommand :: "world \<Rightarrow> string \<Rightarrow> command_context \<Rightarrow> string list \<Rightarrow> unit act" where
  "runWorkerCommand w ip cx env = outside w (WorkerCommand ip cx env) ErrWorkerCommand"

definition runRsync :: "world \<Rightarrow> string \<Rightarrow> string list \<Rightarrow> unit act" where
  "runRsync w ip jobs = outside w (Rsync ip jobs) ErrRunCommand"

text \<open>\<open>rt.Exec\<close> of a job command script: the store requests it makes are served while it runs.\<close>

definition run_script :: "world \<Rightarrow> script_run \<Rightarrow> unit act" where
  "run_script w run s =
     (let ev = JobScript run; t = ds_trace s
      in ((if wd_ok w t ev then Ok () else Err ErrRunCommand),
          s\<lparr>ds_store := foldl (\<lambda>st (route, r). fst (serve_store (wd_enc w) (wd_dec w) (ds_cat s) route st r))
                (ds_store s) (wd_requests w t ev),
            ds_trace := ev # t\<rparr>))"

definition persistSession :: "world \<Rightarrow> unit act" where
  "persistSession w s =
     (case PersistToSessionTransaction (wd_now w (ds_trace s)) (Some (ds_store s)) (ds_table s) of
        Inl e \<Rightarrow> (Err e, s)
      | Inr (rows, st) \<Rightarrow>
          (Ok (), s\<lparr>ds_table := rows, ds_store := (case st of None \<Rightarrow> ds_store s | Some x \<Rightarrow> x)\<rparr>))"

definition persistStore :: "world \<Rightarrow> unit act" where
  "persistStore w s =
     (case PersistToTransaction (wd_now w (ds_trace s)) (ds_store s) (ds_table s) of
        (rows, st) \<Rightarrow> (Ok (), s\<lparr>ds_table := rows, ds_store := st\<rparr>))"

text \<open>\<open>kv.Initialize\<close>: the session store is loaded from the table.\<close>

definition load_session :: "unit act" where
  "load_session s =
     (case LoadFromTransaction (ds_table s) of Inl e \<Rightarrow> (Err e, s) | Inr st \<Rightarrow> (Ok (), s\<lparr>ds_store := st\<rparr>))"

section \<open>Simplification and what steps preserve\<close>

lemma run_simps [simp]:
  "ret x s = (Ok x, s)" "fail e s = (Err e, s)" "pureR r s = (r, s)"
  "query q s = (q (ds_cat s), s)" "reads f s = (Ok (f s), s)"
  "change_cat g s = (Ok (), s\<lparr>ds_cat := g (ds_cat s)\<rparr>)"
  by (simp_all add: ret_def fail_def pureR_def query_def reads_def change_cat_def)

lemma bnd_Inr: "m s = (Inr x, s') \<Longrightarrow> bnd m f s = f x s'"
  by (simp add: bnd_def)

lemma bnd_Inl: "m s = (Inl e, s') \<Longrightarrow> bnd m f s = (Inl e, s')"
  by (simp add: bnd_def)

lemma bnd_simps [simp]:
  "bnd (ret x) f = f x" "bnd (fail e) f = fail e" "bnd (reads g) f s = f (g s) s"
  by (auto simp: bnd_def fun_eq_iff)

lemma bnd_query: "bnd (query q) f s = (case q (ds_cat s) of Inl e \<Rightarrow> (Inl e, s) | Inr x \<Rightarrow> f x s)"
  by (simp add: bnd_def split: sum.split)

lemma bnd_Ok_E:
  assumes "bnd m f s = (Inr y, s'')"
  obtains x s' where "m s = (Inr x, s')" "f x s' = (Inr y, s'')"
proof (cases "m s")
  case (Pair r s')
  with assms show ?thesis by (cases r) (auto simp: bnd_def intro: that)
qed

lemma bnd_Err_E:
  assumes "bnd m f s = (Inl e, s'')"
  obtains "m s = (Inl e, s'')" | x s' where "m s = (Inr x, s')" "f x s' = (Inl e, s'')"
proof (cases "m s")
  case (Pair r s')
  with assms show ?thesis by (cases r) (auto simp: bnd_def intro: that)
qed

text \<open>
  What a step preserves is a relation between the states before and after it. Such a relation that is
  reflexive and transitive passes through every composition.
\<close>

definition holds :: "(dstate \<Rightarrow> dstate \<Rightarrow> bool) \<Rightarrow> 'a act \<Rightarrow> bool" where
  "holds R m \<longleftrightarrow> (\<forall>s. R s (snd (m s)))"

lemma holdsD: "holds R m \<Longrightarrow> m s = (r, s') \<Longrightarrow> R s s'"
  by (metis holds_def snd_conv)

locale step_relation =
  fixes R :: "dstate \<Rightarrow> dstate \<Rightarrow> bool"
  assumes refl: "R s s"
    and trans: "R s t \<Longrightarrow> R t u \<Longrightarrow> R s u"
begin

lemma ret: "holds R (ret x)" and fail: "holds R (fail e)" and pureR: "holds R (pureR r)"
  and query: "holds R (query q)" and reads: "holds R (reads f)"
  and pair: "holds R (Pair r)"
  by (simp_all add: holds_def refl)

lemma bnd:
  assumes "holds R m" and "\<And>x. holds R (f x)"
  shows "holds R (bnd m f)"
  unfolding holds_def
proof
  fix s
  obtain r t where m: "m s = (r, t)" by fastforce
  have t: "R s t" by (rule holdsD [OF assms(1) m])
  show "R s (snd (bnd m f s))"
  proof (cases r)
    case (Inl e)
    then show ?thesis using m t by (simp add: bnd_def)
  next
    case (Inr x)
    have "R t (snd (f x t))" using assms(2) [of x] by (simp add: holds_def)
    with t have "R s (snd (f x t))" by (rule trans)
    then show ?thesis using m Inr by (simp add: bnd_def)
  qed
qed

lemma attempt: "holds R m \<Longrightarrow> holds R (attempt m)"
proof -
  assume h: "holds R m"
  have "snd (attempt m s) = snd (m s)" for s by (simp add: attempt_def split: prod.split)
  with h show ?thesis by (simp add: holds_def)
qed

lemma dfor: "(\<And>x. x \<in> set xs \<Longrightarrow> holds R (f x)) \<Longrightarrow> holds R (dfor f xs)"
  by (induction xs) (simp_all add: ret bnd)

lemma dmap: "(\<And>x. x \<in> set xs \<Longrightarrow> holds R (f x)) \<Longrightarrow> holds R (dmap f xs)"
  by (induction xs) (simp_all add: ret bnd)

lemma dall: "(\<And>x. x \<in> set xs \<Longrightarrow> holds R (f x)) \<Longrightarrow> holds R (dall f xs)"
  by (induction xs) (simp_all add: ret bnd attempt)

lemma set_schedule: "set (schedule w t ips) = set ips"
  unfolding schedule_def by (metis set_sort_strings)

lemma runParallelWorkers:
  assumes "\<And>x. x \<in> set ips \<Longrightarrow> holds R (f x)"
  shows "holds R (runParallelWorkers w ips n f)"
proof (cases "ips = []")
  case False
  have "R s (snd (bnd (dall f (schedule w (ds_trace s) ips)) (\<lambda>es. pureR (joinErrors es)) s))" for s
  proof -
    have "holds R (bnd (dall f (schedule w (ds_trace s) ips)) (\<lambda>es. pureR (joinErrors es)))"
      by (intro bnd dall pureR) (use assms set_schedule in auto)
    then show ?thesis by (simp add: holds_def)
  qed
  then show ?thesis using False by (simp add: runParallelWorkers_def holds_def)
qed (simp add: runParallelWorkers_def ret)

lemma if_act: "holds R m \<Longrightarrow> holds R n \<Longrightarrow> holds R (if b then m else n)"
  by simp

lemmas rules = pair ret fail pureR query reads bnd attempt dfor dmap dall runParallelWorkers if_act

end

text \<open>The catalog is unchanged.\<close>

definition same_cat :: "dstate \<Rightarrow> dstate \<Rightarrow> bool" where
  "same_cat s s' \<longleftrightarrow> ds_cat s' = ds_cat s"

interpretation keep: step_relation same_cat
  by unfold_locales (auto simp: same_cat_def)

text \<open>Only events that satisfy \<open>P\<close> are added.\<close>

definition emits :: "(event \<Rightarrow> bool) \<Rightarrow> dstate \<Rightarrow> dstate \<Rightarrow> bool" where
  "emits P s s' \<longleftrightarrow> (\<exists>es. ds_trace s' = es @ ds_trace s \<and> (\<forall>e \<in> set es. P e))"

interpretation em: step_relation "emits P" for P
proof
  show "emits P s s" for s by (simp add: emits_def)
  show "emits P s u" if st: "emits P s t" "emits P t u" for s t u
  proof -
    obtain es fs where "ds_trace t = es @ ds_trace s" "\<forall>e \<in> set es. P e"
      "ds_trace u = fs @ ds_trace t" "\<forall>e \<in> set fs. P e" using st by (auto simp: emits_def)
    then have "ds_trace u = (fs @ es) @ ds_trace s \<and> (\<forall>e \<in> set (fs @ es). P e)" by auto
    then show ?thesis unfolding emits_def by blast
  qed
qed

lemma holds_outside: "holds same_cat (outside w ev err)" "P ev \<Longrightarrow> holds (emits P) (outside w ev err)"
  by (auto simp: holds_def same_cat_def emits_def outside_def)

lemma holds_script: "holds same_cat (run_script w run)" "P (JobScript run) \<Longrightarrow> holds (emits P) (run_script w run)"
  by (auto simp: holds_def same_cat_def emits_def run_script_def Let_def)

lemma holds_change:
  "holds same_cat (change_store f)" "holds (emits P) (change_store f)"
  "holds same_cat (change_tmp ip g)" "holds (emits P) (change_tmp ip g)"
  "holds (emits P) (change_cat h)"
  by (auto simp: holds_def same_cat_def emits_def change_store_def change_tmp_def split: sum.split)

lemma holds_persist:
  "holds same_cat (persistSession w)" "holds (emits P) (persistSession w)"
  "holds same_cat (persistStore w)" "holds (emits P) (persistStore w)"
  "holds same_cat load_session" "holds (emits P) load_session"
  by (auto simp: holds_def same_cat_def emits_def persistSession_def persistStore_def load_session_def
      split: sum.split prod.split)

lemmas keeps = keep.rules holds_outside(1) holds_script(1) holds_change(1,3) holds_persist(1,3,5)
lemmas emitting = em.rules holds_change(2,4,5) holds_persist(2,4,6)

end
