(* ===== verification/Staging.thy ===== *)
theory Staging
  imports Effects
begin

text \<open>
  The staging tree under \<open>tmp/workers\<close>: how deploy writes a worker's metadata and a job's files into it
  (\<open>deploy/prepare.go\<close>, \<open>templates.go\<close>, \<open>certs.go\<close>, \<open>worker_jobs.go\<close>, \<open>data/job.go\<close>), and how a job
  command's workspace is written into the same tree (\<open>jobcommand/workspace.go\<close>, \<open>runtime.go\<close>,
  \<open>host.go\<close>). Paths are slash-separated and clean, as the catalog holds them; permissions and failures
  of the local disk other than a missing directory are not modelled.
\<close>

section \<open>Paths and trees\<close>

definition path_join :: "string \<Rightarrow> string \<Rightarrow> string" where
  "path_join a b = a @ ''/'' @ b"

definition path_dir :: "string \<Rightarrow> string" where
  "path_dir p = (if CHR ''/'' \<in> set p then rev (tl (dropWhile (\<lambda>c. c \<noteq> CHR ''/'') (rev p))) else [])"

definition path_file :: "string \<Rightarrow> string" where
  "path_file p = rev (takeWhile (\<lambda>c. c \<noteq> CHR ''/'') (rev p))"

fun dir_prefixes :: "string \<Rightarrow> string \<Rightarrow> string list" where
  "dir_prefixes seen [] = [seen]"
| "dir_prefixes seen (c # p) =
     (if c = CHR ''/'' then seen # dir_prefixes (seen @ [c]) p else dir_prefixes (seen @ [c]) p)"

text \<open>\<open>os.MkdirAll\<close> and \<open>os.WriteFile\<close>; the worker's own directory is the empty path.\<close>

definition is_file :: "node option \<Rightarrow> bool" where
  "is_file n \<longleftrightarrow> (case n of None \<Rightarrow> False | Some DirNode \<Rightarrow> False | Some _ \<Rightarrow> True)"

definition mkdir_all :: "string \<Rightarrow> tree \<Rightarrow> error + tree" where
  "mkdir_all p t =
     (if list_ex (\<lambda>d. is_file (map_of t d)) (dir_prefixes [] p) then Err ErrUnexpectedError
      else Ok (foldl (\<lambda>t d. AList.update d DirNode t) t (dir_prefixes [] p)))"

definition write_node :: "string \<Rightarrow> node \<Rightarrow> tree \<Rightarrow> error + tree" where
  "write_node p n t =
     (if path_dir p \<noteq> [] \<and> map_of t (path_dir p) \<noteq> Some DirNode then Err ErrUnexpectedError
      else if map_of t p = Some DirNode then Err ErrUnexpectedError
      else Ok (AList.update p n t))"

definition write_file :: "string \<Rightarrow> string \<Rightarrow> tree \<Rightarrow> error + tree" where
  "write_file p content = write_node p (FileNode content)"

definition remove_all :: "string \<Rightarrow> tree \<Rightarrow> tree" where
  "remove_all p t = filter (\<lambda>(q, _). q \<noteq> p \<and> \<not> has_prefix (p @ ''/'') q) t"

text \<open>The files below a directory, by their path relative to it.\<close>

fun files_below :: "string \<Rightarrow> tree \<Rightarrow> (string \<times> string) list" where
  "files_below root [] = []"
| "files_below root ((q, n) # t) =
     (case n of
        FileNode content \<Rightarrow>
          if has_prefix (root @ ''/'') q then (drop (length root + 1) q, content) # files_below root t
          else files_below root t
      | _ \<Rightarrow> files_below root t)"

definition job_dir :: "string \<Rightarrow> string" where
  "job_dir job = path_join ''jobs'' job"

definition modules_dir :: "string \<Rightarrow> string" where
  "modules_dir job = path_join (job_dir job) ''_modules''"

section \<open>Worker metadata (deploy/prepare.go, worker_jobs.go)\<close>

definition getWorkerData :: "catalog \<Rightarrow> string \<Rightarrow> error + worker_data" where
  "getWorkerData c ip =
     rbind (GetBucketID c) (\<lambda>bucketID.
     rbind (GetWorkerID c ip) (\<lambda>workerID.
     rbind (GetBucketUpdateSeq c) (\<lambda>updateSeq.
       Ok \<lparr>wi_bucket = bucketID, wi_id = workerID, wi_ip = ip, wi_labels = GetWorkerLabels c workerID,
           wi_seq = updateSeq\<rparr>)))"

fun worker_jobs :: "catalog \<Rightarrow> string \<Rightarrow> string list \<Rightarrow> error + worker_job list" where
  "worker_jobs c ip [] = Ok []"
| "worker_jobs c ip (job # jobs) =
     rbind (IsAllocationRemoved c ip job) (\<lambda>removed.
       if removed then worker_jobs c ip jobs
       else rbind (IsAllocationDisabled c ip job) (\<lambda>disabled.
            rbind (worker_jobs c ip jobs) (\<lambda>rest. Ok (\<lparr>wj_job = job, wj_disabled = disabled\<rparr> # rest))))"

definition buildWorkerJobsList :: "catalog \<Rightarrow> string \<Rightarrow> error + worker_job list" where
  "buildWorkerJobsList c ip = worker_jobs c ip (GetAllocatedJobs c ip)"

definition prepareOneWorkerFiles :: "world \<Rightarrow> string \<Rightarrow> unit act" where
  "prepareOneWorkerFiles w ip =
     bnd (query (\<lambda>c. getWorkerData c ip)) (\<lambda>wd.
     bnd (change_tmp ip (write_node ''worker.json'' (WorkerFile wd))) (\<lambda>_.
     bnd (query (\<lambda>c. buildWorkerJobsList c ip)) (\<lambda>jobs.
     bnd (change_tmp ip (write_node ''jobs.json'' (JobsFile jobs))) (\<lambda>_.
     bnd (change_tmp ip (mkdir_all ''bin'')) (\<lambda>_.
     bnd (change_tmp ip (write_file ''bin/runner.py'' (wd_embedded w ''runner.py''))) (\<lambda>_.
     bnd (change_tmp ip (write_file ''bin/worker.py'' (wd_embedded w ''worker.py''))) (\<lambda>_.
     change_tmp ip (mkdir_all ''jobs''))))))))"

definition prepareWorkersFiles :: "world \<Rightarrow> string list \<Rightarrow> unit act" where
  "prepareWorkersFiles w workers = dfor (prepareOneWorkerFiles w) workers"

section \<open>Job files (data/job.go, data/prometheus.go)\<close>

definition job_file_rows :: "catalog \<Rightarrow> string \<Rightarrow> file_row list" where
  "job_file_rows c job = filter (\<lambda>f. job_id_of c job = Some (f_job_id f)) (t_job_files c)"

definition isPrometheusWorkspacePath :: "string \<Rightarrow> bool" where
  "isPrometheusWorkspacePath p \<longleftrightarrow> contains_sub ''/_prometheus/'' p"

definition copy_row :: "string \<Rightarrow> string \<Rightarrow> file_row \<Rightarrow> unit act" where
  "copy_row ip root f =
     (if isPrometheusWorkspacePath (f_path f) then ret ()
      else if f_isdir f then change_tmp ip (mkdir_all (path_join root (f_path f)))
      else change_tmp ip (write_file (path_join root (f_path f)) (f_content f)))"

text \<open>\<open>ORDER BY isdir DESC\<close>: the directories first.\<close>

definition CopyJobFiles :: "string \<Rightarrow> string \<Rightarrow> string \<Rightarrow> unit act" where
  "CopyJobFiles job ip root =
     bnd (reads (\<lambda>s. job_file_rows (ds_cat s) job)) (\<lambda>rows.
       dfor (copy_row ip root) (filter f_isdir rows @ filter (\<lambda>f. \<not> f_isdir f) rows))"

text \<open>SQL's \<open>LIKE\<close>: \<open>_\<close> is any character, \<open>%\<close> any text, and ASCII letters match without case.\<close>

definition ascii_lower :: "char \<Rightarrow> char" where
  "ascii_lower c = (let n = of_char c :: nat in if 65 \<le> n \<and> n \<le> 90 then char_of (n + 32) else c)"

fun sql_like :: "string \<Rightarrow> string \<Rightarrow> bool" where
  "sql_like [] s = (s = [])"
| "sql_like (p # ps) [] = (p = CHR ''%'' \<and> sql_like ps [])"
| "sql_like (p # ps) (c # s) =
     (if p = CHR ''%'' then sql_like ps (c # s) \<or> sql_like (p # ps) s
      else (p = CHR ''_'' \<or> ascii_lower p = ascii_lower c) \<and> sql_like ps s)"

definition command_module_rows :: "catalog \<Rightarrow> string \<Rightarrow> string \<Rightarrow> file_row list" where
  "command_module_rows c job command =
     filter (\<lambda>f. \<not> f_isdir f \<and> sql_like (job @ ''/_modules/'' @ command @ ''.%'') (f_path f)) (job_file_rows c job)"

definition CopyJobCommandModule :: "string \<Rightarrow> string \<Rightarrow> string \<Rightarrow> string \<Rightarrow> unit act" where
  "CopyJobCommandModule job command ip root =
     bnd (reads (\<lambda>s. command_module_rows (ds_cat s) job command)) (\<lambda>rows.
     bnd (dfor (\<lambda>f. bnd (change_tmp ip (mkdir_all (path_dir (path_join root (f_path f))))) (\<lambda>_.
                    change_tmp ip (write_file (path_join root (f_path f)) (f_content f)))) rows) (\<lambda>_.
       if rows = [] then fail ErrJobCommandFileNotFound else ret ()))"

definition JobHasPrometheusServerConfig :: "catalog \<Rightarrow> string \<Rightarrow> bool" where
  "JobHasPrometheusServerConfig c job \<longleftrightarrow>
     list_ex (\<lambda>f. \<not> f_isdir f \<and> f_path f \<in> {job @ ''/prometheus.yml'', job @ ''/prometheus.yml.tpl''})
       (job_file_rows c job)"

section \<open>Templates (deploy/templates.go, versions.go)\<close>

definition allocationVersionsForWorker :: "catalog \<Rightarrow> string \<Rightarrow> string \<Rightarrow> error + allocation_versions" where
  "allocationVersionsForWorker c job ip =
     rbind (GetAllocationID c ip job) (\<lambda>allocID. Ok (GetAllocationVersions c (allocation_namespace job) allocID))"

definition checked_namespace :: "string list \<Rightarrow> string \<Rightarrow> error + unit" where
  "checked_namespace allowed ns = (if Difference [ns] allowed \<noteq> [] then Err ErrTemplate else Ok ())"

definition template_value :: "world \<Rightarrow> store \<Rightarrow> string \<Rightarrow> string \<Rightarrow> error + string" where
  "template_value w st ns k =
     (if IsSecretNamespace ns then GetSecret (wd_dec w) st ns k
      else map_sum id e_value (Get st ns k))"

definition templateInt :: "string \<Rightarrow> error + int" where
  "templateInt v = (case atoi (trim_space v) of None \<Rightarrow> Err ErrTemplate | Some i \<Rightarrow> Ok i)"

text \<open>A panic in a function ends the execution of the template with an error.\<close>

definition templateFuncMap :: "world \<Rightarrow> store \<Rightarrow> string \<Rightarrow> string list \<Rightarrow> template_funcs" where
  "templateFuncMap w st job allowed =
     \<lparr>tf_get = (\<lambda>ns k. rbind (checked_namespace allowed ns) (\<lambda>_. template_value w st ns k)),
      tf_getOptional = (\<lambda>ns k. rbind (checked_namespace allowed ns) (\<lambda>_.
        case template_value w st ns k of
          Inl e \<Rightarrow> if e = ErrNotFound then Ok [] else Err e
        | Inr v \<Rightarrow> Ok v)),
      tf_keys = (\<lambda>ns. rbind (checked_namespace allowed ns) (\<lambda>_. Ok (GetKeys st ns))),
      tf_getSecret = (\<lambda>k. GetSecret (wd_dec w) st (SecretJobNamespace job) k),
      tf_int = templateInt\<rparr>"

definition renderTemplate :: "world \<Rightarrow> string \<Rightarrow> string \<Rightarrow> template_funcs \<Rightarrow> allocation_data \<Rightarrow> string \<times> string \<Rightarrow> unit act" where
  "renderTemplate w ip dir funcs d tpl =
     (case tpl of (path, content) \<Rightarrow>
        bnd (pureR (wd_template w funcs d content)) (\<lambda>out.
          change_tmp ip (write_file (path_join dir (trim_suffix ''.tpl'' path)) out)))"

definition is_template :: "string \<Rightarrow> bool" where
  "is_template p \<longleftrightarrow> has_suffix ''.tpl'' (path_file p)"

definition transpile :: "world \<Rightarrow> string \<Rightarrow> string \<Rightarrow> unit act" where
  "transpile w job ip =
     bnd (reads (\<lambda>s. inner_map (ds_tmp s) ip)) (\<lambda>t.
     if map_of t (job_dir job) \<noteq> Some DirNode then fail ErrUnexpectedError
     else let tpls = filter (\<lambda>(p, _). is_template p)
                (sort_by (\<lambda>x y. string_le (fst x) (fst y)) (files_below (job_dir job) t))
          in if tpls = [] then ret ()
             else bnd (reads (\<lambda>s. AllowedKVNamespacesWithUpstream (ds_cat s) job ip)) (\<lambda>allowed.
                  bnd (reads (\<lambda>s. templateFuncMap w (ds_store s) job allowed)) (\<lambda>funcs.
                  bnd (query (\<lambda>c. getWorkerData c ip)) (\<lambda>wd.
                  bnd (query (\<lambda>c. GetAllocationID c ip job)) (\<lambda>allocID.
                  bnd (query (\<lambda>c. allocationVersionsForWorker c job ip)) (\<lambda>v.
                  bnd (query GetBucketID) (\<lambda>bucketID.
                    dfor (renderTemplate w ip (job_dir job) funcs
                      \<lparr>ad_alloc = allocID, ad_job = job, ad_current = av_current v, ad_new = av_new v,
                       ad_worker = wd, ad_bucket_path = ''/opt/worker/'' @ bucketID,
                       ad_job_path = ''/opt/worker/'' @ bucketID @ ''/jobs/'' @ job\<rparr>) tpls)))))))"

section \<open>Certificates (deploy/certs.go)\<close>

definition worker_kv_namespace :: "string \<Rightarrow> string \<Rightarrow> string" where
  "worker_kv_namespace job ip = ''maand/job/'' @ job @ ''/worker/'' @ ip"

definition job_cert_names :: "catalog \<Rightarrow> string \<Rightarrow> string list" where
  "job_cert_names c job = map (\<lambda>(_, name, _). name) (filter (\<lambda>(jid, _). job_id_of c job = Some jid) (t_job_certs c))"

definition write_key :: "string \<Rightarrow> string \<Rightarrow> string \<Rightarrow> string \<Rightarrow> unit act" where
  "write_key ip ns k dest =
     bnd (reads (\<lambda>s. Get (ds_store s) ns k)) (\<lambda>r.
     bnd (pureR r) (\<lambda>e. change_tmp ip (write_file dest (e_value e))))"

definition updateCerts :: "string \<Rightarrow> string \<Rightarrow> unit act" where
  "updateCerts job ip =
     bnd (reads (\<lambda>s. job_cert_names (ds_cat s) job)) (\<lambda>names.
     let certs = path_join (job_dir job) ''certs''; ns = worker_kv_namespace job ip
     in bnd (change_tmp ip (mkdir_all certs)) (\<lambda>_.
        bnd (dfor (\<lambda>name.
               bnd (write_key ip ns (''certs/'' @ name @ ''.crt'') (path_join certs (name @ ''.crt''))) (\<lambda>_.
               write_key ip ns (''certs/'' @ name @ ''.key'') (path_join certs (name @ ''.key'')))) names) (\<lambda>_.
        write_key ip ''maand/worker'' ''certs/ca.crt'' (path_join certs ''ca.crt''))))"

section \<open>Staging a job (deploy/prepare.go)\<close>

definition write_embedded :: "world \<Rightarrow> string \<Rightarrow> string \<Rightarrow> unit act" where
  "write_embedded w ip dir =
     bnd (change_tmp ip (write_file (path_join dir ''maand.py'') (wd_embedded w ''maand.py''))) (\<lambda>_.
     change_tmp ip (write_file (path_join dir ''maand.ts'') (wd_embedded w ''maand.ts'')))"

definition prepareJobOnWorker :: "world \<Rightarrow> string \<Rightarrow> string \<Rightarrow> unit act" where
  "prepareJobOnWorker w job ip =
     bnd (CopyJobFiles job ip ''jobs'') (\<lambda>_.
     bnd (reads (\<lambda>s. map_of (inner_map (ds_tmp s) ip) (modules_dir job))) (\<lambda>m.
     bnd (if m \<noteq> None then write_embedded w ip (modules_dir job) else ret ()) (\<lambda>_.
     bnd (transpile w job ip) (\<lambda>_.
     bnd (reads (\<lambda>s. JobHasPrometheusServerConfig (ds_cat s) job)) (\<lambda>prom.
     bnd (if prom then
            bnd (query (\<lambda>c. wd_prometheus w c ip)) (\<lambda>files.
            dfor (\<lambda>(p, content).
              bnd (change_tmp ip (mkdir_all (path_dir (path_join (job_dir job) p)))) (\<lambda>_.
              change_tmp ip (write_file (path_join (job_dir job) p) content))) files)
          else ret ()) (\<lambda>_.
     updateCerts job ip))))))"

definition prepareJobsFiles :: "world \<Rightarrow> string list \<Rightarrow> unit act" where
  "prepareJobsFiles w jobs =
     dfor (\<lambda>job. bnd (reads (\<lambda>s. GetNonRemovedAllocations (ds_cat s) job)) (\<lambda>workers.
       dfor (prepareJobOnWorker w job) workers)) jobs"

section \<open>The workspace of a job command (jobcommand/workspace.go)\<close>

definition syncWorkerCertificates :: "string \<Rightarrow> string \<Rightarrow> string \<Rightarrow> unit act" where
  "syncWorkerCertificates job ip dir =
     bnd (reads (\<lambda>s. filter (has_prefix ''certs/'') (GetKeys (ds_store s) (worker_kv_namespace job ip)))) (\<lambda>keys.
     bnd (dfor (\<lambda>k. write_key ip (worker_kv_namespace job ip) k (path_join dir k)) keys) (\<lambda>_.
     bnd (reads (\<lambda>s. map_of (inner_map (ds_tmp s) ip) (path_join dir ''certs/ca.crt''))) (\<lambda>ca.
       if ca \<noteq> None then ret ()
       else write_key ip ''maand/worker'' ''certs/ca.crt'' (path_join dir ''certs/ca.crt''))))"

definition writeCommandSupportFiles :: "world \<Rightarrow> string \<Rightarrow> string \<Rightarrow> string \<Rightarrow> unit act" where
  "writeCommandSupportFiles w job ip dir =
     bnd (change_tmp ip (mkdir_all dir)) (\<lambda>_.
     bnd (write_embedded w ip dir) (\<lambda>_.
     bnd (change_tmp ip (mkdir_all (path_join dir ''certs''))) (\<lambda>_.
     syncWorkerCertificates job ip dir)))"

definition prepareOneWorkerWorkspace :: "world \<Rightarrow> string \<Rightarrow> string \<Rightarrow> unit act" where
  "prepareOneWorkerWorkspace w job ip =
     bnd (CopyJobFiles job ip ''jobs'') (\<lambda>_. writeCommandSupportFiles w job ip (modules_dir job))"

definition prepareHealthWorkerWorkspace :: "world \<Rightarrow> string \<Rightarrow> string \<Rightarrow> string \<Rightarrow> unit act" where
  "prepareHealthWorkerWorkspace w job command ip =
     bnd (CopyJobCommandModule job command ip ''jobs'') (\<lambda>_.
     writeCommandSupportFiles w job ip (modules_dir job))"

definition prepareWorkerWorkspaces :: "world \<Rightarrow> string \<Rightarrow> string list \<Rightarrow> string \<Rightarrow> string \<Rightarrow> unit act" where
  "prepareWorkerWorkspaces w job ips event command =
     dfor (\<lambda>ip. if event = ''health_check'' then prepareHealthWorkerWorkspace w job command ip
                else prepareOneWorkerWorkspace w job ip) ips"

section \<open>Frame\<close>

lemma keeps_staging [intro]:
  "holds same_cat (prepareOneWorkerFiles w ip)" "holds same_cat (prepareWorkersFiles w ips)"
  "holds same_cat (CopyJobFiles job ip root)" "holds same_cat (CopyJobCommandModule job cmd ip root)"
  "holds same_cat (write_key ip ns k d)" "holds same_cat (updateCerts job ip)"
  "holds same_cat (write_embedded w ip d)"
  by (auto simp: prepareOneWorkerFiles_def prepareWorkersFiles_def CopyJobFiles_def CopyJobCommandModule_def
      copy_row_def write_key_def updateCerts_def write_embedded_def Let_def intro!: keeps)

lemma emits_staging [intro]:
  "holds (emits P) (prepareOneWorkerFiles w ip)" "holds (emits P) (prepareWorkersFiles w ips)"
  "holds (emits P) (CopyJobFiles job ip root)" "holds (emits P) (CopyJobCommandModule job cmd ip root)"
  "holds (emits P) (write_key ip ns k d)" "holds (emits P) (updateCerts job ip)"
  "holds (emits P) (write_embedded w ip d)"
  by (auto simp: prepareOneWorkerFiles_def prepareWorkersFiles_def CopyJobFiles_def CopyJobCommandModule_def
      copy_row_def write_key_def updateCerts_def write_embedded_def Let_def intro!: emitting)

lemma keeps_transpile [intro]: "holds same_cat (transpile w job ip)"
  by (auto simp: transpile_def renderTemplate_def Let_def split: prod.split intro!: keeps)

lemma emits_transpile [intro]: "holds (emits P) (transpile w job ip)"
  by (auto simp: transpile_def renderTemplate_def Let_def split: prod.split intro!: emitting)

lemma keeps_prepareJobs [intro]: "holds same_cat (prepareJobsFiles w jobs)"
  by (auto simp: prepareJobsFiles_def prepareJobOnWorker_def split: prod.split intro!: keeps)

lemma emits_prepareJobs [intro]: "holds (emits P) (prepareJobsFiles w jobs)"
  by (auto simp: prepareJobsFiles_def prepareJobOnWorker_def split: prod.split intro!: emitting)

lemma keeps_workspaces [intro]: "holds same_cat (prepareWorkerWorkspaces w job ips event cmd)"
  by (auto simp: prepareWorkerWorkspaces_def prepareOneWorkerWorkspace_def prepareHealthWorkerWorkspace_def
      writeCommandSupportFiles_def syncWorkerCertificates_def intro!: keeps)

lemma emits_workspaces [intro]: "holds (emits P) (prepareWorkerWorkspaces w job ips event cmd)"
  by (auto simp: prepareWorkerWorkspaces_def prepareOneWorkerWorkspace_def prepareHealthWorkerWorkspace_def
      writeCommandSupportFiles_def syncWorkerCertificates_def intro!: emitting)

end
