(* ===== verification/JobCommands.thy ===== *)
theory JobCommands
  imports Staging
begin

text \<open>
  Running job commands (\<open>jobcommand/execute.go\<close>, \<open>run.go\<close>, \<open>runtime.go\<close>, \<open>python.go\<close>, \<open>host.go\<close>,
  \<open>allocation_env.go\<close>). A command runs on each of the given allocations; all of them run even when some
  fail.
\<close>

section \<open>Which script runs (jobcommand/runtime.go, python.go, host.go)\<close>

datatype script_runtime = RuntimePython | RuntimeBun

definition script_candidates :: "string \<Rightarrow> (string \<times> script_runtime) list" where
  "script_candidates command =
     [(command @ ''.py'', RuntimePython), (command @ ''.ts'', RuntimeBun), (command @ ''.js'', RuntimeBun)]"

text \<open>\<open>there\<close> is \<open>os.Stat\<close> in the modules directory.\<close>

definition ResolveCommandScript :: "(string \<Rightarrow> bool) \<Rightarrow> string \<Rightarrow> error + (script_runtime \<times> string)" where
  "ResolveCommandScript there command =
     (case filter (\<lambda>(name, _). there name) (script_candidates command) of
        [] \<Rightarrow> Err ErrJobCommandFileNotFound
      | [(name, runtime)] \<Rightarrow> Ok (runtime, name)
      | _ \<Rightarrow> Err ErrInvalidJobCommandConfiguration)"

definition ResolvePythonExecutable :: "world \<Rightarrow> string \<Rightarrow> string" where
  "ResolvePythonExecutable w job =
     (case filter (\<lambda>p. p \<in> set (wd_workspace w job))
         [''.venv/bin/python3'', ''.venv/bin/python'', ''venv/bin/python3'', ''venv/bin/python''] of
        [] \<Rightarrow> ''python3''
      | p # _ \<Rightarrow> ''workspace/jobs/'' @ job @ ''/_modules/'' @ p)"

definition validateHostRuntime :: "world \<Rightarrow> string \<Rightarrow> string \<Rightarrow> error + unit" where
  "validateHostRuntime w job command =
     rbind (ResolveCommandScript (\<lambda>n. n \<in> set (wd_workspace w job)) command) (\<lambda>(runtime, _).
       if wd_tool w (case runtime of RuntimeBun \<Rightarrow> ''bun'' | RuntimePython \<Rightarrow> ResolvePythonExecutable w job)
       then Ok () else Err ErrTool)"

section \<open>The environment of a command (jobcommand/allocation_env.go, run.go)\<close>

fun index_of :: "string \<Rightarrow> string list \<Rightarrow> int \<Rightarrow> int option" where
  "index_of x [] n = None"
| "index_of x (y # ys) n = (if y = x then Some n else index_of x ys (n + 1))"

definition allocationIndexForJobCommand :: "catalog \<Rightarrow> store \<Rightarrow> string \<Rightarrow> string \<Rightarrow> error + string" where
  "allocationIndexForJobCommand c st job ip =
     (let listed = (case index_of ip (GetNonRemovedAllocationsOrdered c job) 0 of
                      None \<Rightarrow> Err ErrUnexpectedError | Some n \<Rightarrow> Ok (itoa n))
      in case Get st (worker_kv_namespace job ip) (job @ ''_allocation_index'') of
           Inr e \<Rightarrow> if e_value e \<noteq> [] then Ok (e_value e) else listed
         | Inl err \<Rightarrow> if err = ErrNotFound then listed else Err err)"

definition version_env :: "allocation_versions \<Rightarrow> string list" where
  "version_env v = [''CURRENT_VERSION='' @ av_current v, ''NEW_VERSION='' @ av_new v]"

definition allocationVersionEnv :: "catalog \<Rightarrow> string \<Rightarrow> string \<Rightarrow> error + string list" where
  "allocationVersionEnv c job ip =
     rbind (GetAllocationID c ip job) (\<lambda>allocID.
       Ok (version_env (GetAllocationVersions c (allocation_namespace job) allocID)))"

text \<open>\<open>buildCommandEnv\<close> after the environment of the maand process itself.\<close>

definition buildCommandEnv ::
  "string \<Rightarrow> string \<Rightarrow> string \<Rightarrow> string \<Rightarrow> bool \<Rightarrow> string \<Rightarrow> string \<Rightarrow> string list \<Rightarrow> string list" where
  "buildCommandEnv allocID job ip idx disabled command event extraEnv =
     extraEnv @ [''ALLOCATION_ID='' @ allocID, ''ALLOCATION_IP='' @ ip, ''ALLOCATION_INDEX='' @ idx,
       ''DISABLED='' @ (if disabled then ''1'' else ''0''), ''JOB='' @ job, ''EVENT='' @ event,
       ''COMMAND='' @ command, ''JOB_COMMAND_API_HOST=127.0.0.1'']"

section \<open>Running a command (jobcommand/execute.go)\<close>

definition runCommandOnWorker ::
  "world \<Rightarrow> string \<Rightarrow> string \<Rightarrow> string \<Rightarrow> string \<Rightarrow> bool \<Rightarrow> string \<Rightarrow> string \<Rightarrow> string list \<Rightarrow> unit act" where
  "runCommandOnWorker w allocID job ip idx disabled command event extraEnv =
     bnd (reads (\<lambda>s. inner_map (ds_tmp s) ip)) (\<lambda>t.
     bnd (pureR (ResolveCommandScript (\<lambda>n. map_of t (path_join (modules_dir job) n) \<noteq> None) command)) (\<lambda>(runtime, script).
     run_script w \<lparr>sr_ip = ip, sr_alloc = allocID, sr_job = job, sr_command = command, sr_event = event,
       sr_script = script, sr_env = buildCommandEnv allocID job ip idx disabled command event extraEnv\<rparr>))"

text \<open>One goroutine of \<open>runCommandOnWorkers\<close>.\<close>

definition command_on_allocation ::
  "world \<Rightarrow> string \<Rightarrow> string \<Rightarrow> string \<Rightarrow> string list \<Rightarrow> string \<times> string \<times> bool \<Rightarrow> unit act" where
  "command_on_allocation w job command event extraEnv alloc =
     (case alloc of (allocID, ip, disabled) \<Rightarrow>
        bnd (reads (\<lambda>s. allocationIndexForJobCommand (ds_cat s) (ds_store s) job ip)) (\<lambda>i.
        bnd (pureR i) (\<lambda>idx.
        bnd (query (\<lambda>c. allocationVersionEnv c job ip)) (\<lambda>versionEnv.
        runCommandOnWorker w allocID job ip idx disabled command event (extraEnv @ versionEnv)))))"

definition load_allocation :: "string \<Rightarrow> string \<Rightarrow> (string \<times> string \<times> bool) act" where
  "load_allocation job ip =
     bnd (query (\<lambda>c. IsAllocationDisabled c ip job)) (\<lambda>disabled.
     bnd (query (\<lambda>c. GetAllocationID c ip job)) (\<lambda>allocID. ret (allocID, ip, disabled)))"

definition runCommandOnWorkers ::
  "world \<Rightarrow> string \<Rightarrow> string \<Rightarrow> string \<Rightarrow> string list \<Rightarrow> string list \<Rightarrow> unit act" where
  "runCommandOnWorkers w job command event ips extraEnv =
     bnd (dmap (load_allocation job) ips) (\<lambda>allocs.
     bnd (reads (\<lambda>s. schedule w (ds_trace s) ips)) (\<lambda>order.
     bnd (dall (\<lambda>ip. case find (\<lambda>(_, i, _). i = ip) allocs of
                       None \<Rightarrow> ret ()
                     | Some a \<Rightarrow> command_on_allocation w job command event extraEnv a) order) (\<lambda>failures.
     if failures = [] then ret () else fail ErrJobCommandFailed)))"

definition commandAllowed :: "string list \<Rightarrow> string \<Rightarrow> bool" where
  "commandAllowed allowed command \<longleftrightarrow> command \<in> set allowed"

definition JobCommandOnWorkers ::
  "world \<Rightarrow> string \<Rightarrow> string \<Rightarrow> string \<Rightarrow> string list \<Rightarrow> string list \<Rightarrow> unit act" where
  "JobCommandOnWorkers w job command event ips0 extraEnv =
     bnd (reads (\<lambda>s. GetJobCommands (ds_cat s) job event)) (\<lambda>allowed.
     if \<not> commandAllowed allowed command then fail ErrCommandNotFound
     else if ips0 = [] then ret ()
     else let ips = Unique ips0
          in bnd (pureR (validateHostRuntime w job command)) (\<lambda>_.
             bnd (prepareWorkerWorkspaces w job ips event command) (\<lambda>_.
             runCommandOnWorkers w job command event ips extraEnv)))"

definition JobCommand :: "world \<Rightarrow> string \<Rightarrow> string \<Rightarrow> string \<Rightarrow> string list \<Rightarrow> unit act" where
  "JobCommand w job command event extraEnv =
     bnd (query (\<lambda>c. GetActiveAllocations c job)) (\<lambda>ips. JobCommandOnWorkers w job command event ips extraEnv)"

section \<open>The command line (jobcommand/execute.go)\<close>

definition resolveJobsForCommand :: "catalog \<Rightarrow> string \<Rightarrow> string \<Rightarrow> string \<Rightarrow> error + string list" where
  "resolveJobsForCommand c job command event =
     (if job \<noteq> [] then
        (if commandAllowed (GetJobCommands c job event) command then Ok [job] else Err ErrCommandNotFound)
      else let jobs = GetJobsWithCommand c command event
           in if jobs = [] then Err ErrCommandNotFound else Ok jobs)"

text \<open>The body of \<open>Execute\<close> between opening and committing the transaction.\<close>

definition jobcommandExecute :: "world \<Rightarrow> string \<Rightarrow> string \<Rightarrow> string \<Rightarrow> string list \<Rightarrow> error list act" where
  "jobcommandExecute w command job event extraEnv =
     bnd (query GetBucketID) (\<lambda>_.
     bnd (query (\<lambda>c. resolveJobsForCommand c job command event)) (\<lambda>jobs.
     bnd (dall (\<lambda>j. JobCommand w j command event extraEnv) jobs) (\<lambda>errs.
     bnd (persistSession w) (\<lambda>_. ret errs))))"

section \<open>Frame and events\<close>

lemma keeps_JobCommandOnWorkers [intro]: "holds same_cat (JobCommandOnWorkers w job cmd event ips env)"
  by (auto simp: JobCommandOnWorkers_def runCommandOnWorkers_def load_allocation_def command_on_allocation_def
      runCommandOnWorker_def Let_def split: prod.split option.split intro!: keeps)

lemma keeps_JobCommand [intro]: "holds same_cat (JobCommand w job cmd event env)"
  by (auto simp: JobCommand_def intro!: keeps)

text \<open>The only events of a job command are runs of its script, on the given workers.\<close>

definition is_script :: "string \<Rightarrow> string \<Rightarrow> string set \<Rightarrow> event \<Rightarrow> bool" where
  "is_script job event ips e \<longleftrightarrow>
     (case e of JobScript r \<Rightarrow> sr_job r = job \<and> sr_event r = event \<and> sr_ip r \<in> ips | _ \<Rightarrow> False)"

lemma holds_bnd_result:
  assumes "holds (emits P) m" and "\<And>s x t. m s = (Inr x, t) \<Longrightarrow> Q x" and "\<And>x. Q x \<Longrightarrow> holds (emits P) (f x)"
  shows "holds (emits P) (bnd m f)"
  unfolding holds_def
proof
  fix s
  obtain r t where m: "m s = (r, t)" by fastforce
  have t: "emits P s t" by (rule holdsD [OF assms(1) m])
  show "emits P s (snd (bnd m f s))"
  proof (cases r)
    case (Inr x)
    then have "holds (emits P) (f x)" using assms(2) [of s x t] m assms(3) by simp
    then have "emits P t (snd (f x t))" by (simp add: holds_def)
    with t have "emits P s (snd (f x t))" by (rule em.trans)
    then show ?thesis using m Inr by (simp add: bnd_def)
  qed (use m t in \<open>simp add: bnd_def\<close>)
qed

lemma find_in_set: "find Q xs = Some x \<Longrightarrow> x \<in> set xs"
  by (metis find_Some_iff nth_mem)

lemma dmap_load:
  assumes "dmap (load_allocation job) ips s = (Inr as, t)" and "a \<in> set as"
  shows "fst (snd a) \<in> set ips"
  using assms
proof (induction ips arbitrary: s as t)
  case (Cons ip ips)
  from Cons.prems(1) obtain x s1 ys s2 where x: "load_allocation job ip s = (Inr x, s1)"
    and ys: "dmap (load_allocation job) ips s1 = (Inr ys, s2)" and as: "as = x # ys"
    by (auto elim!: bnd_Ok_E)
  have "fst (snd x) = ip" using x by (auto simp: load_allocation_def elim!: bnd_Ok_E)
  with Cons.IH [OF ys] Cons.prems(2) as show ?case by auto
qed simp

lemma emits_runCommandOnWorkers:
  assumes "\<And>e. is_script job event (set ips) e \<Longrightarrow> P e"
  shows "holds (emits P) (runCommandOnWorkers w job cmd event ips env)"
  unfolding runCommandOnWorkers_def
proof (rule holds_bnd_result [where Q = "\<lambda>as. \<forall>a \<in> set as. fst (snd a) \<in> set ips"])
  show "holds (emits P) (dmap (load_allocation job) ips)"
    by (auto simp: load_allocation_def intro!: emitting)
  show "\<forall>a \<in> set as. fst (snd a) \<in> set ips" if "dmap (load_allocation job) ips s = (Inr as, t)" for s as t
    using dmap_load [OF that] by blast
  fix as :: "(string \<times> string \<times> bool) list" assume as: "\<forall>a \<in> set as. fst (snd a) \<in> set ips"
  have one: "holds (emits P) (command_on_allocation w job cmd event env a)" if "a \<in> set as" for a
  proof -
    have "P (JobScript \<lparr>sr_ip = fst (snd a), sr_alloc = x, sr_job = job, sr_command = cmd, sr_event = event,
        sr_script = y, sr_env = z\<rparr>)" for x y z
      by (rule assms) (use as that in \<open>simp add: is_script_def\<close>)
    then show ?thesis
      by (auto simp: command_on_allocation_def runCommandOnWorker_def intro!: emitting holds_script(2)
          split: prod.split)
  qed
  show "holds (emits P) (bnd (reads (\<lambda>s. schedule w (ds_trace s) ips)) (\<lambda>order.
     bnd (dall (\<lambda>ip. case find (\<lambda>(_, i, _). i = ip) as of
                       None \<Rightarrow> ret ()
                     | Some a \<Rightarrow> command_on_allocation w job cmd event env a) order) (\<lambda>failures.
     if failures = [] then ret () else fail ErrJobCommandFailed)))"
    by (auto intro!: emitting one dest: find_in_set split: option.split)
qed

lemma emits_JobCommandOnWorkers:
  assumes "\<And>e. is_script job event (set ips) e \<Longrightarrow> P e"
  shows "holds (emits P) (JobCommandOnWorkers w job cmd event ips env)"
proof -
  have "holds (emits P) (runCommandOnWorkers w job cmd event (Unique ips) env)"
    by (rule emits_runCommandOnWorkers) (use assms in simp)
  then show ?thesis
    by (auto simp: JobCommandOnWorkers_def Let_def intro!: emitting)
qed

lemma emits_JobCommand:
  assumes "\<And>e. is_script job event UNIV e \<Longrightarrow> P e"
  shows "holds (emits P) (JobCommand w job cmd event env)"
proof -
  have "holds (emits P) (JobCommandOnWorkers w job cmd event ips env)" for ips
    by (rule emits_JobCommandOnWorkers) (use assms in \<open>auto simp: is_script_def split: event.splits\<close>)
  then show ?thesis by (auto simp: JobCommand_def intro!: emitting)
qed

end
