(* ===== verification/HealthCheck.thy ===== *)
theory HealthCheck
  imports JobCommands
begin

text \<open>
  Health checks (\<open>healthcheck/execute.go\<close>, \<open>probes.go\<close>, \<open>workers.go\<close>): the probes of a job's manifest on
  every active allocation, then its \<open>health_check\<close> commands, repeated until they pass or the attempts are
  used up. The pauses between attempts are not modelled; the concurrent probes of one round run in the
  order of the list, since they only read.
\<close>

section \<open>Probes (healthcheck/probes.go)\<close>

definition probeTimeout :: "health_check option \<Rightarrow> int" where
  "probeTimeout spec =
     (case spec of None \<Rightarrow> 5 | Some sp \<Rightarrow> if hc_timeout_seconds sp \<le> 0 then 5 else hc_timeout_seconds sp)"

text \<open>Attempts and the pause in seconds.\<close>

definition waitConfig :: "health_check option \<Rightarrow> int \<times> int" where
  "waitConfig spec =
     (case spec of
        None \<Rightarrow> (30, 1)
      | Some sp \<Rightarrow>
          (case hc_wait sp of
             None \<Rightarrow> (30, 1)
           | Some wt \<Rightarrow> (if hw_attempts wt > 0 then hw_attempts wt else 30,
                         if hw_interval_seconds wt > 0 then hw_interval_seconds wt else 1)))"

definition probeSSH :: "world \<Rightarrow> string \<Rightarrow> string \<Rightarrow> unit act" where
  "probeSSH w ip command =
     (if trim_space command = [] then fail ErrUnexpectedError
      else outside w (ProbeSSH ip (trim_space command)) ErrWorkerCommand)"

definition probeTCP :: "world \<Rightarrow> string \<Rightarrow> int \<Rightarrow> unit act" where
  "probeTCP w ip port = outside w (ProbeTCP ip port) ErrUnexpectedError"

definition probeHTTP :: "world \<Rightarrow> string \<Rightarrow> int \<Rightarrow> health_probe \<Rightarrow> unit act" where
  "probeHTTP w ip port p s =
     (let lowered = to_lower (trim_space (hp_scheme p));
          scheme = (if lowered = [] then ''http'' else lowered);
          path = (if hp_path p = [] then ''/'' else hp_path p);
          expect = (if hp_expect_status p = 0 then 200 else hp_expect_status p);
          ev = ProbeHTTP ip scheme port path
      in (case wd_status w (ds_trace s) ev of
            None \<Rightarrow> Err ErrUnexpectedError
          | Some status \<Rightarrow> if status \<noteq> expect then Err ErrUnexpectedError else Ok (),
          s\<lparr>ds_trace := ev # ds_trace s\<rparr>))"

definition runProbe :: "world \<Rightarrow> string \<Rightarrow> string \<Rightarrow> health_probe \<Rightarrow> unit act" where
  "runProbe w job ip p =
     (let kind = to_lower (trim_space (hp_type p))
      in if kind = ''ssh'' then probeSSH w ip (hp_command p)
         else if kind = ''tcp'' \<or> kind = ''http'' then
           bnd (query (\<lambda>c. GetJobPortNumber c job (trim_space (hp_port p)))) (\<lambda>port.
             if equal_fold (trim_space (hp_type p)) ''tcp'' then probeTCP w ip port
             else probeHTTP w ip port p)
         else fail ErrUnexpectedError)"

text \<open>All probes run; the first error of the channel is returned.\<close>

definition first_error :: "error list \<Rightarrow> error + unit" where
  "first_error es = (case es of [] \<Rightarrow> Ok () | e # _ \<Rightarrow> Err e)"

definition runManifestHealthChecks :: "world \<Rightarrow> string \<Rightarrow> health_check \<Rightarrow> unit act" where
  "runManifestHealthChecks w job spec =
     bnd (query (\<lambda>c. GetActiveAllocations c job)) (\<lambda>workers.
     if workers = [] then ret ()
     else bnd (dall (\<lambda>(ip, p). runProbe w job ip p)
                (concat (map (\<lambda>ip. map (\<lambda>p. (ip, p)) (hc_checks spec)) workers))) (\<lambda>errs.
          pureR (first_error errs)))"

section \<open>The check of a job (healthcheck/execute.go)\<close>

definition runChecks :: "world \<Rightarrow> string \<Rightarrow> health_check option \<Rightarrow> string list \<Rightarrow> unit act" where
  "runChecks w job spec commands =
     bnd (case spec of None \<Rightarrow> ret () | Some sp \<Rightarrow> runManifestHealthChecks w job sp) (\<lambda>_.
     dfor (\<lambda>command. JobCommand w job command ''health_check'' []) commands)"

fun until_passes :: "nat \<Rightarrow> unit act \<Rightarrow> unit act" where
  "until_passes 0 m = fail ErrHealthCheckFailed"
| "until_passes (Suc n) m = bnd (attempt m) (\<lambda>r. case r of Inr _ \<Rightarrow> ret () | Inl _ \<Rightarrow> until_passes n m)"

definition HealthCheck :: "world \<Rightarrow> bool \<Rightarrow> string \<Rightarrow> unit act" where
  "HealthCheck w wait job =
     bnd (query (\<lambda>c. JobHasActiveAllocations c job)) (\<lambda>hasActive.
     if \<not> hasActive then ret ()
     else bnd (reads (\<lambda>s. GetJobHealthCheck (ds_cat s) job)) (\<lambda>spec.
          bnd (reads (\<lambda>s. GetJobCommands (ds_cat s) job ''health_check'')) (\<lambda>commands.
          if spec = None \<and> commands = [] then ret ()
          else if wait then until_passes (nat (fst (waitConfig spec))) (runChecks w job spec commands)
          else bnd (attempt (runChecks w job spec commands)) (\<lambda>r.
                 case r of Inr _ \<Rightarrow> ret () | Inl _ \<Rightarrow> fail ErrHealthCheckFailed))))"

section \<open>Workers and several jobs (healthcheck/workers.go, execute.go)\<close>

definition CheckWorkers :: "world \<Rightarrow> int \<Rightarrow> bool \<Rightarrow> unit act" where
  "CheckWorkers w sshPort wait =
     bnd (reads (\<lambda>s. GetWorkers (ds_cat s) [])) (\<lambda>workers.
     if workers = [] then ret ()
     else let run = dfor (\<lambda>ip. probeTCP w ip sshPort) workers
          in if wait then until_passes 30 run
             else bnd (attempt run) (\<lambda>r. case r of Inr _ \<Rightarrow> ret () | Inl _ \<Rightarrow> fail ErrHealthCheckFailed))"

definition RunJobs :: "world \<Rightarrow> int \<Rightarrow> bool \<Rightarrow> string list \<Rightarrow> unit act" where
  "RunJobs w sshPort wait jobNames0 =
     bnd (CheckWorkers w sshPort wait) (\<lambda>_.
     let jobNames = Unique jobNames0
     in if jobNames = [] then ret ()
        else bnd (reads (\<lambda>s. schedule w (ds_trace s) jobNames)) (\<lambda>order.
             bnd (dall (HealthCheck w wait) order) (\<lambda>failures.
             if failures = [] then ret () else fail ErrHealthCheckFailed)))"

definition parseJobFilter :: "string \<Rightarrow> string list" where
  "parseJobFilter jobsComma =
     (if trim_space jobsComma = [] then []
      else filter (\<lambda>p. p \<noteq> []) (map trim_space (split_char (CHR '','') jobsComma)))"

definition healthcheckExecute :: "world \<Rightarrow> int \<Rightarrow> bool \<Rightarrow> string \<Rightarrow> unit act" where
  "healthcheckExecute w sshPort wait jobsComma =
     bnd (query GetBucketID) (\<lambda>_.
     bnd (reads (\<lambda>s. GetJobs (ds_cat s))) (\<lambda>jobNames.
     let jobFilter = parseJobFilter jobsComma
     in if jobFilter \<noteq> [] \<and> Difference jobFilter jobNames \<noteq> [] then fail ErrInvalidFilter
        else RunJobs w sshPort wait (if jobFilter \<noteq> [] then jobFilter else jobNames)))"

section \<open>Frame and events\<close>

lemma until_passes_holds: "holds same_cat m \<Longrightarrow> holds same_cat (until_passes n m)"
  by (induction n) (auto intro!: keeps split: sum.split)

lemma until_passes_emits: "holds (emits P) m \<Longrightarrow> holds (emits P) (until_passes n m)"
  by (induction n) (auto intro!: emitting split: sum.split)

lemma keeps_runProbe [intro]: "holds same_cat (runProbe w job ip p)"
proof -
  have "holds same_cat (probeHTTP w ip n p)" for n
    by (simp add: holds_def same_cat_def probeHTTP_def Let_def)
  then show ?thesis
    by (auto simp: runProbe_def probeSSH_def probeTCP_def Let_def intro!: keeps)
qed

text \<open>A probe, or a run of a \<open>health_check\<close> command of the job.\<close>

definition is_check :: "string \<Rightarrow> event \<Rightarrow> bool" where
  "is_check job e \<longleftrightarrow>
     (case e of JobScript r \<Rightarrow> sr_job r = job \<and> sr_event r = ''health_check''
      | ProbeSSH _ _ \<Rightarrow> True | ProbeTCP _ _ \<Rightarrow> True | ProbeHTTP _ _ _ _ \<Rightarrow> True | _ \<Rightarrow> False)"

lemma emits_runProbe: "(\<And>e. is_check job e \<Longrightarrow> P e) \<Longrightarrow> holds (emits P) (runProbe w job ip p)"
proof -
  assume p: "\<And>e. is_check job e \<Longrightarrow> P e"
  have "holds (emits P) (probeHTTP w ip n p)" for n
    by (auto simp: holds_def emits_def probeHTTP_def Let_def is_check_def intro!: p)
  then show ?thesis
    by (auto simp: runProbe_def probeSSH_def probeTCP_def Let_def is_check_def intro!: emitting holds_outside(2) p)
qed

lemma keeps_HealthCheck [intro]: "holds same_cat (HealthCheck w wait job)"
proof -
  have "holds same_cat (runChecks w job spec commands)" for spec commands
    by (auto simp: runChecks_def runManifestHealthChecks_def intro!: keeps split: option.split)
  then show ?thesis
    by (auto simp: HealthCheck_def intro!: keeps until_passes_holds split: sum.split)
qed

lemma emits_HealthCheck:
  assumes "\<And>e. is_check job e \<Longrightarrow> P e"
  shows "holds (emits P) (HealthCheck w wait job)"
proof -
  have "holds (emits P) (runChecks w job spec commands)" for spec commands
    by (auto simp: runChecks_def runManifestHealthChecks_def intro!: emitting emits_runProbe emits_JobCommand assms
        split: option.split) (auto simp: is_script_def is_check_def split: event.splits)
  then show ?thesis
    by (auto simp: HealthCheck_def intro!: emitting until_passes_emits split: sum.split)
qed

end
