(* ===== verification/Prereq.thy ===== *)
theory Prereq
  imports Effects
begin

text \<open>
  Tools that must be there before a deploy or a remote command: on the host (\<open>prereq/host.go\<close>,
  \<open>workspace.go\<close>) and on the workers, by a generated script (\<open>prereq/worker.go\<close>,
  \<open>worker/prerequisites.go\<close>). What the script prints is an answer of the outside.
\<close>

section \<open>The host\<close>

definition localDeployTools :: "string list" where
  "localDeployTools = [''bash'', ''ssh'', ''rsync'', ''python3'']"

definition localRunCommandTools :: "string list" where
  "localRunCommandTools = [''bash'', ''ssh'']"

definition CheckLocal :: "world \<Rightarrow> string list \<Rightarrow> error + unit" where
  "CheckLocal w commands = (if filter (\<lambda>c. \<not> wd_tool w c) commands = [] then Ok () else Err ErrTool)"

definition CheckLocalDeploy :: "world \<Rightarrow> bool \<Rightarrow> error + unit" where
  "CheckLocalDeploy w needsBun = CheckLocal w (localDeployTools @ (if needsBun then [''bun''] else []))"

definition CheckLocalRunCommand :: "world \<Rightarrow> error + unit" where
  "CheckLocalRunCommand w = CheckLocal w localRunCommandTools"

text \<open>\<open>filepath.Ext\<close> of a file name.\<close>

definition file_ext :: "string \<Rightarrow> string" where
  "file_ext name =
     (if CHR ''.'' \<in> set name then CHR ''.'' # rev (takeWhile (\<lambda>c. c \<noteq> CHR ''.'') (rev name)) else [])"

definition modulesDirUsesBun :: "string list \<Rightarrow> bool" where
  "modulesDirUsesBun files =
     list_ex (\<lambda>name. has_prefix ''command_'' name \<and> file_ext name \<in> {''.ts'', ''.js''}) files"

text \<open>The files directly in the modules directory of each job of the workspace.\<close>

definition WorkspaceUsesBun :: "(string \<times> string list) list \<Rightarrow> bool" where
  "WorkspaceUsesBun jobs = list_ex (\<lambda>(job, files). modulesDirUsesBun files) jobs"

section \<open>The workers\<close>

record worker_spec =
  ws_commands :: "string list"
  ws_use_sudo :: bool
  ws_sudo_rsync :: bool

definition DeployWorkerSpec :: worker_spec where
  "DeployWorkerSpec = \<lparr>ws_commands = [''python3'', ''make'', ''rsync'', ''bash'', ''timeout''],
     ws_use_sudo = True, ws_sudo_rsync = True\<rparr>"

definition RunCommandWorkerSpec :: worker_spec where
  "RunCommandWorkerSpec = \<lparr>ws_commands = [''bash'', ''timeout''], ws_use_sudo = True, ws_sudo_rsync = False\<rparr>"

definition quote :: string where
  "quote = [char_of (34 :: nat)]"

definition script_lines :: "worker_spec \<Rightarrow> string list" where
  "script_lines spec =
     [''#!/bin/bash'', ''set -u'', ''missing=()'',
      ''check() { command -v '' @ quote @ ''$1'' @ quote @ '' >/dev/null 2>&1 || missing+=('' @ quote @ ''$1'' @ quote @ ''); }''] @
     map (\<lambda>c. ''check '' @ c) (ws_commands spec) @
     (if ws_use_sudo spec then [''check sudo''] else []) @
     (if ws_sudo_rsync spec then
        [''if command -v sudo >/dev/null 2>&1 && command -v rsync >/dev/null 2>&1; then'',
         ''  sudo rsync --version >/dev/null 2>&1 || missing+=('' @ quote @ ''sudo-rsync'' @ quote @ '')'',
         ''fi''] else []) @
     [''if [ ${#missing[@]} -gt 0 ]; then'',
      ''  echo '' @ quote @ ''missing: ${missing[*]}'' @ quote,
      ''  exit 1'', ''fi'']"

definition newline :: string where
  "newline = [char_of (10 :: nat)]"

definition BuildWorkerCheckScript :: "worker_spec \<Rightarrow> string" where
  "BuildWorkerCheckScript spec = join newline (script_lines spec) @ newline"

text \<open>\<open>strings.Fields\<close>.\<close>

fun fields_from :: "string \<Rightarrow> string \<Rightarrow> string list" where
  "fields_from word [] = (if word = [] then [] else [rev word])"
| "fields_from word (c # s) =
     (if go_space c then (if word = [] then fields_from [] s else rev word # fields_from [] s)
      else fields_from (c # word) s)"

definition fields :: "string \<Rightarrow> string list" where
  "fields s = fields_from [] s"

fun missing_in :: "string list \<Rightarrow> string list" where
  "missing_in [] = []"
| "missing_in (line0 # rest) =
     (let line = trim_space line0
      in if \<not> has_prefix ''missing:'' line then missing_in rest
         else fields (trim_space (trim_prefix ''missing:'' line)))"

definition ParseMissingPrerequisites :: "string \<Rightarrow> string list" where
  "ParseMissingPrerequisites output = missing_in (split_char (char_of (10 :: nat)) output)"

definition checkPrerequisites :: "world \<Rightarrow> string list \<Rightarrow> worker_spec \<Rightarrow> unit act" where
  "checkPrerequisites w ips spec =
     (if ips = [] then ret ()
      else bnd (reads (\<lambda>s. schedule w (ds_trace s) ips)) (\<lambda>order.
           bnd (dall (\<lambda>ip. outside w (ProbeSSH ip (BuildWorkerCheckScript spec)) ErrWorkerCommand) order) (\<lambda>errs.
           if errs = [] then ret () else fail ErrTool)))"

definition CheckPrerequisites :: "world \<Rightarrow> string list \<Rightarrow> bool \<Rightarrow> unit act" where
  "CheckPrerequisites w ips useSudo = checkPrerequisites w ips (DeployWorkerSpec\<lparr>ws_use_sudo := useSudo\<rparr>)"

definition CheckRunCommandPrerequisites :: "world \<Rightarrow> string list \<Rightarrow> bool \<Rightarrow> unit act" where
  "CheckRunCommandPrerequisites w ips useSudo =
     checkPrerequisites w ips (RunCommandWorkerSpec\<lparr>ws_use_sudo := useSudo\<rparr>)"

section \<open>Facts\<close>

text \<open>Without \<open>use_sudo\<close> the deploy script still refuses a worker on which \<open>sudo rsync\<close> does not run.\<close>

lemma sudo_rsync_checked_without_sudo:
  "ws_sudo_rsync (DeployWorkerSpec\<lparr>ws_use_sudo := False\<rparr>)"
  "contains_sub ''sudo rsync --version'' (BuildWorkerCheckScript (DeployWorkerSpec\<lparr>ws_use_sudo := False\<rparr>))"
  by code_simp+

lemma keeps_CheckPrerequisites [intro]: "holds same_cat (CheckPrerequisites w ips b)"
  by (auto simp: CheckPrerequisites_def checkPrerequisites_def intro!: keeps)

lemma emits_CheckPrerequisites:
  assumes "\<And>ip c. P (ProbeSSH ip c)"
  shows "holds (emits P) (CheckPrerequisites w ips b)"
  by (auto simp: CheckPrerequisites_def checkPrerequisites_def intro!: emitting holds_outside(2) assms)

end
