(* ===== verification/Deploy.thy ===== *)
theory Deploy
  imports Rollout HealthCheck Prereq
begin

text \<open>
  Deploying (\<open>deploy/*.go\<close>): batches of starts and restarts, the pipeline of one job, reconciling stopped
  allocations, and the waves of \<open>Execute\<close>. The catalog part of the state is the deploy transaction, which
  commits also when jobs failed.
\<close>

section \<open>Worker commands (deploy/runner.go, hooks.go, dead_worker.go, worker/cleanup.go)\<close>

definition runnerCommand :: "string \<Rightarrow> string \<Rightarrow> string \<Rightarrow> string" where
  "runnerCommand bucketID action job =
     ''python3 /opt/worker/'' @ bucketID @ ''/bin/runner.py '' @ bucketID @ '' '' @ action @ '' --jobs '' @ job"

definition runnerCmdCtx :: "string \<Rightarrow> string \<Rightarrow> string \<Rightarrow> string \<Rightarrow> command_context" where
  "runnerCmdCtx job phase action bucketID =
     \<lparr>cc_job = job, cc_phase = phase, cc_action = action, cc_cmd = runnerCommand bucketID action job\<rparr>"

text \<open>\<open>%q\<close> of a text without quotes, backslashes and control characters.\<close>

definition quoted :: "string \<Rightarrow> string" where
  "quoted s = quote @ s @ quote"

definition JobDeployArtifactsCleanupCommand :: "string \<Rightarrow> string \<Rightarrow> string" where
  "JobDeployArtifactsCleanupCommand bucketID job =
     (let base = ''/opt/worker/'' @ bucketID @ ''/jobs/'' @ job
      in ''if [ -d '' @ quoted base @ '' ]; then find '' @ quoted base @
         '' -mindepth 1 -maxdepth 1 ! -name data ! -name logs -exec rm -rf {} +; fi'')"

definition runWorkerCommandOrAssumeDead :: "world \<Rightarrow> string \<Rightarrow> command_context \<Rightarrow> unit act" where
  "runWorkerCommandOrAssumeDead w ip cx = bnd (attempt (runWorkerCommand w ip cx [])) (\<lambda>_. ret ())"

text \<open>The start, restart or reload of one worker, with the versions in its environment.\<close>

definition lifecycle_command :: "world \<Rightarrow> string \<Rightarrow> string \<Rightarrow> string \<Rightarrow> string \<Rightarrow> unit act" where
  "lifecycle_command w bucketID job action ip =
     bnd (query (\<lambda>c. allocationVersionEnv c job ip)) (\<lambda>env.
     runWorkerCommand w ip (runnerCmdCtx job ''rollout'' action bucketID) env)"

section \<open>Batches and hooks (deploy/batch_hooks.go, rollout.go)\<close>

record batch_context =
  bc_job :: string
  bc_phase :: string
  bc_index :: int
  bc_count :: int
  bc_allocations :: "string list"
  bc_order :: string
  bc_source :: string

definition batchEnv :: "batch_context \<Rightarrow> string list" where
  "batchEnv cx =
     [''BATCH_ALLOCATIONS='' @ join '','' (bc_allocations cx), ''BATCH_INDEX='' @ itoa (bc_index cx),
      ''BATCH_COUNT='' @ itoa (bc_count cx), ''DEPLOY_PHASE='' @ bc_phase cx, ''ROLLOUT_ORDER='' @ bc_order cx,
      ''ROLLOUT_ORDER_SOURCE='' @ bc_source cx, ''JOB='' @ bc_job cx]"

definition executeAllocationEventHooks ::
  "world \<Rightarrow> string \<Rightarrow> string \<Rightarrow> string list \<Rightarrow> batch_context \<Rightarrow> unit act" where
  "executeAllocationEventHooks w job event ips cx =
     (if ips = [] then ret ()
      else bnd (reads (\<lambda>s. GetJobCommands (ds_cat s) job event)) (\<lambda>commands.
           dfor (\<lambda>command. JobCommandOnWorkers w job command event ips (batchEnv (cx\<lparr>bc_job := job\<rparr>))) commands))"

definition executeAfterAllocationStarted :: "world \<Rightarrow> string \<Rightarrow> string list \<Rightarrow> batch_context \<Rightarrow> unit act" where
  "executeAfterAllocationStarted w job ips cx = executeAllocationEventHooks w job ''after_allocation_started'' ips cx"

definition executeAfterAllocationStopped :: "world \<Rightarrow> string \<Rightarrow> string \<Rightarrow> unit act" where
  "executeAfterAllocationStopped w job ip =
     executeAllocationEventHooks w job ''after_allocation_stopped'' [ip]
       \<lparr>bc_job = job, bc_phase = ''stop'', bc_index = 0, bc_count = 1, bc_allocations = [ip], bc_order = [],
        bc_source = []\<rparr>"

definition source_name :: "order_source \<Rightarrow> string" where
  "source_name src = (case src of OrderKV \<Rightarrow> ''kv'' | OrderDefault \<Rightarrow> ''default'')"

definition batch_of :: "string \<Rightarrow> string \<Rightarrow> resolved_order \<Rightarrow> int \<Rightarrow> nat \<times> string list \<Rightarrow> batch_context" where
  "batch_of job phase resolved batches b =
     \<lparr>bc_job = job, bc_phase = phase, bc_index = int (fst b), bc_count = batches, bc_allocations = snd b,
      bc_order = ro_full resolved, bc_source = source_name (ro_source resolved)\<rparr>"

text \<open>The loop over \<open>resolved.Ordered[i:end]\<close>: the batches with their index.\<close>

definition indexed_batches :: "int \<Rightarrow> string list \<Rightarrow> (nat \<times> string list) list" where
  "indexed_batches n xs = (let bs = chunks (nat n) xs in zip [0..<length bs] bs)"

definition rolloutStartBatches :: "world \<Rightarrow> string \<Rightarrow> string list \<Rightarrow> (string \<Rightarrow> unit act) \<Rightarrow> unit act" where
  "rolloutStartBatches w job candidates startFn =
     (if candidates = [] then ret ()
      else bnd (query (\<lambda>c. activeWorkers c candidates job)) (\<lambda>active.
           if active = [] then ret ()
           else bnd (reads (\<lambda>s. ResolveRolloutOrder (ds_cat s) (ds_store s) job active)) (\<lambda>resolved.
                bnd (query (\<lambda>c. GetMaxConcurrentStarts c job)) (\<lambda>parallelism.
                let ordered = ro_ordered resolved;
                    batchSize = effectiveBatchSize parallelism (int (length ordered));
                    batches = batchCount (int (length ordered)) batchSize
                in bnd (dfor (\<lambda>b.
                     bnd (runParallelWorkers w (snd b) (int (length (snd b))) startFn) (\<lambda>_.
                     executeAfterAllocationStarted w job (snd b) (batch_of job ''new'' resolved batches b)))
                     (indexed_batches batchSize ordered)) (\<lambda>_.
                   HealthCheck w True job)))))"

definition restart_batch ::
  "world \<Rightarrow> string \<Rightarrow> resolved_order \<Rightarrow> int \<Rightarrow> (string \<Rightarrow> unit act) \<Rightarrow> nat \<times> string list \<Rightarrow> unit act" where
  "restart_batch w job resolved batches restartFn b =
     bnd (runParallelWorkers w (snd b) (int (length (snd b))) restartFn) (\<lambda>_.
     bnd (executeAfterAllocationStarted w job (snd b) (batch_of job ''update'' resolved batches b)) (\<lambda>_.
     HealthCheck w True job))"

definition rolloutRestartBatches :: "world \<Rightarrow> string \<Rightarrow> string list \<Rightarrow> (string \<Rightarrow> unit act) \<Rightarrow> unit act" where
  "rolloutRestartBatches w job candidates restartFn =
     (if candidates = [] then ret ()
      else bnd (query (\<lambda>c. activeWorkers c candidates job)) (\<lambda>active.
           if active = [] then ret ()
           else bnd (reads (\<lambda>s. ResolveRolloutOrder (ds_cat s) (ds_store s) job active)) (\<lambda>resolved.
                bnd (query (\<lambda>c. GetMaxConcurrentUpgrades c job)) (\<lambda>upgrades.
                let parallelism = (if upgrades < 1 then 1 else upgrades);
                    ordered = ro_ordered resolved;
                    batches = batchCount (int (length ordered)) parallelism
                in dfor (restart_batch w job resolved batches restartFn) (indexed_batches parallelism ordered)))))"

section \<open>New and updated allocations (deploy/allocations.go)\<close>

definition handleNewAllocations :: "world \<Rightarrow> string \<Rightarrow> string \<Rightarrow> unit act" where
  "handleNewAllocations w bucketID job =
     bnd (reads (\<lambda>s. GetNewAllocations (ds_cat s) job)) (\<lambda>new.
     if new = [] then ret ()
     else rolloutStartBatches w job new (lifecycle_command w bucketID job ''start''))"

definition update_action ::
  "catalog \<Rightarrow> string \<Rightarrow> deploy_options \<Rightarrow> string \<Rightarrow> string list \<Rightarrow> string \<Rightarrow> error + rollout_action" where
  "update_action c job opts policy globs ip =
     rbind (GetAllocationID c ip job) (\<lambda>allocID.
     case GetAllocationHash c (allocation_namespace job) allocID of (current, previous, ok) \<Rightarrow>
     let hashChanged = (ok \<and> previous \<noteq> [] \<and> previous \<noteq> current)
     in rbind (AllocationNeedsVersionRollout c job ip) (\<lambda>needsVersion.
        let m = GetAllocationFileManifests c (allocation_namespace job) allocID
        in Ok (fst (resolveUpdateAction (o_sync_only opts) policy globs (af_previous m) (af_current m)
                 hashChanged (needsVersion \<and> \<not> hashChanged) (\<not> af_has_previous m)))))"

fun split_actions :: "(string \<times> rollout_action) list \<Rightarrow> string list \<times> string list" where
  "split_actions [] = ([], [])"
| "split_actions ((ip, a) # rest) =
     (case split_actions rest of (restarts, reloads) \<Rightarrow>
        if a = ActSync then (restarts, reloads)
        else if a = ActRestart then (ip # restarts, reloads)
        else (restarts, ip # reloads))"

definition handleUpdatedAllocations :: "world \<Rightarrow> string \<Rightarrow> string \<Rightarrow> deploy_options \<Rightarrow> unit act" where
  "handleUpdatedAllocations w bucketID job opts =
     bnd (query (\<lambda>c. allocationsNeedingRestart c job (o_force opts))) (\<lambda>updated.
     if updated = [] then ret ()
     else bnd (query (\<lambda>c. GetRestartPolicy c job)) (\<lambda>policy.
          bnd (query (\<lambda>c. GetRestartGlobs c job)) (\<lambda>globs.
          bnd (query (\<lambda>c. rmap (\<lambda>ip. map_sum id (Pair ip) (update_action c job opts policy globs ip)) updated)) (\<lambda>actions.
          case split_actions actions of (restarts, reloads) \<Rightarrow>
            bnd (if reloads = [] then ret ()
                 else rolloutRestartBatches w job reloads (lifecycle_command w bucketID job ''reload'')) (\<lambda>_.
            if restarts = [] then ret ()
            else rolloutRestartBatches w job restarts (lifecycle_command w bucketID job ''restart''))))))"

section \<open>Hashes and versions (deploy/hashes.go, versions.go)\<close>

definition ignore_not_found :: "(store \<Rightarrow> error + store) \<Rightarrow> store \<Rightarrow> error + store" where
  "ignore_not_found f st =
     (case f st of Inr st' \<Rightarrow> Ok st' | Inl e \<Rightarrow> if e = ErrNotFound then Ok st else Err e)"

definition syncAllocationVersionKV :: "string \<Rightarrow> string \<Rightarrow> allocation_versions \<Rightarrow> unit act" where
  "syncAllocationVersionKV job ip v =
     (let ns = worker_kv_namespace job ip
      in bnd (change_store (\<lambda>st. Ok (Put st ns ''version'' (av_new v) 0))) (\<lambda>_.
         dfor (\<lambda>k. change_store (ignore_not_found (\<lambda>st. Delete st ns k))) [''current_version'', ''new_version'']))"

text \<open>\<open>filepath.Walk\<close> fails on a missing directory.\<close>

definition hash_job_dir :: "world \<Rightarrow> string \<Rightarrow> string \<Rightarrow> directory_tree act" where
  "hash_job_dir w job ip =
     bnd (reads (\<lambda>s. inner_map (ds_tmp s) ip)) (\<lambda>t.
     if map_of t (job_dir job) = None then fail ErrUnexpectedError
     else ret (HashDirectoryTree (wd_md5 w) (files_below (job_dir job) t)))"

definition update_one_hash :: "world \<Rightarrow> string \<Rightarrow> string \<Rightarrow> unit act" where
  "update_one_hash w job ip =
     bnd (query (\<lambda>c. GetAllocationID c ip job)) (\<lambda>allocID.
     bnd (hash_job_dir w job ip) (\<lambda>tree.
     bnd (change_cat (\<lambda>c. UpdateAllocationPlan c (allocation_namespace job) allocID (dt_aggregate tree) (dt_files tree))) (\<lambda>_.
     bnd (reads (\<lambda>s. GetAllocationVersions (ds_cat s) (allocation_namespace job) allocID)) (\<lambda>v.
     syncAllocationVersionKV job ip v))))"

definition updateJobAllocationHashes :: "world \<Rightarrow> string \<Rightarrow> unit act" where
  "updateJobAllocationHashes w job =
     bnd (reads (\<lambda>s. GetNonRemovedAllocations (ds_cat s) job)) (\<lambda>workers. dfor (update_one_hash w job) workers)"

definition updateAllocationHash :: "world \<Rightarrow> string list \<Rightarrow> unit act" where
  "updateAllocationHash w jobs = dfor (updateJobAllocationHashes w) jobs"

definition promote_one :: "string \<Rightarrow> string \<Rightarrow> unit act" where
  "promote_one job ip =
     bnd (query (\<lambda>c. GetAllocationID c ip job)) (\<lambda>allocID.
     bnd (change_cat (\<lambda>c. PromoteAllocationState c (allocation_namespace job) allocID)) (\<lambda>_.
     bnd (reads (\<lambda>s. GetAllocationVersions (ds_cat s) (allocation_namespace job) allocID)) (\<lambda>v.
     syncAllocationVersionKV job ip v)))"

definition promoteAllocationHash :: "string \<Rightarrow> unit act" where
  "promoteAllocationHash job =
     bnd (reads (\<lambda>s. GetNonRemovedAllocations (ds_cat s) job)) (\<lambda>workers. dfor (promote_one job) workers)"

section \<open>The pipeline of one job (deploy/job_deploy.go, commands.go)\<close>

definition execute_event_commands :: "world \<Rightarrow> string \<Rightarrow> string \<Rightarrow> unit act" where
  "execute_event_commands w event job =
     bnd (reads (\<lambda>s. GetJobCommands (ds_cat s) job event)) (\<lambda>commands.
     dfor (\<lambda>command. JobCommand w job command event []) commands)"

definition executePreJobCommandsForJob :: "world \<Rightarrow> string \<Rightarrow> unit act" where
  "executePreJobCommandsForJob w job = execute_event_commands w ''pre_deploy'' job"

definition executePostJobCommands :: "world \<Rightarrow> string \<Rightarrow> unit act" where
  "executePostJobCommands w job = execute_event_commands w ''post_deploy'' job"

definition finalizeJobDeploy :: "world \<Rightarrow> string \<Rightarrow> unit act" where
  "finalizeJobDeploy w job = bnd (executePostJobCommands w job) (\<lambda>_. promoteAllocationHash job)"

definition deployJobWithCommands :: "world \<Rightarrow> string \<Rightarrow> string list \<Rightarrow> deploy_options \<Rightarrow> unit act" where
  "deployJobWithCommands w job commands opts =
     bnd (if o_force opts then ret True else query (\<lambda>c. JobNeedsRollout c job)) (\<lambda>needs.
     if \<not> needs then ret ()
     else bnd (reads (\<lambda>s. GetNewAllocations (ds_cat s) job)) (\<lambda>new.
          bnd (query (\<lambda>c. allocationsNeedingRestart c job (o_force opts))) (\<lambda>updated.
          bnd (dfor (\<lambda>command. JobCommand w job command ''job_control''
                 [''UPDATED_ALLOCATIONS='' @ join '','' updated, ''NEW_ALLOCATIONS='' @ join '','' new]) commands) (\<lambda>_.
          bnd (HealthCheck w True job) (\<lambda>_.
          finalizeJobDeploy w job)))))"

definition deployJob :: "world \<Rightarrow> string \<Rightarrow> string \<Rightarrow> deploy_options \<Rightarrow> unit act" where
  "deployJob w bucketID job opts =
     (if o_sync_only opts then
        bnd (query (\<lambda>c. validateSyncOnlyRollout c job)) (\<lambda>_. finalizeJobDeploy w job)
      else bnd (reads (\<lambda>s. GetJobCommands (ds_cat s) job ''job_control'')) (\<lambda>commands.
           if commands \<noteq> [] then deployJobWithCommands w job commands opts
           else bnd (handleNewAllocations w bucketID job) (\<lambda>_.
                bnd (handleUpdatedAllocations w bucketID job opts) (\<lambda>_.
                finalizeJobDeploy w job))))"

section \<open>Plan hashes (deploy/plan_hash.go)\<close>

definition refreshPlanHashesForJobs :: "world \<Rightarrow> string list \<Rightarrow> unit act" where
  "refreshPlanHashesForJobs w jobs =
     (if jobs = [] then ret () else bnd (prepareJobsFiles w jobs) (\<lambda>_. updateAllocationHash w jobs))"

definition refreshPlanHashesForJobPlan :: "world \<Rightarrow> string \<Rightarrow> unit act" where
  "refreshPlanHashesForJobPlan w job =
     bnd (reads (\<lambda>s. GetJobCommands (ds_cat s) job ''pre_deploy'')) (\<lambda>commands.
     bnd (if commands = [] then ret ()
          else bnd (executePreJobCommandsForJob w job) (\<lambda>_. persistSession w)) (\<lambda>_.
     refreshPlanHashesForJobs w [job]))"

section \<open>Copying to the workers (deploy/sync_workers.go, final_sync.go)\<close>

definition buildRsyncFilterLines :: "string list \<Rightarrow> bool \<Rightarrow> string list" where
  "buildRsyncFilterLines jobs applyRules =
     (if applyRules then map (\<lambda>job. ''+ jobs/'' @ job @ ''/'' @ newline) jobs @ [''- jobs/*'' @ newline] else []) @
     [''- jobs/**/*.tpl'' @ newline]"

definition syncWorkerFiles :: "world \<Rightarrow> string \<Rightarrow> string list \<Rightarrow> string \<Rightarrow> unit act" where
  "syncWorkerFiles w bucketID jobs ip =
     bnd (runWorkerCommand w ip \<lparr>cc_job = join '','' jobs, cc_phase = ''rsync'', cc_action = ''mkdir'',
            cc_cmd = ''mkdir -p /opt/worker/'' @ bucketID\<rparr> []) (\<lambda>_.
     runRsync w ip jobs)"

definition syncWorkers :: "world \<Rightarrow> string \<Rightarrow> string list \<Rightarrow> string list \<Rightarrow> unit act" where
  "syncWorkers w bucketID workers jobs =
     bnd (reads (\<lambda>s. schedule w (ds_trace s) workers)) (\<lambda>order.
     bnd (dall (syncWorkerFiles w bucketID jobs) order) (\<lambda>errs. pureR (joinErrors errs)))"

fun final_sync_jobs :: "world \<Rightarrow> string \<Rightarrow> string list \<Rightarrow> string list \<Rightarrow> unit act" where
  "final_sync_jobs w bucketID refreshed [] = ret ()"
| "final_sync_jobs w bucketID refreshed (job # jobs) =
     bnd (query (\<lambda>c. GetActiveAllocations c job)) (\<lambda>workers.
     if workers = [] then final_sync_jobs w bucketID refreshed jobs
     else bnd (prepareWorkersFiles w (Unique (filter (\<lambda>ip. ip \<notin> set refreshed) workers))) (\<lambda>_.
          bnd (syncWorkers w bucketID workers [job]) (\<lambda>_.
          final_sync_jobs w bucketID (refreshed @ workers) jobs)))"

definition finalSyncDeployedJobs :: "world \<Rightarrow> string \<Rightarrow> string list \<Rightarrow> unit act" where
  "finalSyncDeployedJobs w bucketID deployedJobs = final_sync_jobs w bucketID [] deployedJobs"

section \<open>Stopped allocations (deploy/allocations.go, prune_workers.go, job_kv.go)\<close>

definition removeJobDeployArtifactsFromWorker :: "world \<Rightarrow> string \<Rightarrow> string \<Rightarrow> string \<Rightarrow> bool \<Rightarrow> unit act" where
  "removeJobDeployArtifactsFromWorker w bucketID ip job assumeDead =
     (let cx = \<lparr>cc_job = job, cc_phase = ''reconcile'', cc_action = ''cleanup_deploy'',
                cc_cmd = JobDeployArtifactsCleanupCommand bucketID job\<rparr>
      in bnd (if assumeDead then runWorkerCommandOrAssumeDead w ip cx else runWorkerCommand w ip cx []) (\<lambda>_.
         change_tmp ip (\<lambda>t. Ok (remove_all (job_dir job) t))))"

definition removeWorkerBucketFromWorker :: "world \<Rightarrow> string \<Rightarrow> string \<Rightarrow> unit act" where
  "removeWorkerBucketFromWorker w bucketID ip =
     bnd (runWorkerCommandOrAssumeDead w ip \<lparr>cc_job = [], cc_phase = ''reconcile'', cc_action = ''cleanup_worker'',
            cc_cmd = ''rm -rf /opt/worker/'' @ bucketID\<rparr>) (\<lambda>_.
     change_tmp ip (\<lambda>_. Ok []))"

definition reconcileStoppedAllocation :: "world \<Rightarrow> string \<Rightarrow> stopped_allocation \<Rightarrow> bool \<Rightarrow> unit act" where
  "reconcileStoppedAllocation w bucketID alloc assumeDead =
     (let job = sa_job alloc; ip = sa_ip alloc; stopCtx = runnerCmdCtx job ''reconcile'' ''stop'' bucketID
      in bnd (query (\<lambda>c. GetAllocationID c ip job)) (\<lambda>allocID.
         bnd (reads (\<lambda>s. GetPreviousHash (ds_cat s) (allocation_namespace job) allocID)) (\<lambda>previousHash.
         bnd (if previousHash \<noteq> [] then
                bnd (if assumeDead then runWorkerCommandOrAssumeDead w ip stopCtx
                     else runWorkerCommand w ip stopCtx []) (\<lambda>_.
                bnd (executeAfterAllocationStopped w job ip) (\<lambda>_.
                if sa_removed alloc then removeJobDeployArtifactsFromWorker w bucketID ip job assumeDead else ret ()))
              else ret ()) (\<lambda>_.
         if sa_removed alloc then change_cat (\<lambda>c. RemoveAllocationHash c job allocID) else ret ()))))"

definition allocationWasDeployed :: "catalog \<Rightarrow> string \<Rightarrow> string \<Rightarrow> error + bool" where
  "allocationWasDeployed c ip job =
     rbind (GetAllocationID c ip job) (\<lambda>allocID.
       Ok (GetPreviousHash c (allocation_namespace job) allocID \<noteq> []))"

definition countActiveAllocations :: "catalog \<Rightarrow> string \<Rightarrow> error + int" where
  "countActiveAllocations c job = rbind (GetActiveAllocations c job) (\<lambda>ws. Ok (int (length ws)))"

text \<open>The loop over the stopped allocations, with the two maps it fills.\<close>

fun reconcile_loop ::
  "world \<Rightarrow> string \<Rightarrow> string list \<Rightarrow> string list \<times> string list \<Rightarrow> stopped_allocation list \<Rightarrow>
   (string list \<times> string list) act" where
  "reconcile_loop w bucketID current acc [] = ret acc"
| "reconcile_loop w bucketID current acc (alloc # rest) =
     bnd (query (\<lambda>c. allocationWasDeployed c (sa_ip alloc) (sa_job alloc))) (\<lambda>wasRunning.
     bnd (reconcileStoppedAllocation w bucketID alloc (StoppedAllocationAssumeDead alloc current)) (\<lambda>_.
     reconcile_loop w bucketID current
       (if wasRunning then List.insert (sa_job alloc) (fst acc) else fst acc,
        if sa_removed alloc \<and> sa_ip alloc \<notin> set current \<and> wasRunning then List.insert (sa_ip alloc) (snd acc) else snd acc)
       rest))"

definition purgeJobCommandKVForInactiveJobs :: "world \<Rightarrow> stopped_allocation list \<Rightarrow> unit act" where
  "purgeJobCommandKVForInactiveJobs w stopped =
     (if stopped = [] then ret ()
      else bnd (dfor (\<lambda>job.
             bnd (reads (\<lambda>s. JobHasNonRemovedAllocations (ds_cat s) job)) (\<lambda>retained.
             if retained then ret ()
             else bnd (reads (\<lambda>s. GetAllocatedWorkers (ds_cat s) job)) (\<lambda>ips.
                  change_store (\<lambda>st. Ok (foldl PurgeNamespace st
                    (JobKVNamespaces job @ map (worker_kv_namespace job) ips)))))) (Unique (map sa_job stopped))) (\<lambda>_.
           persistStore w))"

definition reconcileRemovedAndDisabledAllocations :: "world \<Rightarrow> string \<Rightarrow> unit act" where
  "reconcileRemovedAndDisabledAllocations w bucketID =
     bnd (reads (\<lambda>s. LoadWorkerCatalog (ds_cat s))) (\<lambda>current.
     bnd (reads (\<lambda>s. ListStoppedAllocations (ds_cat s))) (\<lambda>stopped.
     bnd (reconcile_loop w bucketID current ([], []) stopped) (\<lambda>(healthJobs, offCatalog).
     bnd (reads (\<lambda>s. schedule w (ds_trace s) healthJobs)) (\<lambda>jobs.
     bnd (dfor (\<lambda>job.
            bnd (query (\<lambda>c. countActiveAllocations c job)) (\<lambda>n.
            if n > 0 then HealthCheck w True job else ret ())) jobs) (\<lambda>_.
     bnd (reads (\<lambda>s. schedule w (ds_trace s) offCatalog)) (\<lambda>ips.
     bnd (dfor (removeWorkerBucketFromWorker w bucketID) ips) (\<lambda>_.
     purgeJobCommandKVForInactiveJobs w stopped)))))))"

section \<open>The waves (deploy/execute.go)\<close>

text \<open>The first loop of a wave: plan hashes are refreshed for every job, and the jobs that need a rollout are
  kept. A failed refresh is noted and the job left out; a failed query ends the deploy.\<close>

fun jobs_to_stage ::
  "world \<Rightarrow> deploy_options \<Rightarrow> string list \<Rightarrow> (string list \<times> error list) act" where
  "jobs_to_stage w opts [] = ret ([], [])"
| "jobs_to_stage w opts (job # jobs) =
     bnd (attempt (refreshPlanHashesForJobPlan w job)) (\<lambda>r.
     case r of
       Inl e \<Rightarrow> bnd (jobs_to_stage w opts jobs) (\<lambda>(stage, errs). ret (stage, e # errs))
     | Inr _ \<Rightarrow>
         bnd (if o_force opts then ret True else query (\<lambda>c. JobNeedsRollout c job)) (\<lambda>needs.
         bnd (jobs_to_stage w opts jobs) (\<lambda>(stage, errs).
           ret (if needs then job # stage else stage, errs))))"

text \<open>The second loop: stage, copy, hash and deploy one job after the other; a job whose own pipeline failed
  does not stop the others.\<close>

definition stage_and_deploy ::
  "world \<Rightarrow> string \<Rightarrow> string list \<Rightarrow> deploy_options \<Rightarrow> string \<Rightarrow> (bool \<times> error list) act" where
  "stage_and_deploy w bucketID workers opts job =
     bnd (prepareJobsFiles w [job]) (\<lambda>_.
     bnd (syncWorkers w bucketID workers [job]) (\<lambda>_.
     bnd (updateAllocationHash w [job]) (\<lambda>_.
     bnd (attempt (deployJob w bucketID job opts)) (\<lambda>d.
     bnd (attempt (persistSession w)) (\<lambda>p.
       ret (case d of Inr _ \<Rightarrow> True | Inl _ \<Rightarrow> False,
            (case p of Inl e \<Rightarrow> [e] | Inr _ \<Rightarrow> []) @ (case d of Inl e \<Rightarrow> [e] | Inr _ \<Rightarrow> [])))))))"

fun deploy_staged ::
  "world \<Rightarrow> string \<Rightarrow> string list \<Rightarrow> deploy_options \<Rightarrow> string list \<Rightarrow> (string list \<times> error list) act" where
  "deploy_staged w bucketID workers opts [] = ret ([], [])"
| "deploy_staged w bucketID workers opts (job # jobs) =
     bnd (stage_and_deploy w bucketID workers opts job) (\<lambda>(done, errs).
     bnd (deploy_staged w bucketID workers opts jobs) (\<lambda>(deployed, more).
       ret (if done then job # deployed else deployed, errs @ more)))"

definition deploy_wave ::
  "world \<Rightarrow> string \<Rightarrow> string list \<Rightarrow> string list \<Rightarrow> deploy_options \<Rightarrow> int \<Rightarrow> (string list \<times> error list) act" where
  "deploy_wave w bucketID workers jobsFilter opts n =
     bnd (reads (\<lambda>s. selectJobsForDeploy (GetJobsByDeploymentSeq (ds_cat s) n) jobsFilter)) (\<lambda>jobs.
     if jobs = [] then ret ([], [])
     else bnd (prepareWorkersFiles w workers) (\<lambda>_.
          bnd (jobs_to_stage w opts jobs) (\<lambda>(stage, errs).
          bnd (deploy_staged w bucketID workers opts stage) (\<lambda>(deployed, more).
            ret (deployed, errs @ more)))))"

fun deploy_waves ::
  "world \<Rightarrow> string \<Rightarrow> string list \<Rightarrow> string list \<Rightarrow> deploy_options \<Rightarrow> int list \<Rightarrow> (string list \<times> error list) act" where
  "deploy_waves w bucketID workers jobsFilter opts [] = ret ([], [])"
| "deploy_waves w bucketID workers jobsFilter opts (n # ns) =
     bnd (deploy_wave w bucketID workers jobsFilter opts n) (\<lambda>(deployed, errs).
     bnd (deploy_waves w bucketID workers jobsFilter opts ns) (\<lambda>(deployed', errs').
       ret (deployed @ deployed', errs @ errs')))"

definition UpdateSeq :: "catalog \<Rightarrow> error + catalog" where
  "UpdateSeq c = rbind (GetBucketUpdateSeq c) (\<lambda>n. Ok (SetBucketUpdateSeq c (n + 1)))"

text \<open>\<open>Execute\<close> after the database is open: the removal of \<open>tmp\<close>, the sequence number, the session store,
  the prerequisites, then the deploy itself. The result carries the failures that \<open>joinErrors\<close> reports
  after the transaction has committed.\<close>

definition deployExecute ::
  "world \<Rightarrow> bool \<Rightarrow> bool \<Rightarrow> string list \<Rightarrow> deploy_options \<Rightarrow> (string list \<times> error list) act" where
  "deployExecute w needsBun useSudo jobsFilter0 opts s0 =
     (case UpdateSeq (ds_cat s0) of
        Inl e \<Rightarrow> (Err e, s0)
      | Inr c \<Rightarrow>
     (case LoadFromTransaction (ds_table s0) of
        Inl e \<Rightarrow> (Err e, s0\<lparr>ds_cat := c, ds_tmp := []\<rparr>)
      | Inr st \<Rightarrow>
          bnd (query GetBucketID) (\<lambda>bucketID.
          bnd (reads (\<lambda>s. GetWorkers (ds_cat s) [])) (\<lambda>workers.
          bnd (reads (\<lambda>s. GetMaxDeploymentSeq (ds_cat s))) (\<lambda>maxSeq.
          bnd (pureR (CheckLocalDeploy w needsBun)) (\<lambda>_.
          bnd (CheckPrerequisites w workers useSudo) (\<lambda>_.
          bnd (reconcileRemovedAndDisabledAllocations w bucketID) (\<lambda>_.
          bnd (deploy_waves w bucketID workers (normalizeJobFilter jobsFilter0) opts [0..maxSeq]) (\<lambda>(deployed, errs).
          bnd (if deployed = [] then ret []
               else bnd (attempt (finalSyncDeployedJobs w bucketID deployed)) (\<lambda>r.
                      ret (case r of Inl e \<Rightarrow> [e] | Inr _ \<Rightarrow> []))) (\<lambda>more.
          ret (deployed, errs @ more)))))))))
          (s0\<lparr>ds_cat := c, ds_tmp := [], ds_store := st\<rparr>)))"

end
