(* ===== verification/DeployLaws.thy ===== *)
theory DeployLaws
  imports Deploy
begin

text \<open>
  What the parts of a deploy change and what they send: frames, the settled state after a promotion, and the
  shape of failed loops.
\<close>

section \<open>Frames\<close>

lemma keeps_commands [intro]:
  "holds same_cat (runWorkerCommand w ip cx env)" "holds same_cat (runRsync w ip jobs)"
  "holds same_cat (runWorkerCommandOrAssumeDead w ip cx)" "holds same_cat (lifecycle_command w b job act ip)"
  "holds same_cat (executeAllocationEventHooks w job ev ips bc)"
  "holds same_cat (executeAfterAllocationStarted w job ips bc)"
  "holds same_cat (executeAfterAllocationStopped w job ip)"
  by (auto simp: runWorkerCommand_def runRsync_def runWorkerCommandOrAssumeDead_def lifecycle_command_def
      executeAllocationEventHooks_def executeAfterAllocationStarted_def executeAfterAllocationStopped_def
      intro!: keeps)

lemma keeps_batches [intro]:
  assumes "\<And>ip. holds same_cat (f ip)"
  shows "holds same_cat (rolloutStartBatches w job cs f)" "holds same_cat (rolloutRestartBatches w job cs f)"
  using assms
  by (auto simp: rolloutStartBatches_def rolloutRestartBatches_def restart_batch_def Let_def
      intro!: keeps keeps_commands keeps_HealthCheck)

lemma keeps_handle [intro]:
  "holds same_cat (handleNewAllocations w b job)" "holds same_cat (handleUpdatedAllocations w b job opts)"
  by (auto simp: handleNewAllocations_def handleUpdatedAllocations_def
      intro!: keeps keeps_batches keeps_commands split: prod.split)

lemma keeps_events [intro]: "holds same_cat (execute_event_commands w ev job)"
  by (auto simp: execute_event_commands_def intro!: keeps)

lemma keeps_pre_post [intro]:
  "holds same_cat (executePreJobCommandsForJob w job)" "holds same_cat (executePostJobCommands w job)"
  by (auto simp: executePreJobCommandsForJob_def executePostJobCommands_def)

lemma keeps_sync [intro]:
  "holds same_cat (syncWorkerFiles w b jobs ip)" "holds same_cat (syncWorkers w b ips jobs)"
  by (auto simp: syncWorkerFiles_def syncWorkers_def intro!: keeps)

lemma keeps_versions [intro]: "holds same_cat (syncAllocationVersionKV job ip v)"
  by (auto simp: syncAllocationVersionKV_def Let_def intro!: keeps)

lemma keeps_hash_job_dir [intro]: "holds same_cat (hash_job_dir w job ip)"
  by (auto simp: hash_job_dir_def intro!: keeps)

lemma keeps_prune [intro]:
  "holds same_cat (removeJobDeployArtifactsFromWorker w b ip job d)"
  "holds same_cat (removeWorkerBucketFromWorker w b ip)"
  "holds same_cat (purgeJobCommandKVForInactiveJobs w stopped)"
  by (auto simp: removeJobDeployArtifactsFromWorker_def removeWorkerBucketFromWorker_def
      purgeJobCommandKVForInactiveJobs_def Let_def intro!: keeps)

lemma cat_kept: "holds same_cat m \<Longrightarrow> m s = (r, s') \<Longrightarrow> ds_cat s' = ds_cat s"
  using holdsD [of same_cat m s r s'] by (simp add: same_cat_def)

section \<open>Loops\<close>

lemma dfor_Ok_Cons:
  "dfor f (x # xs) s = (Inr u, s') \<longleftrightarrow> (\<exists>t v. f x s = (Inr v, t) \<and> dfor f xs t = (Inr u, s'))"
  by (auto simp: bnd_def split: prod.splits sum.splits)

lemma dfor_Err_split:
  assumes "dfor f xs s = (Inl e, s')"
  shows "\<exists>ys x zs t. xs = ys @ x # zs \<and> dfor f ys s = (Inr (), t) \<and> f x t = (Inl e, s')"
  using assms
proof (induction xs arbitrary: s)
  case (Cons x xs)
  from Cons.prems have "bnd (f x) (\<lambda>_. dfor f xs) s = (Inl e, s')" by simp
  then show ?case
  proof (cases rule: bnd_Err_E)
    case 1
    have "dfor f [] s = (Inr (), s)" by simp
    with 1 show ?thesis by (intro exI [of _ "[]"]) auto
  next
    case (2 u t)
    from Cons.IH [OF 2(2)] obtain ys y zs t' where
      "xs = ys @ y # zs" "dfor f ys t = (Inr (), t')" "f y t' = (Inl e, s')" by blast
    then have "x # xs = (x # ys) @ y # zs \<and> dfor f (x # ys) s = (Inr (), t') \<and> f y t' = (Inl e, s')"
      using 2(1) by (simp add: bnd_def)
    then show ?thesis by blast
  qed
qed simp

section \<open>Hash rows of one job\<close>

text \<open>Everything of the catalog that deploy leaves alone after the sequence number.\<close>

definition same_tables :: "catalog \<Rightarrow> catalog \<Rightarrow> bool" where
  "same_tables c c' \<longleftrightarrow> t_allocations c' = t_allocations c \<and> t_job c' = t_job c \<and> t_worker c' = t_worker c \<and>
     t_job_commands c' = t_job_commands c \<and> t_bucket c' = t_bucket c \<and> (catalog_ok c \<longrightarrow> catalog_ok c')"

definition frame_cat :: "dstate \<Rightarrow> dstate \<Rightarrow> bool" where
  "frame_cat s s' \<longleftrightarrow> same_tables (ds_cat s) (ds_cat s')"

interpretation fr: step_relation frame_cat
  by unfold_locales (auto simp: frame_cat_def same_tables_def)

lemma same_cat_frame: "holds same_cat m \<Longrightarrow> holds frame_cat m"
  by (auto simp: holds_def same_cat_def frame_cat_def same_tables_def)

lemma leaf_frames:
  "holds frame_cat (executePreJobCommandsForJob w job)" "holds frame_cat (executePostJobCommands w job)"
  "holds frame_cat (hash_job_dir w job ip)" "holds frame_cat (syncAllocationVersionKV job ip v)"
  "holds frame_cat (prepareJobsFiles w jobs)" "holds frame_cat (prepareWorkersFiles w ips)"
  "holds frame_cat (persistSession w)" "holds frame_cat (syncWorkers w b ips jobs)"
  "holds frame_cat (handleNewAllocations w b job)" "holds frame_cat (handleUpdatedAllocations w b job opts)"
  "holds frame_cat (HealthCheck w wt job)" "holds frame_cat (executeAfterAllocationStopped w job ip)"
  "holds frame_cat (runWorkerCommand w ip cx env)" "holds frame_cat (runWorkerCommandOrAssumeDead w ip cx)"
  "holds frame_cat (removeJobDeployArtifactsFromWorker w b ip job d)"
  "holds frame_cat (removeWorkerBucketFromWorker w b ip)"
  "holds frame_cat (purgeJobCommandKVForInactiveJobs w stopped)"
  "holds frame_cat (JobCommand w job cmd event env)"
  by (intro same_cat_frame keeps_pre_post keeps_hash_job_dir keeps_versions keeps_prepareJobs keeps_staging
      holds_persist keeps_sync keeps_handle keeps_HealthCheck keeps_commands keeps_prune keeps_JobCommand)+

lemma frame_change:
  "(\<And>c. same_tables c (f c)) \<Longrightarrow> holds frame_cat (change_cat f)"
  by (simp add: holds_def frame_cat_def)

lemma same_tables_updates:
  "same_tables c (UpdateAllocationPlan c ns k h fs)" "same_tables c (PromoteAllocationState c ns k)"
  "same_tables c (RemoveAllocationHash c job k)"
proof -
  show "same_tables c (UpdateAllocationPlan c ns k h fs)" "same_tables c (PromoteAllocationState c ns k)"
    by (simp_all add: same_tables_def frame catalog_ok_UpdatePlan catalog_ok_Promote)
  show "same_tables c (RemoveAllocationHash c job k)"
    by (auto simp: same_tables_def RemoveAllocationHash_def RemoveHash_def catalog_ok_def distinct_map_filter)
qed

lemma frame_hashes [intro]:
  "holds frame_cat (update_one_hash w job ip)" "holds frame_cat (promote_one job ip)"
  by (auto simp: update_one_hash_def promote_one_def intro!: fr.rules frame_change same_tables_updates
      leaf_frames)

lemma frame_all_hashes [intro]:
  "holds frame_cat (updateJobAllocationHashes w job)" "holds frame_cat (updateAllocationHash w jobs)"
  "holds frame_cat (promoteAllocationHash job)"
  by (auto simp: updateJobAllocationHashes_def updateAllocationHash_def promoteAllocationHash_def
      intro!: fr.rules frame_hashes)

lemma frame_finalize [intro]: "holds frame_cat (finalizeJobDeploy w job)"
  by (auto simp: finalizeJobDeploy_def intro!: fr.rules leaf_frames frame_all_hashes)

lemma frame_deployJob [intro]: "holds frame_cat (deployJob w b job opts)"
proof -
  have "holds frame_cat (deployJobWithCommands w job cmds opts)" for cmds
    unfolding deployJobWithCommands_def by (intro fr.rules leaf_frames frame_finalize)
  then show ?thesis
    by (auto simp: deployJob_def intro!: fr.rules leaf_frames frame_finalize)
qed

lemma frame_refresh [intro]: "holds frame_cat (refreshPlanHashesForJobPlan w job)"
  by (auto simp: refreshPlanHashesForJobPlan_def refreshPlanHashesForJobs_def
      intro!: fr.rules leaf_frames frame_all_hashes)

lemma frame_stage [intro]: "holds frame_cat (stage_and_deploy w b ips opts job)"
  by (auto simp: stage_and_deploy_def
      intro!: fr.rules leaf_frames frame_all_hashes frame_deployJob)

lemma frame_jobs_to_stage [intro]: "holds frame_cat (jobs_to_stage w opts jobs)"
  by (induction jobs) (auto intro!: fr.rules frame_refresh split: sum.split prod.split)

lemma frame_deploy_staged [intro]: "holds frame_cat (deploy_staged w b ips opts jobs)"
  by (induction jobs) (auto intro!: fr.rules frame_stage split: prod.split)

lemma frame_wave [intro]: "holds frame_cat (deploy_wave w b ips jf opts n)"
  by (auto simp: deploy_wave_def intro!: fr.rules frame_jobs_to_stage frame_deploy_staged
      leaf_frames split: prod.split)

lemma frame_reconcile_loop [intro]: "holds frame_cat (reconcile_loop w b cur acc stopped)"
proof (induction stopped arbitrary: acc)
  case (Cons a rest)
  have "holds frame_cat (reconcileStoppedAllocation w b a d)" for d
    by (auto simp: reconcileStoppedAllocation_def Let_def
        intro!: fr.rules frame_change same_tables_updates leaf_frames)
  with Cons show ?case by (auto intro!: fr.rules)
qed (simp add: fr.rules)

lemma frame_reconcile [intro]: "holds frame_cat (reconcileRemovedAndDisabledAllocations w b)"
  by (auto simp: reconcileRemovedAndDisabledAllocations_def
      intro!: fr.rules frame_reconcile_loop leaf_frames split: prod.split)

section \<open>Promotion\<close>

lemma Delete_known:
  assumes "map_of st ns \<noteq> None"
  shows "\<exists>st'. ignore_not_found (\<lambda>st. Delete st ns k) st = Ok st' \<and> map_of st' ns \<noteq> None"
  using assms by (auto simp: ignore_not_found_def Delete_def split: option.splits)

lemma syncAllocationVersionKV_Ok: "\<exists>s'. syncAllocationVersionKV job ip v s = (Inr (), s')"
proof -
  define ns where "ns = worker_kv_namespace job ip"
  have step: "\<exists>t. change_store (ignore_not_found (\<lambda>st. Delete st ns k)) s = (Inr (), t) \<and> map_of (ds_store t) ns \<noteq> None"
    if "map_of (ds_store s) ns \<noteq> None" for s k
    using Delete_known [OF that, of k] by (auto simp: change_store_def)
  define s1 where "s1 = s\<lparr>ds_store := Put (ds_store s) ns ''version'' (av_new v) 0\<rparr>"
  have "map_of (ds_store s1) ns \<noteq> None" by (simp add: s1_def Put_def putValue_def Let_def)
  then obtain s2 where s2: "change_store (ignore_not_found (\<lambda>st. Delete st ns ''current_version'')) s1 = (Inr (), s2)"
    "map_of (ds_store s2) ns \<noteq> None" using step by blast
  from step [OF s2(2)] obtain s3 where s3:
    "change_store (ignore_not_found (\<lambda>st. Delete st ns ''new_version'')) s2 = (Inr (), s3)" by blast
  have s1: "change_store (\<lambda>st. Ok (Put st ns ''version'' (av_new v) 0)) s = (Inr (), s1)"
    by (simp add: change_store_def s1_def)
  show ?thesis
    by (simp add: syncAllocationVersionKV_def Let_def ns_def [symmetric] bnd_def s1 s2(1) s3)
qed

definition promote_row :: "alloc_row \<Rightarrow> hash_row \<Rightarrow> hash_row" where
  "promote_row a h = h\<lparr>h_previous_hash := h_current_hash h, h_previous_files := h_current_files h,
     h_current_version := Some (ifnull (a_new_version a) DefaultAllocationVersion)\<rparr>"

lemma promote_row_idem [simp]: "promote_row a (promote_row a h) = promote_row a h"
  by (simp add: promote_row_def)

lemma promote_one_Ok:
  assumes ok: "catalog_ok (ds_cat s)" and a: "a \<in> set (t_allocations (ds_cat s))"
  shows "\<exists>s'. promote_one (a_job a) (a_ip a) s = (Inr (), s') \<and>
    ds_cat s' = PromoteAllocationState (ds_cat s) (allocation_namespace (a_job a)) (a_id a)"
proof -
  define s1 where "s1 = s\<lparr>ds_cat := PromoteAllocationState (ds_cat s) (allocation_namespace (a_job a)) (a_id a)\<rparr>"
  obtain s2 where s2: "syncAllocationVersionKV (a_job a) (a_ip a)
      (GetAllocationVersions (ds_cat s1) (allocation_namespace (a_job a)) (a_id a)) s1 = (Inr (), s2)"
    using syncAllocationVersionKV_Ok by blast
  have "promote_one (a_job a) (a_ip a) s = (Inr (), s2)"
    using s2 by (simp add: promote_one_def bnd_def GetAllocationID_Ok [OF ok a] s1_def)
  moreover have "ds_cat s2 = ds_cat s1" by (rule cat_kept [OF keeps_versions s2])
  ultimately show ?thesis by (simp add: s1_def)
qed

lemma rows_of_Promote:
  assumes ok: "catalog_ok c" and a: "a \<in> set (t_allocations c)" and b: "b \<in> set (t_allocations c)"
    and job: "a_job b = a_job a"
  shows "rows_of_alloc (PromoteAllocationState c (allocation_namespace (a_job a)) (a_id a)) b =
    (if b = a then map (promote_row a) (rows_of_alloc c a) else rows_of_alloc c b)"
proof -
  have id: "a_id b = a_id a \<longleftrightarrow> b = a" using same_id [OF ok a b] by auto
  show ?thesis
    by (simp add: rows_of_alloc_def PromoteAllocationState_rows job id alloc_id_unique [OF ok a] promote_row_def)
qed

lemma promote_loop:
  assumes "catalog_ok (ds_cat s)" and "set ips \<subseteq> a_ip ` live_allocs (ds_cat s) job"
  shows "\<exists>s'. dfor (promote_one job) ips s = (Inr (), s') \<and> same_tables (ds_cat s) (ds_cat s') \<and>
    (\<forall>b \<in> live_allocs (ds_cat s) job. rows_of_alloc (ds_cat s') b =
       (if a_ip b \<in> set ips then map (promote_row b) (rows_of_alloc (ds_cat s) b) else rows_of_alloc (ds_cat s) b))"
  using assms
proof (induction ips arbitrary: s)
  case Nil
  then show ?case by (simp add: same_tables_def)
next
  case (Cons ip ips)
  then obtain a where a: "a \<in> live_allocs (ds_cat s) job" "a_ip a = ip" by auto
  then have a': "a \<in> set (t_allocations (ds_cat s))" "a_job a = job" by auto
  from promote_one_Ok [OF Cons.prems(1) a'(1)] obtain t where t: "promote_one job ip s = (Inr (), t)"
    "ds_cat t = PromoteAllocationState (ds_cat s) (allocation_namespace job) (a_id a)"
    using a'(2) a(2) by auto
  have tab: "same_tables (ds_cat s) (ds_cat t)" unfolding t(2) by (rule same_tables_updates)
  then have okt: "catalog_ok (ds_cat t)" and al: "t_allocations (ds_cat t) = t_allocations (ds_cat s)"
    using Cons.prems(1) by (auto simp: same_tables_def)
  have "set ips \<subseteq> a_ip ` live_allocs (ds_cat t) job" using Cons.prems(2) by (simp add: al)
  from Cons.IH [OF okt this] obtain s' where s': "dfor (promote_one job) ips t = (Inr (), s')"
    "same_tables (ds_cat t) (ds_cat s')"
    "\<forall>b \<in> live_allocs (ds_cat t) job. rows_of_alloc (ds_cat s') b =
       (if a_ip b \<in> set ips then map (promote_row b) (rows_of_alloc (ds_cat t) b) else rows_of_alloc (ds_cat t) b)"
    by blast
  have rows: "rows_of_alloc (ds_cat s') b =
      (if a_ip b \<in> set (ip # ips) then map (promote_row b) (rows_of_alloc (ds_cat s) b) else rows_of_alloc (ds_cat s) b)"
    if b: "b \<in> live_allocs (ds_cat s) job" for b
  proof -
    have b': "b \<in> set (t_allocations (ds_cat s))" "a_job b = a_job a" using b a'(2) by auto
    have ba: "b = a \<longleftrightarrow> a_ip b = ip"
    proof
      assume e: "a_ip b = ip"
      have "alloc_at (ds_cat s) ip job = [b]" "alloc_at (ds_cat s) ip job = [a]"
        using alloc_at_unique [OF Cons.prems(1) b'(1)] alloc_at_unique [OF Cons.prems(1) a'(1)] e a(2) b'(2) a'(2)
        by auto
      then show "b = a" by simp
    qed (use a(2) in simp)
    have one: "rows_of_alloc (ds_cat t) b =
        (if a_ip b = ip then map (promote_row b) (rows_of_alloc (ds_cat s) b) else rows_of_alloc (ds_cat s) b)"
      unfolding t(2) a'(2) [symmetric] rows_of_Promote [OF Cons.prems(1) a'(1) b'] using ba by auto
    have "b \<in> live_allocs (ds_cat t) job" using b by (simp add: al)
    with s'(3) have "rows_of_alloc (ds_cat s') b =
       (if a_ip b \<in> set ips then map (promote_row b) (rows_of_alloc (ds_cat t) b) else rows_of_alloc (ds_cat t) b)"
      by blast
    then show ?thesis unfolding one by (auto simp: comp_def)
  qed
  have "dfor (promote_one job) (ip # ips) s = (Inr (), s')" using t(1) s'(1) by (simp add: bnd_def)
  moreover have "same_tables (ds_cat s) (ds_cat s')" using tab s'(2) by (auto simp: same_tables_def)
  ultimately show ?case using rows by blast
qed

lemma promoteAllocationHash_Ok:
  assumes "catalog_ok (ds_cat s)"
  shows "\<exists>s'. promoteAllocationHash job s = (Inr (), s') \<and> same_tables (ds_cat s) (ds_cat s') \<and>
    (\<forall>b \<in> live_allocs (ds_cat s) job. rows_of_alloc (ds_cat s') b = map (promote_row b) (rows_of_alloc (ds_cat s) b))"
proof -
  from promote_loop [OF assms, of "GetNonRemovedAllocations (ds_cat s) job" job]
  show ?thesis by (auto simp: promoteAllocationHash_def set_GetNonRemoved)
qed

text \<open>Every allocation of the job that is not removed has a hash row with a current hash.\<close>

definition planned :: "catalog \<Rightarrow> string \<Rightarrow> bool" where
  "planned c job \<longleftrightarrow> (\<forall>a \<in> live_allocs c job. rows_of_alloc c a \<noteq> [] \<and> (\<forall>h \<in> set (rows_of_alloc c a). h_current_hash h \<noteq> None))"

lemma promoted_is_settled:
  assumes ok: "catalog_ok (ds_cat s)" and pl: "planned (ds_cat s) job"
    and p: "promoteAllocationHash job s = (r, s')"
  shows "JobNeedsRollout (ds_cat s') job = Ok False"
proof -
  from promoteAllocationHash_Ok [OF ok, of job] p have tab: "same_tables (ds_cat s) (ds_cat s')"
    and rows: "\<forall>b \<in> live_allocs (ds_cat s) job. rows_of_alloc (ds_cat s') b = map (promote_row b) (rows_of_alloc (ds_cat s) b)"
    by auto
  have ok': "catalog_ok (ds_cat s')" and al: "t_allocations (ds_cat s') = t_allocations (ds_cat s)"
    using tab ok by (auto simp: same_tables_def)
  have "\<not> alloc_pending (ds_cat s') b" if b: "b \<in> live_allocs (ds_cat s') job" for b
  proof -
    have b': "b \<in> live_allocs (ds_cat s) job" using b by (simp add: al)
    obtain h where h: "rows_of_alloc (ds_cat s) b = [h]" "h_current_hash h \<noteq> None"
    proof (rule rows_of_alloc_cases [OF ok, of b])
      assume "rows_of_alloc (ds_cat s) b = []"
      then show ?thesis using pl b' by (auto simp: planned_def)
    next
      fix h assume "rows_of_alloc (ds_cat s) b = [h]"
      moreover have "h_current_hash h \<noteq> None" using pl b' \<open>rows_of_alloc (ds_cat s) b = [h]\<close>
        by (auto simp: planned_def)
      ultimately show ?thesis by (rule that)
    qed
    have "rows_of_alloc (ds_cat s') b = [promote_row b h]" using rows b' h(1) by simp
    then show ?thesis using h(2)
      by (auto simp: alloc_pending_def rows_of_alloc_def row_new_def hash_updated_def row_version_pending_def
          promote_row_def split: option.split)
  qed
  then show ?thesis unfolding JobNeedsRollout_iff [OF ok'] by blast
qed

section \<open>Plan hashes\<close>

lemma rows_of_UpdatePlan:
  assumes ok: "catalog_ok c" and a: "a \<in> set (t_allocations c)" and b: "b \<in> set (t_allocations c)"
    and job: "a_job b = a_job a"
  shows "b = a \<Longrightarrow> rows_of_alloc (UpdateAllocationPlan c (allocation_namespace (a_job a)) (a_id a) x fs) b \<noteq> [] \<and>
      (\<forall>h \<in> set (rows_of_alloc (UpdateAllocationPlan c (allocation_namespace (a_job a)) (a_id a) x fs) b). h_current_hash h \<noteq> None)"
    and "b \<noteq> a \<Longrightarrow> rows_of_alloc (UpdateAllocationPlan c (allocation_namespace (a_job a)) (a_id a) x fs) b = rows_of_alloc c b"
proof -
  note id = same_id [OF ok a b]
  show "b = a \<Longrightarrow> rows_of_alloc (UpdateAllocationPlan c (allocation_namespace (a_job a)) (a_id a) x fs) b \<noteq> [] \<and>
      (\<forall>h \<in> set (rows_of_alloc (UpdateAllocationPlan c (allocation_namespace (a_job a)) (a_id a) x fs) b). h_current_hash h \<noteq> None)"
    by (auto simp: rows_of_alloc_def UpdateAllocationPlan_rows)
  show "b \<noteq> a \<Longrightarrow> rows_of_alloc (UpdateAllocationPlan c (allocation_namespace (a_job a)) (a_id a) x fs) b = rows_of_alloc c b"
    using id job by (auto simp: rows_of_alloc_def UpdateAllocationPlan_rows)
qed

lemma update_one_Ok:
  assumes u: "update_one_hash w (a_job a) (a_ip a) s = (Inr u, s')" and ok: "catalog_ok (ds_cat s)"
    and a: "a \<in> set (t_allocations (ds_cat s))"
  shows "\<exists>x fs. ds_cat s' = UpdateAllocationPlan (ds_cat s) (allocation_namespace (a_job a)) (a_id a) x fs"
proof -
  from u have "bnd (hash_job_dir w (a_job a) (a_ip a)) (\<lambda>tree.
      bnd (change_cat (\<lambda>c. UpdateAllocationPlan c (allocation_namespace (a_job a)) (a_id a) (dt_aggregate tree) (dt_files tree)))
      (\<lambda>_. bnd (reads (\<lambda>s. GetAllocationVersions (ds_cat s) (allocation_namespace (a_job a)) (a_id a)))
        (syncAllocationVersionKV (a_job a) (a_ip a)))) s = (Inr u, s')"
    unfolding update_one_hash_def bnd_query GetAllocationID_Ok [OF ok a] by (simp only: sum.case)
  then obtain tree s1 where tree: "hash_job_dir w (a_job a) (a_ip a) s = (Inr tree, s1)"
    and rest: "bnd (change_cat (\<lambda>c. UpdateAllocationPlan c (allocation_namespace (a_job a)) (a_id a) (dt_aggregate tree) (dt_files tree)))
      (\<lambda>_. bnd (reads (\<lambda>s. GetAllocationVersions (ds_cat s) (allocation_namespace (a_job a)) (a_id a)))
        (syncAllocationVersionKV (a_job a) (a_ip a))) s1 = (Inr u, s')"
    by (rule bnd_Ok_E)
  have c1: "ds_cat s1 = ds_cat s" by (rule cat_kept [OF keeps_hash_job_dir tree])
  define s2 where "s2 = s1\<lparr>ds_cat := UpdateAllocationPlan (ds_cat s) (allocation_namespace (a_job a)) (a_id a) (dt_aggregate tree) (dt_files tree)\<rparr>"
  have "syncAllocationVersionKV (a_job a) (a_ip a)
      (GetAllocationVersions (ds_cat s2) (allocation_namespace (a_job a)) (a_id a)) s2 = (Inr u, s')"
    using rest by (simp add: bnd_def c1 s2_def)
  then have "ds_cat s' = ds_cat s2" by (rule cat_kept [OF keeps_versions])
  then show ?thesis by (auto simp: s2_def)
qed

lemma update_loop_planned:
  assumes "dfor (update_one_hash w job) ips s = (Inr u, s')" and "catalog_ok (ds_cat s)"
    and "set ips \<subseteq> a_ip ` live_allocs (ds_cat s) job"
    and "\<And>a. a \<in> live_allocs (ds_cat s) job \<Longrightarrow> a_ip a \<notin> set ips \<Longrightarrow>
      rows_of_alloc (ds_cat s) a \<noteq> [] \<and> (\<forall>h \<in> set (rows_of_alloc (ds_cat s) a). h_current_hash h \<noteq> None)"
  shows "planned (ds_cat s') job"
  using assms
proof (induction ips arbitrary: s)
  case Nil
  then show ?case by (auto simp: planned_def)
next
  case (Cons ip ips)
  then obtain a where a: "a \<in> live_allocs (ds_cat s) job" "a_ip a = ip" by auto
  then have a': "a \<in> set (t_allocations (ds_cat s))" "a_job a = job" by auto
  from Cons.prems(1) obtain t v where t: "update_one_hash w job ip s = (Inr v, t)"
    and rest: "dfor (update_one_hash w job) ips t = (Inr u, s')" by (auto elim!: bnd_Ok_E)
  from update_one_Ok [OF _ Cons.prems(2) a'(1), of w v t] t a' a(2) obtain x fs where
    ct: "ds_cat t = UpdateAllocationPlan (ds_cat s) (allocation_namespace job) (a_id a) x fs" by auto
  have tab: "same_tables (ds_cat s) (ds_cat t)" unfolding ct by (rule same_tables_updates)
  then have okt: "catalog_ok (ds_cat t)" and al: "t_allocations (ds_cat t) = t_allocations (ds_cat s)"
    using Cons.prems(2) by (auto simp: same_tables_def)
  have sub: "set ips \<subseteq> a_ip ` live_allocs (ds_cat t) job" using Cons.prems(3) by (simp add: al)
  have out: "rows_of_alloc (ds_cat t) b \<noteq> [] \<and> (\<forall>h \<in> set (rows_of_alloc (ds_cat t) b). h_current_hash h \<noteq> None)"
    if b: "b \<in> live_allocs (ds_cat t) job" "a_ip b \<notin> set ips" for b
  proof -
    have b': "b \<in> set (t_allocations (ds_cat s))" "a_job b = a_job a" and bl: "b \<in> live_allocs (ds_cat s) job"
      using b(1) a'(2) by (auto simp: al)
    show ?thesis
    proof (cases "b = a")
      case True
      then show ?thesis
        using rows_of_UpdatePlan(1) [OF Cons.prems(2) a'(1) b'] unfolding ct a'(2) by blast
    next
      case False
      have "a_ip b \<noteq> ip"
      proof
        assume e: "a_ip b = ip"
        have "alloc_at (ds_cat s) ip job = [b]" "alloc_at (ds_cat s) ip job = [a]"
          using alloc_at_unique [OF Cons.prems(2) b'(1)] alloc_at_unique [OF Cons.prems(2) a'(1)] e a(2) b'(2) a'(2)
          by auto
        then show False using False by simp
      qed
      then have "rows_of_alloc (ds_cat s) b \<noteq> [] \<and> (\<forall>h \<in> set (rows_of_alloc (ds_cat s) b). h_current_hash h \<noteq> None)"
        using Cons.prems(4) [OF bl] b(2) by simp
      then show ?thesis
        using rows_of_UpdatePlan(2) [OF Cons.prems(2) a'(1) b' False] unfolding ct a'(2) by simp
    qed
  qed
  show ?case by (rule Cons.IH [OF rest okt sub]) (use out in blast)
qed

lemma updateJobAllocationHashes_planned:
  assumes "updateJobAllocationHashes w job s = (Inr u, s')" and "catalog_ok (ds_cat s)"
  shows "planned (ds_cat s') job"
  by (rule update_loop_planned [of w job "GetNonRemovedAllocations (ds_cat s) job" s u s'])
    (use assms in \<open>auto simp: updateJobAllocationHashes_def set_GetNonRemoved\<close>)

end
