(* ===== verification/Settled.thy ===== *)
theory Settled
  imports DeployLaws
begin

text \<open>
  What a deploy leaves in the \<open>hash\<close> table: a job whose pipeline succeeded needs no rollout any more, the
  pipeline of one job touches the rows of no other job, and a job that failed keeps the hashes it was last
  promoted with, so that the next deploy takes it up again.
\<close>

section \<open>One job\<close>

definition settled :: "dstate \<Rightarrow> string \<Rightarrow> bool" where
  "settled s job \<longleftrightarrow> JobNeedsRollout (ds_cat s) job = Ok False"

lemma frame_ok: "holds frame_cat m \<Longrightarrow> m s = (r, s') \<Longrightarrow> catalog_ok (ds_cat s) \<Longrightarrow> catalog_ok (ds_cat s')"
  using holdsD [of frame_cat m s r s'] by (auto simp: frame_cat_def same_tables_def)

lemma finalize_settles:
  assumes "finalizeJobDeploy w job s = (Inr u, s')" and "catalog_ok (ds_cat s)" and "planned (ds_cat s) job"
  shows "settled s' job"
proof -
  from assms(1) obtain v t where post: "executePostJobCommands w job s = (Inr v, t)"
    and pro: "promoteAllocationHash job t = (Inr u, s')"
    unfolding finalizeJobDeploy_def by (rule bnd_Ok_E)
  have "ds_cat t = ds_cat s" by (rule cat_kept [OF keeps_pre_post(2) post])
  then show ?thesis unfolding settled_def using promoted_is_settled [OF _ _ pro] assms(2,3) by simp
qed

lemma keeps_job_commands: "holds same_cat (dfor (\<lambda>command. JobCommand w job command ev env) cmds)"
  by (intro keeps keeps_JobCommand)

lemma deployJobWithCommands_settles:
  assumes run: "deployJobWithCommands w job cmds opts s = (Inr u, s')"
    and ok: "catalog_ok (ds_cat s)" and pl: "planned (ds_cat s) job"
  shows "settled s' job"
proof -
  from run obtain needs t where n: "(if o_force opts then ret True else query (\<lambda>c. JobNeedsRollout c job)) s = (Inr needs, t)"
    and rest: "(if \<not> needs then ret ()
     else bnd (reads (\<lambda>s. GetNewAllocations (ds_cat s) job)) (\<lambda>new.
          bnd (query (\<lambda>c. allocationsNeedingRestart c job (o_force opts))) (\<lambda>updated.
          bnd (dfor (\<lambda>command. JobCommand w job command ''job_control''
                 [''UPDATED_ALLOCATIONS='' @ join '','' updated, ''NEW_ALLOCATIONS='' @ join '','' new]) cmds) (\<lambda>_.
          bnd (HealthCheck w True job) (\<lambda>_. finalizeJobDeploy w job))))) t = (Inr u, s')"
    unfolding deployJobWithCommands_def by (rule bnd_Ok_E)
  have t: "t = s" using n by (auto split: if_splits)
  show ?thesis
  proof (cases needs)
    case False
    then show ?thesis using rest n t by (auto simp: settled_def split: if_splits)
  next
    case True
    with rest obtain new updated v t1 v2 t2 where
      loop: "dfor (\<lambda>command. JobCommand w job command ''job_control''
                 [''UPDATED_ALLOCATIONS='' @ join '','' updated, ''NEW_ALLOCATIONS='' @ join '','' new]) cmds s = (Inr v, t1)"
      and hc: "HealthCheck w True job t1 = (Inr v2, t2)" and fin: "finalizeJobDeploy w job t2 = (Inr u, s')"
      unfolding t by (auto elim!: bnd_Ok_E)
    have "ds_cat t1 = ds_cat s" by (rule cat_kept [OF keeps_job_commands loop])
    moreover have "ds_cat t2 = ds_cat t1" by (rule cat_kept [OF keeps_HealthCheck hc])
    ultimately show ?thesis using finalize_settles [OF fin] ok pl by simp
  qed
qed

lemma deployJob_settles:
  assumes run: "deployJob w b job opts s = (Inr u, s')"
    and ok: "catalog_ok (ds_cat s)" and pl: "planned (ds_cat s) job"
  shows "settled s' job"
proof (cases "o_sync_only opts")
  case True
  with run obtain v where "finalizeJobDeploy w job s = (Inr u, s')"
    by (auto simp: deployJob_def bnd_query split: sum.splits)
  then show ?thesis by (rule finalize_settles [OF _ ok pl])
next
  case False
  show ?thesis
  proof (cases "GetJobCommands (ds_cat s) job ''job_control'' = []")
    case True
    with False run have "bnd (handleNewAllocations w b job) (\<lambda>_. bnd (handleUpdatedAllocations w b job opts)
        (\<lambda>_. finalizeJobDeploy w job)) s = (Inr u, s')" by (simp add: deployJob_def)
    then obtain v1 t1 v2 t2 where n: "handleNewAllocations w b job s = (Inr v1, t1)"
      and u: "handleUpdatedAllocations w b job opts t1 = (Inr v2, t2)" and fin: "finalizeJobDeploy w job t2 = (Inr u, s')"
      by (elim bnd_Ok_E)
    have "ds_cat t1 = ds_cat s" by (rule cat_kept [OF keeps_handle(1) n])
    moreover have "ds_cat t2 = ds_cat t1" by (rule cat_kept [OF keeps_handle(2) u])
    ultimately show ?thesis using finalize_settles [OF fin] ok pl by simp
  next
    case c: False
    with False run have "deployJobWithCommands w job (GetJobCommands (ds_cat s) job ''job_control'') opts s = (Inr u, s')"
      by (simp add: deployJob_def)
    then show ?thesis by (rule deployJobWithCommands_settles [OF _ ok pl])
  qed
qed

text \<open>A pipeline that fails has changed nothing in the catalog: the promotion is its last step, and it cannot
  fail.\<close>

lemma finalize_fails:
  assumes "finalizeJobDeploy w job s = (Inl e, s')" and "catalog_ok (ds_cat s)"
  shows "ds_cat s' = ds_cat s"
  using assms(1) unfolding finalizeJobDeploy_def
proof (cases rule: bnd_Err_E)
  case 1
  then show ?thesis by (rule cat_kept [OF keeps_pre_post(2)])
next
  case (2 v t)
  have "ds_cat t = ds_cat s" by (rule cat_kept [OF keeps_pre_post(2) 2(1)])
  with promoteAllocationHash_Ok [of t job] 2(2) assms(2) show ?thesis by auto
qed

lemma kept_then_fails:
  assumes "bnd m f s = (Inl e, s')" and "holds same_cat m"
    and "\<And>x t. m s = (Inr x, t) \<Longrightarrow> ds_cat t = ds_cat s \<Longrightarrow> f x t = (Inl e, s') \<Longrightarrow> ds_cat s' = ds_cat t"
  shows "ds_cat s' = ds_cat s"
  using assms(1)
proof (cases rule: bnd_Err_E)
  case 1
  then show ?thesis by (rule cat_kept [OF assms(2)])
next
  case (2 x t)
  have "ds_cat t = ds_cat s" by (rule cat_kept [OF assms(2) 2(1)])
  with assms(3) [OF 2(1) _ 2(2)] show ?thesis by simp
qed

lemma deployJob_fails:
  assumes run: "deployJob w b job opts s = (Inl e, s')" and ok: "catalog_ok (ds_cat s)"
  shows "ds_cat s' = ds_cat s"
proof -
  have fin: "ds_cat s' = ds_cat t" if "finalizeJobDeploy w job t = (Inl e, s')" "ds_cat t = ds_cat s" for t
    by (rule finalize_fails [OF that(1)]) (use that(2) ok in simp)
  have cmds: "ds_cat s' = ds_cat s" if "deployJobWithCommands w job cmds opts s = (Inl e, s')" for cmds
    using that unfolding deployJobWithCommands_def
  proof (rule kept_then_fails)
    show "holds same_cat (if o_force opts then ret True else query (\<lambda>c. JobNeedsRollout c job))"
      by (intro keeps)
    fix needs t assume t: "ds_cat t = ds_cat s" and rest: "(if \<not> needs then ret ()
     else bnd (reads (\<lambda>s. GetNewAllocations (ds_cat s) job)) (\<lambda>new.
          bnd (query (\<lambda>c. allocationsNeedingRestart c job (o_force opts))) (\<lambda>updated.
          bnd (dfor (\<lambda>command. JobCommand w job command ''job_control''
                 [''UPDATED_ALLOCATIONS='' @ join '','' updated, ''NEW_ALLOCATIONS='' @ join '','' new]) cmds) (\<lambda>_.
          bnd (HealthCheck w True job) (\<lambda>_. finalizeJobDeploy w job))))) t = (Inl e, s')"
    show "ds_cat s' = ds_cat t"
    proof (cases needs)
      case True
      have hc: "ds_cat s' = ds_cat t1" if "bnd (HealthCheck w True job) (\<lambda>_. finalizeJobDeploy w job) t1 = (Inl e, s')"
        "ds_cat t1 = ds_cat s" for t1
        using that(1) by (rule kept_then_fails) (use that(2) fin in \<open>auto intro: keeps_HealthCheck\<close>)
      have loop: "ds_cat s' = ds_cat s" if "bnd (dfor (\<lambda>command. JobCommand w job command ''job_control'' env) cmds)
          (\<lambda>_. bnd (HealthCheck w True job) (\<lambda>_. finalizeJobDeploy w job)) t1 = (Inl e, s')" "ds_cat t1 = ds_cat s" for t1 env
      proof -
        have "ds_cat s' = ds_cat t1"
          using that(1) by (rule kept_then_fails) (use that(2) hc in \<open>auto intro: keeps_job_commands\<close>)
        then show ?thesis using that(2) by simp
      qed
      from rest True have "s' = t \<or> ds_cat s' = ds_cat s"
        by (auto simp: bnd_query intro: loop [OF _ t] split: sum.splits)
      then show ?thesis using t by auto
    qed (use rest in simp)
  qed
  have plain: "ds_cat s' = ds_cat s" if "bnd (handleNewAllocations w b job) (\<lambda>_. bnd (handleUpdatedAllocations w b job opts)
        (\<lambda>_. finalizeJobDeploy w job)) s = (Inl e, s')"
    using that
  proof (rule kept_then_fails)
    fix x t assume t: "ds_cat t = ds_cat s"
      and r: "bnd (handleUpdatedAllocations w b job opts) (\<lambda>_. finalizeJobDeploy w job) t = (Inl e, s')"
    from r show "ds_cat s' = ds_cat t"
      by (rule kept_then_fails) (use t fin in \<open>auto intro: keeps_handle\<close>)
  qed (rule keeps_handle)
  from run fin cmds plain show ?thesis
    by (auto simp: deployJob_def bnd_query split: if_splits sum.splits)
qed

section \<open>The rows of the other jobs\<close>

lemma allocation_namespace_inj: "allocation_namespace a = allocation_namespace b \<longleftrightarrow> a = b"
  by (simp add: allocation_namespace_def)

definition other_job :: "string \<Rightarrow> dstate \<Rightarrow> dstate \<Rightarrow> bool" where
  "other_job j s s' \<longleftrightarrow> same_tables (ds_cat s) (ds_cat s') \<and>
     (\<forall>k. hash_rows (ds_cat s') (allocation_namespace j) k = hash_rows (ds_cat s) (allocation_namespace j) k)"

interpretation oj: step_relation "other_job j" for j
  by unfold_locales (auto simp: other_job_def same_tables_def)

text \<open>No row is promoted: every allocation keeps the hash it was last deployed with.\<close>

definition unpromoted :: "dstate \<Rightarrow> dstate \<Rightarrow> bool" where
  "unpromoted s s' \<longleftrightarrow> same_tables (ds_cat s) (ds_cat s') \<and>
     (\<forall>ns k. GetPreviousHash (ds_cat s') ns k = GetPreviousHash (ds_cat s) ns k)"

interpretation up: step_relation unpromoted
  by unfold_locales (auto simp: unpromoted_def same_tables_def)

lemma same_cat_weaker:
  "holds same_cat m \<Longrightarrow> holds (other_job j) m" "holds same_cat m \<Longrightarrow> holds unpromoted m"
  by (auto simp: holds_def same_cat_def other_job_def unpromoted_def same_tables_def)

lemma settled_other:
  assumes "other_job j s s'" and "catalog_ok (ds_cat s)"
  shows "settled s' j \<longleftrightarrow> settled s j"
proof -
  have ok: "catalog_ok (ds_cat s')" and al: "t_allocations (ds_cat s') = t_allocations (ds_cat s)"
    and rows: "\<And>k. hash_rows (ds_cat s') (allocation_namespace j) k = hash_rows (ds_cat s) (allocation_namespace j) k"
    using assms by (auto simp: other_job_def same_tables_def)
  have "alloc_pending (ds_cat s') a \<longleftrightarrow> alloc_pending (ds_cat s) a" if "a \<in> live_allocs (ds_cat s) j" for a
    using that by (simp add: alloc_pending_def rows)
  then show ?thesis
    unfolding settled_def JobNeedsRollout_iff [OF ok] JobNeedsRollout_iff [OF assms(2)] al by auto
qed

lemma previous_other:
  "other_job j s s' \<Longrightarrow> GetPreviousHash (ds_cat s') (allocation_namespace j) k = GetPreviousHash (ds_cat s) (allocation_namespace j) k"
  by (simp add: other_job_def GetPreviousHash_def)

lemma leaf_weaker:
  fixes w :: world and j :: string
  defines "L \<equiv> \<lambda>m :: unit act. holds (other_job j) m \<and> holds unpromoted m"
  shows "L (executePreJobCommandsForJob w job)" "L (executePostJobCommands w job)"
    "L (syncAllocationVersionKV job ip v)" "L (prepareJobsFiles w jobs)" "L (prepareWorkersFiles w ips)"
    "L (persistSession w)" "L (syncWorkers w b ips jobs)" "L (handleNewAllocations w b job)"
    "L (handleUpdatedAllocations w b job opts)" "L (HealthCheck w wt job)"
    "L (dfor (\<lambda>command. JobCommand w job command ev env) cmds)"
  unfolding L_def
  by (intro conjI same_cat_weaker keeps_pre_post keeps_versions keeps_prepareJobs keeps_staging
      holds_persist keeps_sync keeps_handle keeps_HealthCheck keeps_job_commands)+

lemmas leaf_other = leaf_weaker [THEN conjunct1]
lemmas leaf_unpromoted = leaf_weaker [THEN conjunct2]

lemma hash_dir_weaker: "holds (other_job j) (hash_job_dir w job ip)" "holds unpromoted (hash_job_dir w job ip)"
  by (intro same_cat_weaker keeps_hash_job_dir)+

lemma change_other:
  assumes "job \<noteq> j"
  shows "holds (other_job j) (change_cat (\<lambda>c. UpdateAllocationPlan c (allocation_namespace job) k h fs))"
    "holds (other_job j) (change_cat (\<lambda>c. PromoteAllocationState c (allocation_namespace job) k))"
  using assms same_tables_updates
  by (auto simp: holds_def other_job_def UpdateAllocationPlan_rows PromoteAllocationState_rows allocation_namespace_inj)

lemma change_unpromoted:
  "holds unpromoted (change_cat (\<lambda>c. UpdateAllocationPlan c ns k h fs))"
proof -
  have "GetPreviousHash (UpdateAllocationPlan c ns k h fs) ns' k' = GetPreviousHash c ns' k'" for c ns' k'
    by (auto simp: GetPreviousHash_def UpdateAllocationPlan_rows split: list.split)
  then show ?thesis using same_tables_updates by (simp add: holds_def unpromoted_def)
qed

lemma hashes_other:
  assumes "job \<noteq> j"
  shows "holds (other_job j) (updateJobAllocationHashes w job)" "holds (other_job j) (promoteAllocationHash job)"
  using assms
  by (auto simp: updateJobAllocationHashes_def promoteAllocationHash_def update_one_hash_def promote_one_def
      intro!: oj.rules change_other leaf_other hash_dir_weaker)

lemma hashes_unpromoted: "holds unpromoted (updateJobAllocationHashes w job)"
  by (auto simp: updateJobAllocationHashes_def update_one_hash_def
      intro!: up.rules change_unpromoted leaf_unpromoted hash_dir_weaker)

lemma deployJob_other:
  assumes "job \<noteq> j"
  shows "holds (other_job j) (deployJob w b job opts)"
proof -
  have fin: "holds (other_job j) (finalizeJobDeploy w job)"
    unfolding finalizeJobDeploy_def by (intro oj.rules leaf_other hashes_other assms)
  have "holds (other_job j) (deployJobWithCommands w job cmds opts)" for cmds
    unfolding deployJobWithCommands_def by (intro oj.bnd oj.if_act oj.ret oj.query oj.reads leaf_other fin)
  then show ?thesis by (auto simp: deployJob_def intro!: oj.rules leaf_other fin)
qed

lemma refresh_other:
  "job \<noteq> j \<Longrightarrow> holds (other_job j) (refreshPlanHashesForJobPlan w job)"
  by (auto simp: refreshPlanHashesForJobPlan_def refreshPlanHashesForJobs_def updateAllocationHash_def
      intro!: oj.rules leaf_other hashes_other)

lemma refresh_unpromoted: "holds unpromoted (refreshPlanHashesForJobPlan w job)"
  by (auto simp: refreshPlanHashesForJobPlan_def refreshPlanHashesForJobs_def updateAllocationHash_def
      intro!: up.rules leaf_unpromoted hashes_unpromoted)

lemma jobs_to_stage_other:
  "j \<notin> set jobs \<Longrightarrow> holds (other_job j) (jobs_to_stage w opts jobs)"
  by (induction jobs) (auto intro!: oj.rules refresh_other split: sum.split prod.split)

lemma jobs_to_stage_unpromoted: "holds unpromoted (jobs_to_stage w opts jobs)"
  by (induction jobs) (auto intro!: up.rules refresh_unpromoted split: sum.split prod.split)

lemma stage_other: "job \<noteq> j \<Longrightarrow> holds (other_job j) (stage_and_deploy w b ips opts job)"
  by (auto simp: stage_and_deploy_def updateAllocationHash_def
      intro!: oj.rules leaf_other hashes_other deployJob_other)

lemma deploy_staged_other:
  "j \<notin> set jobs \<Longrightarrow> holds (other_job j) (deploy_staged w b ips opts jobs)"
  by (induction jobs) (auto intro!: oj.rules stage_other split: prod.split)

section \<open>One job of a wave\<close>

lemma bnd_ret [simp]: "bnd m ret = m"
  by (auto simp: bnd_def fun_eq_iff split: prod.split sum.split)

text \<open>The outcome of \<open>stage_and_deploy\<close>: a success settles the job, a failure promotes nothing.\<close>

lemma stage_outcome:
  assumes run: "stage_and_deploy w b ips opts job s = (Inr (done, errs), s')" and ok: "catalog_ok (ds_cat s)"
  shows "if done then settled s' job else unpromoted s s'"
proof -
  from run obtain v1 s1 v2 s2 v3 s3 d s4 p s5 where prep: "prepareJobsFiles w [job] s = (Inr v1, s1)"
    and sync: "syncWorkers w b ips [job] s1 = (Inr v2, s2)"
    and hash: "updateAllocationHash w [job] s2 = (Inr v3, s3)"
    and dep: "attempt (deployJob w b job opts) s3 = (Inr d, s4)"
    and per: "attempt (persistSession w) s4 = (Inr p, s5)"
    and res: "s' = s5" "done \<longleftrightarrow> (case d of Inr _ \<Rightarrow> True | Inl _ \<Rightarrow> False)"
    unfolding stage_and_deploy_def by (elim bnd_Ok_E) auto
  have dep': "deployJob w b job opts s3 = (d, s4)" using dep by (auto simp: attempt_def split: prod.splits)
  have c2: "ds_cat s2 = ds_cat s"
    using cat_kept [OF keeps_prepareJobs prep] cat_kept [OF keeps_sync(2) sync] by simp
  have hash': "updateJobAllocationHashes w job s2 = (Inr (), s3)"
    using hash by (auto simp: updateAllocationHash_def dfor_Ok_Cons)
  have pl: "planned (ds_cat s3) job"
    by (rule updateJobAllocationHashes_planned [OF hash']) (use c2 ok in simp)
  have ok3: "catalog_ok (ds_cat s3)" by (rule frame_ok [OF frame_all_hashes(1) hash']) (use c2 ok in simp)
  have c5: "ds_cat s5 = ds_cat s4" by (rule cat_kept [OF keep.attempt per]) (rule holds_persist(1))
  show ?thesis
  proof (cases d)
    case (Inr u)
    then have "settled s4 job" using deployJob_settles [of w b job opts s3 u s4] dep' ok3 pl by simp
    then show ?thesis using res Inr c5 by (simp add: settled_def)
  next
    case (Inl e)
    then have "ds_cat s4 = ds_cat s3" using deployJob_fails [of w b job opts s3 e s4] dep' ok3 by simp
    moreover have "unpromoted s2 s3" by (rule holdsD [OF hashes_unpromoted hash'])
    ultimately show ?thesis using res Inl c5 c2 by (simp add: unpromoted_def)
  qed
qed

text \<open>The outcome of a list of jobs: the deployed ones are settled, the other rows keep their last
  promoted hash, and rows of jobs outside the list are untouched.\<close>

definition outcome :: "string list \<Rightarrow> string list \<Rightarrow> dstate \<Rightarrow> dstate \<Rightarrow> bool" where
  "outcome jobs deployed s s' \<longleftrightarrow>
     set deployed \<subseteq> set jobs \<and> same_tables (ds_cat s) (ds_cat s') \<and>
     (\<forall>j. j \<notin> set jobs \<longrightarrow> other_job j s s') \<and>
     (\<forall>j \<in> set deployed. settled s' j) \<and>
     (\<forall>j k. j \<notin> set deployed \<longrightarrow>
        GetPreviousHash (ds_cat s') (allocation_namespace j) k = GetPreviousHash (ds_cat s) (allocation_namespace j) k)"

lemma outcome_none: "s' = s \<Longrightarrow> outcome jobs [] s s'"
  by (auto simp: outcome_def other_job_def same_tables_def)

lemma outcome_trans:
  assumes ab: "outcome as ds s t" and bc: "outcome bs es t u" and disj: "set as \<inter> set bs = {}"
    and ok: "catalog_ok (ds_cat s)"
  shows "outcome (as @ bs) (ds @ es) s u"
proof -
  have okt: "catalog_ok (ds_cat t)" using ab ok by (auto simp: outcome_def same_tables_def)
  have "settled u j" if "j \<in> set ds" for j
  proof -
    have "j \<notin> set bs" using that ab disj by (auto simp: outcome_def)
    then have "other_job j t u" using bc by (simp add: outcome_def)
    then show ?thesis using settled_other [OF _ okt] that ab by (auto simp: outcome_def)
  qed
  moreover have "other_job j s u" if "j \<notin> set as" "j \<notin> set bs" for j
    using that ab bc oj.trans by (auto simp: outcome_def)
  moreover have "same_tables (ds_cat s) (ds_cat u)" using ab bc by (auto simp: outcome_def same_tables_def)
  ultimately show ?thesis using ab bc unfolding outcome_def by auto
qed

lemma deploy_staged_outcome:
  assumes "deploy_staged w b ips opts jobs s = (Inr (deployed, errs), s')"
    and "distinct jobs" and "catalog_ok (ds_cat s)"
  shows "outcome jobs deployed s s'"
  using assms
proof (induction jobs arbitrary: s deployed errs)
  case Nil
  then show ?case by (auto intro: outcome_none)
next
  case (Cons job jobs)
  from Cons.prems(1) obtain d1 e1 t d2 e2 where one: "stage_and_deploy w b ips opts job s = (Inr (d1, e1), t)"
    and rest: "deploy_staged w b ips opts jobs t = (Inr (d2, e2), s')"
    and res: "deployed = (if d1 then [job] else []) @ d2"
    by (auto elim!: bnd_Ok_E split: prod.splits if_splits)
  have tab: "same_tables (ds_cat s) (ds_cat t)" using holdsD [OF frame_stage one] by (simp add: frame_cat_def)
  have okt: "catalog_ok (ds_cat t)" by (rule frame_ok [OF frame_stage one Cons.prems(3)])
  have first: "outcome [job] (if d1 then [job] else []) s t"
  proof -
    have oth: "other_job j s t" if "j \<noteq> job" for j by (rule holdsD [OF stage_other one]) (use that in simp)
    note res1 = stage_outcome [OF one Cons.prems(3)]
    show ?thesis
    proof (cases d1)
      case True
      then show ?thesis using res1 oth tab by (auto simp: outcome_def intro!: previous_other)
    next
      case False
      then show ?thesis using res1 oth tab by (simp add: outcome_def unpromoted_def)
    qed
  qed
  have "outcome jobs d2 t s'" by (rule Cons.IH [OF rest _ okt]) (use Cons.prems(2) in simp)
  from outcome_trans [OF first this _ Cons.prems(3)] Cons.prems(2) show ?case by (simp add: res)
qed

section \<open>Waves\<close>

lemma jobs_to_stage_subset:
  "jobs_to_stage w opts jobs s = (Inr (stage, errs), s') \<Longrightarrow> set stage \<subseteq> set jobs \<and> (distinct jobs \<longrightarrow> distinct stage)"
proof (induction jobs arbitrary: s stage errs)
  case (Cons job jobs)
  from Cons.prems obtain r :: "error + unit" and t where rest: "(case r of
       Inl e \<Rightarrow> bnd (jobs_to_stage w opts jobs) (\<lambda>(stage, errs). ret (stage, e # errs))
     | Inr _ \<Rightarrow>
         bnd (if o_force opts then ret True else query (\<lambda>c. JobNeedsRollout c job)) (\<lambda>needs.
         bnd (jobs_to_stage w opts jobs) (\<lambda>(stage, errs).
           ret (if needs then job # stage else stage, errs)))) t = (Inr (stage, errs), s')"
    unfolding jobs_to_stage.simps by (rule bnd_Ok_E)
  then obtain stage' errs' t' where "jobs_to_stage w opts jobs t' = (Inr (stage', errs'), s')"
    "stage = stage' \<or> stage = job # stage'"
    by (cases r) (auto elim!: bnd_Ok_E split: prod.splits if_splits)
  with Cons.IH show ?case by fastforce
qed simp

definition wave_jobs :: "catalog \<Rightarrow> string list \<Rightarrow> int \<Rightarrow> string list" where
  "wave_jobs c jobsFilter n = selectJobsForDeploy (GetJobsByDeploymentSeq c n) jobsFilter"

lemma distinct_wave: "distinct (wave_jobs c jf n)"
  by (auto simp: wave_jobs_def selectJobsForDeploy_def GetJobsByDeploymentSeq_def Let_def)

lemma outcome_after_unpromoted:
  assumes "unpromoted s t" and "outcome jobs deployed t u" and "\<forall>j. j \<notin> set all \<longrightarrow> other_job j s t"
    and "set jobs \<subseteq> set all"
  shows "outcome all deployed s u"
proof -
  have "other_job j s u" if "j \<notin> set all" for j
  proof (rule oj.trans)
    show "other_job j s t" using assms(3) that by blast
    show "other_job j t u" using assms(2,4) that by (auto simp: outcome_def)
  qed
  moreover have "same_tables (ds_cat s) (ds_cat u)"
    using assms(1,2) by (simp add: outcome_def unpromoted_def same_tables_def)
  moreover have "set deployed \<subseteq> set all" using assms(2,4) by (auto simp: outcome_def)
  ultimately show ?thesis using assms(1,2) by (simp add: outcome_def unpromoted_def)
qed

lemma deploy_wave_outcome:
  assumes run: "deploy_wave w b ips jf opts n s = (Inr (deployed, errs), s')" and ok: "catalog_ok (ds_cat s)"
  shows "outcome (wave_jobs (ds_cat s) jf n) deployed s s'"
proof (cases "wave_jobs (ds_cat s) jf n = []")
  case True
  with run show ?thesis by (auto simp: deploy_wave_def wave_jobs_def intro: outcome_none)
next
  case False
  let ?js = "wave_jobs (ds_cat s) jf n"
  from run False have "bnd (prepareWorkersFiles w ips) (\<lambda>_.
          bnd (jobs_to_stage w opts ?js) (\<lambda>(stage, errs).
          bnd (deploy_staged w b ips opts stage) (\<lambda>(deployed, more).
            ret (deployed, errs @ more)))) s = (Inr (deployed, errs), s')"
    by (simp add: deploy_wave_def wave_jobs_def)
  then obtain v s1 stage e1 s2 e2 where prep: "prepareWorkersFiles w ips s = (Inr v, s1)"
    and plan: "jobs_to_stage w opts ?js s1 = (Inr (stage, e1), s2)"
    and dep: "deploy_staged w b ips opts stage s2 = (Inr (deployed, e2), s')"
    by (auto elim!: bnd_Ok_E split: prod.splits)
  have "holds same_cat (prepareWorkersFiles w ips)" by (rule keeps_staging)
  then have c1: "ds_cat s1 = ds_cat s" using prep by (rule cat_kept)
  have up: "unpromoted s1 s2" by (rule holdsD [OF jobs_to_stage_unpromoted plan])
  have sub: "set stage \<subseteq> set ?js" "distinct stage"
    using jobs_to_stage_subset [OF plan] distinct_wave by auto
  have ok2: "catalog_ok (ds_cat s2)" using up ok c1 by (auto simp: unpromoted_def same_tables_def)
  have oth: "\<forall>j. j \<notin> set ?js \<longrightarrow> other_job j s1 s2"
    using holdsD [OF jobs_to_stage_other plan] by blast
  have "outcome ?js deployed s1 s'"
    by (rule outcome_after_unpromoted [OF up deploy_staged_outcome [OF dep sub(2) ok2] oth sub(1)])
  then show ?thesis by (simp add: outcome_def other_job_def settled_def c1)
qed

text \<open>Every allocation of a job that is not removed is in one wave, as the deployment sequence of the build
  leaves it.\<close>

definition one_wave :: "catalog \<Rightarrow> bool" where
  "one_wave c \<longleftrightarrow> (\<forall>a \<in> set (t_allocations c). \<forall>b \<in> set (t_allocations c).
     \<not> a_removed a \<longrightarrow> \<not> a_removed b \<longrightarrow> a_job a = a_job b \<longrightarrow> a_seq a = a_seq b)"

lemma set_wave: "j \<in> set (wave_jobs c jf n) \<Longrightarrow>
    \<exists>a \<in> set (t_allocations c). a_job a = j \<and> a_seq a = n \<and> \<not> a_removed a"
  by (auto simp: wave_jobs_def selectJobsForDeploy_def GetJobsByDeploymentSeq_def Let_def split: if_splits)

lemma wave_jobs_same: "same_tables c c' \<Longrightarrow> wave_jobs c' jf = wave_jobs c jf"
  by (simp add: fun_eq_iff wave_jobs_def GetJobsByDeploymentSeq_def same_tables_def jobs_named_def)

lemma one_wave_same: "same_tables c c' \<Longrightarrow> one_wave c' = one_wave c"
  by (simp only: one_wave_def same_tables_def)

lemma waves_disjoint:
  "one_wave c \<Longrightarrow> m \<notin> set ns \<Longrightarrow> set (wave_jobs c jf m) \<inter> set (concat (map (wave_jobs c jf) ns)) = {}"
proof -
  assume o: "one_wave c" and m: "m \<notin> set ns"
  have "False" if "j \<in> set (wave_jobs c jf m)" "n \<in> set ns" "j \<in> set (wave_jobs c jf n)" for j n
  proof -
    from set_wave [OF that(1)] set_wave [OF that(3)] o have "m = n" unfolding one_wave_def by metis
    with m that(2) show False by simp
  qed
  then show ?thesis by auto
qed

lemma deploy_waves_outcome:
  assumes "deploy_waves w b ips jf opts ns s = (Inr (deployed, errs), s')"
    and "catalog_ok (ds_cat s)" and "one_wave (ds_cat s)" and "distinct ns"
  shows "outcome (concat (map (wave_jobs (ds_cat s) jf) ns)) deployed s s'"
  using assms
proof (induction ns arbitrary: s deployed errs)
  case Nil
  then show ?case by (auto intro: outcome_none)
next
  case (Cons n ns)
  from Cons.prems(1) obtain d1 e1 t d2 e2 where one: "deploy_wave w b ips jf opts n s = (Inr (d1, e1), t)"
    and rest: "deploy_waves w b ips jf opts ns t = (Inr (d2, e2), s')" and res: "deployed = d1 @ d2"
    by (auto elim!: bnd_Ok_E split: prod.splits)
  note o1 = deploy_wave_outcome [OF one Cons.prems(2)]
  then have tab: "same_tables (ds_cat s) (ds_cat t)" by (simp add: outcome_def)
  then have okt: "catalog_ok (ds_cat t)" using Cons.prems(2) by (simp add: same_tables_def)
  have onet: "one_wave (ds_cat t)" using one_wave_same [OF tab] Cons.prems(3) by simp
  have "outcome (concat (map (wave_jobs (ds_cat t) jf) ns)) d2 t s'"
    by (rule Cons.IH [OF rest okt onet]) (use Cons.prems(4) in simp)
  then have "outcome (concat (map (wave_jobs (ds_cat s) jf) ns)) d2 t s'"
    by (simp add: wave_jobs_same [OF tab])
  from outcome_trans [OF o1 this waves_disjoint Cons.prems(2)] Cons.prems(3,4) show ?case by (simp add: res)
qed

section \<open>Reconciling\<close>

definition stopped_of :: "alloc_row \<Rightarrow> stopped_allocation" where
  "stopped_of a = \<lparr>sa_ip = a_ip a, sa_job = a_job a, sa_removed = a_removed a, sa_disabled = a_disabled a\<rparr>"

text \<open>The catalog without the hash rows of the removed allocations in a list.\<close>

definition forget :: "alloc_row list \<Rightarrow> catalog \<Rightarrow> catalog" where
  "forget as c = c\<lparr>t_hash := filter (\<lambda>h. \<not> (\<exists>a \<in> set as. a_removed a \<and>
     h_namespace h = allocation_namespace (a_job a) \<and> h_key h = a_id a)) (t_hash c)\<rparr>"

lemma same_tables_forget: "same_tables c (forget as c)"
  by (auto simp: same_tables_def forget_def catalog_ok_def distinct_map_filter)

lemma forget_Nil: "forget [] c = c"
  by (simp add: forget_def)

lemma forget_Cons:
  "forget (a # as) c =
    forget as (if a_removed a then RemoveAllocationHash c (a_job a) (a_id a) else c)"
  by (auto simp: forget_def RemoveAllocationHash_def RemoveHash_def intro!: arg_cong [where f = "\<lambda>hs. c\<lparr>t_hash := hs\<rparr>"]
      filter_cong)

lemma reconcile_one_cat:
  assumes run: "reconcileStoppedAllocation w b (stopped_of a) d s = (Inr u, s')"
    and ok: "catalog_ok (ds_cat s)" and a: "a \<in> set (t_allocations (ds_cat s))"
  shows "ds_cat s' = forget [a] (ds_cat s)"
proof -
  let ?stop = "runnerCmdCtx (a_job a) ''reconcile'' ''stop'' b"
  let ?prev = "GetPreviousHash (ds_cat s) (allocation_namespace (a_job a)) (a_id a)"
  let ?halt = "if ?prev \<noteq> [] then
                bnd (if d then runWorkerCommandOrAssumeDead w (a_ip a) ?stop
                     else runWorkerCommand w (a_ip a) ?stop []) (\<lambda>_.
                bnd (executeAfterAllocationStopped w (a_job a) (a_ip a)) (\<lambda>_.
                if a_removed a then removeJobDeployArtifactsFromWorker w b (a_ip a) (a_job a) d else ret ()))
              else ret ()"
  from run have "bnd ?halt (\<lambda>_. if a_removed a then change_cat (\<lambda>c. RemoveAllocationHash c (a_job a) (a_id a)) else ret ()) s
      = (Inr u, s')"
    by (simp only: reconcileStoppedAllocation_def stopped_of_def stopped_allocation.simps Let_def bnd_query
        GetAllocationID_Ok [OF ok a] sum.case bnd_simps)
  then obtain v t where halt: "?halt s = (Inr v, t)"
    and rest: "(if a_removed a then change_cat (\<lambda>c. RemoveAllocationHash c (a_job a) (a_id a)) else ret ()) t = (Inr u, s')"
    by (rule bnd_Ok_E)
  have "holds same_cat ?halt" by (intro keeps keeps_commands keeps_prune)
  then have "ds_cat t = ds_cat s" using halt by (rule cat_kept)
  then show ?thesis using rest by (auto simp: forget_Cons forget_Nil split: if_splits)
qed

lemma reconcile_loop_cat:
  assumes "reconcile_loop w b cur acc (map stopped_of as) s = (Inr r, s')"
    and "catalog_ok (ds_cat s)" and "set as \<subseteq> set (t_allocations (ds_cat s))"
  shows "ds_cat s' = forget as (ds_cat s)"
  using assms
proof (induction as arbitrary: s acc)
  case Nil
  then show ?case by (simp add: forget_Nil)
next
  case (Cons a as)
  from Cons.prems(1) obtain d acc' t v where one: "reconcileStoppedAllocation w b (stopped_of a) d s = (Inr v, t)"
    and rest: "reconcile_loop w b cur acc' (map stopped_of as) t = (Inr r, s')"
    by (auto simp: bnd_query elim!: bnd_Ok_E split: sum.splits)
  have c: "ds_cat t = forget [a] (ds_cat s)" by (rule reconcile_one_cat [OF one Cons.prems(2)]) (use Cons.prems(3) in simp)
  then have tab: "same_tables (ds_cat s) (ds_cat t)" by (simp add: same_tables_forget)
  have "ds_cat s' = forget as (ds_cat t)"
    by (rule Cons.IH [OF rest]) (use tab Cons.prems(2,3) in \<open>simp_all add: same_tables_def\<close>)
  then show ?case by (simp add: c forget_Cons forget_Nil)
qed

lemma reconcile_cat:
  assumes run: "reconcileRemovedAndDisabledAllocations w b s = (Inr u, s')" and ok: "catalog_ok (ds_cat s)"
  shows "ds_cat s' = forget (t_allocations (ds_cat s)) (ds_cat s)"
proof -
  let ?as = "filter (\<lambda>a. a_removed a \<or> a_disabled a) (t_allocations (ds_cat s))"
  let ?tail = "\<lambda>healthJobs offCatalog. bnd (reads (\<lambda>s. schedule w (ds_trace s) healthJobs)) (\<lambda>jobs.
     bnd (dfor (\<lambda>job.
            bnd (query (\<lambda>c. countActiveAllocations c job)) (\<lambda>n.
            if n > 0 then HealthCheck w True job else ret ())) jobs) (\<lambda>_.
     bnd (reads (\<lambda>s. schedule w (ds_trace s) offCatalog)) (\<lambda>ips.
     bnd (dfor (removeWorkerBucketFromWorker w b) ips) (\<lambda>_.
     purgeJobCommandKVForInactiveJobs w (ListStoppedAllocations (ds_cat s))))))"
  have stopped: "ListStoppedAllocations (ds_cat s) = map stopped_of ?as"
    by (simp add: ListStoppedAllocations_def stopped_of_def)
  from run have "bnd (reconcile_loop w b (LoadWorkerCatalog (ds_cat s)) ([], []) (map stopped_of ?as))
      (\<lambda>(hj, oc). ?tail hj oc) s = (Inr u, s')"
    unfolding stopped [symmetric] by (simp add: reconcileRemovedAndDisabledAllocations_def)
  then obtain r t where loop: "reconcile_loop w b (LoadWorkerCatalog (ds_cat s)) ([], []) (map stopped_of ?as) s = (Inr r, t)"
    and tail: "(case r of (hj, oc) \<Rightarrow> ?tail hj oc) t = (Inr u, s')" by (rule bnd_Ok_E)
  have "holds same_cat (?tail hj oc)" for hj oc
    by (intro keeps keeps_HealthCheck keeps_prune)
  then have "holds same_cat (case r of (hj, oc) \<Rightarrow> ?tail hj oc)" by (cases r) simp
  then have "ds_cat s' = ds_cat t" using tail by (rule cat_kept)
  moreover have "ds_cat t = forget ?as (ds_cat s)" by (rule reconcile_loop_cat [OF loop ok]) auto
  moreover have "forget ?as (ds_cat s) = forget (t_allocations (ds_cat s)) (ds_cat s)"
    by (auto simp: forget_def intro!: arg_cong [where f = "\<lambda>hs. (ds_cat s)\<lparr>t_hash := hs\<rparr>"] filter_cong)
  ultimately show ?thesis by simp
qed

lemma forget_live:
  assumes "catalog_ok c" and "a \<in> set (t_allocations c)" and "\<not> a_removed a"
  shows "hash_rows (forget (t_allocations c) c) (allocation_namespace (a_job a)) (a_id a) =
    hash_rows c (allocation_namespace (a_job a)) (a_id a)"
proof -
  have "b = a" if "b \<in> set (t_allocations c)" "a_id b = a_id a" for b
    using same_id [OF assms(1,2) that] .
  then show ?thesis using assms(3) by (auto simp: hash_rows_def forget_def intro!: filter_cong) blast
qed

lemma forget_removed:
  assumes "a \<in> set (t_allocations c)" and "a_removed a"
  shows "hash_rows (forget (t_allocations c) c) (allocation_namespace (a_job a)) (a_id a) = []"
  using assms by (auto simp: hash_rows_def forget_def filter_empty_conv)

section \<open>A whole deploy\<close>

lemma UpdateSeq_Ok:
  assumes "UpdateSeq c = Inr c'"
  shows "t_allocations c' = t_allocations c" "t_job c' = t_job c" "t_hash c' = t_hash c" "catalog_ok c' = catalog_ok c"
  using assms by (cases "GetBucketUpdateSeq c"; auto simp: UpdateSeq_def SetBucketUpdateSeq_def catalog_ok_def)+

text \<open>What the parts of a successful \<open>Execute\<close> are.\<close>

lemma deployExecute_parts:
  assumes "deployExecute w needsBun useSudo jf opts s0 = (Inr (deployed, errs), s')"
  obtains c st b u1 s1 u2 s2 n ips jobs es s3 where
    "UpdateSeq (ds_cat s0) = Inr c"
    "CheckPrerequisites w ips useSudo (s0\<lparr>ds_cat := c, ds_tmp := [], ds_store := st\<rparr>) = (Inr u1, s1)"
    "reconcileRemovedAndDisabledAllocations w b s1 = (Inr u2, s2)"
    "deploy_waves w b ips jobs opts [0..n] s2 = (Inr (deployed, es), s3)"
    "ds_cat s' = ds_cat s3" "jobs = normalizeJobFilter jf" "n = GetMaxDeploymentSeq c"
proof -
  from assms obtain c st where c: "UpdateSeq (ds_cat s0) = Inr c" and st: "LoadFromTransaction (ds_table s0) = Inr st"
    by (auto simp: deployExecute_def split: sum.splits)
  let ?s = "s0\<lparr>ds_cat := c, ds_tmp := [], ds_store := st\<rparr>"
  let ?ips = "GetWorkers c []" and ?n = "GetMaxDeploymentSeq c" and ?jf = "normalizeJobFilter jf"
  from assms obtain b where "bnd (pureR (CheckLocalDeploy w needsBun)) (\<lambda>_.
          bnd (CheckPrerequisites w ?ips useSudo) (\<lambda>_.
          bnd (reconcileRemovedAndDisabledAllocations w b) (\<lambda>_.
          bnd (deploy_waves w b ?ips ?jf opts [0..?n]) (\<lambda>(deployed, errs).
          bnd (if deployed = [] then ret []
               else bnd (attempt (finalSyncDeployedJobs w b deployed)) (\<lambda>r.
                      ret (case r of Inl e \<Rightarrow> [e] | Inr _ \<Rightarrow> []))) (\<lambda>more.
          ret (deployed, errs @ more)))))) ?s = (Inr (deployed, errs), s')"
    by (auto simp: deployExecute_def c st bnd_query split: sum.splits)
  then obtain u0 s00 u1 s1 u2 s2 r s3 where "pureR (CheckLocalDeploy w needsBun) ?s = (Inr u0, s00)"
    and chk: "CheckPrerequisites w ?ips useSudo s00 = (Inr u1, s1)"
    and rec: "reconcileRemovedAndDisabledAllocations w b s1 = (Inr u2, s2)"
    and wav: "deploy_waves w b ?ips ?jf opts [0..?n] s2 = (Inr r, s3)"
    and rest: "(case r of (deployed, errs) \<Rightarrow> bnd (if deployed = [] then ret []
               else bnd (attempt (finalSyncDeployedJobs w b deployed)) (\<lambda>r.
                      ret (case r of Inl e \<Rightarrow> [e] | Inr _ \<Rightarrow> []))) (\<lambda>more.
          ret (deployed, errs @ more))) s3 = (Inr (deployed, errs), s')"
    by (elim bnd_Ok_E)
  from this(1) have "s00 = ?s" by simp
  obtain es where r: "r = (deployed, es)"
    using rest by (auto elim!: bnd_Ok_E split: prod.splits)
  have fs: "holds same_cat (final_sync_jobs w b ready js)" for ready js
    by (induction js arbitrary: ready) (auto intro!: keeps keeps_sync keeps_staging)
  have "holds same_cat (if deployed = [] then ret []
               else bnd (attempt (finalSyncDeployedJobs w b deployed)) (\<lambda>r.
                      ret (case r of Inl e \<Rightarrow> [e] | Inr _ \<Rightarrow> [])))"
    unfolding finalSyncDeployedJobs_def by (intro keeps fs)
  moreover obtain more t where "(if deployed = [] then ret []
               else bnd (attempt (finalSyncDeployedJobs w b deployed)) (\<lambda>r.
                      ret (case r of Inl e \<Rightarrow> [e] | Inr _ \<Rightarrow> []))) s3 = (Inr more, t)"
      "ret (deployed, es @ more) t = (Inr (deployed, errs), s')"
    using rest unfolding r prod.case by (rule bnd_Ok_E)
  ultimately have "ds_cat t = ds_cat s3" "s' = t" by (blast intro: cat_kept, simp)
  with chk rec wav show ?thesis using that [OF c] \<open>s00 = ?s\<close> by (simp add: r)
qed

text \<open>A small bucket with two jobs on one worker, in a world where only the start of one job fails.\<close>

definition quiet_world :: "(event \<Rightarrow> bool) \<Rightarrow> world" where
  "quiet_world ok = \<lparr>wd_ok = (\<lambda>_. ok), wd_status = (\<lambda>_ _. Some 200), wd_requests = (\<lambda>_ _. []),
     wd_order = (\<lambda>_ ips. ips), wd_now = (\<lambda>_. 0), wd_enc = Ok, wd_dec = Ok, wd_md5 = (\<lambda>x. x),
     wd_template = (\<lambda>_ _ x. Ok x), wd_prometheus = (\<lambda>_ _. Ok []), wd_workspace = (\<lambda>_. []),
     wd_tool = (\<lambda>_. True), wd_embedded = (\<lambda>x. x)\<rparr>"

definition job_files :: "string \<Rightarrow> file_row list" where
  "job_files job = [\<lparr>f_job_id = job, f_path = job, f_content = [], f_isdir = True\<rparr>,
     \<lparr>f_job_id = job, f_path = job @ ''/run'', f_content = ''x'', f_isdir = False\<rparr>]"

definition two_jobs :: catalog where
  "two_jobs = empty_catalog\<lparr>t_bucket := [\<lparr>b_id = ''b'', b_update_seq = 4\<rparr>],
     t_worker := [plain_worker ''w'' 0], t_job := [plain_job ''a'', plain_job ''d''],
     t_job_files := job_files ''a'' @ job_files ''d'',
     t_allocations := [plain_alloc ''w'' ''a'', plain_alloc ''w'' ''d'']\<rparr>"

definition with_ca :: "catalog \<Rightarrow> dstate" where
  "with_ca c = \<lparr>ds_cat = c, ds_store = [], ds_table = [\<lparr>kr_key = ''certs/ca.crt'', kr_value = ''c'',
       kr_namespace = ''maand/worker'', kr_version = 1, kr_ttl = 0, kr_created = ''0'', kr_deleted = False\<rparr>],
     ds_tmp = [], ds_trace = []\<rparr>"

definition no_opts :: deploy_options where "no_opts = \<lparr>o_force = False, o_sync_only = False\<rparr>"

definition starts_fail_for :: "string \<Rightarrow> event \<Rightarrow> bool" where
  "starts_fail_for job e \<longleftrightarrow> (case e of WorkerCommand _ cx _ \<Rightarrow> \<not> (cc_job cx = job \<and> cc_action cx = ''start'') | _ \<Rightarrow> True)"

lemma two_jobs_deploy:
  "fst (deployExecute (quiet_world (starts_fail_for ''d'')) False False [] no_opts (with_ca two_jobs)) =
    Inr ([''a''], [ErrJoined])"
  by code_simp

lemma two_jobs_ok: "catalog_ok two_jobs" "one_wave two_jobs"
  by code_simp+

text \<open>Property C3: when a deploy ends, every job it reports as deployed needs no rollout, so that the next
  deploy leaves it alone unless its content or version changes; every live allocation of any other job, be it
  skipped or failed at any point of its pipeline, still has the hash it was last promoted with, so that a
  failed job is taken up again. Nothing is assumed about workers, scripts and templates.\<close>

theorem deploy_settles_exactly_the_deployed:
  assumes run: "deployExecute w needsBun useSudo jf opts s0 = (Inr (deployed, errs), s')"
    and ok: "catalog_ok (ds_cat s0)" and one: "one_wave (ds_cat s0)"
  shows "(\<forall>job \<in> set deployed. JobNeedsRollout (ds_cat s') job = Ok False) \<and>
    (\<forall>a \<in> set (t_allocations (ds_cat s0)). \<not> a_removed a \<longrightarrow> a_job a \<notin> set deployed \<longrightarrow>
      GetPreviousHash (ds_cat s') (allocation_namespace (a_job a)) (a_id a) =
      GetPreviousHash (ds_cat s0) (allocation_namespace (a_job a)) (a_id a))"
proof -
  from deployExecute_parts [OF run] obtain c st b u1 s1 u2 s2 n ips jobs es s3 where c: "UpdateSeq (ds_cat s0) = Inr c"
    and chk: "CheckPrerequisites w ips useSudo (s0\<lparr>ds_cat := c, ds_tmp := [], ds_store := st\<rparr>) = (Inr u1, s1)"
    and rec: "reconcileRemovedAndDisabledAllocations w b s1 = (Inr u2, s2)"
    and wav: "deploy_waves w b ips jobs opts [0..n] s2 = (Inr (deployed, es), s3)" and s': "ds_cat s' = ds_cat s3" .
  note seq = UpdateSeq_Ok [OF c]
  have c1: "ds_cat s1 = c" using cat_kept [OF keeps_CheckPrerequisites chk] by simp
  have okc: "catalog_ok (ds_cat s1)" using seq ok by (simp add: c1)
  have onec: "one_wave (ds_cat s1)" using one unfolding c1 one_wave_def seq .
  have c2: "ds_cat s2 = forget (t_allocations c) c" using reconcile_cat [OF rec okc] c1 by simp
  have tab: "same_tables c (ds_cat s2)" unfolding c2 by (rule same_tables_forget)
  have "outcome (concat (map (wave_jobs (ds_cat s2) jobs) [0..n])) deployed s2 s3"
    by (rule deploy_waves_outcome [OF wav]) (use okc onec tab c1 one_wave_same [OF tab] in \<open>auto simp: same_tables_def\<close>)
  note out = this [unfolded outcome_def]
  show ?thesis
  proof
  show "\<forall>job \<in> set deployed. JobNeedsRollout (ds_cat s') job = Ok False"
    using out by (simp add: settled_def s')
  show "\<forall>a \<in> set (t_allocations (ds_cat s0)). \<not> a_removed a \<longrightarrow> a_job a \<notin> set deployed \<longrightarrow>
      GetPreviousHash (ds_cat s') (allocation_namespace (a_job a)) (a_id a) =
      GetPreviousHash (ds_cat s0) (allocation_namespace (a_job a)) (a_id a)"
  proof (intro ballI impI)
    fix a assume a: "a \<in> set (t_allocations (ds_cat s0))" "\<not> a_removed a" "a_job a \<notin> set deployed"
    have "hash_rows (ds_cat s2) (allocation_namespace (a_job a)) (a_id a) =
        hash_rows (ds_cat s0) (allocation_namespace (a_job a)) (a_id a)"
      unfolding c2 using forget_live [of c a] a seq okc c1 by (simp add: hash_rows_def)
    then show "GetPreviousHash (ds_cat s') (allocation_namespace (a_job a)) (a_id a) =
        GetPreviousHash (ds_cat s0) (allocation_namespace (a_job a)) (a_id a)"
      using out a(3) by (simp add: s' GetPreviousHash_def)
  qed
  qed
qed

theorem deploy_settles_exactly_the_deployed_witness:
  "\<exists>s'. deployExecute (quiet_world (starts_fail_for ''d'')) False False [] no_opts (with_ca two_jobs) =
      (Inr ([''a''], [ErrJoined]), s') \<and> JobNeedsRollout (ds_cat s') ''a'' = Ok False \<and>
    GetPreviousHash (ds_cat s') (allocation_namespace ''d'') ''d|w'' = []"
proof -
  obtain s' where s': "deployExecute (quiet_world (starts_fail_for ''d'')) False False [] no_opts (with_ca two_jobs) =
      (Inr ([''a''], [ErrJoined]), s')"
    using two_jobs_deploy by (metis prod.collapse)
  have cat: "ds_cat (with_ca two_jobs) = two_jobs" by (simp add: with_ca_def)
  have d: "plain_alloc ''w'' ''d'' \<in> set (t_allocations two_jobs)"
    "GetPreviousHash two_jobs (allocation_namespace ''d'') ''d|w'' = []" by code_simp+
  have "JobNeedsRollout (ds_cat s') ''a'' = Ok False \<and>
      GetPreviousHash (ds_cat s') (allocation_namespace ''d'') ''d|w'' = GetPreviousHash two_jobs (allocation_namespace ''d'') ''d|w''"
    using deploy_settles_exactly_the_deployed [OF s'] d(1) two_jobs_ok by (force simp: cat plain_alloc_def)
  then show ?thesis using s' d(2) by simp
qed

text \<open>Property C31: reconciling forgets exactly the removed allocations. When it succeeds, the catalog differs
  from before only in that the hash rows of removed allocations are gone, so that a removed allocation that
  comes back is new again, and every other row is as it was.\<close>

theorem reconcile_forgets_exactly_removed:
  assumes "reconcileRemovedAndDisabledAllocations w bucketID s = (Inr u, s')" and "catalog_ok (ds_cat s)"
  shows "ds_cat s' = (ds_cat s)\<lparr>t_hash := filter (\<lambda>h. \<not> (\<exists>a \<in> set (t_allocations (ds_cat s)). a_removed a \<and>
      h_namespace h = allocation_namespace (a_job a) \<and> h_key h = a_id a)) (t_hash (ds_cat s))\<rparr>"
  using reconcile_cat [OF assms] by (simp only: forget_def)

text \<open>One job of the two was removed from its worker after it had been deployed.\<close>

definition one_removed :: catalog where
  "one_removed = two_jobs\<lparr>
     t_allocations := [plain_alloc ''w'' ''a'', (plain_alloc ''w'' ''d'')\<lparr>a_removed := True\<rparr>],
     t_hash := [plain_hash (plain_alloc ''w'' ''a'') (Some ''x'') ''x'', plain_hash (plain_alloc ''w'' ''d'') (Some ''x'') ''x'']\<rparr>"

lemma one_removed_reconciles:
  "fst (reconcileRemovedAndDisabledAllocations (quiet_world (\<lambda>_. True)) ''b'' (with_ca one_removed)) = Inr ()"
  by code_simp

theorem reconcile_forgets_exactly_removed_witness:
  "t_hash (ds_cat (snd (reconcileRemovedAndDisabledAllocations (quiet_world (\<lambda>_. True)) ''b'' (with_ca one_removed)))) =
     [plain_hash (plain_alloc ''w'' ''a'') (Some ''x'') ''x'']"
proof -
  obtain s' where s': "reconcileRemovedAndDisabledAllocations (quiet_world (\<lambda>_. True)) ''b'' (with_ca one_removed) = (Inr (), s')"
    using one_removed_reconciles by (metis prod.collapse)
  have cat: "ds_cat (with_ca one_removed) = one_removed" by (simp add: with_ca_def)
  have ok: "catalog_ok one_removed" by code_simp
  have rows: "filter (\<lambda>h. \<not> (\<exists>a \<in> set (t_allocations one_removed). a_removed a \<and>
      h_namespace h = allocation_namespace (a_job a) \<and> h_key h = a_id a)) (t_hash one_removed) =
      [plain_hash (plain_alloc ''w'' ''a'') (Some ''x'') ''x'']" by code_simp
  show ?thesis using reconcile_forgets_exactly_removed [OF s'] ok rows by (simp add: s' cat)
qed

end
