(* ===== verification/Batches.thy ===== *)
theory Batches
  imports Settled
begin

text \<open>
  Batches of starts and restarts: a rollout that succeeds has reached every worker it was meant for, and one
  that fails has stopped at the batch that failed.
\<close>

section \<open>Batches of a list\<close>

lemma concat_take_chunks: "n > 0 \<Longrightarrow> concat (take k (chunks n xs)) = take (k * n) xs"
proof (induction k arbitrary: xs)
  case (Suc k)
  show ?case
  proof (cases "xs = []")
    case False
    with Suc show ?thesis
      by (simp add: chunks_step) (metis add.commute take_add)
  qed simp
qed simp

lemma map_snd_indexed: "map snd (indexed_batches n xs) = chunks (nat n) xs"
  by (simp add: indexed_batches_def Let_def)

lemma set_take_batches:
  "n > 0 \<Longrightarrow> (\<Union>b \<in> set (take k (indexed_batches n xs)). set (snd b)) = set (take (k * nat n) xs)"
proof -
  assume n: "n > 0"
  have "(\<Union>b \<in> set (take k (indexed_batches n xs)). set (snd b)) = set (concat (take k (map snd (indexed_batches n xs))))"
    by (simp add: take_map)
  then show ?thesis using concat_take_chunks [of "nat n" k xs] n by (simp add: map_snd_indexed)
qed

lemma set_batches: "n > 0 \<Longrightarrow> (\<Union>b \<in> set (indexed_batches n xs). set (snd b)) = set xs"
proof -
  have "(\<Union>b \<in> set (indexed_batches n xs). set (snd b)) = set (concat (map snd (indexed_batches n xs)))" by simp
  then show ?thesis by (simp only: map_snd_indexed concat_chunks)
qed

lemma set_ro_ordered: "candidates \<noteq> [] \<Longrightarrow> set (ro_ordered (ResolveRolloutOrder c kv job candidates)) = set candidates"
  by (auto simp: ResolveRolloutOrder_def Let_def validate_order_iff append_missing_props defaultCatalogOrder_def
      orderByList_def split: option.split)

section \<open>Answered events\<close>

text \<open>The event was sent during the step, and the outside accepted it then.\<close>

definition answered :: "world \<Rightarrow> (event \<Rightarrow> bool) \<Rightarrow> dstate \<Rightarrow> dstate \<Rightarrow> bool" where
  "answered w Q s s' \<longleftrightarrow> (\<exists>later ev new. ds_trace s' = later @ ev # new @ ds_trace s \<and> Q ev \<and>
     wd_ok w (new @ ds_trace s) ev)"

lemma answered_before: "answered w Q s t \<Longrightarrow> emits P t u \<Longrightarrow> answered w Q s u"
  unfolding answered_def emits_def by (metis append.assoc)

lemma answered_after: "emits P s t \<Longrightarrow> answered w Q t u \<Longrightarrow> answered w Q s u"
  unfolding answered_def emits_def by (metis append.assoc)

abbreviation any :: "event \<Rightarrow> bool" where
  "any \<equiv> \<lambda>_. True"

lemma emits_any_any: "emits P s t \<Longrightarrow> emits any s t"
  by (auto simp: emits_def)

text \<open>The step was taken within a longer run, and returned without an error.\<close>

definition succeeded :: "unit act \<Rightarrow> dstate \<Rightarrow> dstate \<Rightarrow> bool" where
  "succeeded m s s' \<longleftrightarrow> (\<exists>t t'. emits any s t \<and> m t = (Inr (), t') \<and> emits any t' s')"

lemma succeeded_now: "m s = (Inr (), t) \<Longrightarrow> emits any t s' \<Longrightarrow> succeeded m s s'"
  unfolding succeeded_def using em.refl [of any s] by blast

lemma succeeded_within: "emits any s t \<Longrightarrow> succeeded m t t' \<Longrightarrow> emits any t' s' \<Longrightarrow> succeeded m s s'"
  unfolding succeeded_def using em.trans by blast

lemma succeeded_later: "emits any s t \<Longrightarrow> succeeded m t s' \<Longrightarrow> succeeded m s s'"
  by (rule succeeded_within [OF _ _ em.refl])

lemma dall_Nil:
  assumes "dall f xs s = (Inr [], s')" and "x \<in> set xs" and "\<And>x. holds (emits any) (f x)"
  shows "succeeded (f x) s s'"
  using assms
proof (induction xs arbitrary: s)
  case (Cons y ys)
  obtain r t where y: "f y s = (r, t)" by fastforce
  from Cons.prems(1) have rest: "dall f ys t = (Inr [], s')" and r: "r = Inr ()"
    using y by (auto simp: attempt_def bnd_def split: prod.splits sum.splits)
  have st: "emits any s t" by (rule holdsD [OF Cons.prems(3) y])
  have ts': "emits any t s'"
    by (rule holdsD [OF em.dall rest]) (rule Cons.prems(3))
  show ?case
  proof (cases "x = y")
    case True
    then have "f x s = (Inr (), t)" using y r by simp
    then show ?thesis using ts' by (rule succeeded_now)
  next
    case False
    then have "x \<in> set ys" using Cons.prems(2) by simp
    from succeeded_later [OF st Cons.IH [OF rest this Cons.prems(3)]] show ?thesis .
  qed
qed simp

lemma runParallelWorkers_each:
  assumes "runParallelWorkers w ips n f s = (Inr u, s')" and "ip \<in> set ips" and "\<And>ip. holds (emits any) (f ip)"
  shows "succeeded (f ip) s s'"
proof -
  from assms(2) have "ips \<noteq> []" by auto
  with assms(1) have "bnd (dall f (schedule w (ds_trace s) ips)) (\<lambda>es. pureR (joinErrors es)) s = (Inr u, s')"
    by (simp add: runParallelWorkers_def)
  then obtain es t where run: "dall f (schedule w (ds_trace s) ips) s = (Inr es, t)" and "joinErrors es = Inr u" "s' = t"
    by (auto elim: bnd_Ok_E)
  then have "dall f (schedule w (ds_trace s) ips) s = (Inr [], s')" by (auto simp: joinErrors_def split: if_splits)
  then show ?thesis by (rule dall_Nil) (use assms(2,3) em.set_schedule in auto)
qed

lemma dfor_each:
  assumes "dfor f xs s = (Inr u, s')" and "x \<in> set xs" and "\<And>x. holds (emits any) (f x)"
  shows "succeeded (f x) s s'"
  using assms
proof (induction xs arbitrary: s)
  case (Cons y ys)
  from Cons.prems(1) obtain t v where y: "f y s = (Inr v, t)" and rest: "dfor f ys t = (Inr u, s')"
    unfolding dfor_Ok_Cons by blast
  have st: "emits any s t" by (rule holdsD [OF Cons.prems(3) y])
  have ts': "emits any t s'" by (rule holdsD [OF em.dfor rest]) (rule Cons.prems(3))
  show ?case
  proof (cases "x = y")
    case True
    then have "f x s = (Inr (), t)" using y by simp
    then show ?thesis using ts' by (rule succeeded_now)
  next
    case False
    then have "x \<in> set ys" using Cons.prems(2) by simp
    from succeeded_later [OF st Cons.IH [OF rest this Cons.prems(3)]] show ?thesis .
  qed
qed simp

text \<open>A lifecycle command that returns no error was answered.\<close>

definition is_lifecycle :: "string \<Rightarrow> string \<Rightarrow> string \<Rightarrow> string \<Rightarrow> event \<Rightarrow> bool" where
  "is_lifecycle bucketID job action ip e \<longleftrightarrow>
     (case e of WorkerCommand i cx _ \<Rightarrow> i = ip \<and> cx = runnerCmdCtx job ''rollout'' action bucketID | _ \<Rightarrow> False)"

lemma emits_lifecycle:
  assumes "\<And>e. is_lifecycle b job action ip e \<Longrightarrow> P e"
  shows "holds (emits P) (lifecycle_command w b job action ip)"
proof -
  have "P (WorkerCommand ip (runnerCmdCtx job ''rollout'' action b) env)" for env
    by (rule assms) (simp add: is_lifecycle_def)
  then show ?thesis
    by (auto simp: lifecycle_command_def runWorkerCommand_def intro!: emitting holds_outside(2))
qed

lemma lifecycle_answered:
  "lifecycle_command w b job action ip s = (Inr u, s') \<Longrightarrow> answered w (is_lifecycle b job action ip) s s'"
  by (auto simp: lifecycle_command_def bnd_query runWorkerCommand_def outside_def answered_def is_lifecycle_def
      split: sum.splits if_splits intro!: exI [of _ "[]"])

section \<open>What a batch sends\<close>

definition is_hook :: "string \<Rightarrow> event \<Rightarrow> bool" where
  "is_hook job e \<longleftrightarrow> is_script job ''after_allocation_started'' UNIV e \<or> is_check job e"

lemma emits_started:
  assumes "\<And>e. is_hook job e \<Longrightarrow> P e"
  shows "holds (emits P) (executeAfterAllocationStarted w job ips bc)"
  by (auto simp: executeAfterAllocationStarted_def executeAllocationEventHooks_def intro!: emitting
      emits_JobCommandOnWorkers assms) (auto simp: is_hook_def is_script_def split: event.splits)

lemma emits_restart_batch:
  assumes "\<And>e. is_hook job e \<Longrightarrow> P e" and "\<And>ip. ip \<in> set (snd b) \<Longrightarrow> holds (emits P) (f ip)"
  shows "holds (emits P) (restart_batch w job resolved n f b)"
  unfolding restart_batch_def
  by (intro em.bnd em.runParallelWorkers emits_started emits_HealthCheck assms) (auto intro: assms(1) simp: is_hook_def)

lemma restart_batch_each:
  assumes run: "restart_batch w job resolved n f b s = (Inr u, s')" and ip: "ip \<in> set (snd b)"
    and f: "\<And>ip. holds (emits any) (f ip)"
  shows "succeeded (f ip) s s'"
proof -
  from run obtain v s1 where par: "runParallelWorkers w (snd b) (int (length (snd b))) f s = (Inr v, s1)"
    and rest: "bnd (executeAfterAllocationStarted w job (snd b) (batch_of job ''update'' resolved n b)) (\<lambda>_.
     HealthCheck w True job) s1 = (Inr u, s')" unfolding restart_batch_def by (rule bnd_Ok_E)
  have "holds (emits any) (bnd (executeAfterAllocationStarted w job (snd b) (batch_of job ''update'' resolved n b)) (\<lambda>_.
     HealthCheck w True job))" by (intro em.bnd emits_started emits_HealthCheck; simp)
  then have "emits any s1 s'" using rest by (rule holdsD)
  with em.refl runParallelWorkers_each [OF par ip f] show ?thesis by (rule succeeded_within)
qed

section \<open>Rollouts\<close>

text \<open>The batches of a restart: \<open>max_concurrent_upgrades\<close> workers each, in the resolved order.\<close>

definition restart_size :: "catalog \<Rightarrow> string \<Rightarrow> int" where
  "restart_size c job = (case GetMaxConcurrentUpgrades c job of Inr n \<Rightarrow> if n < 1 then 1 else n | Inl _ \<Rightarrow> 1)"

definition restart_batches :: "dstate \<Rightarrow> string \<Rightarrow> string list \<Rightarrow> (nat \<times> string list) list" where
  "restart_batches s job active =
     indexed_batches (restart_size (ds_cat s) job) (ro_ordered (ResolveRolloutOrder (ds_cat s) (ds_store s) job active))"

lemma restart_size_pos: "restart_size c job > 0"
  by (auto simp: restart_size_def split: sum.split)

definition run_restart ::
  "world \<Rightarrow> string \<Rightarrow> string list \<Rightarrow> (string \<Rightarrow> unit act) \<Rightarrow> dstate \<Rightarrow> nat \<times> string list \<Rightarrow> unit act" where
  "run_restart w job active f s =
     (let resolved = ResolveRolloutOrder (ds_cat s) (ds_store s) job active
      in restart_batch w job resolved (batchCount (int (length (ro_ordered resolved))) (restart_size (ds_cat s) job)) f)"

lemma rolloutRestartBatches_eq:
  assumes "activeWorkers (ds_cat s) cands job = Ok active" and "active \<noteq> []" and "cands \<noteq> []"
    and "GetMaxConcurrentUpgrades (ds_cat s) job = Ok n"
  shows "rolloutRestartBatches w job cands f s = dfor (run_restart w job active f s) (restart_batches s job active) s"
  using assms
  by (simp add: rolloutRestartBatches_def bnd_query run_restart_def restart_batches_def restart_size_def Let_def)

lemma run_restart_each:
  "run_restart w job active f s0 b s = (Inr u, s') \<Longrightarrow> ip \<in> set (snd b) \<Longrightarrow> (\<And>ip. holds (emits any) (f ip)) \<Longrightarrow>
   succeeded (f ip) s s'"
  unfolding run_restart_def Let_def by (rule restart_batch_each)

lemma emits_run_restart:
  assumes "\<And>e. is_hook job e \<Longrightarrow> P e" and "\<And>ip. ip \<in> set (snd b) \<Longrightarrow> holds (emits P) (f ip)"
  shows "holds (emits P) (run_restart w job active f s0 b)"
  unfolding run_restart_def Let_def by (rule emits_restart_batch) (use assms in auto)

lemma emits_any_lifecycle: "holds (emits any) (lifecycle_command w b job action ip)"
  by (rule emits_lifecycle) simp

lemma succeeded_answered:
  "succeeded (lifecycle_command w b job action ip) s s' \<Longrightarrow> answered w (is_lifecycle b job action ip) s s'"
  unfolding succeeded_def by (blast intro: answered_before answered_after lifecycle_answered)

text \<open>Property C14: a restart that succeeds reached everyone. When a rolling restart returns without an error,
  every active candidate was sent the command, and the worker accepted it.\<close>

theorem restart_reaches_every_candidate:
  assumes run: "rolloutRestartBatches w job cands (lifecycle_command w bucketID job action) s = (Inr u, s')"
    and act: "activeWorkers (ds_cat s) cands job = Ok active" and ip: "ip \<in> set active"
  shows "answered w (is_lifecycle bucketID job action ip) s s'"
proof -
  have ne: "active \<noteq> []" using ip by auto
  have cn: "cands \<noteq> []" using act ne by (cases cands) auto
  obtain n where n: "GetMaxConcurrentUpgrades (ds_cat s) job = Ok n"
    using run act ne cn by (auto simp: rolloutRestartBatches_def bnd_query split: sum.splits)
  let ?f = "run_restart w job active (lifecycle_command w bucketID job action) s"
  have loop: "dfor ?f (restart_batches s job active) s = (Inr u, s')"
    using run rolloutRestartBatches_eq [OF act ne cn n] by simp
  obtain b where b: "b \<in> set (restart_batches s job active)" "ip \<in> set (snd b)"
  proof -
    have "ip \<in> (\<Union>b \<in> set (restart_batches s job active). set (snd b))"
      unfolding restart_batches_def set_batches [OF restart_size_pos] set_ro_ordered [OF ne] by (rule ip)
    then show ?thesis using that by (elim UN_E)
  qed
  have em: "holds (emits any) (?f b)" for b by (rule emits_run_restart) (simp_all add: emits_any_lifecycle)
  from dfor_each [OF loop b(1) em] obtain t t' where t: "emits any s t" "?f b t = (Inr (), t')" "emits any t' s'"
    unfolding succeeded_def by blast
  have "succeeded (lifecycle_command w bucketID job action ip) t t'"
    by (rule run_restart_each [OF t(2) b(2) emits_any_lifecycle])
  then have "succeeded (lifecycle_command w bucketID job action ip) s s'"
    using t by (blast intro: succeeded_within)
  then show ?thesis by (rule succeeded_answered)
qed

text \<open>Job \<open>api\<close> on two workers, restarted one by one; the command fails on the workers in \<open>bad\<close>.\<close>

definition fails_on :: "string list \<Rightarrow> event \<Rightarrow> bool" where
  "fails_on bad e \<longleftrightarrow> (case e of WorkerCommand ip _ _ \<Rightarrow> ip \<notin> set bad | _ \<Rightarrow> True)"

definition restart_api :: "string list \<Rightarrow> (error + unit) \<times> dstate" where
  "restart_api bad = rolloutRestartBatches (quiet_world (fails_on bad)) ''api'' [''w1'', ''w2'']
     (lifecycle_command (quiet_world (fails_on bad)) ''b'' ''api'' ''restart'') (with_ca rollout_catalog)"

lemma restart_api_runs:
  "fst (restart_api []) = Inr ()" "fst (restart_api [''w1'']) = Inl ErrJoined"
  "activeWorkers rollout_catalog [''w1'', ''w2''] ''api'' = Ok [''w1'', ''w2'']"
  "GetMaxConcurrentUpgrades rollout_catalog ''api'' = Ok 1"
  by code_simp+

lemma restart_api_result: "fst (restart_api bad) = r \<Longrightarrow> \<exists>s'. restart_api bad = (r, s')"
  by (cases "restart_api bad") simp

theorem restart_reaches_every_candidate_witness:
  "\<exists>s'. answered (quiet_world (fails_on [])) (is_lifecycle ''b'' ''api'' ''restart'' ''w2'') (with_ca rollout_catalog) s'"
proof -
  obtain s' where run: "restart_api [] = (Inr (), s')" using restart_api_result [OF restart_api_runs(1)] by blast
  have act: "activeWorkers (ds_cat (with_ca rollout_catalog)) [''w1'', ''w2''] ''api'' = Ok [''w1'', ''w2'']"
    using restart_api_runs(3) by (simp add: with_ca_def)
  have "answered (quiet_world (fails_on [])) (is_lifecycle ''b'' ''api'' ''restart'' ''w2'') (with_ca rollout_catalog) s'"
    by (rule restart_reaches_every_candidate [OF run [unfolded restart_api_def] act]) simp
  then show ?thesis ..
qed

text \<open>Property C13: a restart that fails stops there. It runs the batches in the resolved order, each of at most
  \<open>max_concurrent_upgrades\<close> workers, and when one of them fails (its commands, its hooks or the health check
  after it), the batches before it have passed, and no command was sent to a worker behind the failed batch.\<close>

theorem failed_restart_is_bounded:
  assumes run: "rolloutRestartBatches w job cands (lifecycle_command w bucketID job action) s = (Inl e, s')"
    and act: "activeWorkers (ds_cat s) cands job = Ok active" and ne: "active \<noteq> []"
    and n: "GetMaxConcurrentUpgrades (ds_cat s) job = Ok n"
  shows "\<exists>k t. k < length (restart_batches s job active) \<and>
    dfor (run_restart w job active (lifecycle_command w bucketID job action) s) (take k (restart_batches s job active)) s = (Inr (), t) \<and>
    run_restart w job active (lifecycle_command w bucketID job action) s (restart_batches s job active ! k) t = (Inl e, s') \<and>
    (\<forall>b \<in> set (restart_batches s job active). int (length (snd b)) \<le> max 1 n) \<and>
    emits (\<lambda>ev. \<forall>ip cx env. ev = WorkerCommand ip cx env \<longrightarrow>
      ip \<in> set (take (Suc k * nat (max 1 n)) (ro_ordered (ResolveRolloutOrder (ds_cat s) (ds_store s) job active)))) s s'"
proof -
  have cn: "cands \<noteq> []" using act ne by (cases cands) auto
  let ?f = "run_restart w job active (lifecycle_command w bucketID job action) s"
  let ?bs = "restart_batches s job active"
  let ?ord = "ro_ordered (ResolveRolloutOrder (ds_cat s) (ds_store s) job active)"
  have size: "restart_size (ds_cat s) job = max 1 n" by (simp add: restart_size_def n)
  have loop: "dfor ?f ?bs s = (Inl e, s')" using run rolloutRestartBatches_eq [OF act ne cn n] by simp
  from dfor_Err_split [OF loop] obtain ys x zs t where split: "?bs = ys @ x # zs" "dfor ?f ys s = (Inr (), t)" "?f x t = (Inl e, s')"
    by blast
  let ?k = "length ys"
  let ?P = "\<lambda>ev. \<forall>ip cx env. ev = WorkerCommand ip cx env \<longrightarrow> ip \<in> set (take (Suc ?k * nat (max 1 n)) ?ord)"
  have take: "take ?k ?bs = ys" "take (Suc ?k) ?bs = ys @ [x]" "?bs ! ?k = x" by (simp_all add: split(1))
  have reach: "ip \<in> set (take (Suc ?k * nat (max 1 n)) ?ord)" if "b \<in> set (ys @ [x])" "ip \<in> set (snd b)" for b ip
  proof -
    have "(\<Union>b \<in> set (ys @ [x]). set (snd b)) = set (take (Suc ?k * nat (max 1 n)) ?ord)"
      unfolding take(2) [symmetric] restart_batches_def size by (rule set_take_batches) simp
    then show ?thesis using that by blast
  qed
  have em: "holds (emits ?P) (?f b)" if "b \<in> set (ys @ [x])" for b
  proof (rule emits_run_restart)
    show "?P ev" if "is_hook job ev" for ev
      using that by (auto simp: is_hook_def is_script_def is_check_def split: event.splits)
    show "holds (emits ?P) (lifecycle_command w bucketID job action ip)" if "ip \<in> set (snd b)" for ip
      by (rule emits_lifecycle) (use reach [OF \<open>b \<in> set (ys @ [x])\<close> that] in \<open>auto simp: is_lifecycle_def split: event.splits\<close>)
  qed
  have "emits ?P s t" by (rule holdsD [OF em.dfor split(2)]) (use em in auto)
  moreover have "emits ?P t s'" by (rule holdsD [OF em split(3)]) simp
  ultimately have all: "emits ?P s s'" by (rule em.trans)
  have len: "\<forall>b \<in> set ?bs. int (length (snd b)) \<le> max 1 n"
  proof
    fix b assume "b \<in> set ?bs"
    then have "snd b \<in> set (chunks (nat (max 1 n)) ?ord)"
      unfolding map_snd_indexed [symmetric] restart_batches_def size by simp
    with chunk_bounds [of "nat (max 1 n)" "snd b" ?ord] have "length (snd b) \<le> nat (max 1 n)" by simp
    then show "int (length (snd b)) \<le> max 1 n" by (subst (asm) le_nat_iff) simp_all
  qed
  have k: "?k < length ?bs" by (simp add: split(1))
  have before: "dfor ?f (take ?k ?bs) s = (Inr (), t)" using split(2) by (simp only: take(1))
  have failed: "?f (?bs ! ?k) t = (Inl e, s')" using split(3) by (simp only: take(3))
  show ?thesis
    by (rule exI [of _ ?k], rule exI [of _ t], intro conjI; fact k before failed len all)
qed

theorem failed_restart_is_bounded_witness:
  "\<exists>k s'. k < 2 \<and> emits (\<lambda>ev. \<forall>ip cx env. ev = WorkerCommand ip cx env \<longrightarrow> ip \<in> set (take (Suc k) [''w1'', ''w2'']))
     (with_ca rollout_catalog) s'"
proof -
  let ?s = "with_ca rollout_catalog"
  obtain s' where run: "restart_api [''w1''] = (Inl ErrJoined, s')" using restart_api_result [OF restart_api_runs(2)] by blast
  have cat: "ds_cat ?s = rollout_catalog" "ds_store ?s = []" by (simp_all add: with_ca_def)
  have act: "activeWorkers (ds_cat ?s) [''w1'', ''w2''] ''api'' = Ok [''w1'', ''w2'']"
    and n: "GetMaxConcurrentUpgrades (ds_cat ?s) ''api'' = Ok 1" using restart_api_runs(3,4) by (simp_all add: cat)
  have ord: "ro_ordered (ResolveRolloutOrder (ds_cat ?s) (ds_store ?s) ''api'' [''w1'', ''w2'']) = [''w1'', ''w2'']"
    unfolding cat by code_simp
  have len: "length (restart_batches ?s ''api'' [''w1'', ''w2'']) = 2"
    unfolding restart_batches_def cat by code_simp
  from failed_restart_is_bounded [OF run [unfolded restart_api_def] act _ n] ord len show ?thesis by auto
qed

section \<open>Planning\<close>

lemma emits_staging_step: "holds (emits P) (prepareJobsFiles w jobs)" "holds (emits P) (updateAllocationHash w jobs)"
  by (rule emits_prepareJobs)
    (auto simp: updateAllocationHash_def updateJobAllocationHashes_def update_one_hash_def hash_job_dir_def
      syncAllocationVersionKV_def Let_def intro!: emitting)

lemma emits_refresh:
  assumes "\<And>e. is_script job ''pre_deploy'' UNIV e \<Longrightarrow> P e"
  shows "holds (emits P) (refreshPlanHashesForJobPlan w job)"
  by (auto simp: refreshPlanHashesForJobPlan_def refreshPlanHashesForJobs_def executePreJobCommandsForJob_def
      execute_event_commands_def intro!: emitting emits_staging_step emits_JobCommand assms)

text \<open>Property C18: deciding is quiet. While a deploy decides which jobs of a wave need a rollout, nothing runs
  but the \<open>pre_deploy\<close> commands of these jobs: no command and no file goes to a worker, no probe is made,
  and no hash is promoted.\<close>

theorem planning_contacts_no_worker:
  "emits (\<lambda>e. \<exists>job \<in> set jobs. is_script job ''pre_deploy'' UNIV e) s (snd (jobs_to_stage w opts jobs s)) \<and>
   unpromoted s (snd (jobs_to_stage w opts jobs s))"
proof
  have gen: "holds (emits P) (jobs_to_stage w opts js)"
    if "\<And>e job. job \<in> set js \<Longrightarrow> is_script job ''pre_deploy'' UNIV e \<Longrightarrow> P e" for js P
    using that
  proof (induction js)
    case (Cons job js)
    have "holds (emits P) (refreshPlanHashesForJobPlan w job)" by (rule emits_refresh, rule Cons.prems [of job]) simp_all
    moreover have "holds (emits P) (jobs_to_stage w opts js)" by (rule Cons.IH, rule Cons.prems) simp_all
    ultimately show ?case by (auto intro!: emitting split: sum.split prod.split)
  qed (simp add: em.ret)
  have "holds (emits (\<lambda>e. \<exists>job \<in> set jobs. is_script job ''pre_deploy'' UNIV e)) (jobs_to_stage w opts jobs)"
    by (rule gen) (rule bexI)
  then show "emits (\<lambda>e. \<exists>job \<in> set jobs. is_script job ''pre_deploy'' UNIV e) s (snd (jobs_to_stage w opts jobs s))"
    by (simp only: holds_def)
  show "unpromoted s (snd (jobs_to_stage w opts jobs s))" using jobs_to_stage_unpromoted unfolding holds_def by blast
qed

end
