(* ===== verification/HealthLaws.thy ===== *)
theory HealthLaws
  imports Batches
begin

text \<open>
  The outcome of a health check: how often it tries, what a pass means, and what it sends.
\<close>

text \<open>The state after \<open>k\<close> runs of the checks.\<close>

primrec after_attempts :: "unit act \<Rightarrow> nat \<Rightarrow> dstate \<Rightarrow> dstate" where
  "after_attempts m 0 s = s"
| "after_attempts m (Suc k) s = after_attempts m k (snd (m s))"

lemma until_passes_iff:
  "until_passes n m s = (Inr u, s') \<longleftrightarrow>
    (\<exists>k < n. (\<forall>i < k. \<exists>e. fst (m (after_attempts m i s)) = Inl e) \<and> m (after_attempts m k s) = (Inr (), s'))"
proof (induction n arbitrary: s)
  case (Suc n)
  obtain r t where m: "m s = (r, t)" by fastforce
  show ?case
  proof (cases r)
    case (Inr v)
    have z: "k = 0" if "\<forall>i < k. \<exists>e. fst (m (after_attempts m i s)) = Inl e" for k
    proof (rule ccontr)
      assume "k \<noteq> 0"
      with that have "\<exists>e. fst (m (after_attempts m 0 s)) = Inl e" by blast
      then show False using m Inr by simp
    qed
    have "until_passes (Suc n) m s = (Inr (), t)" using m Inr by (simp add: bnd_def attempt_def)
    moreover have "(\<exists>k < Suc n. (\<forall>i < k. \<exists>e. fst (m (after_attempts m i s)) = Inl e) \<and>
        m (after_attempts m k s) = (Inr (), s')) \<longleftrightarrow> m (after_attempts m 0 s) = (Inr (), s')"
      using z by (metis not_less_zero zero_less_Suc)
    ultimately show ?thesis using m Inr by auto
  next
    case (Inl e)
    have "until_passes (Suc n) m s = until_passes n m t" using m Inl by (simp add: bnd_def attempt_def)
    also have "until_passes n m t = (Inr u, s') \<longleftrightarrow>
        (\<exists>k < n. (\<forall>i < k. \<exists>e. fst (m (after_attempts m i t)) = Inl e) \<and> m (after_attempts m k t) = (Inr (), s'))"
      by (rule Suc.IH)
    also have "\<dots> \<longleftrightarrow> (\<exists>k < Suc n. (\<forall>i < k. \<exists>e. fst (m (after_attempts m i s)) = Inl e) \<and>
        m (after_attempts m k s) = (Inr (), s'))" (is "?l \<longleftrightarrow> ?r")
    proof
      assume ?l
      then obtain k where k: "k < n" "\<forall>i < k. \<exists>e. fst (m (after_attempts m i t)) = Inl e"
        "m (after_attempts m k t) = (Inr (), s')" by blast
      have "\<exists>e. fst (m (after_attempts m i s)) = Inl e" if "i < Suc k" for i
        using that k(2) m Inl by (cases i) auto
      then show ?r using k(1,3) m by (intro exI [of _ "Suc k"]) auto
    next
      assume ?r
      then obtain k where k: "k < Suc n" "\<forall>i < k. \<exists>e. fst (m (after_attempts m i s)) = Inl e"
        "m (after_attempts m k s) = (Inr (), s')" by blast
      then obtain j where j: "k = Suc j" using m Inl by (cases k) auto
      have "\<exists>e. fst (m (after_attempts m i t)) = Inl e" if "i < j" for i
        using k(2) that m j by (metis Suc_less_eq after_attempts.simps(2) snd_conv)
      then show ?l using k(1,3) m by (intro exI [of _ j]) (auto simp: j)
    qed
    finally show ?thesis .
  qed
qed simp

lemma until_passes_fails:
  "(\<forall>i < n. \<exists>e. fst (m (after_attempts m i s)) = Inl e) \<Longrightarrow>
   until_passes n m s = (Err ErrHealthCheckFailed, after_attempts m n s)"
proof (induction n arbitrary: s)
  case (Suc n)
  obtain r t where m: "m s = (r, t)" by fastforce
  from Suc.prems have "\<exists>e. fst (m (after_attempts m 0 s)) = Inl e" by blast
  then obtain e where e: "r = Inl e" using m by auto
  have "\<exists>e. fst (m (after_attempts m i t)) = Inl e" if "i < n" for i
    using Suc.prems that m by (metis Suc_less_eq after_attempts.simps(2) snd_conv)
  with Suc.IH [of t] m e show ?case by (simp add: bnd_def attempt_def)
qed simp

lemma waitConfig_pos: "fst (waitConfig spec) > 0"
  by (auto simp: waitConfig_def split: option.split)

text \<open>Property C17: a waiting health check runs the checks at least once and at most as often as configured, 30
  times by default. It passes exactly when one of these runs passes, stops at the first that does, and its
  failure means that every one of them failed.\<close>

theorem health_check_attempts:
  assumes act: "JobHasActiveAllocations (ds_cat s) job = Ok True"
    and cmds: "commands = GetJobCommands (ds_cat s) job ''health_check''"
    and spec: "spec = GetJobHealthCheck (ds_cat s) job" and some: "spec \<noteq> None \<or> commands \<noteq> []"
    and n: "n = nat (fst (waitConfig spec))"
  shows "0 < n \<and>
    (if \<exists>k < n. fst (runChecks w job spec commands (after_attempts (runChecks w job spec commands) k s)) = Inr ()
     then \<exists>k < n. (\<forall>i < k. \<exists>e. fst (runChecks w job spec commands (after_attempts (runChecks w job spec commands) i s)) = Inl e) \<and>
       fst (runChecks w job spec commands (after_attempts (runChecks w job spec commands) k s)) = Inr () \<and>
       HealthCheck w True job s = (Inr (), after_attempts (runChecks w job spec commands) (Suc k) s)
     else HealthCheck w True job s =
       (Err ErrHealthCheckFailed, after_attempts (runChecks w job spec commands) n s))"
proof -
  let ?m = "runChecks w job spec commands"
  have run: "HealthCheck w True job s = until_passes n ?m s"
    using some by (auto simp: HealthCheck_def bnd_query act cmds spec n)
  have pos: "0 < n" using waitConfig_pos [of spec] by (simp add: n)
  have suc: "after_attempts ?m (Suc k) s = snd (?m (after_attempts ?m k s))" for k
    by (induction k arbitrary: s) simp_all
  show ?thesis
  proof (cases "\<exists>k < n. fst (?m (after_attempts ?m k s)) = Inr ()")
    case True
    define k where "k = (LEAST k. k < n \<and> fst (?m (after_attempts ?m k s)) = Inr ())"
    from True have k: "k < n" "fst (?m (after_attempts ?m k s)) = Inr ()"
      unfolding k_def by (metis (mono_tags, lifting) LeastI_ex)+
    have least: "\<exists>e. fst (?m (after_attempts ?m i s)) = Inl e" if "i < k" for i
    proof (cases "fst (?m (after_attempts ?m i s))")
      case (Inr u)
      then have "i < n \<and> fst (?m (after_attempts ?m i s)) = Inr ()" using that k(1) by simp
      then have "k \<le> i" unfolding k_def by (rule Least_le)
      then show ?thesis using that by simp
    qed auto
    have "until_passes n ?m s = (Inr (), snd (?m (after_attempts ?m k s)))"
      unfolding until_passes_iff using k least by (metis prod.collapse)
    then show ?thesis using True k least pos unfolding run suc by auto
  next
    case False
    have "\<exists>e. fst (?m (after_attempts ?m i s)) = Inl e" if "i < n" for i
      using False that by (cases "fst (?m (after_attempts ?m i s))") auto
    then have "until_passes n ?m s = (Err ErrHealthCheckFailed, after_attempts ?m n s)"
      by (intro until_passes_fails) blast
    then show ?thesis using False pos unfolding run by auto
  qed
qed


text \<open>One worker whose only probe always fails: three configured attempts, three probes.\<close>

definition probed_catalog :: catalog where
  "probed_catalog = empty_catalog\<lparr>t_worker := [plain_worker ''w'' 0], t_allocations := [plain_alloc ''w'' ''a''],
     t_job := [(plain_job ''a'')\<lparr>j_health_check := Some \<lparr>
       hc_checks = [\<lparr>hp_type = ''ssh'', hp_port = [], hp_command = ''up'', hp_path = [], hp_expect_status = 0, hp_scheme = []\<rparr>],
       hc_timeout_seconds = 0, hc_wait = Some \<lparr>hw_attempts = 3, hw_interval_seconds = 0\<rparr>\<rparr>\<rparr>]\<rparr>"

definition probe_fails :: "bool \<Rightarrow> event \<Rightarrow> bool" where
  "probe_fails b e \<longleftrightarrow> (case e of ProbeSSH _ _ \<Rightarrow> \<not> b | _ \<Rightarrow> True)"

theorem health_check_attempts_witness:
  "HealthCheck (quiet_world (probe_fails True)) True ''a'' (with_ca probed_catalog) =
    (Err ErrHealthCheckFailed, after_attempts (runChecks (quiet_world (probe_fails True)) ''a''
       (GetJobHealthCheck probed_catalog ''a'') []) 3 (with_ca probed_catalog))"
proof -
  let ?s = "with_ca probed_catalog" and ?w = "quiet_world (probe_fails True)"
  let ?m = "runChecks ?w ''a'' (GetJobHealthCheck probed_catalog ''a'') []"
  have cat: "ds_cat ?s = probed_catalog" by (simp add: with_ca_def)
  have act: "JobHasActiveAllocations (ds_cat ?s) ''a'' = Ok True" unfolding cat by code_simp
  have cmds: "[] = GetJobCommands (ds_cat ?s) ''a'' ''health_check''" unfolding cat by code_simp
  have n: "3 = nat (fst (waitConfig (GetJobHealthCheck probed_catalog ''a'')))" by code_simp
  have some: "GetJobHealthCheck probed_catalog ''a'' \<noteq> None \<or> ([] :: string list) \<noteq> []" by code_simp
  have fails: "fst (?m (after_attempts ?m 0 ?s)) = Inl ErrWorkerCommand"
    "fst (?m (after_attempts ?m 1 ?s)) = Inl ErrWorkerCommand" "fst (?m (after_attempts ?m 2 ?s)) = Inl ErrWorkerCommand"
    by code_simp+
  have "\<not> (\<exists>k < 3. fst (?m (after_attempts ?m k ?s)) = Inr ())"
  proof
    assume "\<exists>k < 3. fst (?m (after_attempts ?m k ?s)) = Inr ()"
    then obtain k where "k < 3" "fst (?m (after_attempts ?m k ?s)) = Inr ()" by blast
    moreover have "k = 0 \<or> k = 1 \<or> k = 2" using \<open>k < 3\<close> by auto
    ultimately show False using fails by auto
  qed
  with health_check_attempts [OF act cmds _ some n, of ?w] show ?thesis by (simp only: cat if_False)
qed

text \<open>What a pass means: every declared probe of every active allocation was executed and passed, and every
  \<open>health_check\<close> command of the job returned without an error.\<close>

lemma first_error_Ok: "first_error es = Inr u \<longleftrightarrow> es = []"
  by (cases es) (simp_all add: first_error_def)

lemma emits_any_probe: "holds (emits any) (case x of (ip, p) \<Rightarrow> runProbe w job ip p)"
  by (cases x) (simp add: emits_runProbe)

lemma emits_any_commands:
  "holds (emits any) (JobCommand w job c ev env)"
  "holds (emits any) (dfor (\<lambda>command. JobCommand w job command ev env) cmds)"
  by (intro em.dfor emits_JobCommand; simp)+

lemma checks_ran_probes:
  assumes run: "runManifestHealthChecks w job sp s = (Inr u, s')"
    and act: "GetActiveAllocations (ds_cat s) job = Ok ips" and ip: "ip \<in> set ips" and p: "p \<in> set (hc_checks sp)"
  shows "succeeded (runProbe w job ip p) s s'"
proof -
  let ?xs = "concat (map (\<lambda>ip. map (\<lambda>p. (ip, p)) (hc_checks sp)) ips)"
  have "ips \<noteq> []" using ip by auto
  with run have "bnd (dall (\<lambda>(ip, p). runProbe w job ip p) ?xs) (\<lambda>errs. pureR (first_error errs)) s = (Inr u, s')"
    by (simp add: runManifestHealthChecks_def bnd_query act)
  then obtain es t where "dall (\<lambda>(ip, p). runProbe w job ip p) ?xs s = (Inr es, t)" "first_error es = Inr u" "t = s'"
    by (auto elim: bnd_Ok_E)
  then have all: "dall (\<lambda>(ip, p). runProbe w job ip p) ?xs s = (Inr [], s')" by (simp add: first_error_Ok)
  have mem: "(ip, p) \<in> set ?xs" using ip p by auto
  show ?thesis using dall_Nil [OF all mem emits_any_probe] by simp
qed

lemma runChecks_passed:
  assumes run: "runChecks w job spec cmds s = (Inr u, s')" and act: "GetActiveAllocations (ds_cat s) job = Ok ips"
  shows "(\<forall>sp. spec = Some sp \<longrightarrow> (\<forall>ip \<in> set ips. \<forall>p \<in> set (hc_checks sp).
       succeeded (runProbe w job ip p) s s')) \<and>
    (\<forall>c \<in> set cmds. succeeded (JobCommand w job c ''health_check'' []) s s')"
proof -
  from run obtain v t where first: "(case spec of None \<Rightarrow> ret () | Some sp \<Rightarrow> runManifestHealthChecks w job sp) s = (Inr v, t)"
    and loop: "dfor (\<lambda>command. JobCommand w job command ''health_check'' []) cmds t = (Inr u, s')"
    unfolding runChecks_def by (rule bnd_Ok_E)
  have ts': "emits any t s'" by (rule holdsD [OF emits_any_commands(2) loop])
  have "holds (emits any) (case spec of None \<Rightarrow> ret () | Some sp \<Rightarrow> runManifestHealthChecks w job sp)"
    by (auto simp: runManifestHealthChecks_def intro!: em.rules emits_runProbe split: option.split)
  then have st: "emits any s t" using first by (rule holdsD)
  have "succeeded (runProbe w job ip p) s s'"
    if sp: "spec = Some sp" and "ip \<in> set ips" "p \<in> set (hc_checks sp)" for sp ip p
  proof -
    have "runManifestHealthChecks w job sp s = (Inr v, t)" using first sp by simp
    from em.refl checks_ran_probes [OF this act that(2,3)] ts' show ?thesis by (rule succeeded_within)
  qed
  moreover have "succeeded (JobCommand w job c ''health_check'' []) s s'"
    if c: "c \<in> set cmds" for c
    by (rule succeeded_later [OF st dfor_each [OF loop c emits_any_commands(1)]])
  ultimately show ?thesis by blast
qed

lemma after_attempts_holds: "step_relation R \<Longrightarrow> holds R m \<Longrightarrow> R s (after_attempts m k s)"
proof (induction k arbitrary: s)
  case (Suc k)
  have "R s (snd (m s))" using Suc.prems(2) by (simp add: holds_def)
  moreover have "R (snd (m s)) (after_attempts m k (snd (m s)))" by (rule Suc.IH [OF Suc.prems])
  ultimately have "R s (after_attempts m k (snd (m s)))" by (rule step_relation.trans [OF Suc.prems(1)])
  then show ?case by simp
qed (simp add: step_relation.refl)

lemma runChecks_holds: "holds same_cat (runChecks w job spec cmds)" "holds (emits any) (runChecks w job spec cmds)"
  by (auto simp: runChecks_def runManifestHealthChecks_def intro!: keeps keeps_JobCommand split: option.split)
    (auto simp: runChecks_def runManifestHealthChecks_def intro!: em.rules emits_runProbe emits_any_commands split: option.split)

text \<open>Property C16: a pass is earned. When a health check returns without an error, every declared probe of the
  job was executed on every active allocation and passed, and every \<open>health_check\<close> command of the job
  returned without an error, all within this check.\<close>

theorem passing_check_ran_everything:
  assumes run: "HealthCheck w wait job s = (Inr u, s')" and act: "GetActiveAllocations (ds_cat s) job = Ok ips"
    and ip: "ip \<in> set ips"
  shows "(\<forall>sp. GetJobHealthCheck (ds_cat s) job = Some sp \<longrightarrow> (\<forall>p \<in> set (hc_checks sp).
       succeeded (runProbe w job ip p) s s')) \<and>
    (\<forall>c \<in> set (GetJobCommands (ds_cat s) job ''health_check'').
       succeeded (JobCommand w job c ''health_check'' []) s s')"
proof -
  let ?spec = "GetJobHealthCheck (ds_cat s) job" and ?cmds = "GetJobCommands (ds_cat s) job ''health_check''"
  let ?m = "runChecks w job ?spec ?cmds"
  have has: "JobHasActiveAllocations (ds_cat s) job = Ok True" using act ip by (auto simp: JobHasActiveAllocations_def)
  show ?thesis
  proof (cases "?spec = None \<and> ?cmds = []")
    case False
    obtain t where t: "emits any s t" "ds_cat t = ds_cat s" "?m t = (Inr (), s')"
    proof (cases wait)
      case True
      with run False have "until_passes (nat (fst (waitConfig ?spec))) ?m s = (Inr u, s')"
        by (auto simp: HealthCheck_def bnd_query has)
      then obtain k where k: "?m (after_attempts ?m k s) = (Inr (), s')" unfolding until_passes_iff by blast
      have "emits any s (after_attempts ?m k s)"
        by (rule after_attempts_holds [OF em.step_relation_axioms runChecks_holds(2)])
      moreover have "same_cat s (after_attempts ?m k s)"
        by (rule after_attempts_holds [OF keep.step_relation_axioms runChecks_holds(1)])
      ultimately show ?thesis using that k by (simp add: same_cat_def)
    next
      case w: False
      with run False have "?m s = (Inr (), s')"
        by (auto simp: HealthCheck_def bnd_query has bnd_def attempt_def split: prod.splits sum.splits)
      with that em.refl [of any s] show ?thesis by blast
    qed
    have act': "GetActiveAllocations (ds_cat t) job = Ok ips" using act t(2) by simp
    show ?thesis
      using runChecks_passed [OF t(3) act'] ip by (blast intro: succeeded_later [OF t(1)])
  qed auto
qed

definition check_api :: "(error + unit) \<times> dstate" where
  "check_api = HealthCheck (quiet_world (probe_fails False)) True ''a'' (with_ca probed_catalog)"

theorem passing_check_ran_everything_witness:
  "\<exists>s'. succeeded (runProbe (quiet_world (probe_fails False)) ''a'' ''w''
       \<lparr>hp_type = ''ssh'', hp_port = [], hp_command = ''up'', hp_path = [], hp_expect_status = 0, hp_scheme = []\<rparr>)
     (with_ca probed_catalog) s'"
proof -
  have "fst check_api = Inr ()" by code_simp
  then obtain s' where run: "check_api = (Inr (), s')" by (metis prod.collapse)
  have cat: "ds_cat (with_ca probed_catalog) = probed_catalog" by (simp add: with_ca_def)
  have act: "GetActiveAllocations (ds_cat (with_ca probed_catalog)) ''a'' = Ok [''w'']" unfolding cat by code_simp
  have spec: "map_option hc_checks (GetJobHealthCheck probed_catalog ''a'') =
    Some [\<lparr>hp_type = ''ssh'', hp_port = [], hp_command = ''up'', hp_path = [], hp_expect_status = 0, hp_scheme = []\<rparr>]"
    by code_simp
  show ?thesis
    using passing_check_ran_everything [OF run [unfolded check_api_def] act, of "''w''"] spec by (auto simp: cat)
qed

end
