(* ===== verification/Allocations.thy ===== *)
theory Allocations
  imports HealthLaws Sequence
begin

text \<open>
  Building the allocations (\<open>build/build_allocations.go\<close>): a job is placed on every worker that carries
  all of its selectors, allocations that lost their place are marked removed, \<open>disabled.json\<close> is applied, and
  allocations that came back from it are marked to be started. The UUID of a job and a worker is a parameter.
\<close>

section \<open>Placement\<close>

definition selectors_of :: "catalog \<Rightarrow> string \<Rightarrow> string list" where
  "selectors_of c jobID = Unique (map snd (filter (\<lambda>(j, _). j = jobID) (t_job_selectors c)))"

definition labels_of_ip :: "catalog \<Rightarrow> string \<Rightarrow> string list" where
  "labels_of_ip c ip =
     map snd (filter (\<lambda>(wid, _). list_ex (\<lambda>w. w_id w = wid \<and> w_ip w = ip) (t_worker c)) (t_worker_labels c))"

text \<open>\<open>matchingJobsByLabelsQuery\<close>: some worker carries one of the selectors, and the number of the job's selectors
  is the number of its selectors among the labels of this worker.\<close>

definition matchingJobs :: "catalog \<Rightarrow> string \<Rightarrow> string list" where
  "matchingJobs c ip =
     Unique (map j_name (filter (\<lambda>j.
       list_ex (\<lambda>sel. list_ex (\<lambda>(_, l). l = sel) (t_worker_labels c)) (selectors_of c (j_id j)) \<and>
       length (selectors_of c (j_id j)) =
         length (Unique (filter (\<lambda>l. l \<in> set (selectors_of c (j_id j))) (labels_of_ip c ip)))) (t_job c)))"

section \<open>Building\<close>

record disabled_config =
  dc_workers :: "string list"
  dc_jobs :: "(string \<times> string list) list"

text \<open>\<open>INSERT OR REPLACE\<close> on the primary key of worker and job.\<close>

definition upsert_allocation :: "alloc_row \<Rightarrow> alloc_row list \<Rightarrow> alloc_row list" where
  "upsert_allocation a as = filter (\<lambda>b. \<not> (a_ip b = a_ip a \<and> a_job b = a_job a)) as @ [a]"

definition place_job :: "(string \<Rightarrow> string) \<Rightarrow> string \<Rightarrow> catalog \<Rightarrow> string \<Rightarrow> error + catalog" where
  "place_job uuid ip c job =
     (let found = (case GetAllocationID c ip job of Inl _ \<Rightarrow> [] | Inr i \<Rightarrow> i);
          allocID = (if found = [] then uuid (job @ ''|'' @ ip) else found)
      in rbind (TargetJobVersion c job) (\<lambda>v.
           Ok (c\<lparr>t_allocations := upsert_allocation
                 \<lparr>a_id = allocID, a_ip = ip, a_job = job, a_disabled = False, a_removed = False, a_seq = 0,
                  a_new_version = Some v\<rparr> (t_allocations c)\<rparr>)))"

definition update_allocations :: "(alloc_row \<Rightarrow> bool) \<Rightarrow> (alloc_row \<Rightarrow> alloc_row) \<Rightarrow> catalog \<Rightarrow> catalog" where
  "update_allocations P f c = c\<lparr>t_allocations := map (\<lambda>a. if P a then f a else a) (t_allocations c)\<rparr>"

definition place_on_worker :: "(string \<Rightarrow> string) \<Rightarrow> catalog \<Rightarrow> string \<Rightarrow> error + catalog" where
  "place_on_worker uuid c ip =
     (let matched = matchingJobs c ip
      in rbind (rfold (place_job uuid ip) c matched) (\<lambda>c1.
           let gone = Difference (GetAllocatedJobs c1 ip) matched
           in Ok (update_allocations (\<lambda>a. a_ip a = ip \<and> a_job a \<in> set gone) (\<lambda>a. a\<lparr>a_removed := True\<rparr>) c1)))"

definition loadDisabledAllocations :: "catalog \<Rightarrow> string list" where
  "loadDisabledAllocations c =
     map (\<lambda>a. a_ip a @ ''|'' @ a_job a) (filter (\<lambda>a. a_disabled a \<and> \<not> a_removed a) (t_allocations c))"

definition disable :: "(alloc_row \<Rightarrow> bool) \<Rightarrow> catalog \<Rightarrow> catalog" where
  "disable P = update_allocations P (\<lambda>a. a\<lparr>a_disabled := True\<rparr>)"

definition apply_disabled :: "disabled_config \<Rightarrow> catalog \<Rightarrow> catalog" where
  "apply_disabled d c =
     foldl (\<lambda>c (job, ips).
         if ips = [] then disable (\<lambda>a. a_job a = job) c
         else foldl (\<lambda>c ip. disable (\<lambda>a. a_job a = job \<and> a_ip a = ip) c) c ips)
       (foldl (\<lambda>c ip. disable (\<lambda>a. a_ip a = ip) c) c (dc_workers d)) (dc_jobs d)"

definition markReenabledAllocations :: "string list \<Rightarrow> catalog \<Rightarrow> catalog" where
  "markReenabledAllocations disabledBefore c =
     foldl (\<lambda>c a. if a_ip a @ ''|'' @ a_job a \<in> set disabledBefore
                  then MarkAllocationStartPending c (a_job a) (a_id a) else c)
       c (filter (\<lambda>a. \<not> a_disabled a \<and> \<not> a_removed a) (t_allocations c))"

definition BuildAllocations :: "(string \<Rightarrow> string) \<Rightarrow> disabled_config \<Rightarrow> catalog \<Rightarrow> error + catalog" where
  "BuildAllocations uuid d c =
     rbind (rfold (place_on_worker uuid) c (GetWorkers c [])) (\<lambda>c1.
       let c2 = update_allocations (\<lambda>a. a_ip a \<notin> w_ip ` set (t_worker c1)) (\<lambda>a. a\<lparr>a_removed := True\<rparr>) c1
       in Ok (markReenabledAllocations (loadDisabledAllocations c) (apply_disabled d c2)))"

section \<open>Placement is inclusion\<close>

lemma set_matchingJobs:
  "job \<in> set (matchingJobs c ip) \<longleftrightarrow>
    (\<exists>j \<in> set (t_job c). j_name j = job \<and> selectors_of c (j_id j) \<noteq> [] \<and>
       set (selectors_of c (j_id j)) \<subseteq> set (labels_of_ip c ip))"
proof -
  have "(list_ex (\<lambda>sel. list_ex (\<lambda>(_, l). l = sel) (t_worker_labels c)) S \<and>
      length S = length (Unique (filter (\<lambda>l. l \<in> set S) (labels_of_ip c ip)))) \<longleftrightarrow>
      S \<noteq> [] \<and> set S \<subseteq> set (labels_of_ip c ip)" if d: "distinct S" for S
  proof -
    have card: "length (Unique (filter (\<lambda>l. l \<in> set S) (labels_of_ip c ip))) = card (set S \<inter> set (labels_of_ip c ip))"
      using distinct_card [of "Unique (filter (\<lambda>l. l \<in> set S) (labels_of_ip c ip))"]
      by (simp add: Int_def conj_commute)
    have "length S = card (set S)" using distinct_card [OF d] by simp
    then have eq: "length S = length (Unique (filter (\<lambda>l. l \<in> set S) (labels_of_ip c ip))) \<longleftrightarrow>
        set S \<subseteq> set (labels_of_ip c ip)"
      unfolding card by (metis Int_absorb2 Int_lower1 List.finite_set card_subset_eq inf.orderI)
    have "set (labels_of_ip c ip) \<subseteq> snd ` set (t_worker_labels c)" by (auto simp: labels_of_ip_def)
    moreover have "list_ex (\<lambda>sel. list_ex (\<lambda>(_, l). l = sel) (t_worker_labels c)) S \<longleftrightarrow>
        (\<exists>sel \<in> set S. sel \<in> snd ` set (t_worker_labels c))" by (force simp: list_ex_iff)
    ultimately show ?thesis unfolding eq by (cases S) auto
  qed
  note inc = this
  have "distinct (selectors_of c i)" for i by (simp add: selectors_of_def)
  note inc [OF this]
  then show ?thesis by (simp only: matchingJobs_def set_Unique set_map set_filter image_iff) blast
qed

section \<open>The loop over the workers\<close>

text \<open>Only the allocations change.\<close>

definition with_allocs :: "catalog \<Rightarrow> alloc_row list \<Rightarrow> catalog" where
  "with_allocs c as = c\<lparr>t_allocations := as\<rparr>"

lemma with_allocs_simps [simp]:
  "t_allocations (with_allocs c as) = as" "with_allocs (with_allocs c as) bs = with_allocs c bs"
  "with_allocs c (t_allocations c) = c" "matchingJobs (with_allocs c as) ip = matchingJobs c ip"
  "t_worker (with_allocs c as) = t_worker c" "t_job (with_allocs c as) = t_job c"
  "t_hash (with_allocs c as) = t_hash c" "TargetJobVersion (with_allocs c as) job = TargetJobVersion c job"
  by (simp_all add: with_allocs_def matchingJobs_def selectors_of_def labels_of_ip_def TargetJobVersion_def
      GetJobVersion_def jobs_named_def)

text \<open>The rows of an allocation list are keyed by worker and job, and their ids are the UUIDs of their keys.\<close>

definition allocs_ok :: "(string \<Rightarrow> string) \<Rightarrow> alloc_row list \<Rightarrow> bool" where
  "allocs_ok uuid as \<longleftrightarrow> distinct (map (\<lambda>a. (a_ip a, a_job a)) as) \<and>
     (\<forall>a \<in> set as. a_id a = uuid (a_job a @ ''|'' @ a_ip a))"

text \<open>The rows of one worker after it was processed, where \<open>M\<close> are the jobs that match it.\<close>

definition placed :: "string set \<Rightarrow> string \<Rightarrow> alloc_row list \<Rightarrow> bool" where
  "placed M ip as \<longleftrightarrow>
     (\<forall>a \<in> set as. a_ip a = ip \<longrightarrow> (a_removed a \<longleftrightarrow> a_job a \<notin> M) \<and>
        (\<not> a_removed a \<longrightarrow> \<not> a_disabled a \<and> a_seq a = 0)) \<and>
     (\<forall>job \<in> M. \<exists>a \<in> set as. a_ip a = ip \<and> a_job a = job)"

definition other_rows :: "string \<Rightarrow> alloc_row list \<Rightarrow> alloc_row set" where
  "other_rows ip as = {a \<in> set as. a_ip a \<noteq> ip}"

lemma set_upsert: "set (upsert_allocation a as) = {b \<in> set as. \<not> (a_ip b = a_ip a \<and> a_job b = a_job a)} \<union> {a}"
  by (auto simp: upsert_allocation_def)

lemma place_job_step:
  assumes "place_job uuid ip c job = Inr c'" and ok: "allocs_ok uuid (t_allocations c)" and nz: "\<And>x. uuid x \<noteq> []"
  shows "\<exists>v. c' = with_allocs c (upsert_allocation
      \<lparr>a_id = uuid (job @ ''|'' @ ip), a_ip = ip, a_job = job, a_disabled = False, a_removed = False, a_seq = 0,
       a_new_version = Some v\<rparr> (t_allocations c))"
proof -
  have "(let found = (case GetAllocationID c ip job of Inl _ \<Rightarrow> [] | Inr i \<Rightarrow> i)
      in if found = [] then uuid (job @ ''|'' @ ip) else found) = uuid (job @ ''|'' @ ip)"
  proof (cases "alloc_at c ip job")
    case (Cons a as)
    then have "a \<in> set (alloc_at c ip job)" by simp
    then have "a \<in> set (t_allocations c)" "a_ip a = ip" "a_job a = job" by (auto simp: alloc_at_def)
    then have "a_id a = uuid (job @ ''|'' @ ip)" using ok by (auto simp: allocs_ok_def)
    then show ?thesis using Cons nz by (simp add: GetAllocationID_def query_row_def)
  qed (simp add: GetAllocationID_def query_row_def)
  then show ?thesis using assms(1) by (cases "TargetJobVersion c job") (auto simp: place_job_def with_allocs_def Let_def)
qed

lemma upsert_ok:
  assumes "allocs_ok uuid as" and "a_id a = uuid (a_job a @ ''|'' @ a_ip a)"
  shows "allocs_ok uuid (upsert_allocation a as)"
  using assms by (auto simp: allocs_ok_def upsert_allocation_def distinct_map_filter)

definition fresh :: "alloc_row \<Rightarrow> bool" where
  "fresh a \<longleftrightarrow> \<not> a_removed a \<and> \<not> a_disabled a \<and> a_seq a = 0"

lemma place_jobs_loop:
  assumes "rfold (place_job uuid ip) c jobs = Inr c'" and "allocs_ok uuid (t_allocations c)" and nz: "\<And>x. uuid x \<noteq> []"
  shows "\<exists>as. c' = with_allocs c as \<and> allocs_ok uuid as \<and>
    (\<forall>a. \<not> (a_ip a = ip \<and> a_job a \<in> set jobs) \<longrightarrow> (a \<in> set as \<longleftrightarrow> a \<in> set (t_allocations c))) \<and>
    (\<forall>job \<in> set jobs. \<exists>a \<in> set as. a_ip a = ip \<and> a_job a = job) \<and>
    (\<forall>a \<in> set as. a_ip a = ip \<longrightarrow> a_job a \<in> set jobs \<longrightarrow> fresh a)"
  using assms(1,2)
proof (induction jobs arbitrary: c)
  case Nil
  then show ?case by (intro exI [of _ "t_allocations c"]) auto
next
  case (Cons job jobs)
  from Cons.prems(1) obtain c1 where one: "place_job uuid ip c job = Inr c1" and rest: "rfold (place_job uuid ip) c1 jobs = Inr c'"
    by (cases "place_job uuid ip c job") auto
  from place_job_step [OF one Cons.prems(2) nz] obtain v where c1: "c1 = with_allocs c (upsert_allocation
      \<lparr>a_id = uuid (job @ ''|'' @ ip), a_ip = ip, a_job = job, a_disabled = False, a_removed = False, a_seq = 0,
       a_new_version = Some v\<rparr> (t_allocations c))" by blast
  define new where "new = \<lparr>a_id = uuid (job @ ''|'' @ ip), a_ip = ip, a_job = job, a_disabled = False, a_removed = False,
       a_seq = 0, a_new_version = Some v\<rparr>"
  have new: "a_ip new = ip" "a_job new = job" "fresh new" "a_id new = uuid (a_job new @ ''|'' @ a_ip new)"
    by (simp_all add: new_def fresh_def)
  have al: "t_allocations c1 = upsert_allocation new (t_allocations c)" by (simp add: c1 new_def)
  have ok1: "allocs_ok uuid (t_allocations c1)" unfolding al using Cons.prems(2) new(4) by (rule upsert_ok)
  have mem: "a \<in> set (t_allocations c1) \<longleftrightarrow> a = new \<or> a \<in> set (t_allocations c) \<and> \<not> (a_ip a = ip \<and> a_job a = job)" for a
    by (auto simp: al set_upsert new)
  from Cons.IH [OF rest ok1] obtain as where as: "c' = with_allocs c1 as" "allocs_ok uuid as"
    and keep: "\<And>a. \<not> (a_ip a = ip \<and> a_job a \<in> set jobs) \<Longrightarrow> a \<in> set as \<longleftrightarrow> a \<in> set (t_allocations c1)"
    and there: "\<forall>job \<in> set jobs. \<exists>a \<in> set as. a_ip a = ip \<and> a_job a = job"
    and fr: "\<forall>a \<in> set as. a_ip a = ip \<longrightarrow> a_job a \<in> set jobs \<longrightarrow> fresh a" by blast
  have "c' = with_allocs c as" using as(1) c1 by simp
  moreover have "a \<in> set as \<longleftrightarrow> a \<in> set (t_allocations c)" if "\<not> (a_ip a = ip \<and> a_job a \<in> set (job # jobs))" for a
    using that keep [of a] mem [of a] new(1,2) by auto
  moreover have "\<exists>a \<in> set as. a_ip a = ip \<and> a_job a = j" if "j \<in> set (job # jobs)" for j
  proof (cases "j \<in> set jobs")
    case False
    then have "j = job" using that by simp
    moreover have "new \<in> set as" using keep [of new] mem [of new] False new(2) \<open>j = job\<close> by simp
    ultimately show ?thesis using new(1,2) by blast
  qed (use there in blast)
  moreover have "fresh a" if "a \<in> set as" "a_ip a = ip" "a_job a \<in> set (job # jobs)" for a
  proof (cases "a_job a \<in> set jobs")
    case False
    then have "a \<in> set (t_allocations c1)" using keep [of a] that(1) by simp
    then show ?thesis using mem [of a] that(2,3) False new(3) by auto
  qed (use fr that in blast)
  ultimately show ?case using as(2) by blast
qed

lemma place_on_worker_placed:
  assumes run: "place_on_worker uuid c ip = Inr c'" and ok: "allocs_ok uuid (t_allocations c)" and nz: "\<And>x. uuid x \<noteq> []"
  shows "\<exists>as. c' = with_allocs c as \<and> allocs_ok uuid as \<and> placed (set (matchingJobs c ip)) ip as \<and>
    (\<forall>a. a_ip a \<noteq> ip \<longrightarrow> (a \<in> set as \<longleftrightarrow> a \<in> set (t_allocations c)))"
proof -
  let ?M = "matchingJobs c ip"
  from run obtain c1 where loop: "rfold (place_job uuid ip) c ?M = Inr c1"
    and c': "c' = update_allocations (\<lambda>a. a_ip a = ip \<and> a_job a \<in> set (Difference (GetAllocatedJobs c1 ip) ?M)) (\<lambda>a. a\<lparr>a_removed := True\<rparr>) c1"
    by (cases "rfold (place_job uuid ip) c ?M") (auto simp: place_on_worker_def Let_def)
  from place_jobs_loop [OF loop ok nz] obtain as where as: "c1 = with_allocs c as" "allocs_ok uuid as"
    and keep: "\<And>a. \<not> (a_ip a = ip \<and> a_job a \<in> set ?M) \<Longrightarrow> a \<in> set as \<longleftrightarrow> a \<in> set (t_allocations c)"
    and there: "\<forall>job \<in> set ?M. \<exists>a \<in> set as. a_ip a = ip \<and> a_job a = job"
    and fr: "\<forall>a \<in> set as. a_ip a = ip \<longrightarrow> a_job a \<in> set ?M \<longrightarrow> fresh a" by blast
  define mark :: "alloc_row \<Rightarrow> alloc_row" where "mark = (\<lambda>a. if a_ip a = ip \<and> a_job a \<in> set (Difference (GetAllocatedJobs c1 ip) ?M)
    then a\<lparr>a_removed := True\<rparr> else a)"
  have gone: "mark a = (if a_ip a = ip \<and> a_job a \<notin> set ?M then a\<lparr>a_removed := True\<rparr> else a)" if "a \<in> set as" for a
    using that by (auto simp: mark_def GetAllocatedJobs_def as(1))
  have key: "a_ip (mark a) = a_ip a \<and> a_job (mark a) = a_job a \<and> a_id (mark a) = a_id a" for a by (simp add: mark_def)
  have "allocs_ok uuid (map mark as)"
    using as(2) by (simp add: allocs_ok_def key comp_def)
  moreover have "c' = with_allocs c (map mark as)"
    by (simp add: c' update_allocations_def mark_def as(1)) (simp add: with_allocs_def)
  moreover have "placed (set ?M) ip (map mark as)"
    unfolding placed_def
  proof (intro conjI ballI impI)
    fix b assume "b \<in> set (map mark as)" "a_ip b = ip"
    then obtain a where a: "a \<in> set as" "b = mark a" "a_ip a = ip" by (auto simp: key)
    show "a_removed b \<longleftrightarrow> a_job b \<notin> set ?M" using gone [OF a(1)] a fr by (auto simp: fresh_def key)
    assume "\<not> a_removed b"
    then show "\<not> a_disabled b" "a_seq b = 0" using gone [OF a(1)] a fr by (auto simp: fresh_def split: if_splits)
  next
    fix job assume "job \<in> set ?M"
    then show "\<exists>a \<in> set (map mark as). a_ip a = ip \<and> a_job a = job" using there key by fastforce
  qed
  moreover have "b \<in> set (map mark as) \<longleftrightarrow> b \<in> set (t_allocations c)" if "a_ip b \<noteq> ip" for b
  proof -
    have id: "mark a = a" if "a_ip a \<noteq> ip" for a using that by (simp add: mark_def)
    have "b \<in> set (map mark as) \<longleftrightarrow> b \<in> set as"
    proof
      assume "b \<in> set (map mark as)"
      then obtain a where "a \<in> set as" "b = mark a" by auto
      then show "b \<in> set as" using id [of a] key [of a] that by auto
    next
      assume "b \<in> set as"
      then show "b \<in> set (map mark as)" using id [OF that] by (metis image_eqI set_map)
    qed
    then show ?thesis using keep [of b] that by simp
  qed
  ultimately show ?thesis by blast
qed

lemma place_all:
  assumes "rfold (place_on_worker uuid) c ips = Inr c'" and "allocs_ok uuid (t_allocations c)" and nz: "\<And>x. uuid x \<noteq> []"
  shows "\<exists>as. c' = with_allocs c as \<and> allocs_ok uuid as \<and>
    (\<forall>ip \<in> set ips. placed (set (matchingJobs c ip)) ip as) \<and>
    (\<forall>a. a_ip a \<notin> set ips \<longrightarrow> (a \<in> set as \<longleftrightarrow> a \<in> set (t_allocations c)))"
  using assms(1,2)
proof (induction ips arbitrary: c)
  case Nil
  then show ?case by (intro exI [of _ "t_allocations c"]) auto
next
  case (Cons ip ips)
  from Cons.prems(1) obtain c1 where one: "place_on_worker uuid c ip = Inr c1" and rest: "rfold (place_on_worker uuid) c1 ips = Inr c'"
    by (cases "place_on_worker uuid c ip") auto
  from place_on_worker_placed [OF one Cons.prems(2) nz] obtain as1 where as1: "c1 = with_allocs c as1" "allocs_ok uuid as1"
    "placed (set (matchingJobs c ip)) ip as1" "\<forall>a. a_ip a \<noteq> ip \<longrightarrow> (a \<in> set as1 \<longleftrightarrow> a \<in> set (t_allocations c))" by blast
  from Cons.IH [OF rest] as1(1,2) obtain as where as: "c' = with_allocs c as" "allocs_ok uuid as"
    "\<forall>ip \<in> set ips. placed (set (matchingJobs c ip)) ip as"
    "\<forall>a. a_ip a \<notin> set ips \<longrightarrow> (a \<in> set as \<longleftrightarrow> a \<in> set as1)" by auto
  have "placed (set (matchingJobs c ip)) ip as"
  proof (cases "ip \<in> set ips")
    case False
    then have "a \<in> set as \<longleftrightarrow> a \<in> set as1" if "a_ip a = ip" for a using as(4) that by blast
    then show ?thesis using as1(3) unfolding placed_def by meson
  qed (use as(3) in blast)
  then show ?case using as as1(4) by (intro exI [of _ as]) auto
qed

section \<open>Disabling\<close>

definition is_disabled :: "disabled_config \<Rightarrow> alloc_row \<Rightarrow> bool" where
  "is_disabled d a \<longleftrightarrow> a_ip a \<in> set (dc_workers d) \<or>
     (\<exists>(job, ips) \<in> set (dc_jobs d). a_job a = job \<and> (ips = [] \<or> a_ip a \<in> set ips))"

text \<open>A condition on the key of a row.\<close>

definition on_key :: "(alloc_row \<Rightarrow> bool) \<Rightarrow> bool" where
  "on_key P \<longleftrightarrow> (\<forall>a b. P (a\<lparr>a_disabled := b\<rparr>) = P a)"

lemma disable_False: "disable (\<lambda>_. False) c = c"
  by (simp add: disable_def update_allocations_def)

lemma disable_disable: "on_key Q \<Longrightarrow> disable Q (disable P c) = disable (\<lambda>a. P a \<or> Q a) c"
  by (auto simp: disable_def update_allocations_def on_key_def)

lemma disable_fold:
  "(\<And>x. on_key (P x)) \<Longrightarrow> foldl (\<lambda>c x. disable (P x) c) (disable Q c) xs = disable (\<lambda>a. Q a \<or> (\<exists>x \<in> set xs. P x a)) c"
proof (induction xs arbitrary: Q)
  case (Cons x xs)
  then show ?case by (simp add: disable_disable disj_assoc)
qed simp

lemma apply_disabled_eq: "apply_disabled d c = disable (is_disabled d) c"
proof -
  have w: "foldl (\<lambda>c ip. disable (\<lambda>a. a_ip a = ip) c) c (dc_workers d) = disable (\<lambda>a. a_ip a \<in> set (dc_workers d)) c"
    using disable_fold [of "\<lambda>ip a. a_ip a = ip" "\<lambda>_. False" c "dc_workers d"] by (simp add: on_key_def disable_False)
  have one: "(if ips = [] then disable (\<lambda>a. a_job a = job) c
       else foldl (\<lambda>c ip. disable (\<lambda>a. a_job a = job \<and> a_ip a = ip) c) c ips) =
      disable (\<lambda>a. a_job a = job \<and> (ips = [] \<or> a_ip a \<in> set ips)) c" for job ips c
    using disable_fold [of "\<lambda>ip a. a_job a = job \<and> a_ip a = ip" "\<lambda>_. False" c ips]
    by (auto simp: on_key_def disable_False intro: arg_cong [where f = "\<lambda>P. disable P c"])
  have "apply_disabled d c = foldl (\<lambda>c x. disable (\<lambda>a. a_job a = fst x \<and> (snd x = [] \<or> a_ip a \<in> set (snd x))) c)
      (disable (\<lambda>a. a_ip a \<in> set (dc_workers d)) c) (dc_jobs d)"
    unfolding apply_disabled_def w one by (simp add: case_prod_beta')
  also have "\<dots> = disable (\<lambda>a. a_ip a \<in> set (dc_workers d) \<or>
      (\<exists>x \<in> set (dc_jobs d). a_job a = fst x \<and> (snd x = [] \<or> a_ip a \<in> set (snd x)))) c"
    by (rule disable_fold) (simp add: on_key_def)
  also have "(\<lambda>a. a_ip a \<in> set (dc_workers d) \<or>
      (\<exists>x \<in> set (dc_jobs d). a_job a = fst x \<and> (snd x = [] \<or> a_ip a \<in> set (snd x)))) = is_disabled d"
    by (auto simp: fun_eq_iff is_disabled_def case_prod_beta')
  finally show ?thesis .
qed

section \<open>Allocations that are enabled again\<close>

definition reset_row :: "hash_row \<Rightarrow> hash_row" where
  "reset_row h = h\<lparr>h_previous_hash := None, h_previous_files := None\<rparr>"

lemma MarkStartPending_rows:
  "hash_rows (MarkAllocationStartPending c job i) ns k =
    (if ns = allocation_namespace job \<and> k = i then map reset_row (hash_rows c ns k) else hash_rows c ns k)"
  unfolding MarkAllocationStartPending_def reset_row_def [abs_def]
  by (subst hash_rows_update) (auto simp: keeps_key_def)

lemma MarkStartPending_frame [frame]:
  "t_allocations (MarkAllocationStartPending c job i) = t_allocations c"
  "t_worker (MarkAllocationStartPending c job i) = t_worker c" "t_job (MarkAllocationStartPending c job i) = t_job c"
  "t_job_commands (MarkAllocationStartPending c job i) = t_job_commands c"
  by (simp_all add: MarkAllocationStartPending_def frame)

lemma catalog_ok_MarkStartPending: "catalog_ok c \<Longrightarrow> catalog_ok (MarkAllocationStartPending c job i)"
  unfolding MarkAllocationStartPending_def by (rule catalog_ok_update_hash) (simp_all add: keeps_key_def)

text \<open>Whether the row with this key is reset by the loop over these allocations.\<close>

definition resets :: "string list \<Rightarrow> alloc_row list \<Rightarrow> string \<Rightarrow> string \<Rightarrow> bool" where
  "resets before as ns k \<longleftrightarrow> (\<exists>a \<in> set as. a_ip a @ ''|'' @ a_job a \<in> set before \<and>
     ns = allocation_namespace (a_job a) \<and> k = a_id a)"

lemma reset_row_idem: "reset_row (reset_row h) = reset_row h"
  by (simp add: reset_row_def)

lemma mark_loop:
  defines "f \<equiv> \<lambda>before c a. if a_ip a @ ''|'' @ a_job a \<in> set before
                  then MarkAllocationStartPending c (a_job a) (a_id a) else c"
  shows "hash_rows (foldl (f before) c as) ns k =
      (if resets before as ns k then map reset_row (hash_rows c ns k) else hash_rows c ns k) \<and>
    t_allocations (foldl (f before) c as) = t_allocations c \<and> t_worker (foldl (f before) c as) = t_worker c \<and>
    t_job (foldl (f before) c as) = t_job c \<and> t_job_commands (foldl (f before) c as) = t_job_commands c \<and>
    (catalog_ok c \<longrightarrow> catalog_ok (foldl (f before) c as))"
proof (induction as arbitrary: c)
  case (Cons a as)
  then show ?case
    by (auto simp: f_def resets_def MarkStartPending_rows MarkStartPending_frame catalog_ok_MarkStartPending
        reset_row_idem comp_def)
qed (simp add: resets_def)

section \<open>The result of the build\<close>

lemma set_GetWorkers: "set (GetWorkers c []) = w_ip ` set (t_worker c)"
  by (simp add: GetWorkers_def)

lemma BuildAllocations_parts:
  assumes run: "BuildAllocations uuid d c = Inr c'" and ok: "allocs_ok uuid (t_allocations c)" and nz: "\<And>x. uuid x \<noteq> []"
  shows "\<exists>as. allocs_ok uuid as \<and> (\<forall>ip \<in> w_ip ` set (t_worker c). placed (set (matchingJobs c ip)) ip as) \<and>
    (\<forall>a \<in> set as. a_ip a \<in> w_ip ` set (t_worker c) \<or> a \<in> set (t_allocations c)) \<and>
    c' = markReenabledAllocations (loadDisabledAllocations c) (with_allocs c
      (map (\<lambda>a. if is_disabled d a then a\<lparr>a_disabled := True\<rparr> else a)
        (map (\<lambda>a. if a_ip a \<notin> w_ip ` set (t_worker c) then a\<lparr>a_removed := True\<rparr> else a) as)))"
proof -
  from run obtain c1 where loop: "rfold (place_on_worker uuid) c (GetWorkers c []) = Inr c1"
    and c': "c' = markReenabledAllocations (loadDisabledAllocations c) (apply_disabled d
      (update_allocations (\<lambda>a. a_ip a \<notin> w_ip ` set (t_worker c1)) (\<lambda>a. a\<lparr>a_removed := True\<rparr>) c1))"
    by (cases "rfold (place_on_worker uuid) c (GetWorkers c [])") (auto simp: BuildAllocations_def Let_def)
  from place_all [OF loop ok nz] obtain as where as: "c1 = with_allocs c as" "allocs_ok uuid as"
    "\<forall>ip \<in> w_ip ` set (t_worker c). placed (set (matchingJobs c ip)) ip as"
    "\<forall>a. a_ip a \<notin> w_ip ` set (t_worker c) \<longrightarrow> (a \<in> set as \<longleftrightarrow> a \<in> set (t_allocations c))" unfolding set_GetWorkers by blast
  have w: "t_worker c1 = t_worker c" by (simp add: as(1))
  have "apply_disabled d (update_allocations (\<lambda>a. a_ip a \<notin> w_ip ` set (t_worker c1)) (\<lambda>a. a\<lparr>a_removed := True\<rparr>) c1) =
     with_allocs c (map (\<lambda>a. if is_disabled d a then a\<lparr>a_disabled := True\<rparr> else a)
        (map (\<lambda>a. if a_ip a \<notin> w_ip ` set (t_worker c) then a\<lparr>a_removed := True\<rparr> else a) as))"
    unfolding apply_disabled_eq disable_def update_allocations_def w unfolding as(1) with_allocs_def by simp
  with as c' show ?thesis by auto
qed

text \<open>The rows after the build, from the rows \<open>as\<close> of the loop over the workers.\<close>

lemma build_rows:
  assumes run: "BuildAllocations uuid d c = Inr c'" and ok: "allocs_ok uuid (t_allocations c)" and nz: "\<And>x. uuid x \<noteq> []"
  shows "\<exists>as f. (\<forall>ip \<in> w_ip ` set (t_worker c). placed (set (matchingJobs c ip)) ip as) \<and>
    t_allocations c' = map f as \<and> (\<forall>a. a_ip (f a) = a_ip a \<and> a_job (f a) = a_job a \<and>
      (a_removed (f a) \<longleftrightarrow> a_removed a \<or> a_ip a \<notin> w_ip ` set (t_worker c))) \<and>
    (\<forall>a \<in> set (t_allocations c'). \<not> a_removed a \<longrightarrow>
      a_ip a \<in> w_ip ` set (t_worker c) \<and> a_seq a = 0 \<and> (a_disabled a \<longleftrightarrow> is_disabled d a)) \<and>
    allocs_ok uuid (t_allocations c')"
proof -
  from BuildAllocations_parts [OF run ok nz] obtain as where as: "allocs_ok uuid as"
    "\<forall>ip \<in> w_ip ` set (t_worker c). placed (set (matchingJobs c ip)) ip as"
    and c': "c' = markReenabledAllocations (loadDisabledAllocations c) (with_allocs c
      (map (\<lambda>a. if is_disabled d a then a\<lparr>a_disabled := True\<rparr> else a)
        (map (\<lambda>a. if a_ip a \<notin> w_ip ` set (t_worker c) then a\<lparr>a_removed := True\<rparr> else a) as)))" by blast
  define f :: "alloc_row \<Rightarrow> alloc_row" where "f = (\<lambda>a. if is_disabled d a then a\<lparr>a_disabled := True\<rparr> else a)"
  define g :: "alloc_row \<Rightarrow> alloc_row" where
    "g = (\<lambda>a. if a_ip a \<notin> w_ip ` set (t_worker c) then a\<lparr>a_removed := True\<rparr> else a)"
  have al: "t_allocations c' = map (\<lambda>a. f (g a)) as"
    using mark_loop by (simp add: c' markReenabledAllocations_def f_def g_def comp_def)
  have key: "a_ip (f (g a)) = a_ip a" "a_job (f (g a)) = a_job a" "a_id (f (g a)) = a_id a" "a_seq (f (g a)) = a_seq a"
    "is_disabled d (f (g a)) = is_disabled d a" for a by (simp_all add: f_def g_def is_disabled_def)
  have rem: "a_removed (f (g a)) \<longleftrightarrow> a_removed a \<or> a_ip a \<notin> w_ip ` set (t_worker c)"
    and dis: "a_disabled (f (g a)) \<longleftrightarrow> a_disabled a \<or> is_disabled d a" for a
    by (simp_all add: f_def g_def is_disabled_def)
  have "a_ip a \<in> w_ip ` set (t_worker c) \<and> a_seq a = 0 \<and> (a_disabled a \<longleftrightarrow> is_disabled d a)"
    if "a \<in> set (t_allocations c')" "\<not> a_removed a" for a
  proof -
    from that(1) obtain b where b: "b \<in> set as" "a = f (g b)" by (auto simp: al)
    then have "\<not> a_removed b" "a_ip b \<in> w_ip ` set (t_worker c)" using that(2) rem by auto
    moreover from this as(2) b(1) have "\<not> a_disabled b" "a_seq b = 0" by (auto simp: placed_def)
    ultimately show ?thesis by (simp add: b(2) key dis)
  qed
  moreover have "allocs_ok uuid (t_allocations c')" using as(1) by (simp add: allocs_ok_def al key comp_def)
  ultimately show ?thesis using as(2) al key rem
    by (intro exI [of _ as] exI [of _ "\<lambda>a. f (g a)"]) blast
qed

lemma places_exactly:
  assumes run: "BuildAllocations uuid d c = Inr c'" and ok: "allocs_ok uuid (t_allocations c)" and nz: "\<And>x. uuid x \<noteq> []"
  shows "(\<forall>w \<in> set (t_worker c). \<forall>job.
      (\<exists>a \<in> set (t_allocations c'). a_ip a = w_ip w \<and> a_job a = job \<and> \<not> a_removed a) \<longleftrightarrow>
      (\<exists>j \<in> set (t_job c). j_name j = job \<and> selectors_of c (j_id j) \<noteq> [] \<and>
         set (selectors_of c (j_id j)) \<subseteq> set (labels_of_ip c (w_ip w)))) \<and>
    (\<forall>a \<in> set (t_allocations c'). \<not> a_removed a \<longrightarrow>
      a_ip a \<in> w_ip ` set (t_worker c) \<and> a_seq a = 0 \<and> (a_disabled a \<longleftrightarrow> is_disabled d a)) \<and>
    allocs_ok uuid (t_allocations c')"
proof -
  from build_rows [OF run ok nz] obtain as f where
    as: "\<forall>ip \<in> w_ip ` set (t_worker c). placed (set (matchingJobs c ip)) ip as" and al: "t_allocations c' = map f as"
    and key: "\<And>a. a_ip (f a) = a_ip a" "\<And>a. a_job (f a) = a_job a"
      "\<And>a. a_removed (f a) \<longleftrightarrow> a_removed a \<or> a_ip a \<notin> w_ip ` set (t_worker c)"
    and live: "\<forall>a \<in> set (t_allocations c'). \<not> a_removed a \<longrightarrow>
      a_ip a \<in> w_ip ` set (t_worker c) \<and> a_seq a = 0 \<and> (a_disabled a \<longleftrightarrow> is_disabled d a)"
    and ok': "allocs_ok uuid (t_allocations c')" by blast
  have "(\<exists>a \<in> set (t_allocations c'). a_ip a = w_ip w \<and> a_job a = job \<and> \<not> a_removed a) \<longleftrightarrow> job \<in> set (matchingJobs c (w_ip w))"
    if w: "w \<in> set (t_worker c)" for w job
  proof -
    have p: "placed (set (matchingJobs c (w_ip w))) (w_ip w) as" using as w by blast
    have "(\<exists>a \<in> set (t_allocations c'). a_ip a = w_ip w \<and> a_job a = job \<and> \<not> a_removed a) \<longleftrightarrow>
        (\<exists>a \<in> set as. a_ip a = w_ip w \<and> a_job a = job \<and> \<not> a_removed a)"
      using w by (auto simp: al key)
    then show ?thesis using p unfolding placed_def by metis
  qed
  then show ?thesis unfolding set_matchingJobs using live ok' by blast
qed

text \<open>Property C5: the build places jobs exactly by their selectors. After it succeeds, a job has a live
  allocation on a worker of the catalog exactly when it has selectors and the worker carries all of them; no
  allocation on any other worker is live; a live allocation is disabled exactly when \<open>disabled.json\<close> says so; and
  every allocation keeps its key and its UUID.\<close>

theorem build_places_exactly:
  assumes run: "BuildAllocations uuid d c = Inr c'" and ok: "allocs_ok uuid (t_allocations c)" and nz: "\<And>x. uuid x \<noteq> []"
  shows "(\<forall>w \<in> set (t_worker c). \<forall>job.
      (\<exists>a \<in> set (t_allocations c'). a_ip a = w_ip w \<and> a_job a = job \<and> \<not> a_removed a) \<longleftrightarrow>
      (\<exists>j \<in> set (t_job c). j_name j = job \<and> selectors_of c (j_id j) \<noteq> [] \<and>
         set (selectors_of c (j_id j)) \<subseteq> set (labels_of_ip c (w_ip w)))) \<and>
    (\<forall>a \<in> set (t_allocations c'). \<not> a_removed a \<longrightarrow>
      a_ip a \<in> w_ip ` set (t_worker c) \<and> a_seq a = 0 \<and> (a_disabled a \<longleftrightarrow> is_disabled d a)) \<and>
    allocs_ok uuid (t_allocations c')"
  by (rule places_exactly [OF run ok nz])

lemma bar_split: "CHR ''|'' \<notin> set x \<Longrightarrow> CHR ''|'' \<notin> set y \<Longrightarrow> x @ ''|'' @ u = y @ ''|'' @ v \<longleftrightarrow> x = y \<and> u = v"
proof (induction x arbitrary: y)
  case Nil
  then show ?case by (cases y) auto
next
  case (Cons c x)
  then show ?case by (cases y) auto
qed

lemma bar_split_last: "CHR ''|'' \<notin> set u \<Longrightarrow> CHR ''|'' \<notin> set v \<Longrightarrow> x @ ''|'' @ u = y @ ''|'' @ v \<longleftrightarrow> x = y \<and> u = v"
proof -
  assume "CHR ''|'' \<notin> set u" "CHR ''|'' \<notin> set v"
  then have "rev u @ ''|'' @ rev x = rev v @ ''|'' @ rev y \<longleftrightarrow> rev u = rev v \<and> rev x = rev y"
    by (intro bar_split) simp_all
  moreover have "x @ ''|'' @ u = y @ ''|'' @ v \<longleftrightarrow> rev u @ ''|'' @ rev x = rev v @ ''|'' @ rev y"
    by (subst rev_is_rev_conv [symmetric]) simp
  ultimately show ?thesis by auto
qed

text \<open>No address of a worker has a bar in it, which is what keeps the keys of the two maps apart.\<close>

definition no_bars :: "catalog \<Rightarrow> bool" where
  "no_bars c \<longleftrightarrow> (\<forall>w \<in> set (t_worker c). CHR ''|'' \<notin> set (w_ip w)) \<and>
     (\<forall>a \<in> set (t_allocations c). CHR ''|'' \<notin> set (a_ip a))"

text \<open>Property C20: an allocation that leaves \<open>disabled.json\<close> is started again. The hash row of a live and enabled
  allocation loses its promoted hash, so that the next deploy sees it as new, exactly when the allocation was
  disabled and not removed before this build; otherwise its row is untouched.\<close>

theorem reenabled_is_started_again:
  assumes run: "BuildAllocations uuid d c = Inr c'" and ids: "allocs_ok uuid (t_allocations c)"
    and uuid: "inj uuid" "\<And>x. uuid x \<noteq> []" and bars: "no_bars c"
    and b: "b \<in> set (t_allocations c')" and live: "\<not> a_removed b" "\<not> a_disabled b"
  shows "hash_rows c' (allocation_namespace (a_job b)) (a_id b) =
    (if \<exists>a \<in> set (t_allocations c). a_ip a = a_ip b \<and> a_job a = a_job b \<and> a_disabled a \<and> \<not> a_removed a
     then map reset_row (hash_rows c (allocation_namespace (a_job b)) (a_id b))
     else hash_rows c (allocation_namespace (a_job b)) (a_id b))"
proof -
  from BuildAllocations_parts [OF run ids uuid(2)] obtain bs where
    c': "c' = markReenabledAllocations (loadDisabledAllocations c) (with_allocs c bs)" by blast
  let ?live = "filter (\<lambda>a. \<not> a_disabled a \<and> \<not> a_removed a) bs"
  let ?ns = "allocation_namespace (a_job b)"
  have al: "t_allocations c' = bs" using mark_loop by (simp add: c' markReenabledAllocations_def)
  have rows: "hash_rows c' ?ns (a_id b) =
      (if resets (loadDisabledAllocations c) ?live ?ns (a_id b) then map reset_row (hash_rows c ?ns (a_id b)) else hash_rows c ?ns (a_id b))"
    using mark_loop [of "loadDisabledAllocations c" "with_allocs c bs" ?live ?ns "a_id b"]
    by (simp add: c' markReenabledAllocations_def hash_rows_def)
  from build_rows [OF run ids uuid(2)] have ok': "allocs_ok uuid bs"
    and ips: "\<And>a. a \<in> set bs \<Longrightarrow> \<not> a_removed a \<Longrightarrow> a_ip a \<in> w_ip ` set (t_worker c)" by (auto simp: al)
  have bar: "CHR ''|'' \<notin> set (a_ip a)" if "a \<in> set bs" "\<not> a_removed a" for a
    using ips [OF that] bars by (auto simp: no_bars_def)
  have same: "a_ip a = a_ip b" if "a \<in> set ?live" "a_job a = a_job b" "a_id a = a_id b" for a
  proof -
    have "uuid (a_job a @ ''|'' @ a_ip a) = uuid (a_job b @ ''|'' @ a_ip b)"
      using ok' that b by (auto simp: allocs_ok_def al)
    then have "a_job a @ ''|'' @ a_ip a = a_job b @ ''|'' @ a_ip b" using uuid(1) by (simp add: inj_eq)
    then show ?thesis using that(2) by simp
  qed
  have key: "a_ip b @ ''|'' @ a_job b \<in> set (loadDisabledAllocations c) \<longleftrightarrow>
      (\<exists>a \<in> set (t_allocations c). a_ip a = a_ip b \<and> a_job a = a_job b \<and> a_disabled a \<and> \<not> a_removed a)"
  proof -
    have "a_ip b @ ''|'' @ a_job b = a_ip a @ ''|'' @ a_job a \<longleftrightarrow> a_ip a = a_ip b \<and> a_job a = a_job b"
      if "a \<in> set (t_allocations c)" for a
      using bar_split [of "a_ip b" "a_ip a"] bar [of b] b live bars that by (auto simp: al no_bars_def)
    then show ?thesis unfolding loadDisabledAllocations_def by fastforce
  qed
  have "resets (loadDisabledAllocations c) ?live ?ns (a_id b) \<longleftrightarrow> a_ip b @ ''|'' @ a_job b \<in> set (loadDisabledAllocations c)"
  proof
    assume "resets (loadDisabledAllocations c) ?live ?ns (a_id b)"
    then obtain a where a: "a \<in> set ?live" "a_ip a @ ''|'' @ a_job a \<in> set (loadDisabledAllocations c)"
      "a_job a = a_job b" "a_id a = a_id b" by (auto simp: resets_def allocation_namespace_inj)
    then show "a_ip b @ ''|'' @ a_job b \<in> set (loadDisabledAllocations c)" using same [OF a(1,3,4)] by simp
  next
    assume "a_ip b @ ''|'' @ a_job b \<in> set (loadDisabledAllocations c)"
    then show "resets (loadDisabledAllocations c) ?live ?ns (a_id b)"
      using b live unfolding resets_def al [symmetric] by (intro bexI [of _ b]) auto
  qed
  then show ?thesis unfolding rows key by simp
qed

section \<open>The build and the waves of a deploy\<close>

lemma BuildSequence_parts:
  assumes "BuildDeploymentSequence c = Some (Inr c')"
  shows "\<exists>rows. c' = with_allocs c (map (set_deployment_seq rows) (t_allocations c))"
  using assms by (auto simp: BuildDeploymentSequence_def Let_def with_allocs_def split: option.splits sum.splits)

lemma set_deployment_seq_simps [simp]:
  "a_id (set_deployment_seq rows a) = a_id a" "a_ip (set_deployment_seq rows a) = a_ip a"
  "a_job (set_deployment_seq rows a) = a_job a" "a_removed (set_deployment_seq rows a) = a_removed a"
  "a_seq (set_deployment_seq rows a) = (case max_level rows (a_job a) of None \<Rightarrow> a_seq a | Some l \<Rightarrow> int l)"
  by (auto simp: set_deployment_seq_def split: option.split)

lemma waves_prepared:
  assumes alloc: "BuildAllocations uuid d c = Inr c1" and seq: "BuildDeploymentSequence c1 = Some (Inr c2)"
    and ok: "catalog_ok c" and ids: "allocs_ok uuid (t_allocations c)"
    and uuid: "inj uuid" "\<And>x. uuid x \<noteq> []" and bars: "no_bars c"
  shows "catalog_ok c2 \<and> one_wave c2"
proof -
  from BuildAllocations_parts [OF alloc ids uuid(2)] obtain as bs where as: "allocs_ok uuid as"
    "\<forall>ip \<in> w_ip ` set (t_worker c). placed (set (matchingJobs c ip)) ip as"
    "\<forall>a \<in> set as. a_ip a \<in> w_ip ` set (t_worker c) \<or> a \<in> set (t_allocations c)"
    and bs: "bs = map (\<lambda>a. if is_disabled d a then a\<lparr>a_disabled := True\<rparr> else a)
        (map (\<lambda>a. if a_ip a \<notin> w_ip ` set (t_worker c) then a\<lparr>a_removed := True\<rparr> else a) as)"
    and c1: "c1 = markReenabledAllocations (loadDisabledAllocations c) (with_allocs c bs)" by blast
  from BuildSequence_parts [OF seq] obtain rows where c2: "c2 = with_allocs c1 (map (set_deployment_seq rows) (t_allocations c1))" by blast
  from build_rows [OF alloc ids uuid(2)] have ok1: "allocs_ok uuid (t_allocations c1)"
    and live: "\<And>a. a \<in> set (t_allocations c1) \<Longrightarrow> \<not> a_removed a \<Longrightarrow> a_seq a = 0" by auto
  have one: "one_wave c2" unfolding one_wave_def by (auto simp: c2 live split: option.split)
  have frame1: "t_allocations c1 = bs" "catalog_ok (with_allocs c bs) \<Longrightarrow> catalog_ok c1"
    using mark_loop [of "loadDisabledAllocations c"] by (simp_all add: c1 markReenabledAllocations_def)
  have bar: "CHR ''|'' \<notin> set (a_ip a)" if "a \<in> set bs" for a
    using that as(3) bars by (auto simp: bs no_bars_def split: if_splits)
  have "inj_on a_id (set bs)"
  proof (rule inj_onI)
    fix a b assume a: "a \<in> set bs" and b: "b \<in> set bs" and "a_id a = a_id b"
    then have "uuid (a_job a @ ''|'' @ a_ip a) = uuid (a_job b @ ''|'' @ a_ip b)"
      using ok1 by (simp add: frame1(1) allocs_ok_def)
    then have "a_job a @ ''|'' @ a_ip a = a_job b @ ''|'' @ a_ip b" using uuid(1) by (simp add: inj_eq)
    then have "(a_ip a, a_job a) = (a_ip b, a_job b)" using bar_split_last [OF bar [OF a] bar [OF b]] by simp
    moreover have "inj_on (\<lambda>a. (a_ip a, a_job a)) (set bs)" using ok1 by (simp add: frame1(1) allocs_ok_def distinct_map)
    ultimately show "a = b" using a b by (auto dest: inj_onD)
  qed
  then have "distinct (map a_id bs)" using ok1 by (auto simp: frame1(1) allocs_ok_def distinct_map)
  then have "catalog_ok (with_allocs c bs)"
    using ok ok1 by (auto simp: frame1(1) catalog_ok_def allocs_ok_def with_allocs_def)
  then have "catalog_ok c1" by (rule frame1(2))
  then have "catalog_ok c2" by (auto simp: c2 catalog_ok_def with_allocs_def comp_def)
  with one show ?thesis by simp
qed

text \<open>Property C4: what the build hands to a deploy. When the allocations and the deployment sequence were built
  on a catalog with intact keys, the keys are intact again, and the live allocations of every job are all in
  the same wave: these are the assumptions under which a deploy settles exactly the jobs it deployed.\<close>

theorem build_prepares_waves:
  assumes alloc: "BuildAllocations uuid d c = Inr c1" and seq: "BuildDeploymentSequence c1 = Some (Inr c2)"
    and ok: "catalog_ok c" and ids: "allocs_ok uuid (t_allocations c)"
    and uuid: "inj uuid" "\<And>x. uuid x \<noteq> []" and bars: "no_bars c"
  shows "catalog_ok c2 \<and> one_wave c2"
  by (rule waves_prepared [OF alloc seq ok ids uuid bars])

section \<open>Witnesses\<close>

text \<open>Job \<open>a\<close> selects the label \<open>x\<close>, which worker \<open>w\<close> carries and worker \<open>v\<close> does not; job \<open>d\<close> selects nothing.
  The allocation of \<open>a\<close> on \<open>w\<close> was disabled before, the one on \<open>v\<close> has lost its place.\<close>

definition a_uuid :: "string \<Rightarrow> string" where
  "a_uuid x = ''u'' @ x"

definition uuid_alloc :: "string \<Rightarrow> string \<Rightarrow> alloc_row" where
  "uuid_alloc ip job = (plain_alloc ip job)\<lparr>a_id := a_uuid (job @ ''|'' @ ip)\<rparr>"

definition labelled :: catalog where
  "labelled = empty_catalog\<lparr>t_worker := [plain_worker ''w'' 0, plain_worker ''v'' 1],
     t_worker_labels := [(w_id (plain_worker ''w'' 0), ''x'')], t_job := [plain_job ''a'', plain_job ''d''],
     t_job_selectors := [(j_id (plain_job ''a''), ''x'')],
     t_allocations := [(uuid_alloc ''w'' ''a'')\<lparr>a_disabled := True\<rparr>, uuid_alloc ''v'' ''a''],
     t_hash := [\<lparr>h_namespace = ''a_allocation'', h_key = ''ua|w'', h_current_hash = Some ''1'', h_previous_hash = Some ''1'',
       h_current_files = None, h_previous_files = None, h_current_version = Some ''1''\<rparr>]\<rparr>"

definition none_disabled :: disabled_config where
  "none_disabled = \<lparr>dc_workers = [], dc_jobs = []\<rparr>"

definition the_ok :: "catalog \<Rightarrow> error + catalog \<Rightarrow> catalog" where
  "the_ok c r = (case r of Inl _ \<Rightarrow> c | Inr c' \<Rightarrow> c')"

definition rebuilt :: catalog where
  "rebuilt = the_ok labelled (BuildAllocations a_uuid none_disabled labelled)"

lemma rebuilt: "BuildAllocations a_uuid none_disabled labelled = Inr rebuilt"
  by code_simp

lemma a_uuid: "inj a_uuid" "\<And>x. a_uuid x \<noteq> []"
  by (simp_all add: a_uuid_def inj_def)

lemma labelled_ok: "allocs_ok a_uuid (t_allocations labelled)" "no_bars labelled" "catalog_ok labelled"
  by code_simp+

lemma build_places_exactly_witness:
  "BuildAllocations a_uuid none_disabled labelled = Inr rebuilt \<and>
   (\<exists>a \<in> set (t_allocations rebuilt). a_ip a = ''w'' \<and> a_job a = ''a'' \<and> \<not> a_removed a) \<and>
   \<not> (\<exists>a \<in> set (t_allocations rebuilt). a_ip a = ''v'' \<and> a_job a = ''a'' \<and> \<not> a_removed a)"
proof -
  have w: "plain_worker ''w'' 0 \<in> set (t_worker labelled)" "plain_worker ''v'' 1 \<in> set (t_worker labelled)"
    "w_ip (plain_worker ''w'' 0) = ''w''" "w_ip (plain_worker ''v'' 1) = ''v''" by code_simp+
  have p: "(\<exists>j \<in> set (t_job labelled). j_name j = ''a'' \<and> selectors_of labelled (j_id j) \<noteq> [] \<and>
         set (selectors_of labelled (j_id j)) \<subseteq> set (labels_of_ip labelled ''w''))"
    "\<not> (\<exists>j \<in> set (t_job labelled). j_name j = ''a'' \<and> selectors_of labelled (j_id j) \<noteq> [] \<and>
         set (selectors_of labelled (j_id j)) \<subseteq> set (labels_of_ip labelled ''v''))" by code_simp+
  from build_places_exactly [OF rebuilt labelled_ok(1) a_uuid(2)] w p rebuilt show ?thesis by metis
qed

lemma reenabled_is_started_again_witness:
  "(\<exists>b \<in> set (t_allocations rebuilt). a_id b = ''ua|w'') \<and>
   map h_previous_hash (hash_rows labelled ''a_allocation'' ''ua|w'') = [Some ''1''] \<and>
   map h_previous_hash (hash_rows rebuilt ''a_allocation'' ''ua|w'') = [None]"
proof -
  have "list_ex (\<lambda>b. a_id b = ''ua|w'' \<and> a_job b = ''a'' \<and> a_ip b = ''w'' \<and> \<not> a_removed b \<and> \<not> a_disabled b) (t_allocations rebuilt)"
    by code_simp
  then obtain b where b: "b \<in> set (t_allocations rebuilt)" "a_id b = ''ua|w''" "a_job b = ''a''" "a_ip b = ''w''"
    "\<not> a_removed b" "\<not> a_disabled b" by (auto simp: list_ex_iff)
  have "list_ex (\<lambda>a. a_ip a = ''w'' \<and> a_job a = ''a'' \<and> a_disabled a \<and> \<not> a_removed a) (t_allocations labelled)" by code_simp
  then have was: "\<exists>a \<in> set (t_allocations labelled). a_ip a = a_ip b \<and> a_job a = a_job b \<and> a_disabled a \<and> \<not> a_removed a"
    unfolding list_ex_iff b .
  have rows: "map h_previous_hash (hash_rows labelled ''a_allocation'' ''ua|w'') = [Some ''1'']" by code_simp
  have ns: "allocation_namespace ''a'' = ''a_allocation''" by (simp add: allocation_namespace_def)
  have "hash_rows rebuilt (allocation_namespace (a_job b)) (a_id b) =
      map reset_row (hash_rows labelled (allocation_namespace (a_job b)) (a_id b))"
    unfolding reenabled_is_started_again [OF rebuilt labelled_ok(1) a_uuid labelled_ok(2) b(1,5,6)] if_P [OF was] ..
  then have "hash_rows rebuilt ''a_allocation'' ''ua|w'' = map reset_row (hash_rows labelled ''a_allocation'' ''ua|w'')"
    unfolding b ns .
  moreover have "\<And>h. h_previous_hash (reset_row h) = None" by (simp add: reset_row_def)
  ultimately have "map h_previous_hash (hash_rows rebuilt ''a_allocation'' ''ua|w'') =
      map (\<lambda>_. None) (map h_previous_hash (hash_rows labelled ''a_allocation'' ''ua|w''))" by (simp add: comp_def)
  then show ?thesis using b(1,2) rows by auto
qed

definition rebuilt_waves :: catalog where
  "rebuilt_waves = (case BuildDeploymentSequence rebuilt of Some (Inr c) \<Rightarrow> c | _ \<Rightarrow> rebuilt)"

lemma rebuilt_waves: "BuildDeploymentSequence rebuilt = Some (Inr rebuilt_waves)"
  by code_simp

lemma build_prepares_waves_witness: "catalog_ok rebuilt_waves \<and> one_wave rebuilt_waves \<and> rebuilt_waves \<noteq> labelled"
proof -
  have "catalog_ok rebuilt_waves \<and> one_wave rebuilt_waves"
    by (rule build_prepares_waves [OF rebuilt rebuilt_waves labelled_ok(3,1) a_uuid labelled_ok(2)])
  moreover have "length (filter a_disabled (t_allocations rebuilt_waves)) \<noteq> length (filter a_disabled (t_allocations labelled))" by code_simp
  ultimately show ?thesis by auto
qed

section \<open>An allocation that is disabled, removed and comes back\<close>

text \<open>\<open>loadDisabledAllocations\<close> looks at the rows that are not removed. An allocation that was disabled (and stopped by
  a deploy, which keeps its hash row), then lost its label in one build, and in the next build both carries the
  label again and is no longer disabled, keeps its promoted hash: the next deploy finds nothing to start.\<close>

lemma reenabled_after_removal_is_not_started:
  "let unlabelled = labelled\<lparr>t_worker_labels := []\<rparr>;
       gone = the_ok unlabelled (BuildAllocations a_uuid \<lparr>dc_workers = [], dc_jobs = [(''a'', [])]\<rparr> unlabelled);
       back = the_ok gone (BuildAllocations a_uuid none_disabled (gone\<lparr>t_worker_labels := t_worker_labels labelled\<rparr>))
   in map (\<lambda>a. (a_ip a, a_disabled a, a_removed a)) (allocs_of back ''a'') = [(''v'', True, True), (''w'', False, False)] \<and>
      GetPreviousHash back (allocation_namespace ''a'') ''ua|w'' = ''1''"
  by code_simp

end
