(* ===== verification/BuildKv.thy ===== *)
theory BuildKv
  imports Allocations
begin

text \<open>
  The keys that a build writes (\<open>build/build_variables.go\<close>, \<open>build/build_allocation_variables.go\<close>): facts about
  workers, jobs and the bucket, synchronised namespace by namespace with the store of the session. Files of the
  workspace arrive parsed: a missing file, a file that is not TOML, or its table.
\<close>

section \<open>Files and maps\<close>

type_synonym toml_file = "(string \<times> string) list option option"

record workspace_files =
  wf_selector :: string
  wf_hosts :: "error + (string \<times> string) list"
  wf_bucket :: toml_file
  wf_jobs :: "string \<Rightarrow> (string \<times> (string \<times> string) list) list option option"
  wf_vars :: "string \<Rightarrow> toml_file"
  wf_ca :: "string option"
  wf_uuid :: "string \<Rightarrow> string"

text \<open>A Go map after these assignments.\<close>

definition go_map :: "(string \<times> 'v) list \<Rightarrow> (string \<times> 'v) list" where
  "go_map kvs = foldl (\<lambda>m (k, v). AList.update k v m) [] kvs"

section \<open>Synchronising a namespace (build_allocation_variables.go, build_variables.go)\<close>

datatype sync_policy = SyncFull | SyncAllocation | SyncCert

definition kept_key :: "sync_policy \<Rightarrow> string \<Rightarrow> bool" where
  "kept_key policy k =
     (case policy of
        SyncFull \<Rightarrow> False
      | SyncAllocation \<Rightarrow> has_prefix ''certs/'' k \<or> k = ''version''
      | SyncCert \<Rightarrow> \<not> has_prefix ''certs/'' k)"

definition syncNamespaceKeyValues :: "string \<Rightarrow> (string \<times> string) list \<Rightarrow> sync_policy \<Rightarrow> store \<Rightarrow> error + store" where
  "syncNamespaceKeyValues ns kvs policy st =
     (let st1 = foldl (\<lambda>s (k, v). Put s ns k v 0) st kvs;
          stale = Difference (GetKeys st1 ns) (map fst kvs)
      in rfold (\<lambda>s k. if kept_key policy k then Ok s else Delete s ns k) st1 stale)"

definition syncKeyValues :: "string \<Rightarrow> (string \<times> string) list \<Rightarrow> store \<Rightarrow> error + store" where
  "syncKeyValues ns kvs = syncNamespaceKeyValues ns kvs SyncFull"

section \<open>Workers\<close>

definition worker_ns :: "string \<Rightarrow> string" where
  "worker_ns ip = ''maand/worker/'' @ ip"

definition worker_variables :: "(string \<times> string) list \<Rightarrow> catalog \<Rightarrow> string \<Rightarrow> error + (string \<times> string) list" where
  "worker_variables hosts c ip =
     rbind (GetWorkerID c ip) (\<lambda>workerID.
     rbind (GetWorkerCPU c ip) (\<lambda>cpu.
     rbind (GetWorkerMemory c ip) (\<lambda>memory.
     rbind (GetWorkerPosition c ip) (\<lambda>position.
       let labels = GetWorkerLabels c workerID
       in Ok (go_map (
            [(''worker_ip'', ip), (''worker_id'', workerID), (''labels'', join '','' labels)] @
            concat (map (\<lambda>l. let peers = Difference (GetWorkers c [l]) [ip]
                              in if peers \<noteq> [] then [(l @ ''_peers'', join '','' peers)] else []) labels) @
            concat (map (\<lambda>l. case index_of ip (GetWorkers c [l]) 0 of
                                None \<Rightarrow> [] | Some i \<Rightarrow> [(l @ ''_allocation_index'', itoa i)]) (GetLabels c)) @
            [(''worker_cpu_mhz'', cpu), (''worker_memory_mb'', memory),
             (''jobs'', join '','' (GetActiveAllocatedJobs c ip)), (''position'', itoa position)] @
            (case map_of hosts ip of Some h \<Rightarrow> if h \<noteq> [] then [(''hostname'', h)] else [] | None \<Rightarrow> [])))))))"

definition sync_worker :: "(string \<times> string) list \<Rightarrow> catalog \<Rightarrow> store \<Rightarrow> string \<Rightarrow> error + store" where
  "sync_worker hosts c st ip =
     rbind (worker_variables hosts c ip) (\<lambda>vars.
     rbind (syncKeyValues (worker_ns ip) vars st) (\<lambda>st1.
     rbind (GetWorkerID c ip) (\<lambda>workerID.
       syncKeyValues (worker_ns ip @ ''/tags'') (go_map (GetWorkerTags c workerID)) st1)))"

definition delete_all_keys :: "store \<Rightarrow> string \<Rightarrow> error + store" where
  "delete_all_keys st ns = rfold (\<lambda>s k. Delete s ns k) st (GetKeys st ns)"

definition forget_worker :: "catalog \<Rightarrow> store \<Rightarrow> string \<Rightarrow> error + store" where
  "forget_worker c st ip =
     rfold delete_all_keys st (worker_ns ip # map (\<lambda>job. worker_kv_namespace job ip) (GetAllocatedJobs c ip))"

definition buildWorkerVariables :: "(string \<times> string) list \<Rightarrow> catalog \<Rightarrow> string list \<Rightarrow> store \<Rightarrow> error + store" where
  "buildWorkerVariables hosts c removedWorkers st =
     rbind (rfold (sync_worker hosts c) st (GetWorkers c [])) (\<lambda>st1. rfold (forget_worker c) st1 removedWorkers)"

definition shared_variables :: "(string \<Rightarrow> string) \<Rightarrow> catalog \<Rightarrow> (string \<times> string) list" where
  "shared_variables uuid c =
     concat (map (\<lambda>l. let ws = GetWorkers c [l]
       in (if ws \<noteq> [] then [(l @ ''_label_id'', uuid l), (l @ ''_workers'', join '','' ws),
                             (l @ ''_workers_length'', itoa (int (length ws)))] else []) @
          map (\<lambda>(i, ip). (l @ ''_'' @ itoa (int i), ip)) (zip [0..<length ws] ws)) (GetLabels c))"

definition buildSharedWorkerVariables :: "workspace_files \<Rightarrow> catalog \<Rightarrow> store \<Rightarrow> error + store" where
  "buildSharedWorkerVariables files c st =
     (case wf_ca files of
        None \<Rightarrow> Err ErrUnexpectedError
      | Some ca \<Rightarrow> syncKeyValues ''maand/worker'' (go_map (shared_variables (wf_uuid files) c @ [(''certs/ca.crt'', ca)])) st)"

section \<open>The bucket\<close>

definition toml_table :: "'a list option option \<Rightarrow> error \<Rightarrow> error + 'a list" where
  "toml_table f err = (case f of None \<Rightarrow> Ok [] | Some None \<Rightarrow> Err err | Some (Some m) \<Rightarrow> Ok m)"

definition GetJobPortMap :: "catalog \<Rightarrow> string \<Rightarrow> (string \<times> string) list" where
  "GetJobPortMap c job = map (\<lambda>(n, p). (n, itoa p)) (GetJobPortMapInt c job)"

definition buildBucketVariables :: "workspace_files \<Rightarrow> catalog \<Rightarrow> store \<Rightarrow> error + store" where
  "buildBucketVariables files c st =
     rbind (toml_table (wf_bucket files) ErrInvalidBucketConf) (\<lambda>bucketConfig.
     rbind (rmap (\<lambda>job. rbind (JobHasActiveAllocations c job) (\<lambda>active. Ok (job, active))) (GetJobs c)) (\<lambda>jobs.
     rbind (GetBucketID c) (\<lambda>bucketID.
       let active = map fst (filter snd jobs);
           vars = go_map (concat (map (GetJobPortMap c) active) @
             [(''jobs'', join '','' (GetJobs c)), (''activejobs'', join '','' active), (''bucket_id'', bucketID)])
       in rbind (syncKeyValues ''vars/bucket'' (go_map bucketConfig) st) (\<lambda>st1. syncKeyValues ''maand/bucket'' vars st1))))"

section \<open>Jobs\<close>

definition job_config_file :: "string \<Rightarrow> string" where
  "job_config_file selector =
     (let s = trim_space selector in if s \<noteq> [] then ''bucket.jobs.'' @ s @ ''.conf'' else ''bucket.jobs.conf'')"

definition loadJobBucketConfig :: "workspace_files \<Rightarrow> string \<Rightarrow> error + string \<times> (string \<times> string) list" where
  "loadJobBucketConfig files job =
     (let name = job_config_file (wf_selector files)
      in rbind (toml_table (wf_jobs files name) ErrInvalidBucketConf) (\<lambda>settings.
           Ok (name, case map_of settings job of None \<Rightarrow> [] | Some m \<Rightarrow> m)))"

definition jobShouldPurgeBuildKV :: "catalog \<Rightarrow> string \<Rightarrow> bool" where
  "jobShouldPurgeBuildKV c job \<longleftrightarrow> allocs_of c job \<noteq> [] \<and> list_all a_removed (allocs_of c job)"

definition purgeJobCommandKVNamespaces :: "string \<Rightarrow> store \<Rightarrow> error + store" where
  "purgeJobCommandKVNamespaces job st = rfold (\<lambda>s ns. syncKeyValues ns [] s) st (JobCommandKVNamespaces job)"

definition purgeBuildJobKVNamespaces :: "catalog \<Rightarrow> string \<Rightarrow> store \<Rightarrow> error + store" where
  "purgeBuildJobKVNamespaces c job st =
     rfold (\<lambda>s ns. syncKeyValues ns [] s) st
       (BuildJobKVNamespaces job @ map (worker_kv_namespace job) (GetAllocatedWorkers c job))"

definition purge_job :: "catalog \<Rightarrow> bool \<Rightarrow> store \<Rightarrow> string \<Rightarrow> error + store" where
  "purge_job c purgeJobCommandKV st job =
     rbind (purgeBuildJobKVNamespaces c job st) (\<lambda>st1.
       if purgeJobCommandKV then purgeJobCommandKVNamespaces job st1 else Ok st1)"

definition mergeWorkspaceJobVars :: "workspace_files \<Rightarrow> string \<Rightarrow> store \<Rightarrow> error + store" where
  "mergeWorkspaceJobVars files job st =
     rbind (toml_table (wf_vars files job) ErrInvalidJobVars) (\<lambda>vars.
       Ok (foldl (\<lambda>s (k, v). Put s (''vars/job/'' @ job) k v 0) st (go_map vars)))"

definition job_variables :: "(string \<Rightarrow> string) \<Rightarrow> catalog \<Rightarrow> string \<Rightarrow> error + (string \<times> string) list" where
  "job_variables uuid c job =
     rbind (GetJobVersion c job) (\<lambda>version.
     rbind (GetJobMemoryLimits c job) (\<lambda>(minMemory, maxMemory).
     rbind (GetJobCPULimits c job) (\<lambda>(minCPU, maxCPU).
     rbind (GetJobMemory c job) (\<lambda>memory.
     rbind (GetJobCPU c job) (\<lambda>cpu.
       let ws = GetActiveAllocationsOrdered c job;
           noMemory = (minMemory = ''0'' \<and> maxMemory = ''0''); noCPU = (minCPU = ''0'' \<and> maxCPU = ''0'')
       in Ok (go_map (
            [(''job_id'', uuid job), (''name'', job), (''job_name'', job), (''version'', NormalizeDeployVersion version),
             (''selectors'', join '','' (GetJobSelectors c job)),
             (''min_memory_mb'', if noMemory then memory else minMemory), (''max_memory_mb'', if noMemory then memory else maxMemory),
             (''min_cpu_mhz'', if noCPU then cpu else minCPU), (''max_cpu_mhz'', if noCPU then cpu else maxCPU),
             (''memory'', memory), (''cpu'', cpu),
             (''workers'', join '','' ws), (''workers_length'', itoa (int (length ws)))] @
            map (\<lambda>(i, ip). (''worker_'' @ itoa (int i), ip)) (zip [0..<length ws] ws) @
            [(''rollout_order'', join '','' ws)])))))))"

definition sync_job :: "workspace_files \<Rightarrow> catalog \<Rightarrow> bool \<Rightarrow> store \<Rightarrow> string \<Rightarrow> error + store" where
  "sync_job files c purgeJobCommandKV st job =
     (if jobShouldPurgeBuildKV c job then purge_job c purgeJobCommandKV st job
      else rbind (job_variables (wf_uuid files) c job) (\<lambda>vars.
           rbind (loadJobBucketConfig files job) (\<lambda>(_, settings).
           rbind (syncKeyValues (''maand/job/'' @ job) vars st) (\<lambda>st1.
           rbind (syncKeyValues (''vars/bucket/job/'' @ job) (go_map settings) st1) (\<lambda>st2.
             mergeWorkspaceJobVars files job st2)))))"

definition buildJobVariables :: "workspace_files \<Rightarrow> catalog \<Rightarrow> string list \<Rightarrow> bool \<Rightarrow> store \<Rightarrow> error + store" where
  "buildJobVariables files c removedJobs purgeJobCommandKV st =
     rbind (rfold (sync_job files c purgeJobCommandKV) st (GetJobs c)) (\<lambda>st1.
       rfold (purge_job c purgeJobCommandKV) st1 removedJobs)"

section \<open>All variables\<close>

definition BuildVariables :: "workspace_files \<Rightarrow> catalog \<Rightarrow> string list \<Rightarrow> string list \<Rightarrow> bool \<Rightarrow> store \<Rightarrow> error + store" where
  "BuildVariables files c removedWorkers removedJobs purgeJobCommandKV st =
     rbind (wf_hosts files) (\<lambda>hosts.
     rbind (buildWorkerVariables hosts c removedWorkers st) (\<lambda>st1.
     rbind (buildJobVariables files c removedJobs purgeJobCommandKV st1) (\<lambda>st2.
     rbind (buildSharedWorkerVariables files c st2) (buildBucketVariables files c))))"

section \<open>Allocations (build_allocation_variables.go)\<close>

definition sync_allocation :: "string \<Rightarrow> string list \<Rightarrow> store \<Rightarrow> nat \<times> string \<Rightarrow> error + store" where
  "sync_allocation job ws st = (\<lambda>(i, ip).
     syncNamespaceKeyValues (worker_kv_namespace job ip)
       (go_map [(job @ ''_allocation_index'', itoa (int i)), (''peer_workers'', join '','' (filter (\<lambda>p. p \<noteq> ip) ws))])
       SyncAllocation st)"

definition purgeStaleJobAllocationVariables :: "catalog \<Rightarrow> string \<Rightarrow> store \<Rightarrow> error + store" where
  "purgeStaleJobAllocationVariables c job st =
     rfold (\<lambda>s ip. if ip \<in> set (GetNonRemovedAllocations c job) then Ok s else syncKeyValues (worker_kv_namespace job ip) [] s)
       st (GetAllocatedWorkers c job)"

definition syncJobAllocationVariables :: "catalog \<Rightarrow> store \<Rightarrow> string \<Rightarrow> error + store" where
  "syncJobAllocationVariables c st job =
     (let ws = GetNonRemovedAllocationsOrdered c job
      in rbind (rfold (sync_allocation job ws) st (zip [0..<length ws] ws)) (purgeStaleJobAllocationVariables c job))"

definition BuildJobAllocationVariables :: "catalog \<Rightarrow> string list \<Rightarrow> store \<Rightarrow> error + store" where
  "BuildJobAllocationVariables c removedJobs st =
     rbind (rfold (syncJobAllocationVariables c) st (GetJobs c)) (\<lambda>st1.
       rfold (\<lambda>s job. rfold (\<lambda>s ip. syncKeyValues (worker_kv_namespace job ip) [] s) s (GetAllocatedWorkers c job)) st1 removedJobs)"

section \<open>What steps on the store keep\<close>

definition preserves :: "(store \<Rightarrow> store \<Rightarrow> bool) \<Rightarrow> (store \<Rightarrow> error + store) \<Rightarrow> bool" where
  "preserves R f \<longleftrightarrow> (\<forall>st st'. store_wf st \<longrightarrow> f st = Ok st' \<longrightarrow> store_wf st' \<and> R st st')"

lemma preservesD: "preserves R f \<Longrightarrow> f st = Ok st' \<Longrightarrow> store_wf st \<Longrightarrow> store_wf st' \<and> R st st'"
  by (simp add: preserves_def)

locale store_relation =
  fixes R :: "store \<Rightarrow> store \<Rightarrow> bool"
  assumes refl: "R st st"
    and trans: "R st t \<Longrightarrow> R t u \<Longrightarrow> R st u"
begin

lemma ok: "preserves R Inr" and err: "preserves R (\<lambda>_. Inl e)"
  by (simp_all add: preserves_def refl)

lemma seq: "preserves R f \<Longrightarrow> preserves R g \<Longrightarrow> preserves R (\<lambda>st. rbind (f st) g)"
  unfolding preserves_def rbind_Inr_conv by (blast intro: trans)

lemma query: "(\<And>x. q = Inr x \<Longrightarrow> preserves R (f x)) \<Longrightarrow> preserves R (\<lambda>st. rbind q (\<lambda>x. f x st))"
  by (cases q) (simp_all add: err)

lemma loop: "(\<And>x. x \<in> set xs \<Longrightarrow> preserves R (\<lambda>st. f st x)) \<Longrightarrow> preserves R (\<lambda>st. rfold f st xs)"
proof (induction xs)
  case (Cons x xs)
  have "preserves R (\<lambda>st. rbind (f st x) (\<lambda>st. rfold f st xs))" by (rule seq) (use Cons in simp_all)
  then show ?case by simp
qed (simp add: ok)

lemma choice: "(b \<Longrightarrow> preserves R f) \<Longrightarrow> (\<not> b \<Longrightarrow> preserves R g) \<Longrightarrow> preserves R (\<lambda>st. if b then f st else g st)"
  by (cases b) simp_all

end

text \<open>A namespace outside \<open>P\<close> is as before, but for keys that get their value of \<open>V\<close>.\<close>

definition grows :: "(string \<Rightarrow> string \<Rightarrow> string option) \<Rightarrow> (string \<Rightarrow> bool) \<Rightarrow> store \<Rightarrow> store \<Rightarrow> bool" where
  "grows V P st st' \<longleftrightarrow> (\<forall>ns k. \<not> P ns \<longrightarrow>
     live st' ns k = live st ns k \<or> (\<exists>v. V ns k = Some v \<and> live st' ns k = Some (trim_space v)))"

interpretation gr: store_relation "grows V P" for V P
  by unfold_locales (auto simp: grows_def, metis)

lemma growsD: "grows V P st st' \<Longrightarrow> \<not> P ns \<Longrightarrow> V ns k = None \<Longrightarrow> live st' ns k = live st ns k"
  unfolding grows_def by force

lemma puts_keep:
  "store_wf st \<Longrightarrow> store_wf (foldl (\<lambda>s (k, v). Put s ns k v 0) st kvs) \<and>
   (\<forall>ns'. ns' \<noteq> ns \<longrightarrow> live (foldl (\<lambda>s (k, v). Put s ns k v 0) st kvs) ns' = live st ns')"
  by (induction kvs arbitrary: st) (auto simp: live_Put)

lemma gr_delete: "P ns \<Longrightarrow> preserves (grows V P) (\<lambda>st. Delete st ns k)"
  by (auto simp: preserves_def grows_def live_Delete intro: store_wf_Delete)

lemma gr_sync: "P ns \<Longrightarrow> preserves (grows V P) (syncNamespaceKeyValues ns kvs pol)"
proof -
  assume P: "P ns"
  have loop: "preserves (grows V P) (\<lambda>st. rfold (\<lambda>s k. if kept_key pol k then Ok s else Delete s ns k) st ks)" for ks
    by (intro gr.loop gr.choice gr.ok gr_delete P)
  show ?thesis unfolding preserves_def
  proof (intro allI impI)
    fix st st' assume st: "store_wf st" and run: "syncNamespaceKeyValues ns kvs pol st = Ok st'"
    let ?st = "foldl (\<lambda>s (k, v). Put s ns k v 0) st kvs"
    have 1: "store_wf ?st" "grows V P st ?st" using puts_keep [OF st, of ns kvs] P by (auto simp: grows_def)
    from preservesD [OF loop _ 1(1)] run have "store_wf st' \<and> grows V P ?st st'"
      by (auto simp: syncNamespaceKeyValues_def Let_def)
    with 1(2) show "store_wf st' \<and> grows V P st st'" by (blast intro: gr.trans)
  qed
qed

lemma gr_sync_full: "P ns \<Longrightarrow> preserves (grows V P) (syncKeyValues ns kvs)"
  unfolding syncKeyValues_def by (rule gr_sync)

lemma gr_sync_keys: "P ns \<Longrightarrow> preserves (grows V P) (\<lambda>st. syncKeyValues ns kvs st)"
  by (rule gr_sync_full)

text \<open>What synchronising makes of the namespace itself.\<close>

lemma distinct_go_map: "distinct_keys (go_map kvs)"
proof -
  have "distinct_keys m \<Longrightarrow> distinct_keys (foldl (\<lambda>m (k, v). AList.update k v m) m kvs)" for m
    by (induction kvs arbitrary: m) (auto simp: distinct_update)
  then show ?thesis by (simp add: go_map_def)
qed

lemma sync_exact:
  assumes "store_wf st" and "distinct_keys kvs"
  shows "\<exists>st'. syncKeyValues ns kvs st = Ok st' \<and> store_wf st' \<and>
    live st' = (live st)(ns := map_option trim_space \<circ> map_of kvs)"
proof -
  let ?t = "foldl (\<lambda>s (k, v). Put s ns k v 0) st kvs"
  have wf: "store_wf ?t" by (rule kv.valid_put_all [OF assms(1)])
  have ks: "set (Difference (GetKeys ?t ns) (map fst kvs)) = {k \<in> dom (live ?t ns). k \<notin> fst ` set kvs \<and> \<not> False}"
    using GetKeys_live [OF wf, of ns] by auto
  have d: "distinct (Difference (GetKeys ?t ns) (map fst kvs))"
    by (rule distinct_Difference [OF distinct_GetKeys [OF wf]])
  from kv.put_then_prune [OF assms refl ks d] obtain st' where
    st': "rfold (\<lambda>s k. Delete s ns k) ?t (Difference (GetKeys ?t ns) (map fst kvs)) = Ok st'" "store_wf st'"
    "live st' = (live st)(ns := \<lambda>k. case map_of kvs k of Some v \<Rightarrow> Some (trim_space v) | None \<Rightarrow> if False then live st ns k else None)"
    by blast
  have "(\<lambda>k. case map_of kvs k of Some v \<Rightarrow> Some (trim_space v) | None \<Rightarrow> if False then live st ns k else None) = map_option trim_space \<circ> map_of kvs"
    by (auto simp: fun_eq_iff split: option.split)
  then show ?thesis using st' by (simp add: syncKeyValues_def syncNamespaceKeyValues_def kept_key_def Let_def)
qed

section \<open>The namespaces of each part\<close>

definition file_vars :: "workspace_files \<Rightarrow> catalog \<Rightarrow> string \<Rightarrow> string \<Rightarrow> string option" where
  "file_vars files c ns k =
     (if has_prefix ''vars/job/'' ns \<and> drop 9 ns \<in> set (GetJobs c)
      then (case wf_vars files (drop 9 ns) of Some (Some m) \<Rightarrow> map_of (go_map m) k | _ \<Rightarrow> None) else None)"

definition build_owned :: "string \<Rightarrow> bool" where
  "build_owned ns \<longleftrightarrow> has_prefix ''maand/'' ns \<or> has_prefix ''vars/bucket'' ns"

lemma owned_simps [simp]:
  "build_owned (worker_ns ip)" "build_owned (worker_ns ip @ x)" "build_owned (worker_kv_namespace job ip)"
  "build_owned (''maand/job/'' @ job)" "build_owned (''vars/bucket/job/'' @ job)" "build_owned ''maand/worker''"
  "build_owned ''vars/bucket''" "build_owned ''maand/bucket''" "\<not> build_owned (''vars/job/'' @ job)" "\<not> build_owned (''secrets/job/'' @ job)"
  by (auto simp: build_owned_def worker_ns_def worker_kv_namespace_def has_prefix_def)

lemma gr_merge:
  assumes "job \<in> set (GetJobs c)"
  shows "preserves (grows (file_vars files c) P) (mergeWorkspaceJobVars files job)"
  unfolding preserves_def
proof (intro allI impI)
  fix st st' assume st: "store_wf st" and run: "mergeWorkspaceJobVars files job st = Ok st'"
  then obtain m where m: "toml_table (wf_vars files job) ErrInvalidJobVars = Ok m"
    and st': "st' = foldl (\<lambda>s (k, v). Put s (''vars/job/'' @ job) k v 0) st (go_map m)"
    by (auto simp: mergeWorkspaceJobVars_def rbind_Inr_conv)
  have "live st' = (live st)(''vars/job/'' @ job := live st (''vars/job/'' @ job) ++ (map_option trim_space \<circ> map_of (go_map m)))"
    unfolding st' by (rule kv.contents_put_all [OF distinct_go_map])
  moreover have "file_vars files c (''vars/job/'' @ job) = map_of (go_map m)"
    using m assms by (auto simp: toml_table_def file_vars_def has_prefix_def go_map_def fun_eq_iff split: option.splits)
  ultimately have "grows (file_vars files c) P st st'"
    by (auto simp: grows_def map_add_def fun_eq_iff split: option.split)
  moreover have "store_wf st'" unfolding st' by (rule kv.valid_put_all [OF st])
  ultimately show "store_wf st' \<and> grows (file_vars files c) P st st'" by simp
qed

lemma gr_purge_build:
  assumes "\<And>ip. P (worker_kv_namespace job ip)" "P (''maand/job/'' @ job)" "P (''vars/bucket/job/'' @ job)"
  shows "preserves (grows V P) (\<lambda>st. purgeBuildJobKVNamespaces c job st)"
  unfolding purgeBuildJobKVNamespaces_def
  by (intro gr.loop gr_sync_keys) (use assms in \<open>auto simp: BuildJobKVNamespaces_def\<close>)

lemma gr_purge_job:
  assumes "\<And>ip. P (worker_kv_namespace job ip)" "P (''maand/job/'' @ job)" "P (''vars/bucket/job/'' @ job)"
    and "b \<Longrightarrow> P (''vars/job/'' @ job) \<and> P (''secrets/job/'' @ job)"
  shows "preserves (grows V P) (\<lambda>st. purge_job c b st job)"
  unfolding purge_job_def purgeJobCommandKVNamespaces_def
  by (intro gr.seq gr_purge_build gr.choice gr.ok gr.loop gr_sync_keys assms(1-3))
    (use assms(4) in \<open>auto simp: JobCommandKVNamespaces_def\<close>)

lemma gr_sync_job:
  assumes "\<And>job ip. P (worker_kv_namespace job ip)" "\<And>job. P (''maand/job/'' @ job)" "\<And>job. P (''vars/bucket/job/'' @ job)"
    and "\<And>job. b \<Longrightarrow> P (''vars/job/'' @ job) \<and> P (''secrets/job/'' @ job)"
  shows "preserves (grows (file_vars files c) P) (buildJobVariables files c rj b)"
proof -
  have step: "preserves (grows (file_vars files c) P) (\<lambda>st. sync_job files c b st job)" if "job \<in> set (GetJobs c)" for job
  proof -
    have "preserves (grows (file_vars files c) P) (\<lambda>st. rbind (syncKeyValues (''maand/job/'' @ job) vars st) (\<lambda>st1.
           rbind (syncKeyValues (''vars/bucket/job/'' @ job) (go_map settings) st1) (\<lambda>st2.
             mergeWorkspaceJobVars files job st2)))" for vars settings
      by (intro gr.seq gr_sync_keys assms gr_merge [OF that])
    then show ?thesis unfolding sync_job_def
      by (intro gr.choice gr_purge_job gr.query assms) (auto split: prod.split)
  qed
  show ?thesis unfolding buildJobVariables_def
    by (intro gr.seq gr.loop step gr_purge_job assms)
qed

lemma gr_sync_worker:
  "P (worker_ns ip) \<Longrightarrow> P (worker_ns ip @ ''/tags'') \<Longrightarrow> preserves (grows V P) (\<lambda>st. sync_worker hosts c st ip)"
  unfolding sync_worker_def by (intro gr.query gr.seq gr_sync_keys)

lemma gr_forget_worker:
  assumes "P (worker_ns ip)" "\<And>job. P (worker_kv_namespace job ip)"
  shows "preserves (grows V P) (\<lambda>st. forget_worker c st ip)"
proof -
  have all: "preserves (grows V P) (\<lambda>st. delete_all_keys st ns)" if "P ns" for ns
    unfolding delete_all_keys_def preserves_def
  proof (intro allI impI)
    fix st st' assume st: "store_wf st" and run: "rfold (\<lambda>s k. Delete s ns k) st (GetKeys st ns) = Ok st'"
    have "preserves (grows V P) (\<lambda>st. rfold (\<lambda>s k. Delete s ns k) st ks)" for ks by (intro gr.loop gr_delete that)
    from preservesD [OF this run st] show "store_wf st' \<and> grows V P st st'" .
  qed
  show ?thesis unfolding forget_worker_def by (intro gr.loop all) (use assms in auto)
qed

lemma gr_shared: "P ''maand/worker'' \<Longrightarrow> preserves (grows V P) (buildSharedWorkerVariables files c)"
  unfolding buildSharedWorkerVariables_def
  by (cases "wf_ca files") (simp_all add: gr.err gr_sync_keys)

lemma gr_bucket: "P ''vars/bucket'' \<Longrightarrow> P ''maand/bucket'' \<Longrightarrow> preserves (grows V P) (buildBucketVariables files c)"
  unfolding buildBucketVariables_def Let_def by (intro gr.query gr.seq gr_sync_keys)

section \<open>The workers exactly\<close>

definition holds_map :: "store \<Rightarrow> string \<Rightarrow> (string \<times> string) list \<Rightarrow> bool" where
  "holds_map st ns m \<longleftrightarrow> live st ns = map_option trim_space \<circ> map_of m"

definition worker_synced :: "(string \<times> string) list \<Rightarrow> catalog \<Rightarrow> store \<Rightarrow> string \<Rightarrow> bool" where
  "worker_synced hosts c st ip \<longleftrightarrow> (\<exists>vars i. worker_variables hosts c ip = Ok vars \<and> GetWorkerID c ip = Ok i \<and>
     holds_map st (worker_ns ip) vars \<and> holds_map st (worker_ns ip @ ''/tags'') (go_map (GetWorkerTags c i)))"

lemma worker_ns_eq: "worker_ns a = worker_ns b \<longleftrightarrow> a = b" "worker_ns a @ ''/tags'' = worker_ns b @ ''/tags'' \<longleftrightarrow> a = b"
  by (simp_all add: worker_ns_def)

lemma worker_ns_tags: "CHR ''/'' \<notin> set b \<Longrightarrow> worker_ns a @ ''/tags'' \<noteq> worker_ns b"
  by (auto simp: worker_ns_def)

lemma worker_synced_keep:
  assumes "grows V P st st'" and "worker_synced hosts c st ip" and "\<not> P (worker_ns ip)" "\<not> P (worker_ns ip @ ''/tags'')"
    and "\<And>k. V (worker_ns ip) k = None" "\<And>k. V (worker_ns ip @ ''/tags'') k = None"
  shows "worker_synced hosts c st' ip"
proof -
  have "live st' (worker_ns ip) = live st (worker_ns ip)" "live st' (worker_ns ip @ ''/tags'') = live st (worker_ns ip @ ''/tags'')"
    using growsD [OF assms(1,3,5)] growsD [OF assms(1,4,6)] by (auto simp: fun_eq_iff)
  with assms(2) show ?thesis by (simp add: worker_synced_def holds_map_def)
qed

lemma sync_worker_synced:
  assumes "sync_worker hosts c st ip = Ok st'" and "store_wf st"
  shows "store_wf st' \<and> worker_synced hosts c st' ip"
proof -
  from assms(1) obtain vars i st1 where v: "worker_variables hosts c ip = Ok vars" "GetWorkerID c ip = Ok i"
    and s1: "syncKeyValues (worker_ns ip) vars st = Ok st1"
    and s2: "syncKeyValues (worker_ns ip @ ''/tags'') (go_map (GetWorkerTags c i)) st1 = Ok st'"
    by (auto simp: sync_worker_def rbind_Inr_conv)
  have d: "distinct_keys vars" using v(1) distinct_go_map by (auto simp: worker_variables_def rbind_Inr_conv Let_def)
  from sync_exact [OF assms(2) d, of "worker_ns ip"] s1
  have 1: "store_wf st1" "live st1 (worker_ns ip) = map_option trim_space \<circ> map_of vars" by auto
  from sync_exact [OF 1(1) distinct_go_map, of "worker_ns ip @ ''/tags''" "GetWorkerTags c i"] s2
  have "store_wf st'" "live st' = (live st1)(worker_ns ip @ ''/tags'' := map_option trim_space \<circ> map_of (go_map (GetWorkerTags c i)))" by auto
  with 1 v show ?thesis by (simp add: worker_synced_def holds_map_def)
qed

lemma sync_workers_synced:
  assumes "rfold (sync_worker hosts c) st ips = Ok st'" and "store_wf st" and "\<forall>ip \<in> set ips. CHR ''/'' \<notin> set ip"
  shows "store_wf st' \<and> (\<forall>ip \<in> set ips. worker_synced hosts c st' ip)"
  using assms
proof (induction ips arbitrary: st)
  case (Cons ip ips)
  from Cons.prems(1) obtain st1 where one: "sync_worker hosts c st ip = Ok st1" and rest: "rfold (sync_worker hosts c) st1 ips = Ok st'"
    by (auto simp: rbind_Inr_conv)
  from sync_worker_synced [OF one Cons.prems(2)] have s1: "store_wf st1" "worker_synced hosts c st1 ip" by blast+
  from Cons.IH [OF rest s1(1)] Cons.prems(3) have all: "store_wf st'" "\<forall>ip \<in> set ips. worker_synced hosts c st' ip" by auto
  have "worker_synced hosts c st' ip"
  proof (cases "ip \<in> set ips")
    case False
    let ?P = "\<lambda>ns. \<exists>i \<in> set ips. ns = worker_ns i \<or> ns = worker_ns i @ ''/tags''"
    have "preserves (grows (\<lambda>_ _. None) ?P) (\<lambda>st. rfold (sync_worker hosts c) st ips)"
      by (intro gr.loop gr_sync_worker) blast+
    from preservesD [OF this rest s1(1)] have "grows (\<lambda>_ _. None) ?P st1 st'" by blast
    then show ?thesis
    proof (rule worker_synced_keep [OF _ s1(2)])
      show "\<not> ?P (worker_ns ip)" using False Cons.prems(3) worker_ns_tags [of ip] by (auto simp: worker_ns_eq) metis
      show "\<not> ?P (worker_ns ip @ ''/tags'')" using False Cons.prems(3) worker_ns_tags by (auto simp: worker_ns_eq)
    qed simp_all
  qed (use all in blast)
  with all show ?case by simp
qed simp


section \<open>Witness\<close>

text \<open>Worker \<open>w\<close> has a stale key, and job \<open>a\<close> has stored a secret.\<close>

definition build_files :: workspace_files where
  "build_files = \<lparr>wf_selector = [], wf_hosts = Ok [(''w'', ''host'')], wf_bucket = None, wf_jobs = \<lambda>_. None,
     wf_vars = \<lambda>job. if job = ''a'' then Some (Some [(''k'', ''v'')]) else None, wf_ca = Some ''pem'', wf_uuid = a_uuid\<rparr>"

definition with_bucket :: catalog where
  "with_bucket = empty_catalog\<lparr>t_worker := [plain_worker ''w'' 0], t_job := [plain_job ''a''],
     t_bucket := [\<lparr>b_id = ''id'', b_update_seq = 1\<rparr>]\<rparr>"

definition old_keys :: store where
  "old_keys = Put (Put NewStore ''maand/worker/w'' ''old'' ''1'' 0) ''secrets/job/a'' ''token'' ''s'' 0"

definition the_store :: "error + store \<Rightarrow> store" where
  "the_store r = (case r of Inl _ \<Rightarrow> NewStore | Inr st \<Rightarrow> st)"

definition keys1 :: store where "keys1 = the_store (buildWorkerVariables [(''w'', ''host'')] with_bucket [''gone''] old_keys)"

definition keys2 :: store where "keys2 = the_store (buildJobVariables build_files with_bucket [] False keys1)"

definition keys3 :: store where "keys3 = the_store (buildSharedWorkerVariables build_files with_bucket keys2)"

definition synced_keys :: store where "synced_keys = the_store (buildBucketVariables build_files with_bucket keys3)"

lemma key_stages:
  "buildWorkerVariables [(''w'', ''host'')] with_bucket [''gone''] old_keys = Ok keys1"
  "buildJobVariables build_files with_bucket [] False keys1 = Ok keys2"
  "buildSharedWorkerVariables build_files with_bucket keys2 = Ok keys3"
  "buildBucketVariables build_files with_bucket keys3 = Ok synced_keys"
  by code_simp+

lemma synced_keys: "BuildVariables build_files with_bucket [''gone''] [] False old_keys = Ok synced_keys"
  unfolding BuildVariables_def by (simp add: build_files_def [THEN arg_cong, of wf_hosts] key_stages)


end
