(* ===== verification/Demands.thy ===== *)
theory Demands
  imports CatalogLaws
begin

text \<open>
  Validation of a build (\<open>build/validate_demands.go\<close>, \<open>ValidateMinAllocationsCount\<close> of \<open>build/validate.go\<close>): the
  demands between job commands, the versions they need, and the least number of allocations of a job. Reading
  the manifest of a job is a parameter \<open>ws\<close>. Maps whose order does not matter are association lists.
\<close>

section \<open>The job catalog\<close>

record job_catalog =
  jk_manifests :: "(string \<times> manifest) list"
  jk_versions :: "(string \<times> version) list"
  jk_commands :: "(string \<times> string list) list"

definition isDemandTarget :: "(string \<times> manifest) list \<Rightarrow> string \<Rightarrow> bool" where
  "isDemandTarget manifests jobName \<longleftrightarrow>
     list_ex (\<lambda>(_, m). list_ex (\<lambda>c. trim_space (jc_demand_job c) = jobName) (ListedCommands m)) manifests"

definition resolveJobVersion :: "(string \<times> manifest) list \<Rightarrow> string \<Rightarrow> manifest \<Rightarrow> error + version" where
  "resolveJobVersion manifests jobName m =
     (let raw = trim_space (m_version m);
          needsExplicit = RequiresExplicitVersion m \<or> isDemandTarget manifests jobName
      in if raw = [] then (if needsExplicit then Err ErrInvalidJobVersion else Ok zero_version)
         else ParseVersion raw)"

definition loadJobCatalog :: "(string \<Rightarrow> error + manifest) \<Rightarrow> string list \<Rightarrow> error + job_catalog" where
  "loadJobCatalog ws jobNames =
     rbind (rmap (\<lambda>job. rbind (ws job) (\<lambda>m. Ok (job, m))) jobNames) (\<lambda>manifests.
     rbind (rmap (\<lambda>(job, m). rbind (resolveJobVersion manifests job m) (\<lambda>v. Ok (job, v))) manifests) (\<lambda>versions.
     Ok \<lparr>jk_manifests = manifests, jk_versions = versions,
         jk_commands = map (\<lambda>(job, m). (job, map jc_name (ListedCommands m))) manifests\<rparr>))"

section \<open>Demands\<close>

text \<open>A missing key of a Go map reads as the zero value.\<close>

definition or_zero :: "'a \<Rightarrow> 'a option \<Rightarrow> 'a" where
  "or_zero z x = (case x of None \<Rightarrow> z | Some y \<Rightarrow> y)"

definition validate_demand :: "job_catalog \<Rightarrow> string \<Rightarrow> job_command \<Rightarrow> error + unit" where
  "validate_demand k jobName command =
     rbind (ValidateDemandReference jobName (jc_name command) command) (\<lambda>_.
       let demandJob = trim_space (jc_demand_job command); demandCommand = trim_space (jc_demand_command command)
       in if demandJob = [] then Ok ()
          else case map_of (jk_manifests k) demandJob of
            None \<Rightarrow> Err ErrInvalidJobCommandDemand
          | Some upstream \<Rightarrow>
              if demandCommand \<notin> set (or_zero [] (map_of (jk_commands k) demandJob)) then Err ErrInvalidJobCommandDemand
              else rbind (ParseVersionConstraint (jc_config command)) (\<lambda>con.
                if vc_min con = None \<and> vc_max con = None then Ok ()
                else if trim_space (m_version upstream) = [] then Err ErrInvalidJobVersion
                else Satisfies con (or_zero zero_version (map_of (jk_versions k) demandJob))))"

definition ValidateJobCommandDemands :: "(string \<Rightarrow> error + manifest) \<Rightarrow> string list \<Rightarrow> error + unit" where
  "ValidateJobCommandDemands ws jobNames0 =
     (let jobNames = sort_strings jobNames0
      in rbind (loadJobCatalog ws jobNames) (\<lambda>k.
           rfold (\<lambda>_ job. rfold (\<lambda>_ c. validate_demand k job c) ()
             (case map_of (jk_manifests k) job of None \<Rightarrow> [] | Some m \<Rightarrow> ListedCommands m)) () jobNames))"

section \<open>The least number of allocations\<close>

definition check_min_allocations :: "(string \<Rightarrow> error + manifest) \<Rightarrow> catalog \<Rightarrow> string list \<Rightarrow> string \<Rightarrow> error + string list" where
  "check_min_allocations ws c errs job =
     rbind (ws job) (\<lambda>m.
       let minCount = MinRequiredAllocations m
       in Ok (if minCount = 0 then errs
              else if CountJobAllocations c job False < minCount then errs @ [job] else errs))"

definition ValidateMinAllocationsCount :: "(string \<Rightarrow> error + manifest) \<Rightarrow> catalog \<Rightarrow> string list \<Rightarrow> error + unit" where
  "ValidateMinAllocationsCount ws c jobNames =
     rbind (rfold (check_min_allocations ws c) [] jobNames) (\<lambda>errs.
     if errs \<noteq> [] then Err ErrInsufficientAllocations else Ok ())"

section \<open>Loops that only check\<close>

lemma rfold_unit: "rfold (\<lambda>_. f) () xs = Inr u \<longleftrightarrow> (\<forall>x \<in> set xs. f x = Inr ())"
proof (induction xs)
  case (Cons x xs)
  then show ?case by (cases "f x") auto
qed simp

lemma rmap_Ok_iff: "rmap f xs = Inr ys \<longleftrightarrow> list_all2 (\<lambda>x y. f x = Inr y) xs ys"
proof (induction xs arbitrary: ys)
  case (Cons x xs)
  show ?case unfolding list_all2_Cons1 rmap.simps rbind_Inr_conv Cons.IH by auto
qed auto

lemma rmap_total: "(\<exists>ys. rmap f xs = Inr ys) \<longleftrightarrow> (\<forall>x \<in> set xs. \<exists>y. f x = Inr y)"
proof (induction xs)
  case (Cons x xs)
  have "(\<exists>ys. rmap f (x # xs) = Inr ys) \<longleftrightarrow> (\<exists>y. f x = Inr y) \<and> (\<exists>ys. rmap f xs = Inr ys)"
    unfolding rmap.simps rbind_Inr_conv by auto
  then show ?case using Cons.IH by simp
qed simp

text \<open>The second check accepts exactly when every job has its least number of allocations.\<close>

lemma min_allocations_loop:
  "rfold (check_min_allocations ws c) errs jobs = Inr [] \<longleftrightarrow>
   errs = [] \<and> (\<forall>job \<in> set jobs. \<exists>m. ws job = Ok m \<and> MinRequiredAllocations m \<le> CountJobAllocations c job False)"
proof (induction jobs arbitrary: errs)
  case (Cons job jobs)
  have "0 \<le> CountJobAllocations c job False" by (simp add: CountJobAllocations_def)
  then show ?case unfolding rfold.simps rbind_Inr_conv check_min_allocations_def [of ws c errs job] Let_def
    by (cases "ws job") (auto simp: Cons.IH)
qed simp

lemma ValidateMinAllocationsCount_Ok:
  "ValidateMinAllocationsCount ws c jobs = Ok () \<longleftrightarrow>
    (\<forall>job \<in> set jobs. \<exists>m. ws job = Ok m \<and> MinRequiredAllocations m \<le> CountJobAllocations c job False)"
  using min_allocations_loop [of ws c "[]" jobs]
  by (auto simp: ValidateMinAllocationsCount_def rbind_Inr_conv split: if_splits)

text \<open>The results in order, when every one is there.\<close>

lemma rmap_keyed:
  assumes "\<And>x. x \<in> set xs \<Longrightarrow> g x = Inr (h x)"
  shows "rmap (\<lambda>x. rbind (g x) (\<lambda>y. Ok (k x, y))) xs = Inr (map (\<lambda>x. (k x, h x)) xs)"
  by (rule rmap_all_Inr) (simp add: assms)

lemma map_of_keys: "map_of (map (\<lambda>x. (x, h x)) xs) y = (if y \<in> set xs then Some (h y) else None)"
  by (induction xs) auto

section \<open>Validation is exact\<close>

definition demanded :: "(string \<Rightarrow> error + manifest) \<Rightarrow> string list \<Rightarrow> string \<Rightarrow> bool" where
  "demanded ws jobs job \<longleftrightarrow> (\<exists>j \<in> set jobs. \<exists>m. ws j = Ok m \<and>
     (\<exists>c \<in> set (ListedCommands m). trim_space (jc_demand_job c) = job))"

definition version_declared :: "(string \<Rightarrow> error + manifest) \<Rightarrow> string list \<Rightarrow> string \<Rightarrow> manifest \<Rightarrow> bool" where
  "version_declared ws jobs job m \<longleftrightarrow>
     (if trim_space (m_version m) = [] then \<not> RequiresExplicitVersion m \<and> \<not> demanded ws jobs job
      else \<exists>v. ParseVersion (trim_space (m_version m)) = Ok v)"

definition demand_met :: "(string \<Rightarrow> error + manifest) \<Rightarrow> string list \<Rightarrow> string \<Rightarrow> job_command \<Rightarrow> bool" where
  "demand_met ws jobs job c \<longleftrightarrow>
     (let dj = trim_space (jc_demand_job c); dc = trim_space (jc_demand_command c)
      in dj = [] \<and> dc = [] \<or>
         dj \<noteq> [] \<and> dc \<noteq> [] \<and> dj \<noteq> job \<and> dj \<in> set jobs \<and>
         (\<exists>m v con. ws dj = Ok m \<and> dc \<in> jc_name ` set (ListedCommands m) \<and>
            ParseVersion (trim_space (m_version m)) = Ok v \<and>
            ParseVersionConstraint (jc_config c) = Ok con \<and> Satisfies con v = Ok ()))"

text \<open>What loading gives, on a workspace whose manifests can all be read.\<close>

definition got :: "(string \<Rightarrow> error + manifest) \<Rightarrow> string \<Rightarrow> manifest" where
  "got ws job = projr (ws job)"

definition loaded :: "(string \<Rightarrow> error + manifest) \<Rightarrow> string list \<Rightarrow> (string \<times> manifest) list" where
  "loaded ws jobs = map (\<lambda>j. (j, got ws j)) jobs"

lemma isDemandTarget_loaded:
  assumes "\<forall>j \<in> set jobs. \<exists>m. ws j = Ok m"
  shows "isDemandTarget (loaded ws jobs) job \<longleftrightarrow> demanded ws jobs job"
  using assms by (force simp: isDemandTarget_def demanded_def loaded_def got_def list_ex_iff)

lemma loadJobCatalog_Ok:
  "loadJobCatalog ws jobs = Ok k \<longleftrightarrow> (\<forall>j \<in> set jobs. \<exists>m. ws j = Ok m) \<and>
     (\<forall>j \<in> set jobs. \<exists>v. resolveJobVersion (loaded ws jobs) j (got ws j) = Ok v) \<and>
     k = \<lparr>jk_manifests = loaded ws jobs,
          jk_versions = map (\<lambda>j. (j, projr (resolveJobVersion (loaded ws jobs) j (got ws j)))) jobs,
          jk_commands = map (\<lambda>j. (j, map jc_name (ListedCommands (got ws j)))) jobs\<rparr>"
proof (cases "\<forall>j \<in> set jobs. \<exists>m. ws j = Ok m")
  case True
  then have m: "rmap (\<lambda>job. rbind (ws job) (\<lambda>m. Ok (job, m))) jobs = Inr (loaded ws jobs)"
    unfolding loaded_def by (intro rmap_keyed) (auto simp: got_def)
  let ?r = "\<lambda>(job, m). rbind (resolveJobVersion (loaded ws jobs) job m) (\<lambda>v. Ok (job, v))"
  have tot: "(\<exists>vs. rmap ?r (loaded ws jobs) = Inr vs) \<longleftrightarrow>
      (\<forall>j \<in> set jobs. \<exists>v. resolveJobVersion (loaded ws jobs) j (got ws j) = Ok v)"
    unfolding rmap_total by (simp add: loaded_def rbind_Inr_conv)
  show ?thesis
  proof (cases "\<forall>j \<in> set jobs. \<exists>v. resolveJobVersion (loaded ws jobs) j (got ws j) = Ok v")
    case v: True
    have "rmap ?r (loaded ws jobs) = Inr (map (\<lambda>(j, m). (j, projr (resolveJobVersion (loaded ws jobs) j m))) (loaded ws jobs))"
      by (rule rmap_all_Inr) (use v in \<open>force simp: loaded_def\<close>)
    then show ?thesis using True v by (auto simp: loadJobCatalog_def m loaded_def comp_def)
  next
    case False
    with tot have "\<nexists>vs. rmap ?r (loaded ws jobs) = Inr vs" by blast
    then have "\<exists>e. rmap ?r (loaded ws jobs) = Inl e" by (cases "rmap ?r (loaded ws jobs)") auto
    then show ?thesis using False by (auto simp: loadJobCatalog_def m)
  qed
next
  case False
  have "\<nexists>ms. rmap (\<lambda>job. rbind (ws job) (\<lambda>m. Ok (job, m))) jobs = Inr ms"
    unfolding rmap_total using False by (simp add: rbind_Inr_conv)
  then have "\<exists>e. rmap (\<lambda>job. rbind (ws job) (\<lambda>m. Ok (job, m))) jobs = Inl e"
    by (cases "rmap (\<lambda>job. rbind (ws job) (\<lambda>m. Ok (job, m))) jobs") auto
  then show ?thesis using False by (auto simp: loadJobCatalog_def)
qed

lemma resolveJobVersion_loaded:
  assumes "\<forall>j \<in> set jobs. \<exists>m. ws j = Ok m"
  shows "(\<exists>v. resolveJobVersion (loaded ws jobs) j m = Ok v) \<longleftrightarrow> version_declared ws jobs j m"
  using isDemandTarget_loaded [OF assms, of j]
  by (simp add: resolveJobVersion_def version_declared_def Let_def)

text \<open>A command that demands a job of the workspace: the version of that job was resolved from its text.\<close>

lemma demand_version:
  assumes ok: "\<forall>j \<in> set jobs. \<exists>m. ws j = Ok m" and res: "\<forall>j \<in> set jobs. \<exists>v. resolveJobVersion (loaded ws jobs) j (got ws j) = Ok v"
    and c: "job \<in> set jobs" "c \<in> set (ListedCommands (got ws job))" "trim_space (jc_demand_job c) = dj" "dj \<in> set jobs"
  shows "trim_space (m_version (got ws dj)) \<noteq> [] \<and>
    resolveJobVersion (loaded ws jobs) dj (got ws dj) = ParseVersion (trim_space (m_version (got ws dj)))"
proof -
  obtain m where "ws job = Ok m" using ok c(1) by blast
  then have "demanded ws jobs dj" using c unfolding demanded_def got_def by force
  then have t: "isDemandTarget (loaded ws jobs) dj" by (simp add: isDemandTarget_loaded [OF ok])
  obtain v where "resolveJobVersion (loaded ws jobs) dj (got ws dj) = Ok v" using res c(4) by blast
  with t show ?thesis by (auto simp: resolveJobVersion_def Let_def split: if_splits)
qed

lemma validate_demand_met:
  assumes ok: "\<forall>j \<in> set jobs. \<exists>m. ws j = Ok m" and res: "\<forall>j \<in> set jobs. \<exists>v. resolveJobVersion (loaded ws jobs) j (got ws j) = Ok v"
    and k: "loadJobCatalog ws jobs = Ok k" and job: "job \<in> set jobs" and c: "c \<in> set (ListedCommands (got ws job))"
  shows "validate_demand k job c = Ok () \<longleftrightarrow> demand_met ws jobs job c"
proof -
  define dj where "dj = trim_space (jc_demand_job c)"
  define dc where "dc = trim_space (jc_demand_command c)"
  note k' = k [unfolded loadJobCatalog_Ok, THEN conjunct2, THEN conjunct2]
  show ?thesis
  proof (cases "dj \<noteq> [] \<and> dc \<noteq> [] \<and> dj \<noteq> job \<and> dj \<in> set jobs")
    case False
    then show ?thesis
      by (auto simp: validate_demand_def demand_met_def ValidateDemandReference_def Let_def dj_def [symmetric]
          dc_def [symmetric] k' loaded_def map_of_keys)
  next
    case True
    then have dj: "dj \<in> set jobs" by blast
    from demand_version [OF ok res job c dj_def [symmetric] dj]
    have v: "trim_space (m_version (got ws dj)) \<noteq> []"
      "resolveJobVersion (loaded ws jobs) dj (got ws dj) = ParseVersion (trim_space (m_version (got ws dj)))" by blast+
    then obtain ver where ver: "ParseVersion (trim_space (m_version (got ws dj))) = Ok ver" using bspec [OF res dj] unfolding v(2) by blast
    obtain m where m: "ws dj = Ok m" "got ws dj = m" using ok True by (force simp: got_def)
    have none: "vc_min con = None \<Longrightarrow> vc_max con = None \<Longrightarrow> Satisfies con ver = Ok ()" for con
      by (simp add: Satisfies_def)
    have "validate_demand k job c = Ok () \<longleftrightarrow> dc \<in> jc_name ` set (ListedCommands m) \<and>
        (\<exists>con. ParseVersionConstraint (jc_config c) = Ok con \<and> Satisfies con ver = Ok ())"
      using True v ver none m
      by (auto simp: validate_demand_def ValidateDemandReference_def Let_def dj_def [symmetric]
          dc_def [symmetric] k' loaded_def map_of_keys or_zero_def rbind_Inr_conv)
    then show ?thesis using True ver m by (auto simp: demand_met_def Let_def dj_def [symmetric] dc_def [symmetric])
  qed
qed

text \<open>Property C21: validation is exact. It accepts a workspace exactly when every manifest can be read; every job
  has a version that parses, or has none and neither demands nor is demanded; and every command either
  demands nothing or demands a declared command of another job of the workspace whose version lies in the
  bounds of the constraint.\<close>

theorem demands_validated_exactly:
  "ValidateJobCommandDemands ws jobs = Ok () \<longleftrightarrow>
     (\<forall>job \<in> set jobs. \<exists>m. ws job = Ok m \<and> version_declared ws jobs job m \<and>
        (\<forall>c \<in> set (ListedCommands m). demand_met ws jobs job c))"
proof -
  define js where "js = sort_strings jobs"
  have set: "set js = set jobs" by (simp add: js_def)
  then have same: "demanded ws js = demanded ws jobs" "version_declared ws js = version_declared ws jobs"
    "demand_met ws js = demand_met ws jobs" by (simp_all add: demanded_def version_declared_def demand_met_def fun_eq_iff)
  show ?thesis
  proof (cases "(\<forall>j \<in> set js. \<exists>m. ws j = Ok m) \<and> (\<forall>j \<in> set js. \<exists>v. resolveJobVersion (loaded ws js) j (got ws j) = Ok v)")
    case True
    then obtain k where k: "loadJobCatalog ws js = Ok k" using loadJobCatalog_Ok [of ws js] by blast
    have decl: "version_declared ws js j (got ws j)" if "j \<in> set js" for j
      using resolveJobVersion_loaded [of js ws j] True that by blast
    have lk: "(case map_of (jk_manifests k) j of None \<Rightarrow> [] | Some m \<Rightarrow> ListedCommands m) = ListedCommands (got ws j)"
      if "j \<in> set js" for j
      using that k by (simp add: loadJobCatalog_Ok loaded_def map_of_keys)
    have "ValidateJobCommandDemands ws jobs = Ok () \<longleftrightarrow>
        (\<forall>j \<in> set js. \<forall>c \<in> set (ListedCommands (got ws j)). validate_demand k j c = Ok ())"
      unfolding ValidateJobCommandDemands_def Let_def js_def [symmetric] k rbind_simps rfold_unit
      using lk by auto
    also have "\<dots> \<longleftrightarrow> (\<forall>j \<in> set js. \<forall>c \<in> set (ListedCommands (got ws j)). demand_met ws js j c)"
      using validate_demand_met [OF _ _ k] True by auto
    also have "\<dots> \<longleftrightarrow> (\<forall>j \<in> set js. \<exists>m. ws j = Ok m \<and> version_declared ws js j m \<and>
        (\<forall>c \<in> set (ListedCommands m). demand_met ws js j c))"
      using True decl by (intro ball_cong) (force simp: got_def)+
    finally show ?thesis by (simp add: set same)
  next
    case False
    then have "\<nexists>k. loadJobCatalog ws js = Ok k" using loadJobCatalog_Ok [of ws js] by blast
    then have no: "ValidateJobCommandDemands ws jobs \<noteq> Ok ()"
      by (auto simp: ValidateJobCommandDemands_def Let_def js_def [symmetric] rbind_Inr_conv)
    have "\<not> (\<forall>job \<in> set js. \<exists>m. ws job = Ok m \<and> version_declared ws js job m)"
    proof
      assume all: "\<forall>job \<in> set js. \<exists>m. ws job = Ok m \<and> version_declared ws js job m"
      then have r: "\<forall>j \<in> set js. \<exists>m. ws j = Ok m" by blast
      moreover have "\<exists>v. resolveJobVersion (loaded ws js) j (got ws j) = Ok v" if "j \<in> set js" for j
        unfolding resolveJobVersion_loaded [OF r] using all that by (force simp: got_def)
      ultimately show False using False by blast
    qed
    with no show ?thesis unfolding set same by blast
  qed
qed

section \<open>Witness\<close>

definition bare_manifest :: manifest where
  "bare_manifest = \<lparr>m_version = ''1.2.0'', m_selectors = [], m_memory_min = [], m_memory_max = [], m_cpu_min = [],
     m_cpu_max = [], m_ports = [], m_commands = [], m_certs = [], m_health_check = None, m_max_concurrent_upgrades = 1,
     m_max_concurrent_starts = 0, m_min_allocations_count = 2, m_restart_policy = [], m_restart_globs = []\<rparr>"

definition plain_command :: "string \<Rightarrow> string \<Rightarrow> job_command" where
  "plain_command job command = \<lparr>jc_name = [], jc_executed_on = [''post_deploy''], jc_demand_job = job,
     jc_demand_command = command, jc_config = (if job = [] then [] else [(''min_version'', CfgString ''1.1'')])\<rparr>"

text \<open>Job \<open>api\<close> demands the command \<open>ready\<close> of job \<open>db\<close> from version 1.1 on.\<close>

definition two_manifests :: "string \<Rightarrow> error + manifest" where
  "two_manifests job =
     (if job = ''db'' then Ok (bare_manifest\<lparr>m_commands := [(''ready'', plain_command [] [])]\<rparr>)
      else if job = ''api'' then Ok (bare_manifest\<lparr>m_commands := [(''wait'', plain_command ''db'' '' ready'')]\<rparr>)
      else Err ErrInvalidManifest)"

lemma demands_validated_exactly_witness:
  "ValidateJobCommandDemands two_manifests [''db'', ''api''] = Ok () \<and> ValidateJobCommandDemands two_manifests [''api''] \<noteq> Ok () \<and>
   list_all (demand_met two_manifests [''db'', ''api''] ''api'') (ListedCommands (got two_manifests ''api''))"
proof -
  have ok: "ValidateJobCommandDemands two_manifests [''db'', ''api''] = Ok ()" by code_simp
  have no: "ValidateJobCommandDemands two_manifests [''api''] \<noteq> Ok ()" by code_simp
  from ok [unfolded demands_validated_exactly]
  obtain m where "two_manifests ''api'' = Ok m" "\<forall>c \<in> set (ListedCommands m). demand_met two_manifests [''db'', ''api''] ''api'' c"
    by fastforce
  then show ?thesis using ok no by (simp add: got_def list_all_iff)
qed

end
