(* ===== verification/Gc.thy ===== *)
theory Gc
  imports Settled
begin

text \<open>
  Garbage collection (\<open>gc/*.go\<close>, \<open>RemoveJobTree\<close> of \<open>worker/cleanup.go\<close>): the directories of removed
  allocations are deleted on their workers, their keys in the store become tombstones, their rows leave the
  catalog, and old versions of keys are purged. The transaction is rolled back at the first error.
\<close>

section \<open>Removed allocations (gc/allocations.go)\<close>

type_synonym removed_allocation = "string \<times> string"

definition listRemovedAllocations :: "catalog \<Rightarrow> removed_allocation list" where
  "listRemovedAllocations c = map (\<lambda>a. (a_ip a, a_job a)) (filter a_removed (t_allocations c))"

definition purgeRemovedAllocations :: "catalog \<Rightarrow> catalog" where
  "purgeRemovedAllocations c =
     (let c1 = foldl (\<lambda>c' a. RemoveHash c' (allocation_namespace (a_job a)) (a_id a)) c (filter a_removed (t_allocations c))
      in c1\<lparr>t_allocations := filter (\<lambda>a. \<not> a_removed a) (t_allocations c1)\<rparr>)"

section \<open>Worker data (gc/workers.go)\<close>

definition job_tree_context :: "string \<Rightarrow> string \<Rightarrow> command_context" where
  "job_tree_context bucketID job =
     \<lparr>cc_job = job, cc_phase = ''gc'', cc_action = ''cleanup_job_tree'',
      cc_cmd = ''rm -rf '' @ quoted (''/opt/worker/'' @ bucketID @ ''/jobs/'' @ job)\<rparr>"

definition RemoveJobTree :: "world \<Rightarrow> string \<Rightarrow> string \<Rightarrow> string \<Rightarrow> unit act" where
  "RemoveJobTree w bucketID ip job = runWorkerCommand w ip (job_tree_context bucketID job) []"

definition RemoveJobTreeOrAssumeDead :: "world \<Rightarrow> string \<Rightarrow> string \<Rightarrow> string \<Rightarrow> unit act" where
  "RemoveJobTreeOrAssumeDead w bucketID ip job = bnd (attempt (RemoveJobTree w bucketID ip job)) (\<lambda>_. ret ())"

definition purgeRemovedAllocationWorkerData :: "world \<Rightarrow> string \<Rightarrow> removed_allocation list \<Rightarrow> unit act" where
  "purgeRemovedAllocationWorkerData w bucketID allocs =
     bnd (reads (\<lambda>s. LoadWorkerCatalog (ds_cat s))) (\<lambda>current.
     dfor (\<lambda>(ip, job). if ip \<in> set current then RemoveJobTree w bucketID ip job
                       else RemoveJobTreeOrAssumeDead w bucketID ip job) allocs)"

section \<open>Keys of the store (gc/references.go)\<close>

text \<open>The namespaces of the jobs without an active allocation, each job once.\<close>

definition purgeRemovedJobNamespaces :: "catalog \<Rightarrow> removed_allocation list \<Rightarrow> store \<Rightarrow> error + store" where
  "purgeRemovedJobNamespaces c allocs st =
     rfold (\<lambda>st job. rbind (JobHasActiveAllocations c job) (\<lambda>active.
         Ok (if active then st else foldl PurgeNamespace st (JobKVNamespaces job)))) st (Unique (map snd allocs))"

definition purgeRemovedAllocationReferences :: "world \<Rightarrow> removed_allocation list \<Rightarrow> unit act" where
  "purgeRemovedAllocationReferences w allocs =
     (if allocs = [] then ret ()
      else bnd (reads (\<lambda>s. LoadWorkerCatalog (ds_cat s))) (\<lambda>current.
           bnd (change_store (\<lambda>st. Ok (foldl (\<lambda>st (ip, job). PurgeNamespace st (worker_kv_namespace job ip)) st allocs))) (\<lambda>_.
           bnd (reads (\<lambda>s. schedule w (ds_trace s) (Unique (filter (\<lambda>ip. ip \<notin> set current) (map fst allocs))))) (\<lambda>off.
           bnd (change_store (\<lambda>st. Ok (foldl (\<lambda>st ip. PurgeNamespace (PurgeNamespace st (''maand/worker/'' @ ip))
                  (''maand/worker/'' @ ip @ ''/tags'')) st off))) (\<lambda>_.
           bnd (reads ds_cat) (\<lambda>c.
           bnd (change_store (purgeRemovedJobNamespaces c allocs)) (\<lambda>_.
           persistStore w)))))))"

section \<open>The collection (gc/execute.go)\<close>

text \<open>A transaction keeps its changes to the database only when it commits.\<close>

definition transaction :: "'a act \<Rightarrow> 'a act" where
  "transaction m s =
     (case m s of
        (Inl e, s') \<Rightarrow> (Inl e, s'\<lparr>ds_cat := ds_cat s, ds_table := ds_table s\<rparr>)
      | (Inr x, s') \<Rightarrow> (Inr x, s'))"

definition purge_stale :: "world \<Rightarrow> int \<Rightarrow> unit act" where
  "purge_stale w retainDays s =
     (Ok (), s\<lparr>ds_table := PurgeStaleVersions (wd_now w (ds_trace s)) retainDays (ds_table s)\<rparr>)"

definition gcExecute :: "world \<Rightarrow> int \<Rightarrow> unit act" where
  "gcExecute w retainDays =
     transaction (
       bnd load_session (\<lambda>_.
       bnd (reads (\<lambda>s. listRemovedAllocations (ds_cat s))) (\<lambda>removed.
       bnd (query GetBucketID) (\<lambda>bucketID.
       bnd (if removed \<noteq> [] then purgeRemovedAllocationWorkerData w bucketID removed else ret ()) (\<lambda>_.
       bnd (if removed \<noteq> [] then purgeRemovedAllocationReferences w removed else ret ()) (\<lambda>_.
       bnd (change_cat purgeRemovedAllocations) (\<lambda>_.
       purge_stale w retainDays)))))))"

definition Collect :: "world \<Rightarrow> unit act" where
  "Collect w = gcExecute w 0"

section \<open>The store between two sessions\<close>

lemma synced_of_table_ok:
  assumes ok: "table_ok rows" and s: "LoadFromTransaction rows = Inr s"
  shows "synced s rows"
proof -
  from load_table_ok [OF ok] s have wf: "store_wf s"
    and none: "\<And>ns k. rows_of rows ns k = {} \<Longrightarrow> lookup_entry s ns k = None"
    and row: "\<And>ns k r. newest rows ns k r \<Longrightarrow> lookup_entry s ns k = Some (row_decoded r)" by auto
  have "key_synced (lookup_entry s ns k) (rows_of rows ns k)" for ns k
  proof (rule newest_cases [OF ok, of ns k])
    assume e: "rows_of rows ns k = {}"
    show ?thesis unfolding none [OF e] e by (simp add: key_synced_def)
  next
    fix r assume r: "newest rows ns k r" and t: "atoi (kr_created r) \<noteq> None"
    have "decodes r (row_decoded r)" using t by (simp add: decodes_row_decoded)
    then show ?thesis unfolding row [OF r] using r
      by (simp add: key_synced_def row_decoded_def row_entry_def newest_def) blast
  qed
  with wf show ?thesis by (simp add: synced_def)
qed

lemma table_ok_of_synced:
  assumes sy: "synced s rows" and p: "\<not> HasPendingChanges s"
  shows "table_ok rows"
  unfolding table_ok_def
proof (intro allI impI)
  fix ns k assume ne: "rows_of rows ns k \<noteq> {}"
  have key: "key_synced (lookup_entry s ns k) (rows_of rows ns k)" using sy by (simp add: synced_def)
  with ne obtain e where e: "lookup_entry s ns k = Some e" by (cases "lookup_entry s ns k") (auto simp: key_synced_def)
  have wf: "store_wf s" using sy by (simp add: synced_def)
  have "\<not> e_changed e"
  proof -
    from e obtain m where m: "map_of s ns = Some m" "map_of m k = Some e"
      by (auto simp: lookup_entry_def namespaceMap_def split: option.splits)
    then have "(ns, m) \<in> set s" "(k, e) \<in> set m" by (auto dest: map_of_SomeD)
    then show ?thesis using p by (auto simp: HasPendingChanges_def list_ex_iff)
  qed
  with key e obtain r where r: "r \<in> rows_of rows ns k" "kr_version r = e_version e" "decodes r e"
    "\<forall>r' \<in> rows_of rows ns k. r' = r \<or> kr_version r' < e_version e" by (auto simp: key_synced_def)
  have "newest rows ns k r" unfolding newest_def r(2) using r(1,4) by blast
  moreover have "atoi (kr_created r) \<noteq> None" using r(3) by (auto simp: decodes_def)
  ultimately show "\<exists>r. newest rows ns k r \<and> atoi (kr_created r) \<noteq> None" by blast
qed

lemma purges_run: "foldl PurgeNamespace st nss = kv_run st (map OpPurge nss)"
  by (induction nss arbitrary: st) simp_all

lemma live_purges: "live (foldl PurgeNamespace st nss) ns = (if ns \<in> set nss then Map.empty else live st ns)"
  by (induction nss arbitrary: st) (auto simp: live_PurgeNamespace)

section \<open>What is forgotten\<close>

definition has_active :: "catalog \<Rightarrow> string \<Rightarrow> bool" where
  "has_active c job \<longleftrightarrow> (\<exists>b \<in> set (t_allocations c). a_job b = job \<and> \<not> a_removed b \<and> \<not> a_disabled b)"

definition gc_namespaces :: "catalog \<Rightarrow> string set" where
  "gc_namespaces c =
     {ns. \<exists>a \<in> set (t_allocations c). a_removed a \<and>
        (ns = worker_kv_namespace (a_job a) (a_ip a) \<or>
         a_ip a \<notin> w_ip ` set (t_worker c) \<and> ns \<in> {''maand/worker/'' @ a_ip a, ''maand/worker/'' @ a_ip a @ ''/tags''} \<or>
         \<not> has_active c (a_job a) \<and> ns \<in> set (JobKVNamespaces (a_job a)))}"

lemma JobHasActiveAllocations_Ok: "catalog_ok c \<Longrightarrow> JobHasActiveAllocations c job = Ok (has_active c job)"
  by (auto simp: JobHasActiveAllocations_def GetActiveAllocations_Ok has_active_def filter_empty_conv set_allocs_of)

lemma purgeRemovedJobNamespaces_Ok:
  assumes ok: "catalog_ok c"
  shows "\<exists>nss. purgeRemovedJobNamespaces c allocs st = Ok (foldl PurgeNamespace st nss) \<and>
    set nss = {ns. \<exists>job \<in> snd ` set allocs. \<not> has_active c job \<and> ns \<in> set (JobKVNamespaces job)}"
proof -
  have loop: "rfold (\<lambda>st job. rbind (JobHasActiveAllocations c job) (\<lambda>active.
         Ok (if active then st else foldl PurgeNamespace st (JobKVNamespaces job)))) st jobs =
      Ok (foldl PurgeNamespace st (concat (map (\<lambda>job. if has_active c job then [] else JobKVNamespaces job) jobs)))" for jobs
    by (induction jobs arbitrary: st) (simp_all add: JobHasActiveAllocations_Ok [OF ok])
  show ?thesis unfolding purgeRemovedJobNamespaces_def loop
    by (intro exI [of _ "concat (map (\<lambda>job. if has_active c job then [] else JobKVNamespaces job) (Unique (map snd allocs)))"])
      (auto split: if_splits)
qed

lemma allocation_purges:
  "foldl (\<lambda>st (ip, job). PurgeNamespace st (worker_kv_namespace job ip)) st allocs =
   foldl PurgeNamespace st (map (\<lambda>(ip, job). worker_kv_namespace job ip) allocs)"
  by (induction allocs arbitrary: st) auto

lemma worker_purges:
  "foldl (\<lambda>st ip. PurgeNamespace (PurgeNamespace st (''maand/worker/'' @ ip)) (''maand/worker/'' @ ip @ ''/tags'')) st ips =
   foldl PurgeNamespace st (concat (map (\<lambda>ip. [''maand/worker/'' @ ip, ''maand/worker/'' @ ip @ ''/tags'']) ips))"
  by (induction ips arbitrary: st) auto

lemma change_store_chain:
  assumes "f (ds_cat s) (h2 (r2 (r1 s) (s\<lparr>ds_store := h1 (ds_store s)\<rparr>)) (h1 (ds_store s))) = Ok st"
  shows "bnd (reads r1) (\<lambda>cur. bnd (change_store (\<lambda>st. Ok (h1 st))) (\<lambda>_. bnd (reads (r2 cur)) (\<lambda>off.
      bnd (change_store (\<lambda>st. Ok (h2 off st))) (\<lambda>_. bnd (reads ds_cat) (\<lambda>c. bnd (change_store (f c)) (\<lambda>_. m)))))) s =
    m (s\<lparr>ds_store := st\<rparr>)"
  using assms by (simp add: bnd_def change_store_def)

lemma references_purged:
  assumes run: "purgeRemovedAllocationReferences w (listRemovedAllocations (ds_cat s)) s = (Inr u, s')"
    and ok: "catalog_ok (ds_cat s)" and some: "listRemovedAllocations (ds_cat s) \<noteq> []"
  shows "\<exists>nss. set nss = gc_namespaces (ds_cat s) \<and> ds_cat s' = ds_cat s \<and> ds_trace s' = ds_trace s \<and>
    PersistToTransaction (wd_now w (ds_trace s)) (foldl PurgeNamespace (ds_store s) nss) (ds_table s) = (ds_table s', ds_store s')"
proof -
  let ?c = "ds_cat s" and ?a = "listRemovedAllocations (ds_cat s)"
  let ?off = "schedule w (ds_trace s) (Unique (filter (\<lambda>ip. ip \<notin> set (LoadWorkerCatalog ?c)) (map fst ?a)))"
  define n1 where "n1 = map (\<lambda>(ip, job). worker_kv_namespace job ip) ?a"
  define n2 where "n2 = concat (map (\<lambda>ip. [''maand/worker/'' @ ip, ''maand/worker/'' @ ip @ ''/tags'']) ?off)"
  from purgeRemovedJobNamespaces_Ok [OF ok, of ?a "foldl PurgeNamespace (foldl PurgeNamespace (ds_store s) n1) n2"]
  obtain n3 where n3: "purgeRemovedJobNamespaces ?c ?a (foldl PurgeNamespace (foldl PurgeNamespace (ds_store s) n1) n2) =
      Ok (foldl PurgeNamespace (foldl PurgeNamespace (foldl PurgeNamespace (ds_store s) n1) n2) n3)"
    "set n3 = {ns. \<exists>job \<in> snd ` set ?a. \<not> has_active ?c job \<and> ns \<in> set (JobKVNamespaces job)}"
    by (elim exE conjE) (rule that)
  have tr: "ds_trace (s\<lparr>ds_store := x\<rparr>) = ds_trace s" for x by simp
  have "purgeRemovedAllocationReferences w ?a s =
      persistStore w (s\<lparr>ds_store := foldl PurgeNamespace (foldl PurgeNamespace (foldl PurgeNamespace (ds_store s) n1) n2) n3\<rparr>)"
    unfolding purgeRemovedAllocationReferences_def if_not_P [OF some]
    by (rule change_store_chain, unfold allocation_purges worker_purges, simp only: tr n1_def [symmetric] n2_def [symmetric] n3(1))
  with run have "PersistToTransaction (wd_now w (ds_trace s)) (foldl PurgeNamespace (ds_store s) (n1 @ n2 @ n3)) (ds_table s) =
      (ds_table s', ds_store s') \<and> ds_cat s' = ds_cat s \<and> ds_trace s' = ds_trace s"
    by (auto simp: persistStore_def split: prod.splits)
  moreover have "set (n1 @ n2 @ n3) = gc_namespaces ?c"
    by (auto simp: n1_def n2_def n3(2) gc_namespaces_def listRemovedAllocations_def keep.set_schedule LoadWorkerCatalog_def
        GetWorkers_def)
  ultimately show ?thesis by blast
qed

text \<open>The commands on the workers, in the order of the rows.\<close>

definition gc_events :: "catalog \<Rightarrow> string \<Rightarrow> event list" where
  "gc_events c bucketID = map (\<lambda>(ip, job). WorkerCommand ip (job_tree_context bucketID job) []) (listRemovedAllocations c)"

lemma worker_data_loop:
  assumes "dfor (\<lambda>(ip, job). if ip \<in> set current then RemoveJobTree w b ip job else RemoveJobTreeOrAssumeDead w b ip job) allocs s = (Inr u, s')"
  shows "s' = s\<lparr>ds_trace := rev (map (\<lambda>(ip, job). WorkerCommand ip (job_tree_context b job) []) allocs) @ ds_trace s\<rparr>"
  using assms
proof (induction allocs arbitrary: s)
  case (Cons x allocs)
  obtain ip job where x: "x = (ip, job)" by (cases x)
  let ?f = "\<lambda>(ip, job). if ip \<in> set current then RemoveJobTree w b ip job else RemoveJobTreeOrAssumeDead w b ip job"
  have one: "snd (?f (ip, job) s) = s\<lparr>ds_trace := WorkerCommand ip (job_tree_context b job) [] # ds_trace s\<rparr>"
    by (simp add: RemoveJobTree_def RemoveJobTreeOrAssumeDead_def runWorkerCommand_def outside_def attempt_def bnd_def)
  from Cons.prems obtain v t where t: "?f (ip, job) s = (Inr v, t)" "dfor ?f allocs t = (Inr u, s')"
    unfolding dfor.simps x by (elim bnd_Ok_E)
  from one t(1) have "t = s\<lparr>ds_trace := WorkerCommand ip (job_tree_context b job) [] # ds_trace s\<rparr>" by simp
  with Cons.IH [OF t(2)] show ?case by (simp add: x)
qed simp

section \<open>The catalog after the collection\<close>

lemma remove_hashes:
  "foldl (\<lambda>c a. RemoveHash c (allocation_namespace (a_job a)) (a_id a)) c as =
   c\<lparr>t_hash := filter (\<lambda>h. \<not> (\<exists>a \<in> set as. h_namespace h = allocation_namespace (a_job a) \<and> h_key h = a_id a)) (t_hash c)\<rparr>"
proof (induction as arbitrary: c)
  case (Cons a as)
  show ?case unfolding foldl_Cons Cons.IH by (auto simp: RemoveHash_def intro!: filter_cong)
qed simp

lemma purgeRemovedAllocations_eq:
  "purgeRemovedAllocations c = c\<lparr>t_hash := filter (\<lambda>h. \<not> (\<exists>a \<in> set (t_allocations c). a_removed a \<and>
       h_namespace h = allocation_namespace (a_job a) \<and> h_key h = a_id a)) (t_hash c),
     t_allocations := filter (\<lambda>a. \<not> a_removed a) (t_allocations c)\<rparr>"
proof -
  have eq: "(\<exists>a \<in> set (filter a_removed (t_allocations c)). h_namespace h = allocation_namespace (a_job a) \<and> h_key h = a_id a) \<longleftrightarrow>
      (\<exists>a \<in> set (t_allocations c). a_removed a \<and> h_namespace h = allocation_namespace (a_job a) \<and> h_key h = a_id a)" for h
    by auto
  show ?thesis unfolding purgeRemovedAllocations_def remove_hashes Let_def eq by simp
qed

section \<open>The collection\<close>

text \<open>A key is in the forgotten namespaces or keeps its live value, and the new table loads.\<close>

lemma forgotten_table:
  assumes ok: "table_ok rows" and load: "LoadFromTransaction rows = Inr st"
    and p: "PersistToTransaction now (foldl PurgeNamespace st nss) rows = (rows1, st1)" and now: "0 \<le> now" "now < 2 ^ 63"
  shows "table_ok rows1 \<and> (\<exists>u. LoadFromTransaction rows1 = Inr u \<and>
    (\<forall>ns. live u ns = (if ns \<in> set nss then Map.empty else live st ns)))"
proof -
  from synced_of_table_ok [OF ok load] have sy: "synced (kv_run st (map OpPurge nss)) rows" by (rule synced_kv_run)
  note p' = synced_persist [OF sy now p [unfolded purges_run]]
  have ok1: "table_ok rows1" by (rule table_ok_of_synced [OF p'(1,2)])
  from load_synced [OF p'(1,2)] obtain u where u: "LoadFromTransaction rows1 = Inr u" "lookup_entry u = lookup_entry st1" by blast
  have "live u = live (kv_run st (map OpPurge nss))"
    by (intro ext) (auto simp: live_def u(2) p'(3) persist_entry_def split: option.split)
  then have "live u ns = (if ns \<in> set nss then Map.empty else live st ns)" for ns
    by (simp add: purges_run [symmetric] live_purges)
  with ok1 u(1) show ?thesis by blast
qed

text \<open>The first steps of a collection that succeeds.\<close>

lemma gc_steps:
  assumes run: "gcExecute w days s = (Inr (), s')" and st: "LoadFromTransaction (ds_table s) = Inr st"
  obtains b v1 s1 v2 s2 where "GetBucketID (ds_cat s) = Inr b"
    "(if listRemovedAllocations (ds_cat s) \<noteq> [] then purgeRemovedAllocationWorkerData w b (listRemovedAllocations (ds_cat s)) else ret ())
       (s\<lparr>ds_store := st\<rparr>) = (Inr v1, s1)"
    "(if listRemovedAllocations (ds_cat s) \<noteq> [] then purgeRemovedAllocationReferences w (listRemovedAllocations (ds_cat s)) else ret ())
       s1 = (Inr v2, s2)"
    "s' = s2\<lparr>ds_cat := purgeRemovedAllocations (ds_cat s2), ds_table := PurgeStaleVersions (wd_now w (ds_trace s2)) days (ds_table s2)\<rparr>"
proof -
  have load: "load_session s = (Inr (), s\<lparr>ds_store := st\<rparr>)" by (simp add: load_session_def st)
  have first: "bnd load_session f s = f () (s\<lparr>ds_store := st\<rparr>)" for f :: "unit \<Rightarrow> 'a act" by (rule bnd_Inr, rule load)
  have keep: "listRemovedAllocations (ds_cat (s\<lparr>ds_store := st\<rparr>)) = listRemovedAllocations (ds_cat s)"
    "ds_cat (s\<lparr>ds_store := st\<rparr>) = ds_cat s" by simp_all
  from run have "(case GetBucketID (ds_cat s) of Inl e \<Rightarrow> (Inl e, s\<lparr>ds_store := st\<rparr>) | Inr b \<Rightarrow>
     bnd (if listRemovedAllocations (ds_cat s) \<noteq> [] then purgeRemovedAllocationWorkerData w b (listRemovedAllocations (ds_cat s)) else ret ()) (\<lambda>_.
     bnd (if listRemovedAllocations (ds_cat s) \<noteq> [] then purgeRemovedAllocationReferences w (listRemovedAllocations (ds_cat s)) else ret ()) (\<lambda>_.
     bnd (change_cat purgeRemovedAllocations) (\<lambda>_. purge_stale w days))) (s\<lparr>ds_store := st\<rparr>)) = (Inr (), s')"
    unfolding gcExecute_def transaction_def first bnd_simps(3) bnd_query keep
    by (auto split: prod.splits sum.splits)
  then show thesis
  proof (cases "GetBucketID (ds_cat s)")
    case (Inr b)
    then show ?thesis using \<open>(case GetBucketID (ds_cat s) of Inl e \<Rightarrow> _ | Inr b \<Rightarrow> _ b) = _\<close>
      unfolding Inr sum.case by (elim bnd_Ok_E) (rule that, rule Inr, assumption, assumption, auto simp: purge_stale_def)
  qed simp
qed

text \<open>When a collection succeeds, the catalog has lost the rows of the removed allocations and their hash rows, every
  removed allocation had its directory deleted by one command, and the store has forgotten the namespaces that
  the collection asks for, and no other.\<close>

lemma gc_effect:
  assumes run: "gcExecute w days s = (Inr (), s')" and ok: "catalog_ok (ds_cat s)" and rows: "table_ok (ds_table s)"
    and clock: "\<And>t. 0 \<le> wd_now w t \<and> wd_now w t < 2 ^ 63"
  shows "ds_cat s' = (ds_cat s)\<lparr>t_hash := filter (\<lambda>h. \<not> (\<exists>a \<in> set (t_allocations (ds_cat s)). a_removed a \<and>
         h_namespace h = allocation_namespace (a_job a) \<and> h_key h = a_id a)) (t_hash (ds_cat s)),
       t_allocations := filter (\<lambda>a. \<not> a_removed a) (t_allocations (ds_cat s))\<rparr> \<and>
    (\<exists>b. GetBucketID (ds_cat s) = Inr b \<and> ds_trace s' = rev (gc_events (ds_cat s) b) @ ds_trace s) \<and>
    (\<exists>st st'. LoadFromTransaction (ds_table s) = Inr st \<and> LoadFromTransaction (ds_table s') = Inr st' \<and>
       (\<forall>ns. live st' ns = (if ns \<in> gc_namespaces (ds_cat s) then Map.empty else live st ns))) \<and> table_ok (ds_table s')"
proof -
  let ?c = "ds_cat s" and ?a = "listRemovedAllocations (ds_cat s)"
  from load_table_ok [OF rows] obtain st where st: "LoadFromTransaction (ds_table s) = Inr st" by blast
  let ?s = "s\<lparr>ds_store := st\<rparr>"
  from gc_steps [OF run st] obtain b v1 s1 v2 s2 where b: "GetBucketID ?c = Inr b"
    and s1: "(if ?a \<noteq> [] then purgeRemovedAllocationWorkerData w b ?a else ret ()) ?s = (Inr v1, s1)"
    and s2: "(if ?a \<noteq> [] then purgeRemovedAllocationReferences w ?a else ret ()) s1 = (Inr v2, s2)"
    and s': "s' = s2\<lparr>ds_cat := purgeRemovedAllocations (ds_cat s2),
      ds_table := PurgeStaleVersions (wd_now w (ds_trace s2)) days (ds_table s2)\<rparr>" .
  have w: "s1 = ?s\<lparr>ds_trace := rev (gc_events ?c b) @ ds_trace s\<rparr>"
  proof (cases "?a = []")
    case True
    with s1 have "s1 = ?s" by simp
    then show ?thesis using True by (simp add: gc_events_def)
  next
    case False
    then show ?thesis using s1 worker_data_loop [of "LoadWorkerCatalog ?c" w b ?a ?s v1 s1]
      by (simp add: purgeRemovedAllocationWorkerData_def gc_events_def)
  qed
  have c1: "ds_cat s1 = ?c" "ds_table s1 = ds_table s" "ds_store s1 = st" by (simp_all add: w)
  have mid: "ds_cat s2 = ?c \<and> ds_trace s2 = ds_trace s1 \<and> table_ok (ds_table s2) \<and> (\<exists>u. LoadFromTransaction (ds_table s2) = Inr u \<and>
     (\<forall>ns. live u ns = (if ns \<in> gc_namespaces ?c then Map.empty else live st ns)))"
  proof (cases "?a = []")
    case True
    then have "gc_namespaces ?c = {}" by (auto simp: gc_namespaces_def listRemovedAllocations_def filter_empty_conv)
    moreover have "s2 = s1" using True s2 by simp
    ultimately show ?thesis using rows st by (simp add: c1)
  next
    case False
    then have "purgeRemovedAllocationReferences w (listRemovedAllocations (ds_cat s1)) s1 = (Inr v2, s2)" using s2 by (simp add: c1)
    from references_purged [OF this, unfolded c1, OF ok False] obtain nss where nss: "set nss = gc_namespaces ?c" "ds_cat s2 = ?c"
      "ds_trace s2 = ds_trace s1"
      "PersistToTransaction (wd_now w (ds_trace s1)) (foldl PurgeNamespace st nss) (ds_table s) = (ds_table s2, ds_store s2)" by blast
    from forgotten_table [OF rows st nss(4)] clock nss(1-3) show ?thesis by simp
  qed
  then obtain u where u: "LoadFromTransaction (ds_table s2) = Inr u"
    "\<And>ns. live u ns = (if ns \<in> gc_namespaces ?c then Map.empty else live st ns)" by blast
  have ok2: "table_ok (ds_table s')" using mid by (simp add: s' table_ok_Purge)
  then obtain u' where u': "LoadFromTransaction (ds_table s') = Inr u'" using load_table_ok by blast
  have "live u' = live u" using live_after_Purge [OF _ u(1)] u' mid by (simp add: s')
  with st u u' have "\<exists>st st'. LoadFromTransaction (ds_table s) = Inr st \<and> LoadFromTransaction (ds_table s') = Inr st' \<and>
       (\<forall>ns. live st' ns = (if ns \<in> gc_namespaces ?c then Map.empty else live st ns))" by auto
  moreover have "ds_cat s' = purgeRemovedAllocations ?c" "ds_trace s' = rev (gc_events ?c b) @ ds_trace s"
    using mid by (simp_all add: s' w)
  ultimately show ?thesis using b ok2 unfolding purgeRemovedAllocations_eq by blast
qed

section \<open>The collection and the drained jobs\<close>

text \<open>A job is drained when all the allocations that it still has are disabled.\<close>

definition has_live :: "catalog \<Rightarrow> string \<Rightarrow> bool" where
  "has_live c job \<longleftrightarrow> (\<exists>b \<in> set (t_allocations c). a_job b = job \<and> \<not> a_removed b)"

definition drained :: "catalog \<Rightarrow> string \<Rightarrow> bool" where
  "drained c job \<longleftrightarrow> has_live c job \<and> \<not> has_active c job"

definition gone_namespaces :: "catalog \<Rightarrow> string set" where
  "gone_namespaces c =
     {ns. \<exists>a \<in> set (t_allocations c). a_removed a \<and>
        (ns = worker_kv_namespace (a_job a) (a_ip a) \<or>
         a_ip a \<notin> w_ip ` set (t_worker c) \<and> ns \<in> {''maand/worker/'' @ a_ip a, ''maand/worker/'' @ a_ip a @ ''/tags''} \<or>
         \<not> has_live c (a_job a) \<and> ns \<in> set (JobKVNamespaces (a_job a)))}"

lemma active_is_live: "has_active c job \<Longrightarrow> has_live c job"
  by (auto simp: has_active_def has_live_def)

lemma gc_namespaces_not_drained:
  assumes "\<forall>a \<in> set (t_allocations c). a_removed a \<longrightarrow> \<not> drained c (a_job a)"
  shows "gc_namespaces c = gone_namespaces c"
proof -
  have "has_active c (a_job a) \<longleftrightarrow> has_live c (a_job a)" if "a \<in> set (t_allocations c)" "a_removed a" for a
    using assms that active_is_live [of c "a_job a"] by (auto simp: drained_def)
  then show ?thesis unfolding gc_namespaces_def gone_namespaces_def by (intro Collect_cong bex_cong refl) blast
qed

text \<open>Property C7: a collection removes exactly what was removed, as long as no job that lost an allocation is drained.
  When it succeeds, the catalog has lost the rows of the removed allocations and their hash rows, and nothing
  else; every removed allocation had its directory deleted on its worker by one command, and no other command
  ran; the store has forgotten the namespaces of the removed allocations, of the workers that left with them and
  of the jobs that have no allocation left, and every other key has its live value, for any retention and any
  clock. A drained job that lost an allocation is the case that \<open>gc_forgets_disabled_job\<close> shows below: the
  collection forgets its variables and secrets as well, which docs/reference/cli/gc.md describes and
  docs/guides/disable-and-drain.md excludes.\<close>

theorem gc_removes_exactly_removed:
  assumes run: "gcExecute w days s = (Inr (), s')" and ok: "catalog_ok (ds_cat s)" and rows: "table_ok (ds_table s)"
    and clock: "\<And>t. 0 \<le> wd_now w t \<and> wd_now w t < 2 ^ 63"
    and kept: "\<forall>a \<in> set (t_allocations (ds_cat s)). a_removed a \<longrightarrow> \<not> drained (ds_cat s) (a_job a)"
  shows "ds_cat s' = (ds_cat s)\<lparr>t_hash := filter (\<lambda>h. \<not> (\<exists>a \<in> set (t_allocations (ds_cat s)). a_removed a \<and>
         h_namespace h = allocation_namespace (a_job a) \<and> h_key h = a_id a)) (t_hash (ds_cat s)),
       t_allocations := filter (\<lambda>a. \<not> a_removed a) (t_allocations (ds_cat s))\<rparr> \<and>
    (\<exists>b. GetBucketID (ds_cat s) = Inr b \<and> ds_trace s' = rev (gc_events (ds_cat s) b) @ ds_trace s) \<and>
    (\<exists>st st'. LoadFromTransaction (ds_table s) = Inr st \<and> LoadFromTransaction (ds_table s') = Inr st' \<and>
       (\<forall>ns. live st' ns = (if ns \<in> gone_namespaces (ds_cat s) then Map.empty else live st ns))) \<and> table_ok (ds_table s')"
  using gc_effect [OF run ok rows clock] unfolding gc_namespaces_not_drained [OF kept] .

section \<open>Witness\<close>

text \<open>Job \<open>a\<close> runs on worker \<open>w\<close> and was removed from worker \<open>v\<close>, which left with it; job \<open>d\<close> was removed.\<close>

definition partly_removed :: catalog where
  "partly_removed = two_jobs\<lparr>t_allocations := [plain_alloc ''w'' ''a'', (plain_alloc ''v'' ''a'')\<lparr>a_removed := True\<rparr>,
       (plain_alloc ''w'' ''d'')\<lparr>a_removed := True\<rparr>],
     t_hash := [plain_hash (plain_alloc ''w'' ''a'') (Some ''x'') ''x'', plain_hash (plain_alloc ''v'' ''a'') (Some ''x'') ''x'']\<rparr>"

text \<open>Job \<open>a\<close> is disabled on worker \<open>w\<close> and was removed from worker \<open>v\<close>; it has a secret.\<close>

definition half_removed :: catalog where
  "half_removed = two_jobs\<lparr>t_worker := [plain_worker ''w'' 0, plain_worker ''v'' 1],
     t_allocations := [(plain_alloc ''w'' ''a'')\<lparr>a_disabled := True\<rparr>, (plain_alloc ''v'' ''a'')\<lparr>a_removed := True\<rparr>],
     t_hash := [plain_hash (plain_alloc ''w'' ''a'') (Some ''x'') ''x'', plain_hash (plain_alloc ''v'' ''a'') (Some ''x'') ''x'']\<rparr>"

definition secret_row :: kv_row where
  "secret_row = \<lparr>kr_key = ''k'', kr_value = ''v'', kr_namespace = ''secrets/job/a'', kr_version = 1, kr_ttl = 0,
     kr_created = ''0'', kr_deleted = False\<rparr>"

definition partly_state :: dstate where
  "partly_state = \<lparr>ds_cat = partly_removed, ds_store = [], ds_table = [secret_row], ds_tmp = [], ds_trace = []\<rparr>"

definition all_well :: world where
  "all_well = quiet_world (\<lambda>_. True)"

lemma partly_runs: "fst (gcExecute all_well 0 partly_state) = Inr ()"
  by code_simp

lemma table_ok_single: "atoi (kr_created r) \<noteq> None \<Longrightarrow> table_ok [r]"
  by (auto simp: table_ok_def newest_def same_key_def)

lemma secret_table_ok: "table_ok [secret_row]"
  by (rule table_ok_single)
    (simp add: secret_row_def atoi_code parse_digits_def is_digit_def digits_val_def digit_val_def)

lemma gc_removes_exactly_removed_witness:
  "t_allocations (ds_cat (snd (gcExecute all_well 0 partly_state))) = [plain_alloc ''w'' ''a''] \<and>
   ds_trace (snd (gcExecute all_well 0 partly_state)) =
     [WorkerCommand ''w'' (job_tree_context ''b'' ''d'') [], WorkerCommand ''v'' (job_tree_context ''b'' ''a'') []]"
proof -
  obtain s' where s': "gcExecute all_well 0 partly_state = (Inr (), s')" using partly_runs by (metis prod.collapse)
  have cat: "ds_cat partly_state = partly_removed" "ds_table partly_state = [secret_row]" "ds_trace partly_state = []"
    by (simp_all add: partly_state_def)
  have ok: "catalog_ok partly_removed" by code_simp
  have clock: "\<And>t. 0 \<le> wd_now all_well t \<and> wd_now all_well t < 2 ^ 63" by (simp add: all_well_def quiet_world_def)
  have "list_all (\<lambda>a. a_removed a \<longrightarrow> \<not> drained partly_removed (a_job a)) (t_allocations partly_removed)" by code_simp
  then have kept: "\<forall>a \<in> set (t_allocations partly_removed). a_removed a \<longrightarrow> \<not> drained partly_removed (a_job a)"
    by (simp add: list_all_iff)
  have as: "filter (\<lambda>a. \<not> a_removed a) (t_allocations partly_removed) = [plain_alloc ''w'' ''a'']" by code_simp
  have ev: "GetBucketID partly_removed = Inr ''b''" "rev (gc_events partly_removed ''b'') =
      [WorkerCommand ''w'' (job_tree_context ''b'' ''d'') [], WorkerCommand ''v'' (job_tree_context ''b'' ''a'') []]"
    by code_simp+
  note th = gc_removes_exactly_removed [OF s', unfolded cat, OF ok secret_table_ok clock kept]
  have "t_allocations (ds_cat s') = [plain_alloc ''w'' ''a'']"
    unfolding th [THEN conjunct1] by (simp add: as)
  moreover from th [THEN conjunct2, THEN conjunct1] have "ds_trace s' = rev (gc_events partly_removed ''b'')" by (auto simp: ev(1))
  ultimately show ?thesis by (simp add: s' ev(2))
qed

text \<open>A collection drops the secrets of a job that is only disabled, which a deploy keeps: the collection asks for
  an active allocation, the deploy for one that is not removed.\<close>

lemma gc_forgets_disabled_job:
  "JobHasNonRemovedAllocations half_removed ''a''"
  "''secrets/job/a'' \<in> gc_namespaces half_removed"
proof -
  show "JobHasNonRemovedAllocations half_removed ''a''" by code_simp
  have "(plain_alloc ''v'' ''a'')\<lparr>a_removed := True\<rparr> \<in> set (t_allocations half_removed)" "\<not> has_active half_removed ''a''"
    "''secrets/job/a'' \<in> set (JobKVNamespaces ''a'')" by code_simp+
  then show "''secrets/job/a'' \<in> gc_namespaces half_removed" unfolding gc_namespaces_def by (force simp: plain_alloc_def)
qed

end
