(* ===== verification/JobControl.thy ===== *)
theory JobControl
  imports Batches
begin

text \<open>
  Manual control of jobs (\<open>jobcontrol/*.go\<close>, \<open>data/validate.go\<close>): targets, filters, the check that the workers are
  in step with the database, and the runs of \<open>runner.py\<close> or of the job's own commands. The jobs of one wave
  run in parallel; here they take effect one after the other, in the order of the scheduler.
\<close>

section \<open>Targets (jobcontrol/target.go)\<close>

definition builtinTargets :: "string list" where
  "builtinTargets = [''start'', ''stop'', ''restart'', ''status'']"

definition ascii_alnum :: "char \<Rightarrow> bool" where
  "ascii_alnum ch \<longleftrightarrow> (let n = of_char ch :: nat in 48 \<le> n \<and> n \<le> 57 \<or> 65 \<le> n \<and> n \<le> 90 \<or> 97 \<le> n \<and> n \<le> 122)"

definition targetName :: "string \<Rightarrow> bool" where
  "targetName s \<longleftrightarrow>
     (case s of [] \<Rightarrow> False
      | ch # rest \<Rightarrow> ascii_alnum ch \<and> list_all (\<lambda>x. ascii_alnum x \<or> x \<in> set ''_.-'') rest)"

definition ParseTarget :: "string \<Rightarrow> error + string" where
  "ParseTarget raw =
     (let trimmed = trim_space raw; lower = to_lower trimmed
      in if trimmed = [] then Err ErrInvalidTarget
         else if lower \<in> set builtinTargets then Ok lower
         else if \<not> targetName trimmed then Err ErrInvalidTarget
         else Ok trimmed)"

section \<open>Filters (jobcontrol/filters.go)\<close>

record control_filters =
  cf_jobs :: "string list"
  cf_workers :: "string list"

definition parseCSV :: "string \<Rightarrow> string list" where
  "parseCSV raw =
     (if trim_space raw = [] then []
      else Unique (filter (\<lambda>p. p \<noteq> []) (map trim_space (split_char CHR '','' raw))))"

definition ParseFilters :: "string \<Rightarrow> string \<Rightarrow> control_filters" where
  "ParseFilters jobsCSV workersCSV = \<lparr>cf_jobs = parseCSV jobsCSV, cf_workers = parseCSV workersCSV\<rparr>"

definition validateAgainst :: "control_filters \<Rightarrow> string list \<Rightarrow> string list \<Rightarrow> error + unit" where
  "validateAgainst f allJobs allWorkers =
     (if cf_jobs f \<noteq> [] \<and> Intersection allJobs (cf_jobs f) = [] then Err ErrInvalidFilter
      else if cf_workers f \<noteq> [] \<and> Intersection allWorkers (cf_workers f) = [] then Err ErrInvalidFilter
      else Ok ())"

definition selectJobs :: "string list \<Rightarrow> string list \<Rightarrow> string list" where
  "selectJobs jobsAtSeq jobFilter =
     (if jobFilter = [] then jobsAtSeq else filter (\<lambda>job. job \<in> set jobFilter) jobsAtSeq)"

definition workerSelected :: "string \<Rightarrow> string list \<Rightarrow> bool" where
  "workerSelected ip workerFilter \<longleftrightarrow> workerFilter = [] \<or> ip \<in> set workerFilter"

definition filterWorkers :: "string list \<Rightarrow> string list \<Rightarrow> string list" where
  "filterWorkers workers workerFilter =
     (if workerFilter = [] then workers else filter (\<lambda>ip. workerSelected ip workerFilter) workers)"

section \<open>Workers in step (data/validate.go)\<close>

definition worker_sync_context :: "string \<Rightarrow> string \<Rightarrow> int \<Rightarrow> command_context" where
  "worker_sync_context bucketID workerID updateSeq =
     \<lparr>cc_job = [], cc_phase = ''validate'', cc_action = ''worker_sync'',
      cc_cmd = ''python3 /opt/worker/'' @ bucketID @ ''/bin/worker.py '' @ bucketID @ '' '' @ workerID @ '' '' @ itoa updateSeq\<rparr>"

definition ValidateBucketUpdateSeq :: "world \<Rightarrow> string list \<Rightarrow> unit act" where
  "ValidateBucketUpdateSeq w workers =
     bnd (query GetBucketID) (\<lambda>bucketID.
     bnd (query GetBucketUpdateSeq) (\<lambda>updateSeq.
     bnd (dmap (\<lambda>ip. query (\<lambda>c. GetWorkerID c ip)) workers) (\<lambda>_.
     runParallelWorkers w workers (int (length workers)) (\<lambda>ip.
       bnd (query (\<lambda>c. GetWorkerID c ip)) (\<lambda>workerID.
       runWorkerCommand w ip (worker_sync_context bucketID workerID updateSeq) [])))))"

section \<open>One job (jobcontrol/commands.go, runner.go)\<close>

definition runJobControlCommands :: "world \<Rightarrow> string \<Rightarrow> string \<Rightarrow> bool \<Rightarrow> string list \<Rightarrow> bool act" where
  "runJobControlCommands w job target healthCheck workerFilter =
     bnd (reads (\<lambda>s. GetJobCommands (ds_cat s) job ''job_control'')) (\<lambda>commands.
     if commands = [] then ret False
     else bnd (query (\<lambda>c. GetActiveAllocations c job)) (\<lambda>allocated.
          if filterWorkers allocated workerFilter = [] then ret True
          else bnd (dfor (\<lambda>command. JobCommand w job command ''job_control'' [''TARGET='' @ target]) commands) (\<lambda>_.
               bnd (if healthCheck then HealthCheck w True job else ret ()) (\<lambda>_. ret True))))"

definition control_context :: "string \<Rightarrow> string \<Rightarrow> string \<Rightarrow> command_context" where
  "control_context bucketID job target =
     \<lparr>cc_job = job, cc_phase = ''job_control'', cc_action = target, cc_cmd = runnerCommand bucketID target job\<rparr>"

definition runWorkerBatch :: "world \<Rightarrow> string \<Rightarrow> string \<Rightarrow> string \<Rightarrow> string list \<Rightarrow> unit act" where
  "runWorkerBatch w bucketID job target ips =
     runParallelWorkers w ips (int (length ips)) (\<lambda>ip. runWorkerCommand w ip (control_context bucketID job target) [])"

definition runRunnerTarget :: "world \<Rightarrow> string \<Rightarrow> string \<Rightarrow> string \<Rightarrow> bool \<Rightarrow> string list \<Rightarrow> unit act" where
  "runRunnerTarget w bucketID job target healthCheck workerFilter =
     bnd (query (\<lambda>c. GetActiveAllocations c job)) (\<lambda>allocated.
     let selected = filterWorkers allocated workerFilter
     in if selected = [] then ret ()
        else bnd (query (\<lambda>c. GetMaxConcurrentUpgrades c job)) (\<lambda>upgrades.
             dfor (\<lambda>batch. bnd (runWorkerBatch w bucketID job target batch) (\<lambda>_.
                            if healthCheck then HealthCheck w True job else ret ()))
               (chunks (nat (if upgrades < 1 then 1 else upgrades)) selected)))"

section \<open>All jobs (jobcontrol/execute.go)\<close>

record control_request =
  cr_jobs :: string
  cr_workers :: string
  cr_target :: string
  cr_health_check :: bool

definition controlJob :: "world \<Rightarrow> string \<Rightarrow> control_request \<Rightarrow> string list \<Rightarrow> string \<Rightarrow> unit act" where
  "controlJob w bucketID req workerFilter job =
     bnd (runJobControlCommands w job (cr_target req) (cr_health_check req) workerFilter) (\<lambda>handled.
     if handled then ret ()
     else runRunnerTarget w bucketID job (cr_target req) (cr_health_check req) workerFilter)"

text \<open>The failures, each with its job.\<close>

fun control_jobs :: "(string \<Rightarrow> unit act) \<Rightarrow> string list \<Rightarrow> (string \<times> error) list act" where
  "control_jobs f [] = ret []"
| "control_jobs f (job # jobs) =
     bnd (attempt (f job)) (\<lambda>r. bnd (control_jobs f jobs) (\<lambda>fs.
       ret (case r of Inl e \<Rightarrow> (job, e) # fs | Inr _ \<Rightarrow> fs)))"

definition runJobsInParallel ::
  "world \<Rightarrow> string \<Rightarrow> control_request \<Rightarrow> string list \<Rightarrow> string list \<Rightarrow> (string \<times> error) list act" where
  "runJobsInParallel w bucketID req workerFilter jobs =
     (if jobs = [] then ret []
      else bnd (reads (\<lambda>s. schedule w (ds_trace s) jobs)) (control_jobs (controlJob w bucketID req workerFilter)))"

fun control_waves ::
  "world \<Rightarrow> string \<Rightarrow> control_request \<Rightarrow> control_filters \<Rightarrow> int list \<Rightarrow> (string \<times> error) list act" where
  "control_waves w bucketID req f [] = ret []"
| "control_waves w bucketID req f (n # ns) =
     bnd (reads (\<lambda>s. selectJobs (GetJobsByDeploymentSeq (ds_cat s) n) (cf_jobs f))) (\<lambda>jobs.
     bnd (runJobsInParallel w bucketID req (cf_workers f) jobs) (\<lambda>fs.
     bnd (control_waves w bucketID req f ns) (\<lambda>fs'. ret (fs @ fs'))))"

definition runControl :: "world \<Rightarrow> control_request \<Rightarrow> (string \<times> error) list act" where
  "runControl w req =
     (let f = ParseFilters (cr_jobs req) (cr_workers req)
      in bnd (query (\<lambda>c. validateAgainst f (GetAllAllocatedJobs c) (GetAllWorkers c))) (\<lambda>_.
         bnd (query GetBucketID) (\<lambda>bucketID.
         bnd (query GetBucketUpdateSeq) (\<lambda>_.
         bnd load_session (\<lambda>_.
         bnd (reads (\<lambda>s. GetWorkers (ds_cat s) [])) (\<lambda>workers.
         bnd (ValidateBucketUpdateSeq w workers) (\<lambda>_.
         bnd (reads (\<lambda>s. GetMaxDeploymentSeq (ds_cat s))) (\<lambda>maxSeq.
         control_waves w bucketID req f [0..maxSeq]))))))))"

text \<open>The transaction is always rolled back.\<close>

definition rolled_back :: "'a act \<Rightarrow> 'a act" where
  "rolled_back m s = (case m s of (r, s') \<Rightarrow> (r, s'\<lparr>ds_cat := ds_cat s, ds_table := ds_table s\<rparr>))"

definition newControlError :: "(string \<times> error) list \<Rightarrow> error + unit" where
  "newControlError fs = (if fs = [] then Ok () else Err ErrRunCommand)"

definition jobcontrolExecute :: "world \<Rightarrow> string \<Rightarrow> string \<Rightarrow> string \<Rightarrow> bool \<Rightarrow> unit act" where
  "jobcontrolExecute w jobsCSV workersCSV target healthCheck =
     bnd (pureR (ParseTarget target)) (\<lambda>parsed.
     rolled_back (bnd (runControl w \<lparr>cr_jobs = jobsCSV, cr_workers = workersCSV, cr_target = parsed,
                         cr_health_check = healthCheck\<rparr>) (\<lambda>fs.
                  pureR (newControlError fs))))"

section \<open>Steps on one catalog\<close>

text \<open>Started on the catalog \<open>c\<close>, the step leaves it alone and emits only such events.\<close>

definition at_cat :: "catalog \<Rightarrow> (event \<Rightarrow> bool) \<Rightarrow> dstate \<Rightarrow> dstate \<Rightarrow> bool" where
  "at_cat c P s s' \<longleftrightarrow> (ds_cat s = c \<longrightarrow> ds_cat s' = c \<and> emits P s s')"

interpretation ac: step_relation "at_cat c P" for c P
proof
  show "at_cat c P s s" for s by (simp add: at_cat_def em.refl)
  show "at_cat c P s u" if "at_cat c P s t" "at_cat c P t u" for s t u
    using that em.trans [of P s t u] by (simp add: at_cat_def)
qed

lemma at_cat_of: "holds same_cat m \<Longrightarrow> holds (emits P) m \<Longrightarrow> holds (at_cat c P) m"
  by (simp add: holds_def same_cat_def at_cat_def)

lemma ac_query: "(\<And>x. q c = Inr x \<Longrightarrow> holds (at_cat c P) (f x)) \<Longrightarrow> holds (at_cat c P) (bnd (query q) f)"
  by (auto simp: holds_def at_cat_def bnd_query em.refl split: sum.split)

lemma ac_reads: "holds (at_cat c P) (f (g c)) \<Longrightarrow> holds (at_cat c P) (bnd (reads (\<lambda>s. g (ds_cat s))) f)"
  by (auto simp: holds_def at_cat_def)

lemma ac_schedule:
  "(\<And>ys. set ys = set xs \<Longrightarrow> holds (at_cat c P) (f ys)) \<Longrightarrow>
   holds (at_cat c P) (bnd (reads (\<lambda>s. schedule w (ds_trace s) xs)) f)"
  by (auto simp: holds_def em.set_schedule)

lemma ac_command: "P (WorkerCommand ip cx env) \<Longrightarrow> holds (at_cat c P) (runWorkerCommand w ip cx env)"
  unfolding runWorkerCommand_def by (intro at_cat_of holds_outside)

section \<open>What a run sends\<close>

text \<open>The check of a worker of the catalog, or the target on a live allocation that the filters let through.\<close>

definition control_event :: "catalog \<Rightarrow> string \<Rightarrow> control_request \<Rightarrow> event \<Rightarrow> bool" where
  "control_event c bucketID req ev \<longleftrightarrow>
     (case ev of
        WorkerCommand ip cx env \<Rightarrow>
          (\<exists>workerID n. ip \<in> w_ip ` set (t_worker c) \<and> cx = worker_sync_context bucketID workerID n) \<or>
          (\<exists>a \<in> set (t_allocations c). \<not> a_removed a \<and> \<not> a_disabled a \<and> a_ip a = ip \<and>
             cx = control_context bucketID (a_job a) (cr_target req) \<and>
             (parseCSV (cr_jobs req) = [] \<or> a_job a \<in> set (parseCSV (cr_jobs req))) \<and>
             workerSelected ip (parseCSV (cr_workers req)))
      | _ \<Rightarrow> False)"

lemma set_filterWorkers: "ip \<in> set (filterWorkers ips f) \<longleftrightarrow> ip \<in> set ips \<and> workerSelected ip f"
  by (simp add: filterWorkers_def workerSelected_def)

lemma set_selectJobs: "job \<in> set (selectJobs jobs f) \<longleftrightarrow> job \<in> set jobs \<and> (f = [] \<or> job \<in> set f)"
  by (simp add: selectJobs_def)

text \<open>Requests without a health check, for jobs without commands of their own.\<close>

definition plain_control :: "catalog \<Rightarrow> control_request \<Rightarrow> bool" where
  "plain_control c req \<longleftrightarrow> \<not> cr_health_check req \<and> (\<forall>job. GetJobCommands c job ''job_control'' = [])"

lemma controlJob_plain:
  assumes "plain_control (ds_cat s) req"
  shows "controlJob w b req flt job s = runRunnerTarget w b job (cr_target req) False flt s"
  using assms by (simp add: controlJob_def runJobControlCommands_def plain_control_def bnd_def)

lemma controlJob_scope:
  assumes plain: "plain_control c req" and ok: "catalog_ok c" and job: "parseCSV (cr_jobs req) = [] \<or> job \<in> set (parseCSV (cr_jobs req))"
  shows "holds (at_cat c (control_event c b req)) (controlJob w b req (parseCSV (cr_workers req)) job)"
proof -
  have cmd: "holds (at_cat c (control_event c b req)) (runWorkerCommand w ip (control_context b job (cr_target req)) [])"
    if "ip \<in> set batch" "batch \<in> set (chunks n (filterWorkers ips (parseCSV (cr_workers req))))" "GetActiveAllocations c job = Inr ips"
    for ip batch n ips
  proof (rule ac_command)
    have "ip \<in> set (concat (chunks n (filterWorkers ips (parseCSV (cr_workers req)))))" using that(1,2) by auto
    then have "ip \<in> set ips" "workerSelected ip (parseCSV (cr_workers req))"
      by (simp_all only: concat_chunks set_filterWorkers)
    moreover from this(1) that(3) obtain a where "a \<in> set (t_allocations c)" "\<not> a_removed a" "\<not> a_disabled a" "a_ip a = ip" "a_job a = job"
      by (auto simp: GetActiveAllocations_Ok [OF ok] set_allocs_of)
    ultimately show "control_event c b req (WorkerCommand ip (control_context b job (cr_target req)) [])"
      using job unfolding control_event_def by auto
  qed
  have "holds (at_cat c (control_event c b req)) (runRunnerTarget w b job (cr_target req) False (parseCSV (cr_workers req)))"
    unfolding runRunnerTarget_def Let_def if_False
    by (intro ac_query ac.if_act ac.ret ac.dfor ac.bnd) (auto simp: runWorkerBatch_def intro!: ac.runParallelWorkers ac.ret cmd)
  then show ?thesis using controlJob_plain [of _ req w b "parseCSV (cr_workers req)" job] plain
    by (simp add: holds_def at_cat_def)
qed

lemma control_jobs_holds:
  "(\<And>job. job \<in> set jobs \<Longrightarrow> holds (at_cat c P) (f job)) \<Longrightarrow> holds (at_cat c P) (control_jobs f jobs)"
  by (induction jobs) (auto intro!: ac.ret ac.bnd ac.attempt)

lemma control_waves_scope:
  assumes plain: "plain_control c req" and ok: "catalog_ok c"
  shows "holds (at_cat c (control_event c b req)) (control_waves w b req (ParseFilters (cr_jobs req) (cr_workers req)) ns)"
proof (induction ns)
  case (Cons n ns)
  have "holds (at_cat c (control_event c b req)) (runJobsInParallel w b req (parseCSV (cr_workers req))
      (selectJobs (GetJobsByDeploymentSeq c n) (parseCSV (cr_jobs req))))"
    unfolding runJobsInParallel_def
    by (intro ac.if_act ac.ret ac_schedule control_jobs_holds controlJob_scope [OF plain ok]) (auto simp: set_selectJobs)
  then show ?case unfolding control_waves.simps
    by (intro ac_reads) (auto simp: ParseFilters_def intro!: ac.bnd ac.ret ac.pair Cons [unfolded ParseFilters_def])
qed (simp add: ac.pair)

lemma sync_scope:
  assumes "set ips \<subseteq> w_ip ` set (t_worker c)" and b: "GetBucketID c = Inr b"
  shows "holds (at_cat c (control_event c b req)) (ValidateBucketUpdateSeq w ips)"
proof -
  have "holds (at_cat c (control_event c b req)) (runWorkerCommand w ip (worker_sync_context b i n) [])" if "ip \<in> set ips" for ip i n
    by (rule ac_command) (use assms(1) that in \<open>auto simp: control_event_def\<close>)
  then show ?thesis unfolding ValidateBucketUpdateSeq_def
    by (intro ac_query) (auto simp: b intro!: ac.bnd ac.dmap ac.query ac.runParallelWorkers)
qed

section \<open>What a run reaches\<close>

text \<open>The step ran on the catalog \<open>c\<close> within a longer run, and returned no error.\<close>

definition ran :: "catalog \<Rightarrow> unit act \<Rightarrow> dstate \<Rightarrow> dstate \<Rightarrow> bool" where
  "ran c m s s' \<longleftrightarrow> (\<exists>t t'. ds_cat t = c \<and> emits any s t \<and> m t = (Inr (), t') \<and> emits any t' s')"

lemma ran_within: "emits any s t \<Longrightarrow> ran c m t t' \<Longrightarrow> emits any t' s' \<Longrightarrow> ran c m s s'"
  unfolding ran_def using em.trans by blast

lemma at_catD: "holds (at_cat c P) m \<Longrightarrow> m s = (r, s') \<Longrightarrow> ds_cat s = c \<Longrightarrow> ds_cat s' = c \<and> emits P s s'"
  using holdsD [of "at_cat c P"] by (auto simp: at_cat_def)

lemma control_jobs_reach:
  assumes "control_jobs f jobs s = (Inr fs, s')" and "job \<in> set jobs" "job \<notin> fst ` set fs" and "ds_cat s = c"
    and f: "\<And>job. holds (at_cat c any) (f job)"
  shows "ran c (f job) s s'"
  using assms(1-4)
proof (induction jobs arbitrary: s fs)
  case (Cons j jobs)
  obtain r t where j: "f j s = (r, t)" by fastforce
  from at_catD [OF f j Cons.prems(4)] have t: "ds_cat t = c" "emits any s t" by blast+
  from Cons.prems(1) obtain gs where rest: "control_jobs f jobs t = (Inr gs, s')"
    and fs: "fs = (case r of Inl e \<Rightarrow> (j, e) # gs | Inr _ \<Rightarrow> gs)"
    using j by (auto simp: attempt_def bnd_def split: prod.splits sum.splits)
  have ts': "emits any t s'" using at_catD [OF control_jobs_holds [OF f] rest t(1)] by blast
  show ?case
  proof (cases "job = j")
    case True
    then obtain u where "r = Inr u" using Cons.prems(3) fs by (cases r) auto
    then have "f job s = (Inr (), t)" using j True by simp
    then show ?thesis unfolding ran_def using Cons.prems(4) ts' em.refl [of any s] by blast
  next
    case False
    then have "job \<in> set jobs" "job \<notin> fst ` set gs" using Cons.prems(2,3) fs by (auto split: sum.splits)
    from Cons.IH [OF rest this t(1)] show ?thesis by (rule ran_within [OF t(2) _ em.refl])
  qed
qed simp

lemma any_scope: "holds (at_cat c P) m \<Longrightarrow> holds (at_cat c any) m"
  by (auto simp: holds_def at_cat_def emits_any_any)

text \<open>A selected worker gets the target from a run of the job that succeeds.\<close>

lemma runRunnerTarget_reaches:
  assumes run: "runRunnerTarget w b job tg False flt s = (Inr u, s')" and ips: "GetActiveAllocations (ds_cat s) job = Inr ips"
    and ip: "ip \<in> set ips" "workerSelected ip flt"
  shows "answered w (\<lambda>ev. ev = WorkerCommand ip (control_context b job tg) []) s s'"
proof -
  let ?sel = "filterWorkers ips flt" and ?cmd = "\<lambda>ip. runWorkerCommand w ip (control_context b job tg) []"
  let ?f = "\<lambda>batch. bnd (runWorkerBatch w b job tg batch) (\<lambda>_. ret ())"
  have sel: "ip \<in> set ?sel" using ip by (simp add: set_filterWorkers)
  then have "?sel \<noteq> []" by auto
  with run ips obtain n where "dfor ?f (chunks n ?sel) s = (Inr u, s')"
    by (auto simp: runRunnerTarget_def bnd_query split: sum.splits)
  note loop = this
  have cmds: "holds (emits any) (?cmd ip)" for ip unfolding runWorkerCommand_def by (rule holds_outside) simp
  have f: "holds (emits any) (?f batch)" for batch unfolding runWorkerBatch_def
    by (intro em.bnd em.runParallelWorkers em.ret cmds)
  from sel obtain batch where batch: "batch \<in> set (chunks n ?sel)" "ip \<in> set batch"
    using concat_chunks [of n ?sel] by (metis UN_E set_concat)
  from dfor_each [OF loop batch(1) f] obtain t t' where t: "emits any s t" "?f batch t = (Inr (), t')" "emits any t' s'"
    unfolding succeeded_def by blast
  from t(2) obtain v where v: "runWorkerBatch w b job tg batch t = (Inr v, t')" by (auto elim: bnd_Ok_E)
  have "succeeded (?cmd ip) t t'" by (rule runParallelWorkers_each [OF v [unfolded runWorkerBatch_def] batch(2) cmds])
  then have "succeeded (?cmd ip) s s'" by (rule succeeded_within [OF t(1) _ t(3)])
  then obtain q q' where q: "emits any s q" "?cmd ip q = (Inr (), q')" "emits any q' s'" unfolding succeeded_def by blast
  have "answered w (\<lambda>ev. ev = WorkerCommand ip (control_context b job tg) []) q q'"
    using q(2) by (auto simp: runWorkerCommand_def outside_def answered_def split: if_splits intro!: exI [of _ "[]"])
  then show ?thesis by (rule answered_after [OF q(1) answered_before [OF _ q(3)]])
qed

lemma control_waves_reach:
  assumes run: "control_waves w b req (ParseFilters (cr_jobs req) (cr_workers req)) ns s = (Inr fs, s')"
    and plain: "plain_control c req" and ok: "catalog_ok c" and s: "ds_cat s = c"
    and job: "n \<in> set ns" "job \<in> set (selectJobs (GetJobsByDeploymentSeq c n) (parseCSV (cr_jobs req)))" "job \<notin> fst ` set fs"
  shows "ran c (controlJob w b req (parseCSV (cr_workers req)) job) s s'"
  using run s job(1,3)
proof (induction ns arbitrary: s fs)
  case (Cons m ns)
  let ?jobs = "selectJobs (GetJobsByDeploymentSeq c m) (parseCSV (cr_jobs req))" and ?wf = "parseCSV (cr_workers req)"
  from Cons.prems(1,2) obtain f1 t f2 where r1: "runJobsInParallel w b req ?wf ?jobs s = (Inr f1, t)"
    and r2: "control_waves w b req (ParseFilters (cr_jobs req) (cr_workers req)) ns t = (Inr f2, s')" and fs: "fs = f1 @ f2"
    by (auto simp: ParseFilters_def elim!: bnd_Ok_E)
  have f: "holds (at_cat c any) (controlJob w b req ?wf job)" if "job \<in> set ?jobs" for job
    by (rule any_scope [OF controlJob_scope [OF plain ok]]) (use that in \<open>simp add: set_selectJobs\<close>)
  have par: "holds (at_cat c any) (runJobsInParallel w b req ?wf ?jobs)"
    unfolding runJobsInParallel_def by (intro ac.if_act ac.ret ac_schedule control_jobs_holds f) simp
  from at_catD [OF par r1 Cons.prems(2)] have t: "ds_cat t = c" "emits any s t" by blast+
  have ts': "emits any t s'" using at_catD [OF any_scope [OF control_waves_scope [OF plain ok]] r2 t(1)] by blast
  show ?case
  proof (cases "m = n")
    case True
    then have j: "job \<in> set ?jobs" using job(2) by simp
    then have "?jobs \<noteq> []" by auto
    then have r: "control_jobs (controlJob w b req ?wf) (schedule w (ds_trace s) ?jobs) s = (Inr f1, t)"
      using r1 by (simp add: runJobsInParallel_def)
    define g where "g = (\<lambda>job. if job \<in> set ?jobs then controlJob w b req ?wf job else ret ())"
    have "control_jobs (controlJob w b req ?wf) xs = control_jobs g xs" if "set xs \<subseteq> set ?jobs" for xs
      using that by (induction xs) (simp_all add: g_def)
    with r have "control_jobs g (schedule w (ds_trace s) ?jobs) s = (Inr f1, t)" by (simp add: em.set_schedule)
    moreover have "holds (at_cat c any) (g job)" for job unfolding g_def using f by (auto intro: ac.ret)
    moreover have "job \<in> set (schedule w (ds_trace s) ?jobs)" "job \<notin> fst ` set f1" using j Cons.prems(4) fs by (auto simp: em.set_schedule)
    ultimately have "ran c (g job) s t" using Cons.prems(2) by (intro control_jobs_reach)
    then have "ran c (controlJob w b req ?wf job) s t" using j by (simp add: g_def)
    from ran_within [OF em.refl this ts'] show ?thesis .
  next
    case False
    then have "ran c (controlJob w b req ?wf job) t s'" using Cons.IH [OF r2 t(1)] Cons.prems(3,4) fs by auto
    from ran_within [OF t(2) this em.refl] show ?thesis .
  qed
qed simp

lemma seq_le_max: "a \<in> set (t_allocations c) \<Longrightarrow> a_seq a \<le> GetMaxDeploymentSeq c"
proof -
  assume a: "a \<in> set (t_allocations c)"
  have ge: "n \<le> foldl max n ns" "x \<in> set ns \<Longrightarrow> x \<le> foldl max n ns" for x n :: int and ns
    by (induction ns arbitrary: n) (auto intro: order_trans [of _ "max _ _"], (meson max.cobounded1 max.cobounded2 order_trans)+)
  have "a_seq a \<in> set (map a_seq (t_allocations c))" using a by simp
  then show ?thesis using ge by (auto simp: GetMaxDeploymentSeq_def split: list.split)
qed

text \<open>Property C15: manual control reaches exactly what was selected. When no job has \<open>job_control\<close> commands of its own
  and no health check is asked for (\<open>plain_control\<close>), a run sends nothing but the check of the workers and, for the jobs and workers that
  the filters let through, the target to their active allocations. Every such allocation of a job that is not
  reported as failed got the target and accepted it. Jobs with commands of their own are the subject of
  \<open>own_commands_ignore_the_worker_filter\<close> below.\<close>

theorem control_reaches_exactly_the_selected:
  assumes run: "runControl w req s = (Inr fs, s')" and ok: "catalog_ok (ds_cat s)" and plain: "plain_control (ds_cat s) req"
  shows "\<exists>b. GetBucketID (ds_cat s) = Inr b \<and> emits (control_event (ds_cat s) b req) s s' \<and>
    (\<forall>a \<in> set (t_allocations (ds_cat s)). \<not> a_removed a \<and> \<not> a_disabled a \<and> 0 \<le> a_seq a \<and>
       jobs_named (ds_cat s) (a_job a) \<noteq> [] \<and> (parseCSV (cr_jobs req) = [] \<or> a_job a \<in> set (parseCSV (cr_jobs req))) \<and>
       workerSelected (a_ip a) (parseCSV (cr_workers req)) \<and> a_job a \<notin> fst ` set fs \<longrightarrow>
       answered w (\<lambda>ev. ev = WorkerCommand (a_ip a) (control_context b (a_job a) (cr_target req)) []) s s')"
proof -
  let ?c = "ds_cat s" and ?f = "ParseFilters (cr_jobs req) (cr_workers req)"
  from run obtain b v1 t1 v2 t2 where b: "GetBucketID ?c = Inr b" and t1: "load_session s = (Inr v1, t1)"
    and t2: "ValidateBucketUpdateSeq w (GetWorkers (ds_cat t1) []) t1 = (Inr v2, t2)"
    and waves: "control_waves w b req ?f [0..GetMaxDeploymentSeq (ds_cat t2)] t2 = (Inr fs, s')"
    by (auto simp: runControl_def Let_def bnd_query elim!: bnd_Ok_E split: sum.splits)
  have c1: "ds_cat t1 = ?c" "emits P s t1" for P
    using holdsD [OF holds_persist(5) t1] holdsD [OF holds_persist(6) t1] by (simp_all add: same_cat_def)
  have "set (GetWorkers ?c []) \<subseteq> w_ip ` set (t_worker ?c)" by (auto simp: GetWorkers_def)
  from at_catD [OF sync_scope [OF this b] t2 [unfolded c1(1)] c1(1)]
  have c2: "ds_cat t2 = ?c" "emits (control_event ?c b req) t1 t2" by blast+
  from at_catD [OF control_waves_scope [OF plain ok] waves c2(1)]
  have c3: "emits (control_event ?c b req) t2 s'" by blast
  have "emits (control_event ?c b req) s s'" by (rule em.trans [OF em.trans [OF c1(2) c2(2)] c3])
  moreover have "answered w (\<lambda>ev. ev = WorkerCommand (a_ip a) (control_context b (a_job a) (cr_target req)) []) s s'"
    if a: "a \<in> set (t_allocations ?c)" "\<not> a_removed a" "\<not> a_disabled a" "0 \<le> a_seq a" "jobs_named ?c (a_job a) \<noteq> []"
      "parseCSV (cr_jobs req) = [] \<or> a_job a \<in> set (parseCSV (cr_jobs req))" "workerSelected (a_ip a) (parseCSV (cr_workers req))"
      "a_job a \<notin> fst ` set fs" for a
  proof -
    have n: "a_seq a \<in> set [0..GetMaxDeploymentSeq (ds_cat t2)]" using seq_le_max [OF a(1)] a(4) by (simp add: c2(1))
    have j: "a_job a \<in> set (selectJobs (GetJobsByDeploymentSeq ?c (a_seq a)) (parseCSV (cr_jobs req)))"
      using a(1,2,5,6) by (auto simp: set_selectJobs GetJobsByDeploymentSeq_def)
    from control_waves_reach [OF waves plain ok c2(1) n j a(8)]
    obtain t t' where t: "ds_cat t = ?c" "emits any t2 t" "controlJob w b req (parseCSV (cr_workers req)) (a_job a) t = (Inr (), t')"
      "emits any t' s'" unfolding ran_def by blast
    have ips: "GetActiveAllocations (ds_cat t) (a_job a) = Inr (map a_ip (filter (\<lambda>a. \<not> a_removed a \<and> \<not> a_disabled a) (allocs_of ?c (a_job a))))"
      by (simp only: t(1) GetActiveAllocations_Ok [OF ok])
    have ip: "a_ip a \<in> set (map a_ip (filter (\<lambda>a. \<not> a_removed a \<and> \<not> a_disabled a) (allocs_of ?c (a_job a))))"
      using a(1-3) by (auto simp: set_allocs_of)
    have "runRunnerTarget w b (a_job a) (cr_target req) False (parseCSV (cr_workers req)) t = (Inr (), t')"
      using t(3) controlJob_plain [of t req] plain by (simp add: t(1))
    from runRunnerTarget_reaches [OF this ips ip a(7)]
    have "answered w (\<lambda>ev. ev = WorkerCommand (a_ip a) (control_context b (a_job a) (cr_target req)) []) t t'" .
    then show ?thesis
      by (rule answered_after [OF em.trans [OF em.trans [OF c1(2) emits_any_any [OF c2(2)]] t(2)] answered_before [OF _ t(4)]])
  qed
  ultimately show ?thesis using b by blast
qed

section \<open>Witness\<close>

definition restart_all :: control_request where
  "restart_all = \<lparr>cr_jobs = [], cr_workers = '' w '', cr_target = ''restart'', cr_health_check = False\<rparr>"

definition refuses :: "string \<Rightarrow> event \<Rightarrow> bool" where
  "refuses job e \<longleftrightarrow> (case e of WorkerCommand _ cx _ \<Rightarrow> cc_job cx \<noteq> job | _ \<Rightarrow> True)"

lemma restart_all_runs: "fst (runControl (quiet_world (refuses ''d'')) restart_all (with_ca two_jobs)) = Inr [(''d'', ErrJoined)]"
  by code_simp

lemma control_reaches_exactly_the_selected_witness:
  "\<exists>s'. runControl (quiet_world (refuses ''d'')) restart_all (with_ca two_jobs) = (Inr [(''d'', ErrJoined)], s') \<and>
     answered (quiet_world (refuses ''d'')) (\<lambda>ev. ev = WorkerCommand ''w'' (control_context ''b'' ''a'' ''restart'') [])
       (with_ca two_jobs) s'"
proof -
  obtain s' where s': "runControl (quiet_world (refuses ''d'')) restart_all (with_ca two_jobs) = (Inr [(''d'', ErrJoined)], s')"
    using restart_all_runs by (metis prod.collapse)
  have cat: "ds_cat (with_ca two_jobs) = two_jobs" by (simp add: with_ca_def)
  have ok: "catalog_ok two_jobs" "GetBucketID two_jobs = Inr ''b''" "plain_alloc ''w'' ''a'' \<in> set (t_allocations two_jobs)"
    "jobs_named two_jobs ''a'' \<noteq> []" by code_simp+
  have plain: "plain_control two_jobs restart_all"
    by (simp add: plain_control_def restart_all_def two_jobs_def empty_catalog_def GetJobCommands_def)
  have sel: "parseCSV (cr_jobs restart_all) = []" "workerSelected ''w'' (parseCSV (cr_workers restart_all))"
    "cr_target restart_all = ''restart''" by code_simp+
  have a: "\<not> a_removed (plain_alloc ''w'' ''a'')" "\<not> a_disabled (plain_alloc ''w'' ''a'')" "0 \<le> a_seq (plain_alloc ''w'' ''a'')"
    "a_job (plain_alloc ''w'' ''a'') = ''a''" "a_ip (plain_alloc ''w'' ''a'') = ''w''" by (simp_all add: plain_alloc_def)
  from control_reaches_exactly_the_selected [OF s', unfolded cat, OF ok(1) plain, unfolded sel]
  show ?thesis using ok(2-4) sel(2) a s' by fastforce
qed

section \<open>Jobs with commands of their own\<close>

text \<open>Job \<open>a\<close> runs on two workers and has a \<open>job_control\<close> command. A restart that is limited to worker \<open>w\<close> runs the
  command on both workers, and \<open>runner.py\<close> on none.\<close>

definition own_control :: catalog where
  "own_control = empty_catalog\<lparr>t_bucket := [\<lparr>b_id = ''b'', b_update_seq = 4\<rparr>],
     t_worker := [plain_worker ''w'' 0, plain_worker ''v'' 1], t_job := [plain_job ''a''],
     t_job_files := [\<lparr>f_job_id = ''a'', f_path = ''a'', f_content = [], f_isdir = True\<rparr>,
       \<lparr>f_job_id = ''a'', f_path = ''a/_modules'', f_content = [], f_isdir = True\<rparr>,
       \<lparr>f_job_id = ''a'', f_path = ''a/_modules/ctl.py'', f_content = ''x'', f_isdir = False\<rparr>],
     t_job_commands := [\<lparr>q_job_id = ''a'', q_job = ''a'', q_name = ''ctl'', q_executed_on = ''job_control'',
       q_demand_job = [], q_demand_command = [], q_demand_config = []\<rparr>],
     t_allocations := [plain_alloc ''w'' ''a'', plain_alloc ''v'' ''a'']\<rparr>"

lemma own_commands_ignore_the_worker_filter:
  "let r = runControl ((quiet_world (\<lambda>_. True))\<lparr>wd_workspace := \<lambda>_. [''ctl.py'']\<rparr>) restart_all (with_ca own_control)
   in fst r = Inr [] \<and> concat (map (\<lambda>e. case e of JobScript q \<Rightarrow> [sr_ip q] | _ \<Rightarrow> []) (ds_trace (snd r))) = [''v'', ''w''] \<and>
      list_all (\<lambda>e. case e of WorkerCommand _ cx _ \<Rightarrow> cc_phase cx \<noteq> ''job_control'' | _ \<Rightarrow> True) (ds_trace (snd r))"
  by code_simp

end
