(* ===== verification/LogLines.thy ===== *)
theory LogLines
  imports Effects "HOL-Library.Multiset"
begin

text \<open>
  Log lines (\<open>bucket/log_format.go\<close>, \<open>bucket/log_context.go\<close>), their parser (\<open>logs/parse.go\<close>) and the viewer
  (\<open>logs/human.go\<close>, \<open>logs/show.go\<close>) on the lines of the files. A map of fields is an association list; the order
  of its entries is the order in which Go happens to iterate. JSON text, the layout of a time and a rounded
  number of seconds are parameters.
\<close>

type_synonym fields = "(string \<times> string) list"

abbreviation field_of :: "fields \<Rightarrow> string \<Rightarrow> string" where
  "field_of m k \<equiv> (case map_of m k of None \<Rightarrow> [] | Some v \<Rightarrow> v)"

section \<open>Writing (bucket/log_format.go)\<close>

datatype log_format = FormatKV | FormatJSON

definition parseLogFormat :: "string \<Rightarrow> log_format" where
  "parseLogFormat raw =
     (let r = to_lower (trim_space raw) in if r = ''json'' \<or> r = ''jsonl'' then FormatJSON else FormatKV)"

abbreviation backslash :: char where
  "backslash \<equiv> CHR 92"

abbreviation dquote :: char where
  "dquote \<equiv> CHR 34"

definition escape_quotes :: "string \<Rightarrow> string" where
  "escape_quotes v = concat (map (\<lambda>c. if c = dquote then [backslash, dquote] else [c]) v)"

definition needs_quotes :: "string \<Rightarrow> bool" where
  "needs_quotes v \<longleftrightarrow> CHR '' '' \<in> set v \<or> CHR 9 \<in> set v \<or> CHR ''='' \<in> set v \<or> dquote \<in> set v"

definition quoteKVValue :: "string \<Rightarrow> string" where
  "quoteKVValue v =
     (if v = [] then [dquote, dquote]
      else if \<not> needs_quotes v then v
      else [dquote] @ escape_quotes v @ [dquote])"

definition log_keys :: "string list" where
  "log_keys = [''ts'', ''level'', ''event'', ''run'', ''maand'', ''seq'', ''worker'', ''job'', ''phase'', ''action'',
     ''cmd'', ''stream'', ''exit'', ''duration_ms'', ''reason'', ''msg'']"

definition kv_part :: "string \<times> string \<Rightarrow> string" where
  "kv_part = (\<lambda>(k, v). k @ ''='' @ quoteKVValue v)"

text \<open>The known keys in their order, then the others as the map gives them; empty values are left out.\<close>

definition ordered_fields :: "fields \<Rightarrow> fields" where
  "ordered_fields m =
     filter (\<lambda>(k, v). v \<noteq> []) (map (\<lambda>k. (k, field_of m k)) log_keys) @
     filter (\<lambda>(k, v). v \<noteq> [] \<and> k \<notin> set log_keys) m"

definition formatKVLine :: "fields \<Rightarrow> string" where
  "formatKVLine m = join '' '' (map kv_part (ordered_fields m))"

datatype json_value = JString string | JNumber int | JBool bool | JOther string

definition json_payload :: "fields \<Rightarrow> (string \<times> json_value) list" where
  "json_payload m =
     map (\<lambda>(k, v). (k, if k \<in> {''seq'', ''exit'', ''duration_ms''}
                        then (case atoi v of Some n \<Rightarrow> JNumber n | None \<Rightarrow> JString v) else JString v))
       (filter (\<lambda>(k, v). v \<noteq> []) m)"

definition formatLogLine :: "((string \<times> json_value) list \<Rightarrow> string option) \<Rightarrow> log_format \<Rightarrow> fields \<Rightarrow> string" where
  "formatLogLine marshal fmt m =
     (case fmt of
        FormatKV \<Rightarrow> formatKVLine m
      | FormatJSON \<Rightarrow> (case marshal (json_payload m) of Some line \<Rightarrow> line | None \<Rightarrow> formatKVLine m))"

record run_context =
  rc_run :: string
  rc_cmd :: string
  rc_seq :: int

definition baseLogFields :: "string \<Rightarrow> run_context \<Rightarrow> string \<Rightarrow> fields" where
  "baseLogFields now run ip =
     [(''ts'', now), (''level'', ''INFO''), (''run'', rc_run run)] @
     (if rc_cmd run \<noteq> [] then [(''maand'', rc_cmd run)] else []) @
     (if rc_seq run > 0 then [(''seq'', itoa (rc_seq run))] else []) @
     [(''worker'', if ip \<noteq> [] then ip else ''-'')]"

definition commandContextFields :: "command_context \<Rightarrow> fields" where
  "commandContextFields cx =
     filter (\<lambda>(_, v). v \<noteq> []) [(''job'', cc_job cx), (''phase'', cc_phase cx), (''action'', cc_action cx), (''cmd'', cc_cmd cx)]"

text \<open>Assigning the entries of one map to another.\<close>

definition assign_all :: "fields \<Rightarrow> fields \<Rightarrow> fields" where
  "assign_all new m = foldl (\<lambda>m (k, v). AList.update k v m) m new"

definition formatCommandBegin :: "(fields \<Rightarrow> string) \<Rightarrow> string \<Rightarrow> run_context \<Rightarrow> string \<Rightarrow> command_context \<Rightarrow> string" where
  "formatCommandBegin line now run ip cx =
     line (assign_all ([(''event'', ''command_begin'')] @ commandContextFields cx) (baseLogFields now run ip))"

definition formatCommandEnd ::
  "(fields \<Rightarrow> string) \<Rightarrow> string \<Rightarrow> run_context \<Rightarrow> string \<Rightarrow> command_context \<Rightarrow> int \<Rightarrow> int \<Rightarrow> string" where
  "formatCommandEnd line now run ip cx exitCode durationMS =
     line (assign_all ([(''event'', ''command_end''), (''exit'', itoa exitCode), (''duration_ms'', itoa durationMS)] @
             commandContextFields cx) (baseLogFields now run ip))"

definition formatStreamLine ::
  "(fields \<Rightarrow> string) \<Rightarrow> string \<Rightarrow> run_context \<Rightarrow> string \<Rightarrow> command_context \<Rightarrow> string \<Rightarrow> string \<Rightarrow> string" where
  "formatStreamLine line now run ip cx stream text =
     line (assign_all ((if stream \<noteq> [] then [(''stream'', stream)] else []) @ [(''msg'', text)] @ commandContextFields cx)
       (baseLogFields now run ip))"

definition cliStreamTarget :: "string \<Rightarrow> string \<Rightarrow> string" where
  "cliStreamTarget ip job =
     (if ip \<noteq> [] \<and> ip \<noteq> ''-'' then (if job \<noteq> [] then job @ ''@'' @ ip else ip) else job)"

definition formatCLIStreamLine :: "string \<Rightarrow> command_context \<Rightarrow> string \<Rightarrow> string \<Rightarrow> string" where
  "formatCLIStreamLine ip cx stream text =
     (let delim = (if stream = ''stderr'' then ''! '' else ''| ''); prefix = cliStreamTarget ip (cc_job cx)
      in if prefix \<noteq> [] then prefix @ '' '' @ delim @ text else delim @ text)"

definition formatEventLine :: "(fields \<Rightarrow> string) \<Rightarrow> string \<Rightarrow> run_context \<Rightarrow> string \<Rightarrow> string \<Rightarrow> fields \<Rightarrow> string" where
  "formatEventLine line now run ip event extra =
     line (assign_all ([(''event'', event)] @ filter (\<lambda>(_, v). v \<noteq> []) extra) (baseLogFields now run ip))"

definition workerLogFileName :: "string \<Rightarrow> string" where
  "workerLogFileName ip = (if ip \<noteq> [] then ip @ ''.log'' else ''maand.log'')"

section \<open>Summaries of commands (bucket/log_context.go)\<close>

fun words_from :: "string \<Rightarrow> string \<Rightarrow> string list" where
  "words_from w [] = (if w = [] then [] else [w])"
| "words_from w (c # s) =
     (if go_space c then (if w = [] then words_from [] s else w # words_from [] s) else words_from (w @ [c]) s)"

definition truncateCommandSummary :: "string \<Rightarrow> string" where
  "truncateCommandSummary summary0 =
     (let summary = join '' '' (words_from [] summary0)
      in if length summary \<le> 200 then summary else take 197 summary @ ''...'')"

definition SummarizeCommands :: "string list \<Rightarrow> string" where
  "SummarizeCommands commands =
     (case commands of [] \<Rightarrow> [] | [c] \<Rightarrow> truncateCommandSummary c | _ \<Rightarrow> truncateCommandSummary (join '' && '' commands))"

text \<open>A process to run: its path and its arguments.\<close>

definition SummarizeExecCmd :: "(string \<times> string list) option \<Rightarrow> string" where
  "SummarizeExecCmd cmd =
     (case cmd of None \<Rightarrow> []
      | Some (path, args) \<Rightarrow> truncateCommandSummary (join '' '' ((if path \<noteq> [] then [path] else []) @ args)))"

definition withDefaults :: "command_context \<Rightarrow> (string \<times> string list) option \<Rightarrow> string list \<Rightarrow> command_context" where
  "withDefaults cx cmd commands =
     (let cx1 = (if cc_cmd cx = [] then cx\<lparr>cc_cmd := (if cmd \<noteq> None then SummarizeExecCmd cmd else SummarizeCommands commands)\<rparr>
                 else cx)
      in case cmd of
           Some (_, a # _) \<Rightarrow> if cc_action cx1 = [] then cx1\<lparr>cc_action := a\<rparr> else cx1
         | _ \<Rightarrow> cx1)"

section \<open>Parsing (logs/parse.go)\<close>

record log_entry =
  le_raw :: string
  le_fields :: fields

fun read_quoted :: "bool \<Rightarrow> string \<Rightarrow> string \<Rightarrow> string \<times> string" where
  "read_quoted escaped b [] = (b, [])"
| "read_quoted escaped b (ch # s) =
     (if escaped then read_quoted False (b @ [ch]) s
      else if ch = backslash then read_quoted True b s
      else if ch = dquote then (b, trim_space s)
      else read_quoted False (b @ [ch]) s)"

definition readKVValue :: "string \<Rightarrow> string \<times> string" where
  "readKVValue line =
     (case line of
        [] \<Rightarrow> ([], [])
      | ch # s \<Rightarrow>
          if ch = dquote then read_quoted False [] s
          else if CHR '' '' \<in> set line then
            (takeWhile (\<lambda>c. c \<noteq> CHR '' '') line, tl (dropWhile (\<lambda>c. c \<noteq> CHR '' '') line))
          else (line, []))"

lemma length_trim_space: "length (trim_space s) \<le> length s"
  unfolding trim_space_def trim_left_def
  by (metis (no_types, lifting) length_dropWhile_le length_rev order_trans)

lemma length_read_quoted: "length (snd (read_quoted e b s)) \<le> length s"
  by (induction e b s rule: read_quoted.induct) (auto intro: le_SucI order_trans [OF length_trim_space])

lemma length_readKVValue: "length (snd (readKVValue s)) \<le> length s"
proof (cases s)
  case (Cons ch t)
  have "length (tl (dropWhile (\<lambda>c. c \<noteq> CHR '' '') s)) \<le> length s"
    using length_dropWhile_le [of "\<lambda>c. c \<noteq> CHR '' ''" s] by simp
  then show ?thesis using length_read_quoted [of False "[]" t] Cons by (auto simp: readKVValue_def)
qed (simp add: readKVValue_def)

lemma rest_shorter:
  assumes "CHR ''='' \<in> set line" and "(v, r) = readKVValue (drop (n + 1) line)"
  shows "length (trim_space r) < length line"
proof -
  have "length (trim_space r) \<le> length (drop (n + 1) line)"
    using length_trim_space [of r] length_readKVValue [of "drop (n + 1) line"] assms(2) by (metis order_trans snd_conv)
  also have "\<dots> < length line" using assms(1) by (cases line) simp_all
  finally show ?thesis .
qed

text \<open>The loop of \<open>parseKVLine\<close>: it stops at a line without \<open>=\<close> or with one at its start.\<close>

function parse_kv :: "fields \<Rightarrow> string \<Rightarrow> fields" where
  "parse_kv m line =
     (let key = takeWhile (\<lambda>c. c \<noteq> CHR ''='') line
      in if CHR ''='' \<notin> set line \<or> key = [] then m
         else (case readKVValue (drop (length key + 1) line) of
                 (value, rest) \<Rightarrow> parse_kv (AList.update key value m) (trim_space rest)))"
  by auto
termination
  by (relation "measure (\<lambda>(m, line). length line)") (auto intro: rest_shorter)

declare parse_kv.simps [simp del]

definition json_text :: "json_value \<Rightarrow> string" where
  "json_text v = (case v of JString s \<Rightarrow> s | JNumber n \<Rightarrow> itoa n | JBool b \<Rightarrow> (if b then ''true'' else ''false'') | JOther s \<Rightarrow> s)"

definition parseJSONLine :: "(string \<Rightarrow> (string \<times> json_value) list option) \<Rightarrow> string \<Rightarrow> log_entry" where
  "parseJSONLine unmarshal line =
     \<lparr>le_raw = line,
      le_fields = (case unmarshal line of None \<Rightarrow> parse_kv [] line | Some p \<Rightarrow> map (\<lambda>(k, v). (k, json_text v)) p)\<rparr>"

definition ParseLine :: "(string \<Rightarrow> (string \<times> json_value) list option) \<Rightarrow> string \<Rightarrow> log_entry" where
  "ParseLine unmarshal line0 =
     (let line = trim_space line0
      in if line = [] then \<lparr>le_raw = line, le_fields = []\<rparr>
         else if has_prefix ''{'' line then parseJSONLine unmarshal line
         else if has_prefix ''| '' line \<or> has_prefix ''! '' line then
           \<lparr>le_raw = line, le_fields =
              [(''stream'', if has_prefix ''! '' line then ''stderr'' else ''stdout''), (''msg'', drop 2 line)]\<rparr>
         else \<lparr>le_raw = line, le_fields = parse_kv [] line\<rparr>)"

definition log_field :: "log_entry \<Rightarrow> string \<Rightarrow> string" where
  "log_field e k = field_of (le_fields e) k"

definition shortRunID :: "string \<Rightarrow> string" where
  "shortRunID r = (if length r \<le> 8 then r else take 8 r)"

section \<open>Reading back what was written\<close>

definition key_ok :: "string \<Rightarrow> bool" where
  "key_ok k \<longleftrightarrow> k \<noteq> [] \<and> CHR ''='' \<notin> set k \<and> list_all (\<lambda>c. \<not> go_space c) k \<and> hd k \<noteq> CHR ''{''"

definition value_ok :: "string \<Rightarrow> bool" where
  "value_ok v \<longleftrightarrow> list_all (\<lambda>c. go_space c \<longrightarrow> c = CHR '' '' \<or> c = CHR 9) v \<and> (needs_quotes v \<longrightarrow> backslash \<notin> set v)"

lemma space_chars: "go_space (CHR '' '')" "\<not> go_space (CHR ''='')" "\<not> go_space dquote"
  by code_simp+

lemma trim_space_Cons: "trim_space (CHR '' '' # t) = trim_space t"
  by (simp add: trim_space_def trim_left_def space_chars)

lemma trim_space_Nil: "trim_space [] = []"
  by (simp add: trim_space_def trim_left_def)

lemma read_quoted_escape:
  "backslash \<notin> set v \<Longrightarrow> read_quoted False b (escape_quotes v @ dquote # s) = (b @ v, trim_space s)"
  by (induction v arbitrary: b) (auto simp: escape_quotes_def)

lemma readKVValue_quote:
  assumes v: "v \<noteq> []" "value_ok v" and tail: "tail = [] \<and> t = [] \<or> tail = CHR '' '' # t"
  shows "\<exists>r. readKVValue (quoteKVValue v @ tail) = (v, r) \<and> trim_space r = trim_space t"
proof (cases "needs_quotes v")
  case True
  then have "readKVValue (quoteKVValue v @ tail) = (v, trim_space tail)"
    using v read_quoted_escape [of v "[]" tail] by (simp add: readKVValue_def quoteKVValue_def value_ok_def)
  moreover have "trim_space (trim_space tail) = trim_space t" using tail by (auto simp: trim_space_Cons)
  ultimately show ?thesis by blast
next
  case False
  then have no: "CHR '' '' \<notin> set v" "dquote \<notin> set v" and q: "quoteKVValue v = v"
    using v(1) by (auto simp: needs_quotes_def quoteKVValue_def)
  obtain c u where c: "v = c # u" using v(1) by (cases v) auto
  have free: "takeWhile (\<lambda>x. x \<noteq> CHR '' '') (v @ CHR '' '' # t) = v" "dropWhile (\<lambda>x. x \<noteq> CHR '' '') (v @ CHR '' '' # t) = CHR '' '' # t"
    using no(1) by (induction v) auto
  show ?thesis using tail
  proof
    assume "tail = [] \<and> t = []"
    moreover have "readKVValue v = (v, [])" using no by (auto simp: readKVValue_def c)
    ultimately show ?thesis by (simp add: q)
  next
    assume s: "tail = CHR '' '' # t"
    have "readKVValue (v @ tail) = (v, t)"
      using no(2) free unfolding s by (auto simp: readKVValue_def c)
    then show ?thesis by (simp add: q)
  qed
qed

lemma last_quote:
  assumes "v \<noteq> []" "value_ok v"
  shows "quoteKVValue v \<noteq> []" and "\<not> go_space (last (quoteKVValue v))"
proof -
  show "quoteKVValue v \<noteq> []" using assms(1) by (simp add: quoteKVValue_def)
  show "\<not> go_space (last (quoteKVValue v))"
  proof (cases "needs_quotes v")
    case False
    then have "last v \<in> set v" "CHR '' '' \<notin> set v" "CHR 9 \<notin> set v" using assms(1) by (auto simp: needs_quotes_def)
    then have "\<not> go_space (last v)" using assms(2) by (auto simp: value_ok_def list_all_iff)
    then show ?thesis using False assms(1) by (simp add: quoteKVValue_def)
  qed (simp add: quoteKVValue_def space_chars assms(1))
qed

abbreviation pair_ok :: "string \<times> string \<Rightarrow> bool" where
  "pair_ok \<equiv> \<lambda>(k, v). key_ok k \<and> v \<noteq> [] \<and> value_ok v"

abbreviation line_of :: "fields \<Rightarrow> string" where
  "line_of fs \<equiv> join '' '' (map kv_part fs)"

lemma line_ends:
  "fs \<noteq> [] \<Longrightarrow> list_all pair_ok fs \<Longrightarrow>
   line_of fs \<noteq> [] \<and> hd (line_of fs) = hd (fst (hd fs)) \<and> \<not> go_space (hd (line_of fs)) \<and> \<not> go_space (last (line_of fs))"
proof (induction fs)
  case (Cons p fs)
  obtain k v where p: "p = (k, v)" by (cases p)
  with Cons.prems have k: "k \<noteq> []" "\<not> go_space (hd k)" and v: "v \<noteq> []" "value_ok v" by (auto simp: key_ok_def list_all_iff)
  have part: "kv_part (k, v) = k @ ''='' @ quoteKVValue v" by (simp add: kv_part_def)
  show ?case
  proof (cases fs)
    case Nil
    then show ?thesis using k last_quote [OF v] by (simp add: part p)
  next
    case (Cons q fs')
    then show ?thesis using Cons.IH Cons.prems k by (auto simp: part p)
  qed
qed simp

lemma parse_kv_line:
  "list_all pair_ok fs \<Longrightarrow> parse_kv m (line_of fs) = foldl (\<lambda>m (k, v). AList.update k v m) m fs"
proof (induction fs arbitrary: m)
  case Nil
  then show ?case by (simp add: parse_kv.simps)
next
  case (Cons p fs)
  obtain k v where p: "p = (k, v)" by (cases p)
  with Cons.prems have k: "k \<noteq> []" "CHR ''='' \<notin> set k" and v: "v \<noteq> []" "value_ok v" by (auto simp: key_ok_def)
  define tail where "tail = (if fs = [] then [] else CHR '' '' # line_of fs)"
  have line: "line_of (p # fs) = k @ CHR ''='' # quoteKVValue v @ tail"
    by (cases fs) (simp_all add: tail_def p kv_part_def)
  have key: "takeWhile (\<lambda>c. c \<noteq> CHR ''='') (k @ CHR ''='' # x) = k" for x using k(2) by (induction k) auto
  have "tail = [] \<and> line_of fs = [] \<or> tail = CHR '' '' # line_of fs" by (auto simp: tail_def)
  from readKVValue_quote [OF v this] obtain r where r: "readKVValue (quoteKVValue v @ tail) = (v, r)" "trim_space r = trim_space (line_of fs)"
    by blast
  have "trim_space (line_of fs) = line_of fs"
    using line_ends [of fs] Cons.prems by (cases "fs = []") (auto simp: trim_space_Nil intro: trim_space_id)
  with r have "parse_kv m (line_of (p # fs)) = parse_kv (AList.update k v m) (line_of fs)"
    unfolding line by (subst parse_kv.simps) (simp add: key k(1) Let_def)
  then show ?case using Cons by (simp add: p)
qed

lemma map_of_assigned:
  "distinct (map fst fs) \<Longrightarrow> map_of (foldl (\<lambda>m (k, v). AList.update k v m) m fs) k =
    (case map_of fs k of Some v \<Rightarrow> Some v | None \<Rightarrow> map_of m k)"
proof (induction fs arbitrary: m)
  case (Cons p fs)
  obtain k' v' where p: "p = (k', v')" by (cases p)
  with Cons.prems have "map_of fs k' = None" "distinct (map fst fs)" by (simp_all add: map_of_eq_None_iff)
  with Cons.IH show ?case by (auto simp: p update_conv' split: option.split)
qed simp

lemma ordered_fields_distinct: "distinct (map fst m) \<Longrightarrow> distinct (map fst (ordered_fields m))"
proof -
  assume d: "distinct (map fst m)"
  have "distinct log_keys" by code_simp
  then have "distinct (map fst (filter (\<lambda>(k, v). v \<noteq> []) (map (\<lambda>k. (k, field_of m k)) log_keys)))"
    by (intro distinct_map_filter) (simp add: comp_def)
  moreover have "distinct (map fst (filter (\<lambda>(k, v). v \<noteq> [] \<and> k \<notin> set log_keys) m))" using d by (rule distinct_map_filter)
  ultimately show ?thesis by (auto simp: ordered_fields_def)
qed

lemma set_ordered_fields: "distinct (map fst m) \<Longrightarrow> set (ordered_fields m) = {(k, v) \<in> set m. v \<noteq> []}"
  by (auto simp: ordered_fields_def split: option.splits dest: map_of_SomeD)

text \<open>Property C29: a log line without awkward characters can be read back. For any fields with plain keys (not empty, no
  space and no equals sign, no opening brace in front) whose values have no white space but blanks and tabs, and no
  backslash where quotes are needed, parsing the line gives every non-empty field its value again and nothing
  else, whatever other fields the line has and in whatever order they come. A backslash in a quoted value is lost, see
  \<open>backslash_is_lost\<close> below.\<close>

theorem log_line_roundtrip:
  assumes d: "distinct (map fst m)" and ok: "list_all (\<lambda>(k, v). key_ok k \<and> value_ok v) m"
  shows "map_of (le_fields (ParseLine unmarshal (formatKVLine m))) k =
    (case map_of m k of None \<Rightarrow> None | Some v \<Rightarrow> if v = [] then None else Some v)"
proof -
  let ?fs = "ordered_fields m"
  have all: "list_all pair_ok ?fs" using ok by (auto simp: list_all_iff set_ordered_fields [OF d])
  have "map_of ?fs k = (case map_of m k of None \<Rightarrow> None | Some v \<Rightarrow> if v = [] then None else Some v)"
  proof (cases "map_of ?fs k")
    case None
    then have "k \<notin> fst ` set ?fs" by (simp add: map_of_eq_None_iff)
    then have "v = []" if "map_of m k = Some v" for v
      using map_of_SomeD [OF that] unfolding set_ordered_fields [OF d] by force
    then show ?thesis unfolding None by (auto split: option.split)
  next
    case (Some v)
    from map_of_SomeD [OF Some] have "(k, v) \<in> set m" "v \<noteq> []" by (auto simp: set_ordered_fields [OF d])
    then show ?thesis using Some d by simp
  qed
  moreover have "le_fields (ParseLine unmarshal (formatKVLine m)) = foldl (\<lambda>m (k, v). AList.update k v m) [] ?fs"
  proof (cases "?fs = []")
    case True
    then show ?thesis by (simp add: ParseLine_def formatKVLine_def trim_space_Nil)
  next
    case False
    note e = line_ends [OF False all]
    then have t: "trim_space (line_of ?fs) = line_of ?fs" by (intro trim_space_id) blast
    obtain k0 v0 fs where fs: "?fs = (k0, v0) # fs" using False by (cases ?fs) auto
    with all have k0: "key_ok k0" by simp
    obtain x where x: "line_of ?fs = k0 @ ''='' @ x" unfolding fs by (cases fs) (simp_all add: kv_part_def)
    have "\<not> has_prefix ''{'' (line_of ?fs)" using k0 unfolding x by (cases k0) (auto simp: has_prefix_def key_ok_def)
    moreover have "\<not> has_prefix [c, CHR '' ''] (line_of ?fs)" for c
      using k0 space_chars unfolding x by (cases k0; cases "tl k0") (auto simp: has_prefix_def key_ok_def)
    ultimately show ?thesis using e by (simp add: ParseLine_def formatKVLine_def t parse_kv_line [OF all])
  qed
  ultimately show ?thesis by (simp add: map_of_assigned [OF ordered_fields_distinct [OF d]] split: option.split)
qed

section \<open>Witness\<close>

definition sample_fields :: fields where
  "sample_fields = [(''msg'', ''say '' @ [dquote] @ ''a=b'' @ [dquote]), (''ts'', ''t''), (''job'', []), (''other'', ''C:'' @ [backslash])]"

lemma log_line_roundtrip_witness:
  "map_of (le_fields (ParseLine (\<lambda>_. None) (formatKVLine sample_fields))) ''msg'' = Some (''say '' @ [dquote] @ ''a=b'' @ [dquote]) \<and>
   map_of (le_fields (ParseLine (\<lambda>_. None) (formatKVLine sample_fields))) ''job'' = None"
proof -
  have "distinct (map fst sample_fields)" "list_all (\<lambda>(k, v). key_ok k \<and> value_ok v) sample_fields" by code_simp+
  from log_line_roundtrip [OF this, of "\<lambda>_. None"] show ?thesis by (simp add: sample_fields_def)
qed

text \<open>Quotes are escaped and backslashes are not, but the parser takes both as escaped: a backslash in a quoted value
  is lost, and one at its end takes the rest of the line into the value.\<close>

lemma backslash_is_lost:
  "map_of (le_fields (ParseLine (\<lambda>_. None) (formatKVLine [(''cmd'', ''find {} '' @ [backslash] @ '';'')]))) ''cmd'' =
     Some ''find {} ;''"
  "le_fields (ParseLine (\<lambda>_. None) (formatKVLine [(''cmd'', ''a '' @ [backslash]), (''exit'', ''1'')])) =
     [(''cmd'', ''a '' @ [dquote] @ '' exit=1'')]"
  by code_simp+

text \<open>A number field loses leading zeros on its way through JSON.\<close>

lemma json_numbers: "map (\<lambda>(k, v). (k, json_text v)) (json_payload [(''seq'', ''007''), (''run'', ''007'')]) = [(''seq'', ''7''), (''run'', ''007'')]"
  by code_simp

end
