(* ===== verification/LogView.thy ===== *)
theory LogView
  imports LogLines
begin

text \<open>
  The log viewer (\<open>logs/human.go\<close>, \<open>logs/show.go\<close>): lines are parsed, grouped into the commands they belong to,
  filtered, ordered and printed. The lines of a file and the names in a directory are parameters, as are the
  layout of a time and of a number of seconds.
\<close>

section \<open>Blocks (logs/human.go)\<close>

record command_block =
  cb_begin :: log_entry
  cb_streams :: "log_entry list"
  cb_end :: "log_entry option"

text \<open>The blocks, the events and the open block of the loop of \<open>groupEntries\<close>.\<close>

type_synonym grouping = "command_block list \<times> log_entry list \<times> command_block option"

definition flush_block :: "command_block list \<Rightarrow> command_block option \<Rightarrow> command_block list" where
  "flush_block blocks current = (case current of None \<Rightarrow> blocks | Some b \<Rightarrow> blocks @ [b])"

definition group_entry :: "grouping \<Rightarrow> log_entry \<Rightarrow> grouping" where
  "group_entry g entry =
     (case g of (blocks, events, current) \<Rightarrow>
        let event = log_field entry ''event''
        in if event = ''command_begin'' then
             (flush_block blocks current, events, Some \<lparr>cb_begin = entry, cb_streams = [], cb_end = None\<rparr>)
           else if event = ''command_end'' then
             (case current of
                Some b \<Rightarrow> (blocks @ [b\<lparr>cb_end := Some entry\<rparr>], events, None)
              | None \<Rightarrow> (blocks, events @ [entry], None))
           else if event = [] then
             (case current of
                Some b \<Rightarrow>
                  if log_field entry ''msg'' \<noteq> [] \<or> log_field entry ''stream'' \<noteq> [] then
                    (blocks, events, Some (b\<lparr>cb_streams := cb_streams b @ [entry]\<rparr>))
                  else (blocks, if le_raw entry \<noteq> [] then events @ [entry] else events, current)
              | None \<Rightarrow> (blocks, if le_raw entry \<noteq> [] then events @ [entry] else events, current))
           else (flush_block blocks current, events @ [entry], None))"

definition groupEntries :: "log_entry list \<Rightarrow> command_block list \<times> log_entry list" where
  "groupEntries entries =
     (case foldl group_entry ([], [], None) entries of (blocks, events, current) \<Rightarrow> (flush_block blocks current, events))"

section \<open>Filters\<close>

record show_options =
  so_worker :: string
  so_run :: string
  so_job :: string
  so_phase :: string
  so_event :: string
  so_tail :: int
  so_format :: string

definition fieldMatches :: "string \<Rightarrow> string \<Rightarrow> bool" where
  "fieldMatches value want \<longleftrightarrow>
     value \<noteq> [] \<and> (value = want \<or> has_prefix want value \<or>
       list_ex (\<lambda>part. let p = trim_space part in p = want \<or> has_prefix want p) (split_char CHR '','' value))"

definition entryMatchesFilters :: "log_entry \<Rightarrow> show_options \<Rightarrow> bool" where
  "entryMatchesFilters e opts \<longleftrightarrow>
     (so_run opts \<noteq> [] \<longrightarrow> fieldMatches (log_field e ''run'') (so_run opts)) \<and>
     (so_worker opts \<noteq> [] \<longrightarrow> fieldMatches (log_field e ''worker'') (so_worker opts)) \<and>
     (so_job opts \<noteq> [] \<longrightarrow> fieldMatches (log_field e ''job'') (so_job opts)) \<and>
     (so_phase opts \<noteq> [] \<longrightarrow> log_field e ''phase'' = so_phase opts) \<and>
     (so_event opts \<noteq> [] \<longrightarrow> log_field e ''event'' = so_event opts)"

definition blockMatchesFilters :: "command_block \<Rightarrow> show_options \<Rightarrow> bool" where
  "blockMatchesFilters b opts \<longleftrightarrow> entryMatchesFilters (cb_begin b) opts"

definition payloadLineMatchesOpenContext :: "show_options \<Rightarrow> bool" where
  "payloadLineMatchesOpenContext opts \<longleftrightarrow>
     so_event opts = [] \<and> so_run opts = [] \<and> so_worker opts = [] \<and> so_job opts = [] \<and> so_phase opts = []"

type_synonym json_decoder = "string \<Rightarrow> (string \<times> json_value) list option"

definition matchesLine :: "json_decoder \<Rightarrow> string \<Rightarrow> show_options \<Rightarrow> bool" where
  "matchesLine dec line opts =
     (let e = ParseLine dec line
      in if log_field e ''stream'' \<noteq> [] \<and> log_field e ''event'' = [] \<and> log_field e ''ts'' = []
         then payloadLineMatchesOpenContext opts else entryMatchesFilters e opts)"

definition containsField :: "json_decoder \<Rightarrow> string \<Rightarrow> string \<Rightarrow> string \<Rightarrow> bool" where
  "containsField dec line k want \<longleftrightarrow> fieldMatches (log_field (ParseLine dec line) k) want"

section \<open>Printing (logs/human.go)\<close>

record layout =
  ly_time :: "string \<Rightarrow> string option"
  ly_seconds :: "int \<Rightarrow> string"

definition formatHumanTime :: "layout \<Rightarrow> string \<Rightarrow> string" where
  "formatHumanTime ly raw = (if raw = [] then [] else case ly_time ly raw of None \<Rightarrow> raw | Some t \<Rightarrow> t)"

definition formatHumanDuration :: "layout \<Rightarrow> string \<Rightarrow> string" where
  "formatHumanDuration ly durationMS =
     (case atoi durationMS of
        None \<Rightarrow> durationMS @ ''ms''
      | Some ms \<Rightarrow> if ms < 1000 then itoa ms @ ''ms'' else ly_seconds ly ms @ ''s'')"

definition humanHeader :: "layout \<Rightarrow> log_entry \<Rightarrow> string" where
  "humanHeader ly e =
     (let ts = formatHumanTime ly (log_field e ''ts''); maand = log_field e ''maand''; s = log_field e ''seq''; run = log_field e ''run''
      in join ''  '' ((if ts \<noteq> [] then [ts] else []) @ (if maand \<noteq> [] then [maand] else []) @
           (if s \<noteq> [] then [''seq='' @ s] else []) @ (if run \<noteq> [] then [''run='' @ shortRunID run] else [])))"

definition humanTarget :: "log_entry \<Rightarrow> string" where
  "humanTarget e = cliStreamTarget (log_field e ''worker'') (log_field e ''job'')"

definition humanStreamTarget :: "log_entry \<Rightarrow> log_entry \<Rightarrow> string" where
  "humanStreamTarget stream start = (let t = humanTarget stream in if t \<noteq> [] then t else humanTarget start)"

definition humanCommandSubheader :: "log_entry \<Rightarrow> string" where
  "humanCommandSubheader e =
     join ''  '' (filter (\<lambda>p. p \<noteq> []) [log_field e ''phase'', log_field e ''action'', humanTarget e])"

definition humanEventDetail :: "log_entry \<Rightarrow> string" where
  "humanEventDetail e =
     (let event = log_field e ''event''; job = log_field e ''job''; reason = log_field e ''reason''; worker = log_field e ''worker''
      in if event = ''deploy_skip'' \<or> event = ''reconcile_skip_stop'' then
           join ''  '' ([event] @ (if job \<noteq> [] then [''job='' @ job] else []) @
             (if reason \<noteq> [] then [''reason='' @ reason] else []) @
             (if worker \<noteq> [] \<and> worker \<noteq> ''-'' then [''worker='' @ worker] else []))
         else if log_field e ''msg'' \<noteq> [] then log_field e ''msg'' else event)"

definition humanCommandFooter :: "layout \<Rightarrow> log_entry \<Rightarrow> string" where
  "humanCommandFooter ly e =
     (let exit = log_field e ''exit''; duration = log_field e ''duration_ms''
      in join ''  '' ([if exit \<noteq> [] \<and> exit \<noteq> ''0'' then ''FAIL'' else ''ok''] @ (if exit \<noteq> [] then [''exit='' @ exit] else []) @
           (if duration \<noteq> [] then [formatHumanDuration ly duration] else [])))"

abbreviation newline :: string where
  "newline \<equiv> [CHR 10]"

definition humanEvent :: "layout \<Rightarrow> log_entry \<Rightarrow> string" where
  "humanEvent ly e =
     (let header = humanHeader ly e; detail = humanEventDetail e
      in if header = [] \<and> detail = [] then []
         else (if header \<noteq> [] then header @ newline else []) @
              (if detail \<noteq> [] then ''  '' @ detail @ newline else []) @ newline)"

definition humanStream :: "log_entry \<Rightarrow> log_entry \<Rightarrow> string" where
  "humanStream start stream =
     (let msg = log_field stream ''msg''; target = humanStreamTarget stream start
      in if msg = [] then []
         else ''  '' @ (if target \<noteq> [] then target @ '' '' else []) @
              (if log_field stream ''stream'' = ''stderr'' then ''! '' else ''| '') @ msg @ newline)"

definition humanBlock :: "layout \<Rightarrow> command_block \<Rightarrow> string" where
  "humanBlock ly b =
     (let header = humanHeader ly (cb_begin b); sub = humanCommandSubheader (cb_begin b); cmd = log_field (cb_begin b) ''cmd''
      in (if header \<noteq> [] then header @ newline else []) @
         (if sub \<noteq> [] then ''  '' @ sub @ newline else []) @
         (if cmd \<noteq> [] then ''  $ '' @ cmd @ newline else []) @
         concat (map (humanStream (cb_begin b)) (cb_streams b)) @
         (case cb_end b of None \<Rightarrow> [] | Some e \<Rightarrow> ''  '' @ humanCommandFooter ly e @ newline) @ newline)"

definition RenderHuman :: "layout \<Rightarrow> command_block list \<Rightarrow> log_entry list \<Rightarrow> string" where
  "RenderHuman ly blocks events =
     rev (dropWhile (\<lambda>c. c = CHR 10) (rev (concat (map (humanEvent ly) events) @ concat (map (humanBlock ly) blocks))))"

section \<open>Showing (logs/show.go)\<close>

definition readAllEntries :: "json_decoder \<Rightarrow> string list \<Rightarrow> log_entry list" where
  "readAllEntries dec lines = map (ParseLine dec) (filter (\<lambda>line. trim_space line \<noteq> []) lines)"

definition last_n :: "int \<Rightarrow> 'a list \<Rightarrow> 'a list" where
  "last_n n xs = (if n > 0 \<and> int (length xs) > n then drop (length xs - nat n) xs else xs)"

definition showRaw :: "json_decoder \<Rightarrow> string list list \<Rightarrow> show_options \<Rightarrow> string list" where
  "showRaw dec files opts = last_n (so_tail opts) (concat (map (filter (\<lambda>line. matchesLine dec line opts)) files))"

definition by_time :: "('a \<Rightarrow> log_entry) \<Rightarrow> 'a \<Rightarrow> 'a \<Rightarrow> bool" where
  "by_time f a b \<longleftrightarrow> string_le (log_field (f a) ''ts'') (log_field (f b) ''ts'')"

definition showHuman :: "layout \<Rightarrow> json_decoder \<Rightarrow> string list list \<Rightarrow> show_options \<Rightarrow> string" where
  "showHuman ly dec files opts =
     (let groups = map (\<lambda>lines. groupEntries (readAllEntries dec lines)) files;
          blocks = sort_by (by_time cb_begin) (filter (\<lambda>b. blockMatchesFilters b opts) (concat (map fst groups)));
          events = sort_by (by_time id) (filter (\<lambda>e. entryMatchesFilters e opts) (concat (map snd groups)))
      in RenderHuman ly (last_n (so_tail opts) blocks) (last_n (so_tail opts) events))"

text \<open>The names in a directory with a flag for directories.\<close>

definition listLogFiles :: "(string \<Rightarrow> (string \<times> bool) list) \<Rightarrow> string \<Rightarrow> string list" where
  "listLogFiles ls dir =
     sort_strings (map (\<lambda>(n, _). dir @ ''/'' @ n) (filter (\<lambda>(n, isdir). \<not> isdir \<and> has_suffix ''.log'' n) (ls dir)))"

definition logPaths :: "(string \<Rightarrow> (string \<times> bool) list) \<Rightarrow> string \<Rightarrow> string \<Rightarrow> show_options \<Rightarrow> string list" where
  "logPaths ls logDir runDir opts =
     (if so_run opts \<noteq> [] then
        (if so_worker opts \<noteq> [] then [runDir @ ''/'' @ so_run opts @ ''/'' @ so_worker opts @ ''.log'']
         else listLogFiles ls (runDir @ ''/'' @ so_run opts))
      else if so_worker opts \<noteq> [] then [logDir @ ''/'' @ so_worker opts @ ''.log'']
      else listLogFiles ls logDir)"

text \<open>The lines that are printed; no file is an error.\<close>

definition showLog ::
  "layout \<Rightarrow> json_decoder \<Rightarrow> (string \<Rightarrow> (string \<times> bool) list) \<Rightarrow> (string \<Rightarrow> string list) \<Rightarrow> string \<Rightarrow> string \<Rightarrow>
   show_options \<Rightarrow> error + string list" where
  "showLog ly dec ls content logDir runDir opts =
     (let paths = logPaths ls logDir runDir opts; format = to_lower (trim_space (so_format opts))
      in if paths = [] then Err ErrNotFound
         else if format = ''human'' \<or> format = ''h''
              then (let out = showHuman ly dec (map content paths) opts in Ok (if out \<noteq> [] then [out] else []))
              else Ok (showRaw dec (map content paths) opts))"

definition TailRunFile :: "string list \<Rightarrow> int \<Rightarrow> string list" where
  "TailRunFile lines n = last_n n lines"

section \<open>Grouping loses nothing\<close>

definition block_entries :: "command_block \<Rightarrow> log_entry list" where
  "block_entries b = cb_begin b # cb_streams b @ (case cb_end b of None \<Rightarrow> [] | Some e \<Rightarrow> [e])"

definition block_ok :: "command_block \<Rightarrow> bool" where
  "block_ok b \<longleftrightarrow> log_field (cb_begin b) ''event'' = ''command_begin'' \<and>
     list_all (\<lambda>e. log_field e ''event'' = []) (cb_streams b) \<and>
     (case cb_end b of None \<Rightarrow> True | Some e \<Rightarrow> log_field e ''event'' = ''command_end'')"

text \<open>What the loop keeps: the entries so far, well-formed blocks, and an open block that has no end.\<close>

definition grouped :: "log_entry list \<Rightarrow> grouping \<Rightarrow> bool" where
  "grouped seen g \<longleftrightarrow> (case g of (blocks, events, current) \<Rightarrow>
     mset seen = mset (concat (map block_entries (flush_block blocks current))) + mset events \<and>
     list_all block_ok (flush_block blocks current) \<and> (\<forall>b. current = Some b \<longrightarrow> cb_end b = None))"

lemma flush_simps [simp]: "flush_block blocks None = blocks" "flush_block blocks (Some b) = blocks @ [b]"
  by (simp_all add: flush_block_def)

lemma group_entry_grouped:
  assumes "grouped seen g" and "le_raw e \<noteq> []"
  shows "grouped (seen @ [e]) (group_entry g e)"
proof -
  obtain blocks events current where g: "g = (blocks, events, current)" by (cases g)
  show ?thesis
  proof (cases current)
    case None
    then show ?thesis using assms by (auto simp: g grouped_def group_entry_def Let_def block_entries_def block_ok_def ac_simps)
  next
    case (Some b)
    then show ?thesis using assms
      by (auto simp: g grouped_def group_entry_def Let_def block_entries_def block_ok_def ac_simps)
  qed
qed

lemma foldl_grouped:
  "grouped seen g \<Longrightarrow> list_all (\<lambda>e. le_raw e \<noteq> []) es \<Longrightarrow> grouped (seen @ es) (foldl group_entry g es)"
proof (induction es arbitrary: seen g)
  case (Cons e es)
  then have "grouped ((seen @ [e]) @ es) (foldl group_entry (group_entry g e) es)"
    by (intro Cons.IH group_entry_grouped) simp_all
  then show ?case by simp
qed simp

lemma raw_ParseLine: "trim_space line \<noteq> [] \<Longrightarrow> le_raw (ParseLine dec line) \<noteq> []"
  by (simp add: ParseLine_def parseJSONLine_def Let_def)

text \<open>Property C32: grouping loses nothing. Every line of a log file that is not blank comes back exactly once, in a
  block or as an event; and every block begins with a line that begins a command, holds only output of it, and
  ends, if at all, with a line that ends a command.\<close>

theorem grouping_partitions_the_log:
  "case groupEntries (readAllEntries dec lines) of (blocks, events) \<Rightarrow>
     mset (concat (map block_entries blocks)) + mset events = mset (readAllEntries dec lines) \<and> list_all block_ok blocks"
proof -
  have "grouped [] ([], [], None)" by (simp add: grouped_def)
  moreover have "list_all (\<lambda>e. le_raw e \<noteq> []) (readAllEntries dec lines)"
    by (auto simp: readAllEntries_def list_all_iff raw_ParseLine)
  ultimately have "grouped ([] @ readAllEntries dec lines) (foldl group_entry ([], [], None) (readAllEntries dec lines))"
    by (rule foldl_grouped)
  then show ?thesis by (auto simp: grouped_def groupEntries_def split: prod.splits)
qed

end
