(* ===== verification/Units.thy ===== *)
theory Units
  imports Manifest
begin

text \<open>
  Sizes and frequencies as texts (\<open>utils/units.go\<close>), and facts about workers written into \<open>workers.json\<close>
  (\<open>workspace/workers_file.go\<close>). The arithmetic of \<open>float64\<close> is a parameter: the type of its values and the
  operations of \<open>strconv\<close>, \<open>math\<close> and \<open>fmt\<close> that the code uses on them.
\<close>

section \<open>Floating-point numbers\<close>

record 'f floats =
  fl_parse :: "string \<Rightarrow> 'f option"
  fl_of :: "int \<Rightarrow> 'f"
  fl_add :: "'f \<Rightarrow> 'f \<Rightarrow> 'f"
  fl_mul :: "'f \<Rightarrow> 'f \<Rightarrow> 'f"
  fl_less :: "'f \<Rightarrow> 'f \<Rightarrow> bool"
  fl_eq :: "'f \<Rightarrow> 'f \<Rightarrow> bool"
  fl_round :: "'f \<Rightarrow> 'f"
  fl_int :: "'f \<Rightarrow> int"
  fl_show :: "'f \<Rightarrow> string"

section \<open>Parsing (utils/units.go)\<close>

definition ascii_letter :: "char \<Rightarrow> bool" where
  "ascii_letter c \<longleftrightarrow> (let n = of_char c :: nat in 65 \<le> n \<and> n \<le> 90 \<or> 97 \<le> n \<and> n \<le> 122)"

definition pattern_space :: "char \<Rightarrow> bool" where
  "pattern_space c \<longleftrightarrow> of_char c \<in> {9, 10, 12, 13, 32 :: nat}"

definition upper_letter :: "char \<Rightarrow> char" where
  "upper_letter c = (let n = of_char c :: nat in if 97 \<le> n \<and> n \<le> 122 then char_of (n - 32) else c)"

text \<open>The patterns \<open>^([\d.]+)\s*([a-z]*)$\<close> and \<open>^([\d.]+)\s*([a-z]+)$\<close>, the second with a unit that must be there.
  Their three parts have no character in common, so there is at most one way to match.\<close>

definition size_match :: "bool \<Rightarrow> string \<Rightarrow> (string \<times> string) option" where
  "size_match needs_unit raw =
     (let number = (\<lambda>c. is_digit c \<or> c = CHR ''.'');
          digits = takeWhile number raw;
          unit = dropWhile pattern_space (dropWhile number raw)
      in if digits \<noteq> [] \<and> list_all ascii_letter unit \<and> (needs_unit \<longrightarrow> unit \<noteq> [])
         then Some (digits, map upper_letter unit) else None)"

definition memoryUnitToMB :: "(string \<times> int) list" where
  "memoryUnitToMB = [(''MB'', 1), (''GB'', 1024), (''TB'', 1024 * 1024)]"

definition cpuUnitToMHz :: "(string \<times> int) list" where
  "cpuUnitToMHz = [(''MHZ'', 1), (''GHZ'', 1000), (''THZ'', 1000000)]"

definition scaled :: "'f floats \<Rightarrow> (string \<times> int) list \<Rightarrow> string \<Rightarrow> string \<Rightarrow> error + 'f" where
  "scaled fl units digits unit =
     (case fl_parse fl digits of
        None \<Rightarrow> Err ErrUnit
      | Some x \<Rightarrow> (case map_of units unit of None \<Rightarrow> Err ErrUnit | Some k \<Rightarrow> Ok (fl_mul fl x (fl_of fl k))))"

definition ParseMemoryMB :: "'f floats \<Rightarrow> string \<Rightarrow> error + 'f" where
  "ParseMemoryMB fl raw0 =
     (let raw = trim_space raw0
      in if raw = [] then Ok (fl_of fl 0)
         else case fl_parse fl raw of
           Some x \<Rightarrow> Ok x
         | None \<Rightarrow> (case size_match False raw of
             None \<Rightarrow> Err ErrUnit
           | Some (digits, unit) \<Rightarrow> scaled fl memoryUnitToMB digits (if unit = [] then ''MB'' else unit)))"

definition ParseCPUMHz :: "'f floats \<Rightarrow> string \<Rightarrow> error + 'f" where
  "ParseCPUMHz fl raw0 =
     (let raw = trim_space raw0
      in if raw = [] then Ok (fl_of fl 0)
         else case fl_parse fl raw of
           Some x \<Rightarrow> Ok x
         | None \<Rightarrow> (case size_match True raw of
             None \<Rightarrow> Err ErrUnit
           | Some (digits, unit) \<Rightarrow> scaled fl cpuUnitToMHz digits unit))"

section \<open>Facts in workers.json (workspace/workers_file.go)\<close>

record 'f worker_facts =
  ft_memory :: 'f
  ft_cpu :: 'f

record facts_change =
  fc_host :: string
  fc_old_memory :: string
  fc_new_memory :: string
  fc_old_cpu :: string
  fc_new_cpu :: string

definition FormatMemoryMB :: "'f floats \<Rightarrow> 'f \<Rightarrow> string" where
  "FormatMemoryMB fl mb = itoa (fl_int fl (fl_round fl mb)) @ '' mb''"

definition FormatCPUMHz :: "'f floats \<Rightarrow> 'f \<Rightarrow> string" where
  "FormatCPUMHz fl mhz = itoa (fl_int fl (fl_round fl mhz)) @ '' mhz''"

definition same_size :: "'f floats \<Rightarrow> (string \<Rightarrow> error + 'f) \<Rightarrow> string \<Rightarrow> string \<Rightarrow> bool" where
  "same_size fl parse left right =
     (case (parse left, parse right) of
        (Inr l, Inr r) \<Rightarrow> fl_eq fl (fl_round fl l) (fl_round fl r)
      | _ \<Rightarrow> equal_fold (trim_space left) (trim_space right))"

definition memoryStringEqual :: "'f floats \<Rightarrow> string \<Rightarrow> string \<Rightarrow> bool" where
  "memoryStringEqual fl = same_size fl (ParseMemoryMB fl)"

definition cpuStringEqual :: "'f floats \<Rightarrow> string \<Rightarrow> string \<Rightarrow> bool" where
  "cpuStringEqual fl = same_size fl (ParseCPUMHz fl)"

definition factsChanged :: "'f floats \<Rightarrow> facts_change \<Rightarrow> bool" where
  "factsChanged fl c \<longleftrightarrow>
     \<not> memoryStringEqual fl (fc_old_memory c) (fc_new_memory c) \<or> \<not> cpuStringEqual fl (fc_old_cpu c) (fc_new_cpu c)"

definition apply_facts ::
  "'f floats \<Rightarrow> (string \<times> 'f worker_facts) list \<Rightarrow> worker_record \<Rightarrow> worker_record \<times> facts_change list" where
  "apply_facts fl updates w =
     (let host = trim_space (wr_host w)
      in case map_of updates host of
           None \<Rightarrow> (w, [])
         | Some facts \<Rightarrow>
             let memory = FormatMemoryMB fl (ft_memory facts); cpu = FormatCPUMHz fl (ft_cpu facts);
                 change = \<lparr>fc_host = host, fc_old_memory = wr_memory w, fc_new_memory = memory,
                           fc_old_cpu = wr_cpu w, fc_new_cpu = cpu\<rparr>
             in (w\<lparr>wr_memory := memory, wr_cpu := cpu\<rparr>, if factsChanged fl change then [change] else []))"

text \<open>The file after the call and the changes: the file is only written when there are any.\<close>

definition ApplyWorkerFacts ::
  "'f floats \<Rightarrow> (string \<times> 'f worker_facts) list \<Rightarrow> worker_record list \<Rightarrow> error + worker_record list \<times> facts_change list" where
  "ApplyWorkerFacts fl updates workers =
     (if workers = [] then Err ErrInvalidWorkerJSON
      else let changes = concat (map (\<lambda>w. snd (apply_facts fl updates w)) workers)
           in Ok (if changes = [] then workers else map (\<lambda>w. fst (apply_facts fl updates w)) workers, changes))"

section \<open>Properties\<close>

definition reflexive_sizes :: "'f floats \<Rightarrow> bool" where
  "reflexive_sizes fl \<longleftrightarrow>
     (\<forall>n unit x. (unit = '' mb'' \<longrightarrow> ParseMemoryMB fl (itoa n @ unit) = Ok x \<longrightarrow> fl_eq fl (fl_round fl x) (fl_round fl x)) \<and>
       (unit = '' mhz'' \<longrightarrow> ParseCPUMHz fl (itoa n @ unit) = Ok x \<longrightarrow> fl_eq fl (fl_round fl x) (fl_round fl x)))"

lemma same_size_refl:
  "(\<And>x. parse s = Ok x \<Longrightarrow> fl_eq fl (fl_round fl x) (fl_round fl x)) \<Longrightarrow> same_size fl parse s s"
  by (cases "parse s") (simp_all add: same_size_def equal_fold_def)

lemma apply_facts_host [simp]: "wr_host (fst (apply_facts fl updates w)) = wr_host w"
  by (simp add: apply_facts_def Let_def split: option.split)

lemma apply_facts_again:
  assumes "reflexive_sizes fl"
  shows "apply_facts fl updates (fst (apply_facts fl updates w)) = (fst (apply_facts fl updates w), [])"
proof (cases "map_of updates (trim_space (wr_host w))")
  case (Some facts)
  have "memoryStringEqual fl (FormatMemoryMB fl (ft_memory facts)) (FormatMemoryMB fl (ft_memory facts))"
    unfolding memoryStringEqual_def FormatMemoryMB_def
    by (rule same_size_refl) (use assms in \<open>simp add: reflexive_sizes_def\<close>)
  moreover have "cpuStringEqual fl (FormatCPUMHz fl (ft_cpu facts)) (FormatCPUMHz fl (ft_cpu facts))"
    unfolding cpuStringEqual_def FormatCPUMHz_def
    by (rule same_size_refl) (use assms in \<open>simp add: reflexive_sizes_def\<close>)
  ultimately show ?thesis using Some by (simp add: apply_facts_def factsChanged_def Let_def)
qed (simp add: apply_facts_def Let_def)

text \<open>Facts are written once. Applying facts keeps the order of the file and every worker without facts; a worker
  with facts only changes memory and CPU; and applying the same facts to the result finds nothing to change.
  Rounding a parsed number must not give a number that differs from itself, as only \<open>NaN\<close> does.\<close>

lemma facts_are_written_once:
  assumes run: "ApplyWorkerFacts fl updates workers = Ok (workers', changes)" and refl: "reflexive_sizes fl"
  shows "ApplyWorkerFacts fl updates workers' = Ok (workers', []) \<and>
    map (wr_memory_update (\<lambda>_. []) \<circ> wr_cpu_update (\<lambda>_. [])) workers' = map (wr_memory_update (\<lambda>_. []) \<circ> wr_cpu_update (\<lambda>_. [])) workers \<and>
    list_all2 (\<lambda>w w'. trim_space (wr_host w) \<notin> fst ` set updates \<longrightarrow> w' = w) workers workers'"
proof -
  let ?f = "\<lambda>w. fst (apply_facts fl updates w)"
  have ne: "workers \<noteq> []" using run by (auto simp: ApplyWorkerFacts_def split: if_splits)
  have one: "(wr_memory_update (\<lambda>_. []) \<circ> wr_cpu_update (\<lambda>_. [])) (?f w) = (wr_memory_update (\<lambda>_. []) \<circ> wr_cpu_update (\<lambda>_. [])) w" for w
    by (simp add: apply_facts_def Let_def split: option.split)
  have other: "trim_space (wr_host w) \<notin> fst ` set updates \<longrightarrow> ?f w = w" for w
    by (simp add: apply_facts_def Let_def map_of_eq_None_iff [symmetric])
  show ?thesis
  proof (cases "changes = []")
    case True
    then have "workers' = workers" and "concat (map (\<lambda>w. snd (apply_facts fl updates w)) workers) = []"
      using run ne by (auto simp: ApplyWorkerFacts_def Let_def)
    then show ?thesis using ne by (simp add: ApplyWorkerFacts_def list_all2_same)
  next
    case False
    then have w': "workers' = map ?f workers" using run ne by (auto simp: ApplyWorkerFacts_def Let_def)
    have "concat (map (\<lambda>w. snd (apply_facts fl updates w)) workers') = []"
      by (simp add: w' apply_facts_again [OF refl])
    then have "ApplyWorkerFacts fl updates workers' = Ok (workers', [])" using ne by (simp add: ApplyWorkerFacts_def w')
    moreover have "list_all2 (\<lambda>w w'. trim_space (wr_host w) \<notin> fst ` set updates \<longrightarrow> w' = w) workers workers'"
      using other by (simp add: w' list_all2_map2 list_all2_same)
    ultimately show ?thesis using one by (simp add: w' comp_def)
  qed
qed

end
