(* ===== verification/BuildWorkers.thy ===== *)
theory BuildWorkers
  imports Units Allocations
begin

text \<open>
  The workers of \<open>workers.json\<close> become rows of the catalog (\<open>build/build_workers.go\<close>). A worker that is new gets a
  random UUID, a parameter of its host here since a build asks for one at most once per host.
\<close>

section \<open>Building\<close>

definition or_error :: "error \<Rightarrow> error + 'a \<Rightarrow> error + 'a" where
  "or_error e r = (case r of Inl _ \<Rightarrow> Err e | Inr x \<Rightarrow> Ok x)"

lemma or_error_Ok [simp]: "or_error e r = Ok x \<longleftrightarrow> r = Ok x"
  by (simp add: or_error_def split: sum.split)

definition syncWorkerLabels :: "string \<Rightarrow> worker \<Rightarrow> catalog \<Rightarrow> error + catalog" where
  "syncWorkerLabels workerID w c =
     (let c1 = c\<lparr>t_worker_labels := filter (\<lambda>(i, _). i \<noteq> workerID) (t_worker_labels c)\<rparr>
      in if length (wk_labels w) \<noteq> length (Unique (wk_labels w)) then Err ErrInvalidWorkerJSON
         else Ok (c1\<lparr>t_worker_labels := t_worker_labels c1 @ map (\<lambda>l. (workerID, l)) (wk_labels w)\<rparr>))"

definition syncWorkerTags :: "string \<Rightarrow> worker \<Rightarrow> catalog \<Rightarrow> catalog" where
  "syncWorkerTags workerID w c =
     (let c1 = c\<lparr>t_worker_tags := filter (\<lambda>(i, _). i \<noteq> workerID) (t_worker_tags c)\<rparr>
      in c1\<lparr>t_worker_tags := t_worker_tags c1 @ map (\<lambda>(k, v). (workerID, k, v)) (wk_tags w)\<rparr>)"

definition worker_size :: "'f floats \<Rightarrow> error + 'f \<Rightarrow> error + 'f" where
  "worker_size fl parsed =
     rbind (or_error ErrInvalidWorkerJSON parsed) (\<lambda>x. if fl_less fl x (fl_of fl 0) then Err ErrInvalidWorkerJSON else Ok x)"

definition known_worker_id :: "(string \<Rightarrow> string) \<Rightarrow> catalog \<Rightarrow> string \<Rightarrow> string" where
  "known_worker_id new_id c host =
     (case GetWorkerID c host of Inl _ \<Rightarrow> new_id host | Inr i \<Rightarrow> if i = [] then new_id host else i)"

definition build_worker :: "'f floats \<Rightarrow> (string \<Rightarrow> string) \<Rightarrow> catalog \<Rightarrow> worker \<Rightarrow> error + catalog" where
  "build_worker fl new_id c w =
     (let workerID = known_worker_id new_id c (wk_host w)
      in rbind (worker_size fl (ParseMemoryMB fl (wk_memory w))) (\<lambda>memory.
         rbind (worker_size fl (ParseCPUMHz fl (wk_cpu w))) (\<lambda>cpu.
         rbind (syncWorkerLabels workerID w
                  (c\<lparr>t_worker := filter (\<lambda>r. w_ip r \<noteq> wk_host w) (t_worker c) @
                       [\<lparr>w_id = workerID, w_ip = wk_host w, w_memory = fl_show fl memory, w_cpu = fl_show fl cpu,
                         w_position = wk_position w\<rparr>]\<rparr>))
           (\<lambda>c1. Ok (syncWorkerTags workerID w c1)))))"

definition remove_worker :: "catalog \<Rightarrow> string \<Rightarrow> catalog" where
  "remove_worker c ip =
     (let ids = map w_id (workers_at c ip)
      in c\<lparr>t_worker_labels := filter (\<lambda>(i, _). i \<notin> set ids) (t_worker_labels c),
           t_worker_tags := filter (\<lambda>(i, _). i \<notin> set ids) (t_worker_tags c),
           t_worker := filter (\<lambda>r. w_ip r \<noteq> ip) (t_worker c)\<rparr>)"

definition BuildWorkers ::
  "'f floats \<Rightarrow> (string \<Rightarrow> string) \<Rightarrow> error + worker_record list \<Rightarrow> catalog \<Rightarrow> error + catalog \<times> string list" where
  "BuildWorkers fl new_id file c =
     rbind (rbind file workspaceGetWorkers) (\<lambda>workers.
       let ips = map wk_host workers
       in if length ips \<noteq> length (Unique ips) then Err ErrInvalidWorkerJSON
          else rbind (rfold (build_worker fl new_id) c workers) (\<lambda>c1.
            let gone = Difference (GetAllWorkers c1) ips in Ok (foldl remove_worker c1 gone, gone)))"

section \<open>The rows of the workers\<close>

definition workers_ok :: "catalog \<Rightarrow> bool" where
  "workers_ok c \<longleftrightarrow> distinct (map w_ip (t_worker c)) \<and> distinct (map w_id (t_worker c)) \<and> (\<forall>r \<in> set (t_worker c). w_id r \<noteq> [])"

text \<open>\<open>c'\<close> has other workers than \<open>c\<close> at most.\<close>

definition only_workers :: "catalog \<Rightarrow> catalog \<Rightarrow> bool" where
  "only_workers c c' \<longleftrightarrow>
     c' = c\<lparr>t_worker := t_worker c', t_worker_labels := t_worker_labels c', t_worker_tags := t_worker_tags c'\<rparr>"

lemma only_workers_refl: "only_workers c c"
  by (simp add: only_workers_def)

lemma only_workers_trans: "only_workers c d \<Longrightarrow> only_workers d e \<Longrightarrow> only_workers c e"
  unfolding only_workers_def by (metis (no_types, lifting) catalog.surjective catalog.update_convs(2,3,4))

definition row_of :: "'f floats \<Rightarrow> worker \<Rightarrow> worker_row \<Rightarrow> bool" where
  "row_of fl w r \<longleftrightarrow> w_ip r = wk_host w \<and> w_position r = wk_position w \<and>
     (\<exists>m p. ParseMemoryMB fl (wk_memory w) = Ok m \<and> w_memory r = fl_show fl m \<and>
            ParseCPUMHz fl (wk_cpu w) = Ok p \<and> w_cpu r = fl_show fl p)"

text \<open>The catalog shows the worker as the file has it.\<close>

definition shows_worker :: "'f floats \<Rightarrow> catalog \<Rightarrow> worker \<Rightarrow> bool" where
  "shows_worker fl c w \<longleftrightarrow> (\<exists>r \<in> set (t_worker c). row_of fl w r \<and>
     map snd (filter (\<lambda>(i, _). i = w_id r) (t_worker_labels c)) = wk_labels w \<and>
     map snd (filter (\<lambda>(i, _). i = w_id r) (t_worker_tags c)) = wk_tags w)"

lemma labels_of_worker:
  assumes ok: "workers_ok c" and r: "r \<in> set (t_worker c)"
  shows "labels_of_ip c (w_ip r) = map snd (filter (\<lambda>(i, _). i = w_id r) (t_worker_labels c))"
proof -
  have "list_ex (\<lambda>w. w_id w = i \<and> w_ip w = w_ip r) (t_worker c) \<longleftrightarrow> i = w_id r" for i
    using ok r by (auto simp: workers_ok_def list_ex_iff distinct_map dest: inj_onD)
  then show ?thesis by (simp add: labels_of_ip_def)
qed

text \<open>New ids are new: not empty, different for different hosts, and none of the ids \<open>old\<close>.\<close>

definition fresh_ids :: "(string \<Rightarrow> string) \<Rightarrow> (string \<times> string) set \<Rightarrow> bool" where
  "fresh_ids new_id old \<longleftrightarrow> inj new_id \<and> (\<forall>h. new_id h \<noteq> []) \<and> (\<forall>h h'. (h', new_id h) \<notin> old)"

definition known :: "(string \<Rightarrow> string) \<Rightarrow> (string \<times> string) set \<Rightarrow> catalog \<Rightarrow> bool" where
  "known new_id old c \<longleftrightarrow> fresh_ids new_id old \<and> workers_ok c \<and>
     (\<forall>r \<in> set (t_worker c). (w_ip r, w_id r) \<in> old \<or> w_id r = new_id (w_ip r))"

lemma id_cases:
  assumes c: "known new_id old c"
  obtains r where "r \<in> set (t_worker c)" "w_ip r = host" "known_worker_id new_id c host = w_id r"
    | "host \<notin> w_ip ` set (t_worker c)" "known_worker_id new_id c host = new_id host"
proof (cases "workers_at c host")
  case Nil
  then have "host \<notin> w_ip ` set (t_worker c)" by (auto simp: workers_at_def filter_empty_conv)
  then show ?thesis using that(2) Nil by (simp add: known_worker_id_def GetWorkerID_def query_row_def)
next
  case (Cons r rs)
  then have "r \<in> set (workers_at c host)" by simp
  then have r: "r \<in> set (t_worker c)" "w_ip r = host" by (simp_all add: workers_at_def)
  then have "w_id r \<noteq> []" using c by (force simp: known_def workers_ok_def)
  then show ?thesis using that(1) [OF r] Cons by (simp add: known_worker_id_def GetWorkerID_def query_row_def)
qed

text \<open>The id of the host belongs to no other worker.\<close>

lemma id_own:
  assumes c: "known new_id old c" and r: "r \<in> set (t_worker c)" "w_ip r \<noteq> host"
  shows "w_id r \<noteq> known_worker_id new_id c host"
  using c
proof (cases rule: id_cases [where c = c and host = host])
  case (1 s)
  then show ?thesis using c r by (auto simp: known_def workers_ok_def distinct_map dest: inj_onD)
next
  case 2
  then show ?thesis using c r by (metis fresh_ids_def injD known_def)
qed

lemma id_known:
  assumes "known new_id old c"
  shows "known_worker_id new_id c host \<noteq> [] \<and> ((host, known_worker_id new_id c host) \<in> old \<or> known_worker_id new_id c host = new_id host)"
  using assms by (cases rule: id_cases [where c = c and host = host]) (use assms in \<open>auto simp: known_def workers_ok_def fresh_ids_def\<close>)

lemma build_worker_step:
  assumes c: "known new_id old c" and run: "build_worker fl new_id c w = Ok c'"
  shows "known new_id old c' \<and> only_workers c c' \<and> w_ip ` set (t_worker c') = insert (wk_host w) (w_ip ` set (t_worker c)) \<and>
    shows_worker fl c' w \<and> (\<forall>v. wk_host v \<noteq> wk_host w \<longrightarrow> shows_worker fl c v \<longrightarrow> shows_worker fl c' v)"
proof -
  let ?id = "known_worker_id new_id c (wk_host w)"
  from run obtain m p where m: "ParseMemoryMB fl (wk_memory w) = Ok m" and p: "ParseCPUMHz fl (wk_cpu w) = Ok p"
    and c': "c' = c\<lparr>t_worker := filter (\<lambda>r. w_ip r \<noteq> wk_host w) (t_worker c) @
        [\<lparr>w_id = ?id, w_ip = wk_host w, w_memory = fl_show fl m, w_cpu = fl_show fl p, w_position = wk_position w\<rparr>],
      t_worker_labels := filter (\<lambda>(i, _). i \<noteq> ?id) (t_worker_labels c) @ map (\<lambda>l. (?id, l)) (wk_labels w),
      t_worker_tags := filter (\<lambda>(i, _). i \<noteq> ?id) (t_worker_tags c) @ map (\<lambda>(k, v). (?id, k, v)) (wk_tags w)\<rparr>"
    by (auto simp: build_worker_def Let_def rbind_Inr_conv worker_size_def syncWorkerLabels_def syncWorkerTags_def split: if_splits)
  have own: "w_id r \<noteq> ?id" if "r \<in> set (t_worker c)" "w_ip r \<noteq> wk_host w" for r by (rule id_own [OF c that])
  have d: "distinct (map w_ip (filter P (t_worker c)))" "distinct (map w_id (filter P (t_worker c)))" for P
    using c by (simp_all add: known_def workers_ok_def distinct_map_filter)
  have nid: "?id \<notin> w_id ` {r \<in> set (t_worker c). w_ip r \<noteq> wk_host w}"
  proof
    assume "?id \<in> w_id ` {r \<in> set (t_worker c). w_ip r \<noteq> wk_host w}"
    then obtain r where "r \<in> set (t_worker c)" "w_ip r \<noteq> wk_host w" "?id = w_id r" by blast
    with own [of r] show False by simp
  qed
  have ne: "?id \<noteq> []" and idc: "(wk_host w, ?id) \<in> old \<or> ?id = new_id (wk_host w)" using id_known [OF c, of "wk_host w"] by blast+
  have old: "w_id r \<noteq> []" "(w_ip r, w_id r) \<in> old \<or> w_id r = new_id (w_ip r)" if "r \<in> set (t_worker c)" for r
    using c that by (simp_all add: known_def workers_ok_def)
  have "distinct (map w_ip (t_worker c'))" using d(1) by (auto simp: c')
  moreover have "distinct (map w_id (t_worker c'))" using d(2) nid by (simp add: c')
  moreover have "\<forall>r \<in> set (t_worker c'). w_id r \<noteq> []" using ne old(1) by (auto simp: c')
  ultimately have "workers_ok c'" by (simp add: workers_ok_def)
  moreover have "\<forall>r \<in> set (t_worker c'). (w_ip r, w_id r) \<in> old \<or> w_id r = new_id (w_ip r)" using idc old(2) by (auto simp: c')
  moreover have "fresh_ids new_id old" using c by (simp add: known_def)
  ultimately have "known new_id old c'" by (simp add: known_def)
  moreover have "only_workers c c'" by (simp add: c' only_workers_def)
  moreover have "w_ip ` set (t_worker c') = insert (wk_host w) (w_ip ` set (t_worker c))" by (auto simp: c')
  moreover have "shows_worker fl c' w"
    using m p by (auto simp: shows_worker_def row_of_def c' comp_def case_prod_unfold)
  moreover have "shows_worker fl c' v" if v: "wk_host v \<noteq> wk_host w" "shows_worker fl c v" for v
  proof -
    from v(2) obtain r where r: "r \<in> set (t_worker c)" "row_of fl v r"
      "map snd (filter (\<lambda>(i, _). i = w_id r) (t_worker_labels c)) = wk_labels v"
      "map snd (filter (\<lambda>(i, _). i = w_id r) (t_worker_tags c)) = wk_tags v" by (auto simp: shows_worker_def)
    have ip: "w_ip r \<noteq> wk_host w" using r(2) v(1) by (simp add: row_of_def)
    have ne: "w_id r \<noteq> ?id" "?id \<noteq> w_id r" and conj: "(x \<noteq> ?id \<and> x = w_id r) = (x = w_id r)" for x
      using own [OF r(1) ip] by auto
    have "filter (\<lambda>(i, _). i = w_id r) (t_worker_labels c') = filter (\<lambda>(i, _). i = w_id r) (t_worker_labels c)"
      "filter (\<lambda>(i, _). i = w_id r) (t_worker_tags c') = filter (\<lambda>(i, _). i = w_id r) (t_worker_tags c)"
      by (simp_all add: c' case_prod_unfold filter_map comp_def conj ne)
    moreover have "r \<in> set (t_worker c')" using r(1) ip by (simp add: c')
    ultimately show ?thesis using r(2-4) unfolding shows_worker_def by metis
  qed
  ultimately show ?thesis by blast
qed

lemma build_workers_loop:
  assumes "known new_id old c" and "rfold (build_worker fl new_id) c ws = Ok c'" and "distinct (map wk_host ws)"
  shows "known new_id old c' \<and> only_workers c c' \<and> w_ip ` set (t_worker c') = wk_host ` set ws \<union> w_ip ` set (t_worker c) \<and>
    (\<forall>w \<in> set ws. shows_worker fl c' w) \<and>
    (\<forall>v. wk_host v \<notin> wk_host ` set ws \<longrightarrow> shows_worker fl c v \<longrightarrow> shows_worker fl c' v)"
  using assms
proof (induction ws arbitrary: c)
  case (Cons w ws)
  from Cons.prems(2) obtain d where one: "build_worker fl new_id c w = Ok d" and rest: "rfold (build_worker fl new_id) d ws = Ok c'"
    by (auto simp: rbind_Inr_conv)
  note s = build_worker_step [OF Cons.prems(1) one]
  from Cons.IH [OF _ rest] s Cons.prems(3) have "known new_id old c' \<and> only_workers d c' \<and>
    w_ip ` set (t_worker c') = wk_host ` set ws \<union> w_ip ` set (t_worker d) \<and> (\<forall>w \<in> set ws. shows_worker fl c' w) \<and>
    (\<forall>v. wk_host v \<notin> wk_host ` set ws \<longrightarrow> shows_worker fl d v \<longrightarrow> shows_worker fl c' v)" by simp
  with s Cons.prems(3) show ?case by (auto intro: only_workers_trans)
qed (simp add: only_workers_refl)

lemma remove_worker_step:
  assumes ok: "workers_ok c"
  shows "workers_ok (remove_worker c ip) \<and> only_workers c (remove_worker c ip) \<and>
    t_worker (remove_worker c ip) = filter (\<lambda>r. w_ip r \<noteq> ip) (t_worker c) \<and>
    (\<forall>v. wk_host v \<noteq> ip \<longrightarrow> shows_worker fl c v \<longrightarrow> shows_worker fl (remove_worker c ip) v)"
proof -
  have "shows_worker fl (remove_worker c ip) v" if v: "wk_host v \<noteq> ip" "shows_worker fl c v" for v
  proof -
    from v(2) obtain r where r: "r \<in> set (t_worker c)" "row_of fl v r"
      "map snd (filter (\<lambda>(i, _). i = w_id r) (t_worker_labels c)) = wk_labels v"
      "map snd (filter (\<lambda>(i, _). i = w_id r) (t_worker_tags c)) = wk_tags v" by (auto simp: shows_worker_def)
    have ip: "w_ip r \<noteq> ip" using r(2) v(1) by (simp add: row_of_def)
    have "w_id r \<notin> set (map w_id (workers_at c ip))"
      using ok r(1) ip by (auto simp: workers_at_def workers_ok_def distinct_map dest: inj_onD)
    then have "filter (\<lambda>(i, _). i = w_id r) (t_worker_labels (remove_worker c ip)) = filter (\<lambda>(i, _). i = w_id r) (t_worker_labels c)"
      "filter (\<lambda>(i, _). i = w_id r) (t_worker_tags (remove_worker c ip)) = filter (\<lambda>(i, _). i = w_id r) (t_worker_tags c)"
      by (auto simp: remove_worker_def Let_def case_prod_unfold intro: filter_cong)
    moreover have "r \<in> set (t_worker (remove_worker c ip))" using r(1) ip by (simp add: remove_worker_def Let_def)
    ultimately show ?thesis using r(2-4) unfolding shows_worker_def by metis
  qed
  then show ?thesis
    using ok by (auto simp: remove_worker_def Let_def only_workers_def workers_ok_def distinct_map_filter)
qed

lemma remove_workers_loop:
  assumes "workers_ok c"
  shows "workers_ok (foldl remove_worker c ips) \<and> only_workers c (foldl remove_worker c ips) \<and>
    t_worker (foldl remove_worker c ips) = filter (\<lambda>r. w_ip r \<notin> set ips) (t_worker c) \<and>
    (\<forall>v. wk_host v \<notin> set ips \<longrightarrow> shows_worker fl c v \<longrightarrow> shows_worker fl (foldl remove_worker c ips) v)"
  using assms
proof (induction ips arbitrary: c)
  case (Cons ip ips)
  note s = remove_worker_step [OF Cons.prems, of ip fl]
  from Cons.IH [of "remove_worker c ip"] s show ?case
    by (auto intro: only_workers_trans simp: conj_commute)
qed (simp add: only_workers_refl)

definition ids_of :: "catalog \<Rightarrow> (string \<times> string) set" where
  "ids_of c = (\<lambda>r. (w_ip r, w_id r)) ` set (t_worker c)"

lemma BuildWorkers_exact:
  assumes run: "BuildWorkers fl new_id file c = Ok (c', gone)" and ok: "workers_ok c"
    and inj: "inj new_id" and ne: "\<And>h. new_id h \<noteq> []" and fresh: "\<And>h. new_id h \<notin> w_id ` set (t_worker c)"
  shows "\<exists>workers. rbind file workspaceGetWorkers = Ok workers \<and> workers_ok c' \<and> only_workers c c' \<and>
    w_ip ` set (t_worker c') = wk_host ` set workers \<and> set gone = w_ip ` set (t_worker c) - wk_host ` set workers \<and>
    (\<forall>w \<in> set workers. shows_worker fl c' w \<and> labels_of_ip c' (wk_host w) = wk_labels w)"
proof -
  from run obtain workers c1 where w: "rbind file workspaceGetWorkers = Ok workers"
    and len: "length (map wk_host workers) = length (Unique (map wk_host workers))"
    and loop: "rfold (build_worker fl new_id) c workers = Ok c1"
    and c': "c' = foldl remove_worker c1 (Difference (GetAllWorkers c1) (map wk_host workers))"
    and gone: "gone = Difference (GetAllWorkers c1) (map wk_host workers)"
    by (auto simp: BuildWorkers_def rbind_Inr_conv Let_def split: if_splits)
  have d: "distinct (map wk_host workers)" using len by (metis length_Unique_eq)
  have start: "known new_id (ids_of c) c" using ok inj ne fresh by (auto simp: known_def fresh_ids_def ids_of_def)
  note l = build_workers_loop [OF start loop d]
  have c1: "workers_ok c1" "w_ip ` set (t_worker c1) = wk_host ` set workers \<union> w_ip ` set (t_worker c)" using l by (simp_all add: known_def)
  have g: "set gone = w_ip ` set (t_worker c1) - wk_host ` set workers" by (simp add: gone GetAllWorkers_def)
  have c': "c' = foldl remove_worker c1 gone" by (simp add: c' gone)
  note r = remove_workers_loop [OF c1(1), of gone fl, folded c']
  have "t_worker c' = filter (\<lambda>r. w_ip r \<notin> set gone) (t_worker c1)" using r by blast
  then have "w_ip ` set (t_worker c') = w_ip ` set (t_worker c1) - set gone" by auto
  then have w': "w_ip ` set (t_worker c') = wk_host ` set workers" unfolding g c1(2) by (simp add: Diff_Diff_Int Int_absorb1)
  have all: "shows_worker fl c' w" if "w \<in> set workers" for w
    using that l r g by simp
  have "labels_of_ip c' (wk_host w) = wk_labels w" if w: "w \<in> set workers" for w
  proof -
    from all [OF w] obtain r where r: "r \<in> set (t_worker c')" "row_of fl w r"
      "map snd (filter (\<lambda>(i, _). i = w_id r) (t_worker_labels c')) = wk_labels w" by (auto simp: shows_worker_def)
    moreover have "workers_ok c'" by (simp add: c' remove_workers_loop [OF c1(1)])
    ultimately show ?thesis using labels_of_worker [of c' r] by (simp add: row_of_def)
  qed
  moreover have "set gone = w_ip ` set (t_worker c) - wk_host ` set workers" using g c1(2) by blast
  moreover have "workers_ok c'" "only_workers c c'" using l r by (auto intro: only_workers_trans)
  ultimately show ?thesis using w w' all by blast
qed

section \<open>The label that every worker has\<close>

text \<open>\<open>NewWorker\<close> appends the label \<open>worker\<close>, and labels must not occur twice: a worker that lists this label in
  \<open>workers.json\<close>, as the quickstart does, fails the build.\<close>

lemma explicit_worker_label_is_rejected:
  assumes "''worker'' \<in> norm_label ` set labels"
  shows "syncWorkerLabels i (NewWorker host labels memory cpu tags position) c = Err ErrInvalidWorkerJSON"
proof -
  have "norm_label ''worker'' = ''worker''" by code_simp
  then have "\<not> distinct (wk_labels (NewWorker host labels memory cpu tags position))"
    using assms by (simp add: NewWorker_def)
  then have "card (set (wk_labels (NewWorker host labels memory cpu tags position))) \<noteq>
      length (wk_labels (NewWorker host labels memory cpu tags position))" using card_distinct by blast
  moreover have "length (Unique xs) = card (set xs)" for xs :: "string list"
    using distinct_card [of "Unique xs"] by simp
  ultimately show ?thesis by (simp add: syncWorkerLabels_def)
qed

end
