(* ===== verification/BuildJobs.thy ===== *)
theory BuildJobs
  imports BuildKv BuildWorkers Demands Ports
begin

text \<open>
  The jobs of the workspace become rows of the catalog (\<open>build/build_jobs.go\<close>, with \<open>workspace/paths.go\<close> and
  \<open>workspace/prometheus.go\<close>): their resources, selectors, ports, commands, files and certificates. The content of
  the workspace, the UUID of a job and the hash of its certificate section are parameters.
\<close>

section \<open>The workspace\<close>

text \<open>\<open>ws_jobs\<close>: the directories with a manifest. \<open>ws_exists job p\<close>: \<open>os.Stat\<close> of \<open>p\<close> in the directory of the job.
  \<open>ws_walk\<close>: what \<open>fs.WalkDir\<close> visits, path, content and whether it is a directory.\<close>

record workspace =
  ws_workers :: "error + worker_record list"
  ws_jobs :: "string list"
  ws_manifest :: "string \<Rightarrow> error + manifest"
  ws_exists :: "string \<Rightarrow> string \<Rightarrow> bool"
  ws_walk :: "string \<Rightarrow> error + (string \<times> string \<times> bool) list"
  ws_disabled :: "error + disabled_config"

definition skipJobWalkDirNames :: "string list" where
  "skipJobWalkDirNames = [''.venv'', ''venv'', ''node_modules'', ''__pycache__'']"

definition shouldSkipJobWalk :: "string \<Rightarrow> bool" where
  "shouldSkipJobWalk rel \<longleftrightarrow> list_ex (\<lambda>part. part \<in> set skipJobWalkDirNames) (split_char CHR ''/'' rel)"

definition WalkJobFiles :: "workspace \<Rightarrow> string \<Rightarrow> error + (string \<times> string \<times> bool) list" where
  "WalkJobFiles ws job = map_sum id (filter (\<lambda>(p, _, _). \<not> shouldSkipJobWalk p)) (ws_walk ws job)"

definition JobHasMakefileOrTemplate :: "workspace \<Rightarrow> string \<Rightarrow> bool" where
  "JobHasMakefileOrTemplate ws job \<longleftrightarrow> list_ex (ws_exists ws job) [''Makefile'', ''Makefile.tpl'']"

definition ValidatePrometheusServerFiles :: "workspace \<Rightarrow> string \<Rightarrow> error + unit" where
  "ValidatePrometheusServerFiles ws job =
     (if ws_exists ws job ''prometheus.yml'' \<and> ws_exists ws job ''prometheus.yml.tpl'' then Err ErrInvalidJob else Ok ())"

section \<open>Resources\<close>

definition job_limits :: "'f floats \<Rightarrow> (string \<Rightarrow> error + 'f) \<Rightarrow> string \<Rightarrow> string \<Rightarrow> error + 'f \<times> 'f" where
  "job_limits fl parse minText maxText =
     rbind (or_error ErrInvalidManifest (parse minText)) (\<lambda>least.
     rbind (or_error ErrInvalidManifest (parse maxText)) (\<lambda>most0.
       let most = (if \<not> fl_eq fl least (fl_of fl 0) \<and> fl_eq fl most0 (fl_of fl 0) then least else most0)
       in if fl_less fl most least then Err ErrInvalidManifest else Ok (least, most)))"

text \<open>Least, greatest and requested size: \<open>bucket.jobs.conf\<close> may ask for one within the limits.\<close>

definition job_request :: "'f floats \<Rightarrow> (string \<Rightarrow> error + 'f) \<Rightarrow> string option \<Rightarrow> 'f \<times> 'f \<Rightarrow> error + 'f \<times> 'f \<times> 'f" where
  "job_request fl parse setting limits =
     (case limits of (least, most) \<Rightarrow>
        (case setting of
           None \<Rightarrow> Ok (least, most, most)
         | Some text \<Rightarrow>
             rbind (parse text) (\<lambda>requested.
               let unset = (fl_eq fl least (fl_of fl 0) \<and> fl_eq fl most (fl_of fl 0));
                   least' = (if unset then requested else least); most' = (if unset then requested else most)
               in if fl_less fl most' requested then Err ErrUnsupportedResourceConfiguration
                  else if fl_less fl requested least' then Err ErrUnsupportedResourceConfiguration
                  else Ok (least', most', requested))))"

definition job_row_of ::
  "'f floats \<Rightarrow> (string \<Rightarrow> string) \<Rightarrow> workspace_files \<Rightarrow> workspace \<Rightarrow> string \<Rightarrow> manifest \<Rightarrow> error + job_row" where
  "job_row_of fl uuid files ws job m =
     rbind (job_limits fl (ParseCPUMHz fl) (MinCPU m) (MaxCPU m)) (\<lambda>cpuLimits.
     rbind (job_limits fl (ParseMemoryMB fl) (MinMemory m) (MaxMemory m)) (\<lambda>memoryLimits.
     rbind (loadJobBucketConfig files job) (\<lambda>(configFile, settings).
     rbind (job_request fl (ParseMemoryMB fl) (map_of settings ''memory'') memoryLimits) (\<lambda>(minMemory, maxMemory, memory).
     rbind (job_request fl (ParseCPUMHz fl) (map_of settings ''cpu'') cpuLimits) (\<lambda>(minCPU, maxCPU, cpu).
     rbind (ValidateHealthCheck m) (\<lambda>_.
     rbind (ValidateRestartPolicy m) (\<lambda>_.
     rbind (ValidateRestartGlobs m) (\<lambda>_.
     rbind (if m_min_allocations_count m < 0 then Err ErrInvalidManifest else Ok ()) (\<lambda>_.
     rbind (ValidatePrometheusServerFiles ws job) (\<lambda>_.
     rbind (NormalizeRestartPolicy (m_restart_policy m)) (\<lambda>policy.
       Ok \<lparr>j_id = uuid job, j_name = job, j_version = JobVersion m,
           j_min_memory = fl_show fl minMemory, j_max_memory = fl_show fl maxMemory, j_memory = fl_show fl memory,
           j_memory_source = (if map_of settings ''memory'' = None then ''manifest'' else configFile),
           j_min_cpu = fl_show fl minCPU, j_max_cpu = fl_show fl maxCPU, j_cpu = fl_show fl cpu,
           j_cpu_source = (if map_of settings ''cpu'' = None then ''manifest'' else configFile),
           j_max_upgrades = manifestMaxConcurrentUpgrades m, j_max_starts = manifestMaxConcurrentStarts m,
           j_restart_policy = policy, j_restart_globs = m_restart_globs m,
           j_health_check = (if hasManifestHealthChecks m then m_health_check m else None)\<rparr>)))))))))))"

section \<open>Commands\<close>

definition job_command_events :: "string list" where
  "job_command_events =
     [''post_build'', ''health_check'', ''cli'', ''pre_deploy'', ''post_deploy'', ''job_control'',
      ''after_allocation_started'', ''after_allocation_stopped'']"

definition check_command :: "workspace \<Rightarrow> string \<Rightarrow> job_command \<Rightarrow> error + unit" where
  "check_command ws job command =
     (if \<not> has_prefix ''command_'' (jc_name command) then Err ErrInvalidJobCommandConfiguration
      else if jc_executed_on command = [] then Err ErrInvalidJobCommandConfiguration
      else if Difference (jc_executed_on command) job_command_events \<noteq> [] then Err ErrInvalidJobCommandConfiguration
      else if jc_demand_job command = job then Err ErrInvalidJobCommandConfiguration
      else rbind (ValidateDemandReference job (jc_name command) command) (\<lambda>_.
           rbind (ResolveCommandScript (\<lambda>n. ws_exists ws job (''_modules/'' @ n)) (jc_name command)) (\<lambda>_. Ok ())))"

definition command_rows :: "string \<Rightarrow> string \<Rightarrow> job_command \<Rightarrow> command_row list" where
  "command_rows jobID job command =
     map (\<lambda>event. \<lparr>q_job_id = jobID, q_job = job, q_name = jc_name command, q_executed_on = event,
         q_demand_job = jc_demand_job command, q_demand_command = jc_demand_command command,
         q_demand_config = jc_config command\<rparr>) (jc_executed_on command)"

definition add_command :: "workspace \<Rightarrow> string \<Rightarrow> string \<Rightarrow> command_row list \<Rightarrow> job_command \<Rightarrow> error + command_row list" where
  "add_command ws jobID job rows command =
     rbind (check_command ws job command) (\<lambda>_. Ok (rows @ command_rows jobID job command))"

section \<open>One job\<close>

definition purge_children :: "string \<Rightarrow> catalog \<Rightarrow> catalog" where
  "purge_children jobID c =
     c\<lparr>t_job_selectors := filter (\<lambda>(i, _). i \<noteq> jobID) (t_job_selectors c),
       t_job_commands := filter (\<lambda>q. q_job_id q \<noteq> jobID) (t_job_commands c),
       t_job_files := filter (\<lambda>f. f_job_id f \<noteq> jobID) (t_job_files c),
       t_job_certs := filter (\<lambda>(i, _). i \<noteq> jobID) (t_job_certs c)\<rparr>"

definition reserved_directories :: "string list" where
  "reserved_directories = [''data'', ''logs'', ''bin'']"

definition build_job ::
  "'f floats \<Rightarrow> (string \<Rightarrow> string) \<Rightarrow> ((string \<times> cert_config) list \<Rightarrow> string) \<Rightarrow> workspace_files \<Rightarrow> workspace \<Rightarrow>
   catalog \<times> port_allocator \<Rightarrow> string \<Rightarrow> error + catalog \<times> port_allocator" where
  "build_job fl uuid certHash files ws s job =
     (case s of (c, allocator) \<Rightarrow>
        let jobID = uuid job; c1 = purge_children jobID c in
        rbind (ws_manifest ws job) (\<lambda>m.
        rbind (job_row_of fl uuid files ws job m) (\<lambda>row.
          let c2 = c1\<lparr>t_job := filter (\<lambda>j. j_name j \<noteq> job) (t_job c1) @ [row],
                      t_job_selectors := t_job_selectors c1 @ map (\<lambda>sel. (jobID, sel)) (PlacementSelectors job m)\<rparr> in
        rbind (syncJobPorts jobID job (m_ports m) (t_job_ports c2, allocator)) (\<lambda>(ports, allocator').
        rbind (rfold (add_command ws jobID job) (t_job_commands c2) (ListedCommands m)) (\<lambda>commands.
          if \<not> JobHasMakefileOrTemplate ws job then Err ErrInvalidJob
          else if list_ex (ws_exists ws job) reserved_directories then Err ErrInvalidJob
          else
        rbind (WalkJobFiles ws job) (\<lambda>walked.
        rbind (UpdateHash (c2\<lparr>t_job_ports := ports, t_job_commands := commands,
                  t_job_files := t_job_files c2 @
                    map (\<lambda>(p, content, dir). \<lparr>f_job_id = jobID, f_path = p, f_content = content, f_isdir = dir\<rparr>) walked\<rparr>)
                 ''build_certs'' job (certHash (m_certs m))) (\<lambda>c3.
          Ok (c3\<lparr>t_job_certs := t_job_certs c3 @ map (\<lambda>(name, config). (jobID, name, config)) (m_certs m)\<rparr>, allocator'))))))))"

section \<open>All jobs\<close>

text \<open>The manifests that \<open>buildPortAllocator\<close> reads: up to the first with ports.\<close>

fun manifests_to_ports :: "(string \<Rightarrow> error + manifest) \<Rightarrow> string list \<Rightarrow> error + manifest list" where
  "manifests_to_ports read [] = Ok []"
| "manifests_to_ports read (job # jobs) =
     rbind (read job) (\<lambda>m. if m_ports m \<noteq> [] then Ok [m] else rbind (manifests_to_ports read jobs) (\<lambda>ms. Ok (m # ms)))"

definition remove_job :: "(string \<Rightarrow> string) \<Rightarrow> catalog \<Rightarrow> string \<Rightarrow> catalog" where
  "remove_job uuid c job =
     (let c1 = purge_children (uuid job) (c\<lparr>t_job_ports := filter (\<lambda>p. p_job_id p \<noteq> uuid job) (t_job_ports c)\<rparr>);
          c2 = c1\<lparr>t_job := filter (\<lambda>j. j_name j \<noteq> job) (t_job c1)\<rparr>
      in RemoveHash c2 ''build_certs'' job)"

definition port_settings :: "workspace_files \<Rightarrow> error + (string \<times> string) list option" where
  "port_settings files =
     (case wf_bucket files of None \<Rightarrow> Ok None | Some None \<Rightarrow> Err ErrInvalidBucketConf | Some (Some conf) \<Rightarrow> Ok (Some conf))"

definition BuildJobs ::
  "'f floats \<Rightarrow> (string \<Rightarrow> string) \<Rightarrow> ((string \<times> cert_config) list \<Rightarrow> string) \<Rightarrow> workspace_files \<Rightarrow> workspace \<Rightarrow>
   catalog \<Rightarrow> error + catalog \<times> string list" where
  "BuildJobs fl uuid certHash files ws c =
     (let jobs = sort_strings (ws_jobs ws) in
      rbind (manifests_to_ports (ws_manifest ws) jobs) (\<lambda>manifests.
      rbind (port_settings files) (\<lambda>settings.
      rbind (buildPortAllocator c manifests settings) (\<lambda>allocator.
      rbind (rfold (build_job fl uuid certHash files ws) (c, allocator) jobs) (\<lambda>(c1, _).
        let gone = Difference (GetJobs c1) jobs in Ok (foldl (remove_job uuid) c1 gone, gone))))))"

end
