(* ===== verification/BuildJobsLaws.thy ===== *)
theory BuildJobsLaws
  imports BuildJobs
begin

text \<open>
  What \<open>BuildJobs\<close> leaves in the catalog: the jobs of the workspace and no others, each with the selectors,
  commands and certificates of its manifest, and a port table in which no number occurs twice.
\<close>

section \<open>Tables of jobs\<close>

definition jobs_ok :: "(string \<Rightarrow> string) \<Rightarrow> catalog \<Rightarrow> bool" where
  "jobs_ok uuid c \<longleftrightarrow> distinct (map j_name (t_job c)) \<and> (\<forall>j \<in> set (t_job c). j_id j = uuid (j_name j)) \<and>
     distinct (map (\<lambda>h. (h_namespace h, h_key h)) (t_hash c))"

text \<open>\<open>c'\<close> differs from \<open>c\<close> in the tables of the jobs and in \<open>hash\<close> at most.\<close>

definition only_jobs :: "catalog \<Rightarrow> catalog \<Rightarrow> bool" where
  "only_jobs c c' \<longleftrightarrow> t_bucket c' = t_bucket c \<and> t_worker c' = t_worker c \<and> t_worker_labels c' = t_worker_labels c \<and>
     t_worker_tags c' = t_worker_tags c \<and> t_allocations c' = t_allocations c"

lemma only_jobs_refl: "only_jobs c c" and only_jobs_trans: "only_jobs c d \<Longrightarrow> only_jobs d e \<Longrightarrow> only_jobs c e"
  by (simp_all add: only_jobs_def)

text \<open>The catalog shows a job as its manifest has it.\<close>

definition shows_job :: "(string \<Rightarrow> string) \<Rightarrow> catalog \<Rightarrow> string \<Rightarrow> manifest \<Rightarrow> bool" where
  "shows_job uuid c job m \<longleftrightarrow>
     (\<exists>j \<in> set (t_job c). j_name j = job \<and> j_version j = JobVersion m \<and> j_max_upgrades j = manifestMaxConcurrentUpgrades m) \<and>
     map snd (filter (\<lambda>(i, _). i = uuid job) (t_job_selectors c)) = PlacementSelectors job m \<and>
     filter (\<lambda>q. q_job_id q = uuid job) (t_job_commands c) = concat (map (command_rows (uuid job) job) (ListedCommands m)) \<and>
     map snd (filter (\<lambda>(i, _). i = uuid job) (t_job_certs c)) = m_certs m"

lemma UpdateHash_frame:
  assumes "UpdateHash c ns k hash = Ok c'"
  shows "c' = c\<lparr>t_hash := t_hash c'\<rparr> \<and>
    (distinct (map (\<lambda>h. (h_namespace h, h_key h)) (t_hash c)) \<longrightarrow> distinct (map (\<lambda>h. (h_namespace h, h_key h)) (t_hash c')))"
proof (cases "hash_rows c ns k")
  case Nil
  then have "(ns, k) \<notin> (\<lambda>h. (h_namespace h, h_key h)) ` set (t_hash c)" by (auto simp: hash_rows_def filter_empty_conv)
  with Nil assms show ?thesis by (auto simp: UpdateHash_def insert_hash_def)
next
  case (Cons h hs)
  let ?f = "\<lambda>h. if h_namespace h = ns \<and> h_key h = k then h\<lparr>h_current_hash := Some hash\<rparr> else h"
  have key: "map (\<lambda>h. (h_namespace h, h_key h)) (map ?f rows) = map (\<lambda>h. (h_namespace h, h_key h)) rows" for rows
    by (induction rows) auto
  have "c' = c\<lparr>t_hash := map ?f (t_hash c)\<rparr>" using Cons assms by (auto simp: UpdateHash_def update_hash_def split: if_splits)
  then show ?thesis by (simp add: key del: map_map)
qed

lemma add_commands:
  "rfold (add_command ws jobID job) rows cs = Ok rows' \<Longrightarrow> rows' = rows @ concat (map (command_rows jobID job) cs)"
proof (induction cs arbitrary: rows)
  case (Cons x cs)
  then have "rfold (add_command ws jobID job) (rows @ command_rows jobID job x) cs = Ok rows'"
    by (cases "check_command ws job x") (simp_all add: add_command_def [of ws jobID job rows])
  from Cons.IH [OF this] show ?case by simp
qed simp

lemma filter_own_commands: "filter (\<lambda>q. q_job_id q = i) (concat (map (command_rows i job) cs)) = concat (map (command_rows i job) cs)"
  by (induction cs) (auto simp: command_rows_def filter_map comp_def)

lemma filter_other_commands: "i \<noteq> k \<Longrightarrow> filter (\<lambda>q. q_job_id q = k) (concat (map (command_rows i job) cs)) = []"
  by (induction cs) (auto simp: command_rows_def filter_map comp_def)

lemma job_row_of_Ok:
  "job_row_of fl uuid files ws job m = Ok row \<Longrightarrow>
   j_id row = uuid job \<and> j_name row = job \<and> j_version row = JobVersion m \<and> j_max_upgrades row = manifestMaxConcurrentUpgrades m"
  by (auto simp: job_row_of_def rbind_Inr_conv split: prod.splits)

section \<open>One job\<close>

lemma build_job_parts:
  assumes "build_job fl uuid certHash files ws (c, a) job = Ok (c', a')"
  obtains m row ports hashes files' where "ws_manifest ws job = Ok m"
    and "j_id row = uuid job" "j_name row = job" "j_version row = JobVersion m" "j_max_upgrades row = manifestMaxConcurrentUpgrades m"
    and "syncJobPorts (uuid job) job (m_ports m) (t_job_ports c, a) = Ok (ports, a')"
    and "c' = c\<lparr>t_job := filter (\<lambda>j. j_name j \<noteq> job) (t_job c) @ [row],
       t_job_selectors := filter (\<lambda>(i, _). i \<noteq> uuid job) (t_job_selectors c) @ map (\<lambda>sel. (uuid job, sel)) (PlacementSelectors job m),
       t_job_ports := ports,
       t_job_commands := filter (\<lambda>q. q_job_id q \<noteq> uuid job) (t_job_commands c) @ concat (map (command_rows (uuid job) job) (ListedCommands m)),
       t_job_files := files',
       t_job_certs := filter (\<lambda>(i, _). i \<noteq> uuid job) (t_job_certs c) @ map (\<lambda>(name, config). (uuid job, name, config)) (m_certs m),
       t_hash := hashes\<rparr>"
    and "distinct (map (\<lambda>h. (h_namespace h, h_key h)) (t_hash c)) \<Longrightarrow> distinct (map (\<lambda>h. (h_namespace h, h_key h)) hashes)"
proof -
  let ?c1 = "purge_children (uuid job) c"
  from assms obtain m row where m: "ws_manifest ws job = Ok m" and row: "job_row_of fl uuid files ws job m = Ok row"
    by (auto simp: build_job_def Let_def rbind_Inr_conv)
  let ?c2 = "?c1\<lparr>t_job := filter (\<lambda>j. j_name j \<noteq> job) (t_job ?c1) @ [row],
      t_job_selectors := t_job_selectors ?c1 @ map (\<lambda>sel. (uuid job, sel)) (PlacementSelectors job m)\<rparr>"
  from assms m row obtain ports a1 commands where
      ports: "syncJobPorts (uuid job) job (m_ports m) (t_job_ports c, a) = Ok (ports, a1)"
    and commands: "rfold (add_command ws (uuid job) job) (t_job_commands ?c2) (ListedCommands m) = Ok commands"
    by (auto simp: build_job_def Let_def rbind_Inr_conv purge_children_def)
  with assms m row obtain walked c3 where
      c3: "UpdateHash (?c2\<lparr>t_job_ports := ports, t_job_commands := commands,
            t_job_files := t_job_files ?c2 @
              map (\<lambda>(p, content, dir). \<lparr>f_job_id = uuid job, f_path = p, f_content = content, f_isdir = dir\<rparr>) walked\<rparr>)
          ''build_certs'' job (certHash (m_certs m)) = Ok c3" (is "UpdateHash ?d _ _ _ = _")
    and c': "c' = c3\<lparr>t_job_certs := t_job_certs c3 @ map (\<lambda>(name, config). (uuid job, name, config)) (m_certs m)\<rparr>" and a': "a' = a1"
    by (auto simp: build_job_def Let_def rbind_Inr_conv purge_children_def split: if_splits)
  from UpdateHash_frame [OF c3] have f: "c3 = ?d\<lparr>t_hash := t_hash c3\<rparr>"
    and h: "distinct (map (\<lambda>h. (h_namespace h, h_key h)) (t_hash c)) \<Longrightarrow> distinct (map (\<lambda>h. (h_namespace h, h_key h)) (t_hash c3))"
    by (simp_all add: purge_children_def)
  have cmds: "commands = filter (\<lambda>q. q_job_id q \<noteq> uuid job) (t_job_commands c) @ concat (map (command_rows (uuid job) job) (ListedCommands m))"
    using add_commands [OF commands] by (simp add: purge_children_def)
  show ?thesis
  proof (rule that [OF m])
    show "syncJobPorts (uuid job) job (m_ports m) (t_job_ports c, a) = Ok (ports, a')" using ports a' by simp
    show "c' = c\<lparr>t_job := filter (\<lambda>j. j_name j \<noteq> job) (t_job c) @ [row],
       t_job_selectors := filter (\<lambda>(i, _). i \<noteq> uuid job) (t_job_selectors c) @ map (\<lambda>sel. (uuid job, sel)) (PlacementSelectors job m),
       t_job_ports := ports,
       t_job_commands := filter (\<lambda>q. q_job_id q \<noteq> uuid job) (t_job_commands c) @ concat (map (command_rows (uuid job) job) (ListedCommands m)),
       t_job_files := t_job_files ?d,
       t_job_certs := filter (\<lambda>(i, _). i \<noteq> uuid job) (t_job_certs c) @ map (\<lambda>(name, config). (uuid job, name, config)) (m_certs m),
       t_hash := t_hash c3\<rparr>"
      unfolding c' by (subst (1 2) f) (simp add: purge_children_def cmds)
  qed (use job_row_of_Ok [OF row] h in simp_all)
qed

lemma filter_same_id:
  "filter (\<lambda>(i, _). i = k) (filter (\<lambda>(i, _). i \<noteq> j) xs @ map (\<lambda>y. (j, f y)) ys) =
     (if k = j then map (\<lambda>y. (j, f y)) ys else filter (\<lambda>(i, _). i = k) xs)"
  by (induction xs) (auto simp: filter_map comp_def)

lemma filter_same_cert:
  "filter (\<lambda>(i, _). i = k) (filter (\<lambda>(i, _). i \<noteq> j) xs @ map (\<lambda>(y, z). (j, y, z)) ys) =
     (if k = j then map (\<lambda>(y, z). (j, y, z)) ys else filter (\<lambda>(i, _). i = k) xs)"
  using filter_same_id [of k j xs "\<lambda>y. y" ys] by (simp add: case_prod_unfold)

lemma build_job_step:
  assumes run: "build_job fl uuid certHash files ws (c, a) job = Ok (c', a')" and ok: "jobs_ok uuid c" and inj: "inj uuid"
  shows "jobs_ok uuid c' \<and> only_jobs c c' \<and> j_name ` set (t_job c') = insert job (j_name ` set (t_job c)) \<and>
    (\<exists>m. ws_manifest ws job = Ok m \<and> shows_job uuid c' job m \<and>
         syncJobPorts (uuid job) job (m_ports m) (t_job_ports c, a) = Ok (t_job_ports c', a')) \<and>
    (\<forall>k m. k \<noteq> job \<longrightarrow> shows_job uuid c k m \<longrightarrow> shows_job uuid c' k m)"
  using run
proof (rule build_job_parts)
  fix m row ports hashes files'
  assume m: "ws_manifest ws job = Ok m"
    and row: "j_id row = uuid job" "j_name row = job" "j_version row = JobVersion m" "j_max_upgrades row = manifestMaxConcurrentUpgrades m"
    and ports: "syncJobPorts (uuid job) job (m_ports m) (t_job_ports c, a) = Ok (ports, a')"
    and hashes: "distinct (map (\<lambda>h. (h_namespace h, h_key h)) (t_hash c)) \<Longrightarrow> distinct (map (\<lambda>h. (h_namespace h, h_key h)) hashes)"
    and c': "c' = c\<lparr>t_job := filter (\<lambda>j. j_name j \<noteq> job) (t_job c) @ [row],
       t_job_selectors := filter (\<lambda>(i, _). i \<noteq> uuid job) (t_job_selectors c) @ map (\<lambda>sel. (uuid job, sel)) (PlacementSelectors job m),
       t_job_ports := ports,
       t_job_commands := filter (\<lambda>q. q_job_id q \<noteq> uuid job) (t_job_commands c) @ concat (map (command_rows (uuid job) job) (ListedCommands m)),
       t_job_files := files',
       t_job_certs := filter (\<lambda>(i, _). i \<noteq> uuid job) (t_job_certs c) @ map (\<lambda>(name, config). (uuid job, name, config)) (m_certs m),
       t_hash := hashes\<rparr>"
  have "jobs_ok uuid c'" using ok hashes row by (auto simp: jobs_ok_def c' distinct_map_filter)
  moreover have "only_jobs c c'" by (simp add: only_jobs_def c')
  moreover have "j_name ` set (t_job c') = insert job (j_name ` set (t_job c))" using row by (auto simp: c')
  moreover have "shows_job uuid c' job m"
    using row filter_same_id [of "uuid job" "uuid job" "t_job_selectors c" "\<lambda>y. y"]
      filter_same_cert [of "uuid job" "uuid job" "t_job_certs c"]
    by (simp add: shows_job_def c' filter_own_commands comp_def case_prod_unfold)
  moreover have "shows_job uuid c' k n" if k: "k \<noteq> job" and s: "shows_job uuid c k n" for k n
  proof -
    have u: "uuid k \<noteq> uuid job" "uuid job \<noteq> uuid k" using inj k by (auto dest: injD)
    have conj: "(x \<noteq> uuid job \<and> x = uuid k) = (x = uuid k)" for x using u by auto
    have "\<exists>j \<in> set (t_job c'). j_name j = k \<and> j_version j = JobVersion n \<and> j_max_upgrades j = manifestMaxConcurrentUpgrades n"
      using s k by (auto simp: shows_job_def c')
    moreover have "map snd (filter (\<lambda>(i, _). i = uuid k) (t_job_selectors c')) = PlacementSelectors k n"
      "map snd (filter (\<lambda>(i, _). i = uuid k) (t_job_certs c')) = m_certs n"
      "filter (\<lambda>q. q_job_id q = uuid k) (t_job_commands c') = concat (map (command_rows (uuid k) k) (ListedCommands n))"
      using s u filter_same_id [of "uuid k" "uuid job" "t_job_selectors c" "\<lambda>y. y"]
        filter_same_cert [of "uuid k" "uuid job" "t_job_certs c"]
      by (simp_all add: shows_job_def c' filter_other_commands conj)
    ultimately show ?thesis by (simp add: shows_job_def)
  qed
  moreover have "t_job_ports c' = ports" by (simp add: c')
  ultimately show ?thesis using m ports by blast
qed

section \<open>Ports\<close>

definition ports_decoded :: "workspace \<Rightarrow> bool" where
  "ports_decoded ws \<longleftrightarrow> (\<forall>job \<in> set (ws_jobs ws). \<forall>m. ws_manifest ws job = Ok m \<longrightarrow> distinct_keys (m_ports m))"

text \<open>The port table: every row belongs to a job, and no number and no name of a job occurs twice.\<close>

definition port_table_ok :: "(string \<Rightarrow> string) \<Rightarrow> catalog \<Rightarrow> bool" where
  "port_table_ok uuid c \<longleftrightarrow> (\<forall>p \<in> set (t_job_ports c). p_job_id p \<in> uuid ` j_name ` set (t_job c)) \<and>
     distinct (map (\<lambda>p. (p_job_id p, p_name p)) (t_job_ports c)) \<and> distinct (map p_port (t_job_ports c))"

text \<open>The allocator knows the number of every row.\<close>

definition rows_allotted :: "(string \<Rightarrow> string) \<Rightarrow> port_row list \<Rightarrow> port_allocator \<Rightarrow> bool" where
  "rows_allotted uuid rows a \<longleftrightarrow> ports_ok a \<and> maps_ok a \<and> distinct (map (\<lambda>p. (p_job_id p, p_name p)) rows) \<and>
     (\<forall>p \<in> set rows. \<exists>job. p_job_id p = uuid job \<and> asg a (job, p_name p) = Some (p_port p))"

lemma allotted_unique:
  assumes "rows_allotted uuid rows a"
  shows "distinct (map p_port rows)"
proof -
  have d: "distinct (map (\<lambda>p. (p_job_id p, p_name p)) rows)" using assms by (simp add: rows_allotted_def)
  have e: "exact_but (asg a) (set (pa_used a)) {}" using assms by (simp add: rows_allotted_def ports_ok_def)
  have "inj_on p_port (set rows)"
  proof (rule inj_onI)
    fix p q assume p: "p \<in> set rows" and q: "q \<in> set rows" and eq: "p_port p = p_port q"
    from assms p q obtain j k where j: "p_job_id p = uuid j" "asg a (j, p_name p) = Some (p_port p)"
      and k: "p_job_id q = uuid k" "asg a (k, p_name q) = Some (p_port q)" unfolding rows_allotted_def by blast
    have "(j, p_name p) = (k, p_name q)" by (rule exact_inj [OF e j(2)]) (use k(2) eq in simp_all)
    then have "(p_job_id p, p_name p) = (p_job_id q, p_name q)" using j k by simp
    with d p q show "p = q" by (auto simp: distinct_map dest: inj_onD)
  qed
  with d show ?thesis by (auto simp: distinct_map)
qed

lemma allotted_step:
  assumes run: "syncJobPorts (uuid job) job ports (rows, a) = Ok (rows', a')" and ok: "rows_allotted uuid rows a"
    and d: "distinct_keys ports" and inj: "inj uuid"
  shows "rows_allotted uuid rows' a' \<and> p_job_id ` set rows' \<subseteq> insert (uuid job) (p_job_id ` set rows)"
proof -
  note s = syncJobPorts_step [OF run _ _ d]
  have ok': "ports_ok a" "maps_ok a" using ok by (simp_all add: rows_allotted_def)
  note s = s [OF ok']
  have rows': "rows' = filter (\<lambda>p. p_job_id p \<noteq> uuid job) rows @
      map (\<lambda>n. \<lparr>p_job_id = uuid job, p_name = n, p_port = the (asg a' (job, n))\<rparr>) (port_Names ports)" using s by blast
  have new: "asg a' (job, n) = Some (the (asg a' (job, n)))" if "n \<in> fst ` set ports" for n using s that by force
  have "\<exists>j. p_job_id p = uuid j \<and> asg a' (j, p_name p) = Some (p_port p)" if "p \<in> set rows'" for p
  proof (cases "p_job_id p = uuid job")
    case True
    then have "p \<in> (\<lambda>n. \<lparr>p_job_id = uuid job, p_name = n, p_port = the (asg a' (job, n))\<rparr>) ` set (port_Names ports)"
      using that by (simp add: rows')
    then obtain n where "n \<in> fst ` set ports" "p = \<lparr>p_job_id = uuid job, p_name = n, p_port = the (asg a' (job, n))\<rparr>"
      by (auto simp del: set_map)
    then show ?thesis using new [of n] by (intro exI [of _ job]) simp
  next
    case False
    then have "p \<in> set rows" using that by (auto simp: rows')
    then obtain j where j: "p_job_id p = uuid j" "asg a (j, p_name p) = Some (p_port p)" using ok by (auto simp: rows_allotted_def)
    moreover have "j \<noteq> job" using False j by auto
    ultimately show ?thesis using s by auto
  qed
  moreover have "distinct (map (\<lambda>p. (p_job_id p, p_name p)) rows')"
    using ok distinct_port_Names [OF d] by (auto simp: rows_allotted_def rows' distinct_map_filter comp_def distinct_map inj_on_def)
  ultimately show ?thesis using s by (auto simp: rows_allotted_def rows')
qed

text \<open>The allocator of a build: the assignments of the port table.\<close>

lemma assign_loop:
  "map_of (inner_map (foldl (\<lambda>m (j, n, p). assign m j n p) m xs) j) n =
     (case map_of (map (\<lambda>(j, n, p). ((j, n), p)) (rev xs)) (j, n) of Some p \<Rightarrow> Some p | None \<Rightarrow> map_of (inner_map m j) n)"
proof (induction xs arbitrary: m)
  case (Cons x xs)
  obtain k l p where x: "x = (k, l, p)" by (cases x) auto
  show ?case using Cons.IH [of "assign m k l p"]
    by (auto simp: x map_of_append map_add_def inner_map_assign map_of_AList_update split: option.splits)
qed simp

definition keyed_twice :: "port_assignments \<Rightarrow> bool" where
  "keyed_twice m \<longleftrightarrow> distinct_keys m \<and> (\<forall>(j, ports) \<in> set m. distinct_keys ports)"

lemma keyed_assign: "keyed_twice m \<Longrightarrow> keyed_twice (foldl (\<lambda>m (j, n, p). assign m j n p) m xs)"
proof (induction xs arbitrary: m)
  case (Cons x xs)
  obtain k l p where x: "x = (k, l, p)" by (cases x) auto
  have inner: "distinct_keys (inner_map m k)"
    using Cons.prems by (auto simp: keyed_twice_def inner_map_def split: option.split dest!: map_of_SomeD)
  have "set (AList.update k q m) \<subseteq> insert (k, q) (set m)" for q
    by (induction m) auto
  from this [of "AList.update l p (inner_map m k)"] have "keyed_twice (assign m k l p)"
    using Cons.prems inner by (fastforce simp: keyed_twice_def assign_def distinct_update)
  from Cons.IH [OF this] show ?case by (simp add: x)
qed simp

lemma keyed_lookup:
  "keyed_twice m \<Longrightarrow> (\<exists>(j, ports) \<in> set m. (n, p) \<in> set ports) \<longleftrightarrow> (\<exists>j. map_of (inner_map m j) n = Some p)"
proof
  assume m: "keyed_twice m" and "\<exists>(j, ports) \<in> set m. (n, p) \<in> set ports"
  then obtain j ports where "(j, ports) \<in> set m" "(n, p) \<in> set ports" by blast
  then have "map_of (inner_map m j) n = Some p" using m by (auto simp: keyed_twice_def inner_map_def)
  then show "\<exists>j. map_of (inner_map m j) n = Some p" ..
next
  assume "\<exists>j. map_of (inner_map m j) n = Some p"
  then obtain j ports where "map_of m j = Some ports" "map_of ports n = Some p"
    by (auto simp: inner_map_def split: option.splits)
  then have "(j, ports) \<in> set m" "(n, p) \<in> set ports" by (auto dest: map_of_SomeD)
  then show "\<exists>(j, ports) \<in> set m. (n, p) \<in> set ports" by blast
qed

lemma used_numbers:
  "p \<in> set (concat (map (\<lambda>(_, ports). map snd ports) m)) \<longleftrightarrow> (\<exists>n. \<exists>(j, ports) \<in> set m. (n, p) \<in> set ports)"
proof (induction m)
  case (Cons x m)
  have "p \<in> snd ` set (snd x) \<longleftrightarrow> (\<exists>n. (n, p) \<in> set (snd x))" by force
  with Cons show ?case by (auto simp: case_prod_unfold)
qed simp

lemma allotted_start:
  assumes ok: "port_table_ok uuid c" and jobs: "jobs_ok uuid c" and inj: "inj uuid"
  shows "rows_allotted uuid (t_job_ports c) (newPortAllocator (GetAllJobPortAssignments c) r)"
proof -
  let ?a = "newPortAllocator (GetAllJobPortAssignments c) r"
  have ids: "j_id j = uuid (j_name j)" if "j \<in> set (t_job c)" for j using jobs that by (simp add: jobs_ok_def)
  have mem: "(j, n, p) \<in> set (joined_ports c) \<longleftrightarrow> (\<exists>q \<in> set (t_job_ports c). j \<in> j_name ` set (t_job c) \<and>
      p_job_id q = uuid j \<and> p_name q = n \<and> p_port q = p)" for j n p
    using ids by (auto simp: joined_ports_def image_iff) (metis)+
  have one: "q = q'" if "q \<in> set (t_job_ports c)" "q' \<in> set (t_job_ports c)" "p_job_id q = p_job_id q'" "p_name q = p_name q'" for q q'
    using ok that by (auto simp: port_table_ok_def distinct_map dest: inj_onD)
  have asg: "asg ?a (j, n) = Some p \<longleftrightarrow> (j, n, p) \<in> set (joined_ports c)" for j n p
  proof -
    have 1: "asg ?a (j, n) = map_of (map (\<lambda>(j, n, p). ((j, n), p)) (rev (joined_ports c))) (j, n)"
      using assign_loop [of "[]" "joined_ports c" j n]
      by (simp add: asg_def assigned_def newPortAllocator_def GetAllJobPortAssignments_def inner_map_def [of "[]"] split: option.split)
    show ?thesis
    proof
      assume "asg ?a (j, n) = Some p"
      then show "(j, n, p) \<in> set (joined_ports c)" unfolding 1 by (auto dest!: map_of_SomeD)
    next
      assume p: "(j, n, p) \<in> set (joined_ports c)"
      then have "asg ?a (j, n) \<noteq> None" unfolding 1 map_of_eq_None_iff by force
      then obtain p' where p': "asg ?a (j, n) = Some p'" by blast
      then have "(j, n, p') \<in> set (joined_ports c)" unfolding 1 by (auto dest!: map_of_SomeD)
      with p have "p' = p" unfolding mem using one by metis
      with p' show "asg ?a (j, n) = Some p" by simp
    qed
  qed
  have k: "keyed_twice (GetAllJobPortAssignments c)"
    unfolding GetAllJobPortAssignments_def by (rule keyed_assign) (simp add: keyed_twice_def)
  have "maps_ok ?a" using k by (auto simp: maps_ok_def newPortAllocator_def keyed_twice_def inner_map_def split: option.split dest!: map_of_SomeD)
  moreover have "ports_ok ?a"
    unfolding ports_ok_def exact_but_def
  proof (intro conjI allI impI)
    fix k k' p assume "asg ?a k = Some p" "asg ?a k' = Some p"
    then obtain q q' where q: "q \<in> set (t_job_ports c)" "p_job_id q = uuid (fst k)" "p_name q = snd k" "p_port q = p"
      and q': "q' \<in> set (t_job_ports c)" "p_job_id q' = uuid (fst k')" "p_name q' = snd k'" "p_port q' = p"
      by (cases k; cases k') (auto simp: asg mem)
    then have "q = q'" using ok by (auto simp: port_table_ok_def distinct_map dest: inj_onD)
    then have "uuid (fst k) = uuid (fst k')" "snd k = snd k'" using q(2,3) q'(2,3) by simp_all
    then show "k = k'" using inj by (simp add: inj_eq prod_eq_iff)
  next
    fix p
    have "p \<in> set (pa_used ?a) \<longleftrightarrow> (\<exists>n. \<exists>(j, ports) \<in> set (GetAllJobPortAssignments c). (n, p) \<in> set ports)"
      unfolding newPortAllocator_def port_allocator.simps by (rule used_numbers)
    also have "\<dots> \<longleftrightarrow> (\<exists>n j. map_of (inner_map (GetAllJobPortAssignments c) j) n = Some p)" unfolding keyed_lookup [OF k] ..
    also have "\<dots> \<longleftrightarrow> (\<exists>k. asg ?a k = Some p)" by (auto simp: asg_def assigned_def newPortAllocator_def)
    finally show "p \<in> set (pa_used ?a) \<longleftrightarrow> (\<exists>k. k \<notin> {} \<and> asg ?a k = Some p)" by simp
  qed
  moreover have "\<exists>job. p_job_id q = uuid job \<and> asg ?a (job, p_name q) = Some (p_port q)" if q: "q \<in> set (t_job_ports c)" for q
  proof -
    have "p_job_id q \<in> uuid ` j_name ` set (t_job c)" using ok q unfolding port_table_ok_def by blast
    then obtain j where "j \<in> j_name ` set (t_job c)" "p_job_id q = uuid j" by (rule imageE)
    with q show ?thesis by (intro exI [of _ j]) (auto simp: asg mem)
  qed
  ultimately show ?thesis using ok by (simp add: rows_allotted_def port_table_ok_def)
qed

section \<open>All jobs\<close>

lemma build_jobs_loop:
  assumes "rfold (build_job fl uuid certHash files ws) (c, a) jobs = Ok (c', a')" and "jobs_ok uuid c" and inj: "inj uuid"
    and "rows_allotted uuid (t_job_ports c) a" and "distinct jobs"
    and "\<forall>job \<in> set jobs. \<forall>m. ws_manifest ws job = Ok m \<longrightarrow> distinct_keys (m_ports m)"
  shows "jobs_ok uuid c' \<and> only_jobs c c' \<and> j_name ` set (t_job c') = set jobs \<union> j_name ` set (t_job c) \<and>
    (\<forall>job \<in> set jobs. \<exists>m. ws_manifest ws job = Ok m \<and> shows_job uuid c' job m) \<and>
    (\<forall>k m. k \<notin> set jobs \<longrightarrow> shows_job uuid c k m \<longrightarrow> shows_job uuid c' k m) \<and>
    rows_allotted uuid (t_job_ports c') a' \<and> p_job_id ` set (t_job_ports c') \<subseteq> uuid ` set jobs \<union> p_job_id ` set (t_job_ports c)"
  using assms(1,2,4-6)
proof (induction jobs arbitrary: c a)
  case (Cons job jobs)
  from Cons.prems(1) obtain d b where one: "build_job fl uuid certHash files ws (c, a) job = Ok (d, b)"
    and rest: "rfold (build_job fl uuid certHash files ws) (d, b) jobs = Ok (c', a')" by (auto simp: rbind_Inr_conv)
  from build_job_step [OF one Cons.prems(2) inj] obtain m where d: "jobs_ok uuid d" "only_jobs c d"
    "j_name ` set (t_job d) = insert job (j_name ` set (t_job c))"
    and m: "ws_manifest ws job = Ok m" "shows_job uuid d job m"
    and ports: "syncJobPorts (uuid job) job (m_ports m) (t_job_ports c, a) = Ok (t_job_ports d, b)"
    and keep: "\<And>k m. k \<noteq> job \<Longrightarrow> shows_job uuid c k m \<Longrightarrow> shows_job uuid d k m" by blast
  have dj: "distinct jobs" and man: "\<forall>j \<in> set jobs. \<forall>m. ws_manifest ws j = Ok m \<longrightarrow> distinct_keys (m_ports m)"
    and dk: "distinct_keys (m_ports m)" using Cons.prems(4,5) m(1) by auto
  note allot = allotted_step [OF ports Cons.prems(3) dk inj]
  note whole = Cons.IH [OF rest d(1) conjunct1 [OF allot] dj man]
  have ih: "jobs_ok uuid c'" "only_jobs d c'" "j_name ` set (t_job c') = set jobs \<union> j_name ` set (t_job d)"
    "\<And>j. j \<in> set jobs \<Longrightarrow> \<exists>m. ws_manifest ws j = Ok m \<and> shows_job uuid c' j m"
    "\<And>k m. k \<notin> set jobs \<Longrightarrow> shows_job uuid d k m \<Longrightarrow> shows_job uuid c' k m"
    "rows_allotted uuid (t_job_ports c') a'" "p_job_id ` set (t_job_ports c') \<subseteq> uuid ` set jobs \<union> p_job_id ` set (t_job_ports d)"
    using whole by simp_all
  have "\<exists>m. ws_manifest ws job = Ok m \<and> shows_job uuid c' job m" using m ih(5) Cons.prems(4) by auto
  moreover have "p_job_id ` set (t_job_ports c') \<subseteq> uuid ` set (job # jobs) \<union> p_job_id ` set (t_job_ports c)"
    using ih(7) conjunct2 [OF allot] by (simp only: list.set image_insert) blast
  ultimately show ?case using ih(1,3,4,5,6) d(3) keep only_jobs_trans [OF d(2) ih(2)] by auto
qed (simp add: only_jobs_refl)

lemma remove_job_step:
  assumes ok: "jobs_ok uuid c" and inj: "inj uuid" and ports: "port_table_ok uuid c"
  shows "jobs_ok uuid (remove_job uuid c job) \<and> only_jobs c (remove_job uuid c job) \<and> port_table_ok uuid (remove_job uuid c job) \<and>
    j_name ` set (t_job (remove_job uuid c job)) = j_name ` set (t_job c) - {job} \<and>
    (\<forall>k m. k \<noteq> job \<longrightarrow> shows_job uuid c k m \<longrightarrow> shows_job uuid (remove_job uuid c job) k m)"
proof -
  have tables: "t_job (remove_job uuid c job) = filter (\<lambda>j. j_name j \<noteq> job) (t_job c)"
    "t_job_ports (remove_job uuid c job) = filter (\<lambda>p. p_job_id p \<noteq> uuid job) (t_job_ports c)"
    "t_job_selectors (remove_job uuid c job) = filter (\<lambda>(i, _). i \<noteq> uuid job) (t_job_selectors c)"
    "t_job_certs (remove_job uuid c job) = filter (\<lambda>(i, _). i \<noteq> uuid job) (t_job_certs c)"
    "t_job_commands (remove_job uuid c job) = filter (\<lambda>q. q_job_id q \<noteq> uuid job) (t_job_commands c)"
    "t_hash (remove_job uuid c job) = filter (\<lambda>h. \<not> (h_namespace h = ''build_certs'' \<and> h_key h = job)) (t_hash c)"
    by (simp_all add: remove_job_def Let_def purge_children_def RemoveHash_def)
  have "shows_job uuid (remove_job uuid c job) k m" if k: "k \<noteq> job" and s: "shows_job uuid c k m" for k m
  proof -
    have "uuid k \<noteq> uuid job" using inj k by (auto dest: injD)
    then have conj: "(x \<noteq> uuid job \<and> x = uuid k) = (x = uuid k)" for x by auto
    show ?thesis using s k unfolding shows_job_def tables by (auto simp: conj case_prod_unfold)
  qed
  moreover have "port_table_ok uuid (remove_job uuid c job)"
  proof -
    have "p_job_id p \<in> uuid ` j_name ` set (filter (\<lambda>j. j_name j \<noteq> job) (t_job c))"
      if p: "p \<in> set (t_job_ports c)" "p_job_id p \<noteq> uuid job" for p
    proof -
      obtain j where "j \<in> set (t_job c)" "p_job_id p = uuid (j_name j)" using ports p(1) by (fastforce simp: port_table_ok_def)
      then show ?thesis using p(2) by (intro image_eqI [of _ uuid "j_name j"] imageI) auto
    qed
    then show ?thesis using ports by (simp add: port_table_ok_def tables distinct_map_filter)
  qed
  ultimately show ?thesis
    using ok by (auto simp: jobs_ok_def tables distinct_map_filter only_jobs_def remove_job_def Let_def purge_children_def RemoveHash_def)
qed

lemma remove_jobs_loop:
  assumes "jobs_ok uuid c" and inj: "inj uuid" and "port_table_ok uuid c"
  shows "jobs_ok uuid (foldl (remove_job uuid) c gone) \<and> only_jobs c (foldl (remove_job uuid) c gone) \<and>
    port_table_ok uuid (foldl (remove_job uuid) c gone) \<and>
    j_name ` set (t_job (foldl (remove_job uuid) c gone)) = j_name ` set (t_job c) - set gone \<and>
    (\<forall>k m. k \<notin> set gone \<longrightarrow> shows_job uuid c k m \<longrightarrow> shows_job uuid (foldl (remove_job uuid) c gone) k m)"
  using assms(1,3)
proof (induction gone arbitrary: c)
  case (Cons job gone)
  note s = remove_job_step [OF Cons.prems(1) inj Cons.prems(2), of job]
  from Cons.IH [of "remove_job uuid c job"] s show ?case by (auto intro: only_jobs_trans)
qed (simp add: only_jobs_refl)

lemma BuildJobs_exact:
  assumes run: "BuildJobs fl uuid certHash files ws c = Ok (c', gone)" and ok: "jobs_ok uuid c" and ports: "port_table_ok uuid c"
    and inj: "inj uuid" and dec: "ports_decoded ws" and d: "distinct (ws_jobs ws)"
  shows "jobs_ok uuid c' \<and> only_jobs c c' \<and> port_table_ok uuid c' \<and> j_name ` set (t_job c') = set (ws_jobs ws) \<and>
    set gone = j_name ` set (t_job c) - set (ws_jobs ws) \<and>
    (\<forall>job \<in> set (ws_jobs ws). \<exists>m. ws_manifest ws job = Ok m \<and> shows_job uuid c' job m)"
proof -
  let ?jobs = "sort_strings (ws_jobs ws)"
  from run obtain manifests settings a c1 a1 where alloc: "buildPortAllocator c manifests settings = Ok a"
    and loop: "rfold (build_job fl uuid certHash files ws) (c, a) ?jobs = Ok (c1, a1)"
    and gone: "gone = Difference (GetJobs c1) ?jobs" and c': "c' = foldl (remove_job uuid) c1 gone"
    by (auto simp: BuildJobs_def Let_def rbind_Inr_conv)
  have "rows_allotted uuid (t_job_ports c) a"
    using alloc allotted_start [OF ports ok inj] by (auto simp: buildPortAllocator_def rbind_Inr_conv Let_def)
  note l = build_jobs_loop [OF loop ok inj this]
  have l: "jobs_ok uuid c1" "only_jobs c c1" "j_name ` set (t_job c1) = set (ws_jobs ws) \<union> j_name ` set (t_job c)"
    "\<And>job. job \<in> set (ws_jobs ws) \<Longrightarrow> \<exists>m. ws_manifest ws job = Ok m \<and> shows_job uuid c1 job m"
    "rows_allotted uuid (t_job_ports c1) a1" "p_job_id ` set (t_job_ports c1) \<subseteq> uuid ` set (ws_jobs ws) \<union> p_job_id ` set (t_job_ports c)"
    using l d dec by (simp_all add: ports_decoded_def)
  have g: "set gone = j_name ` set (t_job c) - set (ws_jobs ws)" using l(3) by (auto simp: gone GetJobs_def)
  have "p_job_id p \<in> uuid ` j_name ` set (t_job c1)" if "p \<in> set (t_job_ports c1)" for p
  proof -
    have "p_job_id p \<in> uuid ` set (ws_jobs ws) \<union> p_job_id ` set (t_job_ports c)" using l(6) that by blast
    moreover have "p_job_id ` set (t_job_ports c) \<subseteq> uuid ` j_name ` set (t_job c)" using ports unfolding port_table_ok_def by blast
    ultimately show ?thesis unfolding l(3) by blast
  qed
  moreover have "distinct (map (\<lambda>p. (p_job_id p, p_name p)) (t_job_ports c1))" using l(5) by (simp add: rows_allotted_def)
  ultimately have "port_table_ok uuid c1" using allotted_unique [OF l(5)] by (simp add: port_table_ok_def)
  note r = remove_jobs_loop [OF l(1) inj this, of gone, folded c']
  have "j_name ` set (t_job c') = set (ws_jobs ws)" using r l(3) g by auto
  moreover have "\<exists>m. ws_manifest ws job = Ok m \<and> shows_job uuid c' job m" if "job \<in> set (ws_jobs ws)" for job
    using l(4) [OF that] r g that by blast
  moreover have "jobs_ok uuid c'" "only_jobs c c'" "port_table_ok uuid c'" using r only_jobs_trans [OF l(2)] by simp_all
  ultimately show ?thesis using g by simp
qed

end
