(* ===== verification/BuildCerts.thy ===== *)
theory BuildCerts
  imports BuildKv "HOL-Library.Word"
begin

text \<open>
  The certificates of a build (\<open>build/build_certs.go\<close>, \<open>build/cert_renewal.go\<close>, \<open>certs/renewal.go\<close>,
  \<open>GetMaandConf\<close> of \<open>bucket/config.go\<close>): which ones are made anew, and the keys of the store that hold them. RSA,
  X.509 and PEM are parameters. A call of \<open>GenerateCert\<close> is told how many were made before, so that every call may
  give another certificate.
\<close>

section \<open>Renewal (cert_renewal.go)\<close>

text \<open>Times in nanoseconds. A \<open>time.Duration\<close> is an \<open>int64\<close>, and so is a product of them.\<close>

definition int64 :: "int \<Rightarrow> int" where
  "int64 n = sint (word_of_int n :: 64 word)"

definition day :: int where
  "day = 24 * 3600 * 1000000000"

definition CertNeedsRenewal :: "int \<Rightarrow> int \<Rightarrow> int \<Rightarrow> bool" where
  "CertNeedsRenewal notAfter renewalBufferDays now \<longleftrightarrow>
     (if notAfter \<le> now then True
      else if renewalBufferDays \<le> 0 then False
      else notAfter + int64 (int64 (- renewalBufferDays) * day) \<le> now)"

section \<open>Configuration (bucket/config.go)\<close>

record maand_conf =
  mc_certs_ttl :: int
  mc_certs_renewal_buffer :: int

text \<open>A missing file, a file that does not parse, or its content.\<close>

definition GetMaandConf :: "maand_conf option option \<Rightarrow> error + maand_conf" where
  "GetMaandConf file =
     (case file of
        None \<Rightarrow> Ok \<lparr>mc_certs_ttl = 0, mc_certs_renewal_buffer = 0\<rparr>
      | Some None \<Rightarrow> Err ErrInvalidMaandConf
      | Some (Some conf) \<Rightarrow> Ok (if mc_certs_ttl conf = 0 then conf\<lparr>mc_certs_ttl := 60\<rparr> else conf))"

section \<open>The outside\<close>

type_synonym key_pair = "string \<times> string"

record cert_world =
  cw_ca_hash :: "error + string"
  cw_conf :: "maand_conf option option"
  cw_now :: int
  cw_not_after :: "string \<Rightarrow> (error + int) option"
  cw_generate :: "nat \<Rightarrow> string \<Rightarrow> cert_config \<Rightarrow> string list \<Rightarrow> int \<Rightarrow> error + key_pair"

section \<open>Which certificates are due\<close>

definition certPEMExpiringSoon :: "cert_world \<Rightarrow> int \<Rightarrow> string \<Rightarrow> error + bool" where
  "certPEMExpiringSoon w bufferDays pem =
     (case cw_not_after w pem of
        None \<Rightarrow> Ok True
      | Some (Inl _) \<Rightarrow> Err ErrUnexpectedError
      | Some (Inr notAfter) \<Rightarrow> Ok (CertNeedsRenewal notAfter bufferDays (cw_now w)))"

definition cert_prefix :: "string \<Rightarrow> string" where
  "cert_prefix name = ''certs/'' @ name"

text \<open>The value of an entry, empty when there is none.\<close>

definition stored_value :: "store \<Rightarrow> string \<Rightarrow> string \<Rightarrow> error + string" where
  "stored_value st ns k =
     (case Get st ns k of Inr e \<Rightarrow> Ok (e_value e) | Inl err \<Rightarrow> if err = ErrNotFound then Ok [] else Err ErrUnexpectedError)"

definition workerCertNeedsRegeneration :: "cert_world \<Rightarrow> store \<Rightarrow> string \<Rightarrow> string \<Rightarrow> int \<Rightarrow> string \<Rightarrow> error + bool" where
  "workerCertNeedsRegeneration w st job name bufferDays ip =
     (let ns = worker_kv_namespace job ip in
      rbind (stored_value st ns (cert_prefix name @ ''.key'')) (\<lambda>key.
        if key = [] then Ok True
        else rbind (stored_value st ns (cert_prefix name @ ''.crt'')) (\<lambda>crt.
          if crt = [] then Ok True else certPEMExpiringSoon w bufferDays crt)))"

fun any_worker_needs :: "(string \<Rightarrow> error + bool) \<Rightarrow> string list \<Rightarrow> error + bool" where
  "any_worker_needs needs [] = Ok False"
| "any_worker_needs needs (ip # ips) = rbind (needs ip) (\<lambda>b. if b then Ok True else any_worker_needs needs ips)"

definition certNeedsRegeneration ::
  "cert_world \<Rightarrow> store \<Rightarrow> string \<Rightarrow> string \<Rightarrow> bool \<Rightarrow> string list \<Rightarrow> int \<Rightarrow> error + bool" where
  "certNeedsRegeneration w st job name jobRegenerate ips bufferDays =
     (if jobRegenerate then Ok True else any_worker_needs (workerCertNeedsRegeneration w st job name bufferDays) ips)"

section \<open>Making and reading certificates\<close>

text \<open>\<open>made\<close> is the number of certificates made so far.\<close>

definition generate :: "cert_world \<Rightarrow> nat \<Rightarrow> string \<Rightarrow> cert_config \<Rightarrow> string list \<Rightarrow> int \<Rightarrow> error + nat \<times> key_pair" where
  "generate w made name config ips ttl = rbind (cw_generate w made name config ips ttl) (\<lambda>p. Ok (Suc made, p))"

definition stored_pair :: "store \<Rightarrow> string \<Rightarrow> string \<Rightarrow> string \<Rightarrow> error + key_pair" where
  "stored_pair st job ip name =
     (let ns = worker_kv_namespace job ip in
      rbind (Get st ns (cert_prefix name @ ''.crt'')) (\<lambda>crt.
      rbind (Get st ns (cert_prefix name @ ''.key'')) (\<lambda>key. Ok (e_value crt, e_value key))))"

definition buildSharedCertPEM ::
  "cert_world \<Rightarrow> store \<Rightarrow> string \<Rightarrow> int \<Rightarrow> string list \<Rightarrow> string \<times> cert_config \<Rightarrow> bool \<Rightarrow> nat \<Rightarrow> error + nat \<times> key_pair" where
  "buildSharedCertPEM w st job ttl ips spec regenerate made =
     (if regenerate then generate w made (fst spec) (snd spec) ips ttl
      else rbind (stored_pair st job (hd ips) (fst spec)) (\<lambda>p. Ok (made, p)))"

definition buildWorkerCertPEM ::
  "cert_world \<Rightarrow> store \<Rightarrow> string \<Rightarrow> int \<Rightarrow> string \<Rightarrow> string \<times> cert_config \<Rightarrow> bool \<Rightarrow> nat \<Rightarrow> error + nat \<times> key_pair" where
  "buildWorkerCertPEM w st job ttl ip spec regenerate made =
     (if regenerate then generate w made (fst spec) (snd spec) [ip] ttl
      else rbind (stored_pair st job ip (fst spec)) (\<lambda>p. Ok (made, p)))"

type_synonym cert_variables = "(string \<times> (string \<times> string) list) list"

definition addCertVariables :: "string \<Rightarrow> string \<Rightarrow> key_pair \<Rightarrow> cert_variables \<Rightarrow> string \<Rightarrow> cert_variables" where
  "addCertVariables job name p vars ip =
     (let ns = worker_kv_namespace job ip
      in AList.update ns (AList.update (cert_prefix name @ ''.key'') (snd p)
           (AList.update (cert_prefix name @ ''.crt'') (fst p) (inner_map vars ns))) vars)"

definition worker_cert ::
  "cert_world \<Rightarrow> store \<Rightarrow> string \<Rightarrow> maand_conf \<Rightarrow> string \<times> cert_config \<Rightarrow> bool \<Rightarrow> nat \<times> cert_variables \<Rightarrow> string \<Rightarrow>
   error + nat \<times> cert_variables" where
  "worker_cert w st job conf spec regenerate s ip =
     (case s of (made, vars) \<Rightarrow>
        rbind (if regenerate then Ok True
               else workerCertNeedsRegeneration w st job (fst spec) (mc_certs_renewal_buffer conf) ip) (\<lambda>again.
        rbind (buildWorkerCertPEM w st job (mc_certs_ttl conf) ip spec again made) (\<lambda>(made', p).
          Ok (made', addCertVariables job (fst spec) p vars ip))))"

definition spec_certs ::
  "cert_world \<Rightarrow> store \<Rightarrow> string \<Rightarrow> maand_conf \<Rightarrow> bool \<Rightarrow> string list \<Rightarrow> nat \<times> cert_variables \<Rightarrow> string \<times> cert_config \<Rightarrow>
   error + nat \<times> cert_variables" where
  "spec_certs w st job conf jobRegenerate ips s spec =
     rbind (certNeedsRegeneration w st job (fst spec) jobRegenerate ips (mc_certs_renewal_buffer conf)) (\<lambda>regenerate.
       if cc_one (snd spec) then
         (case s of (made, vars) \<Rightarrow>
            rbind (buildSharedCertPEM w st job (mc_certs_ttl conf) ips spec regenerate made) (\<lambda>(made', p).
              Ok (made', foldl (addCertVariables job (fst spec) p) vars ips)))
       else rfold (worker_cert w st job conf spec regenerate) s ips)"

section \<open>The certificates of a job, and of all jobs\<close>

definition loadJobCertSpecs :: "catalog \<Rightarrow> string \<Rightarrow> (string \<times> cert_config) list" where
  "loadJobCertSpecs c job = map snd (filter (\<lambda>(i, _). job_id_of c job = Some i) (t_job_certs c))"

definition syncCertKeyValues :: "string \<Rightarrow> (string \<times> string) list \<Rightarrow> store \<Rightarrow> error + store" where
  "syncCertKeyValues ns kvs = syncNamespaceKeyValues ns kvs SyncCert"

definition purgeJobAllocationCertKV :: "string \<Rightarrow> string list \<Rightarrow> store \<Rightarrow> error + store" where
  "purgeJobAllocationCertKV job ips st = rfold (\<lambda>st ip. syncCertKeyValues (worker_kv_namespace job ip) [] st) st ips"

definition buildJobCerts ::
  "cert_world \<Rightarrow> bool \<Rightarrow> catalog \<times> store \<times> nat \<Rightarrow> string \<Rightarrow> error + catalog \<times> store \<times> nat" where
  "buildJobCerts w caChanged s job =
     (case s of (c, st, made) \<Rightarrow>
        let jobRegenerate = (caChanged \<or> HashChanged c ''build_certs'' job);
            ips = GetNonRemovedAllocations c job; specs = loadJobCertSpecs c job;
            promoted = PromoteHash c ''build_certs'' job
        in if specs = [] \<or> ips = [] then
             rbind (purgeJobAllocationCertKV job (GetAllocatedWorkers c job) st) (\<lambda>st'. Ok (promoted, st', made))
           else
             rbind (GetMaandConf (cw_conf w)) (\<lambda>conf.
             rbind (rfold (spec_certs w st job conf jobRegenerate ips) (made, []) specs) (\<lambda>(made', vars).
             rbind (rfold (\<lambda>st (ns, kvs). syncCertKeyValues ns kvs st) st vars) (\<lambda>st'.
               Ok (promoted, st', made')))))"

definition BuildCerts :: "cert_world \<Rightarrow> catalog \<times> store \<times> nat \<Rightarrow> error + catalog \<times> store \<times> nat" where
  "BuildCerts w s =
     (case s of (c, st, made) \<Rightarrow>
        rbind (cw_ca_hash w) (\<lambda>hash.
        rbind (UpdateHash c ''build'' ''ca'' hash) (\<lambda>c1.
        rbind (rfold (buildJobCerts w (HashChanged c1 ''build'' ''ca'')) (c1, st, made) (GetAllAllocatedJobs c1)) (\<lambda>(c2, st', made').
          Ok (PromoteHash c2 ''build'' ''ca'', st', made')))))"

section \<open>The window of renewal\<close>

text \<open>Within the range of \<open>time.Duration\<close> a certificate is renewed exactly from the given number of days before its
  end on. A buffer of 106752 days overflows, and the certificate is never renewed early.\<close>

lemma int64_id: "- (2 ^ 63) \<le> n \<Longrightarrow> n < 2 ^ 63 \<Longrightarrow> int64 n = n"
  by (simp add: int64_def sint_sbintrunc' signed_take_bit_int_eq_self_iff)

lemma renewal_window:
  assumes "0 \<le> days" and "days \<le> 106751"
  shows "CertNeedsRenewal notAfter days now \<longleftrightarrow> notAfter - days * day \<le> now"
proof -
  have "int64 (- days) = - days" by (rule int64_id) (use assms in simp_all)
  moreover have "int64 (- days * day) = - days * day" by (rule int64_id) (use assms in \<open>simp_all add: day_def\<close>)
  ultimately show ?thesis using assms by (auto simp: CertNeedsRenewal_def day_def)
qed

lemma huge_buffer_never_renews_early: "CertNeedsRenewal (now + 1) 106752 now \<longleftrightarrow> False"
proof -
  have "int64 (int64 (- 106752) * day) > 0" by code_simp
  then show ?thesis by (simp add: CertNeedsRenewal_def)
qed

text \<open>Without \<open>maand.conf\<close> the lifetime is zero days, with it 60 unless it says otherwise.\<close>

lemma default_lifetime:
  "GetMaandConf None = Ok conf \<Longrightarrow> mc_certs_ttl conf = 0"
  "GetMaandConf (Some (Some conf0)) = Ok conf \<Longrightarrow> mc_certs_ttl conf \<noteq> 0"
  by (auto simp: GetMaandConf_def split: if_splits)

end
