(* ===== verification/CertLaws.thy ===== *)
theory CertLaws
  imports BuildCerts CatalogLaws
begin

text \<open>
  What a build leaves in the store of certificates: every live allocation holds a pair for every certificate of
  its job, new where one was due and the stored one otherwise, and a second build makes none anew.
\<close>

section \<open>The variables that are collected\<close>

definition crt_key :: "string \<Rightarrow> string" where "crt_key name = cert_prefix name @ ''.crt''"

definition key_key :: "string \<Rightarrow> string" where "key_key name = cert_prefix name @ ''.key''"

lemma cert_keys [simp]:
  "crt_key a = crt_key b \<longleftrightarrow> a = b" "key_key a = key_key b \<longleftrightarrow> a = b" "crt_key a \<noteq> key_key b" "key_key b \<noteq> crt_key a"
  "has_prefix ''certs/'' (crt_key a)" "has_prefix ''certs/'' (key_key a)"
proof -
  show "crt_key a \<noteq> key_key b" "key_key b \<noteq> crt_key a"
  proof -
    have "take 4 (rev (crt_key a)) \<noteq> take 4 (rev (key_key b))" by (simp add: crt_key_def key_key_def)
    then show "crt_key a \<noteq> key_key b" "key_key b \<noteq> crt_key a" by auto
  qed
qed (simp_all add: crt_key_def key_key_def cert_prefix_def has_prefix_def)

definition vlook :: "cert_variables \<Rightarrow> string \<Rightarrow> string \<Rightarrow> string option" where
  "vlook vars ns k = map_of (inner_map vars ns) k"

definition nested :: "cert_variables \<Rightarrow> bool" where
  "nested vars \<longleftrightarrow> distinct_keys vars \<and> (\<forall>ns. distinct_keys (inner_map vars ns))"

lemma worker_kv_inj [simp]: "worker_kv_namespace job a = worker_kv_namespace job b \<longleftrightarrow> a = b"
  by (simp add: worker_kv_namespace_def)

lemma inner_map_update: "inner_map (AList.update ns m vars) ns' = (if ns' = ns then m else inner_map vars ns')"
  by (simp add: inner_map_def map_of_AList_update)

lemma add_variables:
  "vlook (addCertVariables job name p vars ip) ns k =
     (if ns = worker_kv_namespace job ip \<and> k = key_key name then Some (snd p)
      else if ns = worker_kv_namespace job ip \<and> k = crt_key name then Some (fst p) else vlook vars ns k)"
  "nested vars \<Longrightarrow> nested (addCertVariables job name p vars ip)"
  "fst ` set (addCertVariables job name p vars ip) = insert (worker_kv_namespace job ip) (fst ` set vars)"
  by (auto simp: vlook_def addCertVariables_def Let_def inner_map_update map_of_AList_update nested_def distinct_update
      crt_key_def [symmetric] key_key_def [symmetric] dom_update)

lemma add_all_variables:
  "nested vars \<Longrightarrow> nested (foldl (\<lambda>vars ip. addCertVariables job name (q ip) vars ip) vars ips) \<and>
   fst ` set (foldl (\<lambda>vars ip. addCertVariables job name (q ip) vars ip) vars ips) = worker_kv_namespace job ` set ips \<union> fst ` set vars \<and>
   (\<forall>ns k. vlook (foldl (\<lambda>vars ip. addCertVariables job name (q ip) vars ip) vars ips) ns k =
      (case filter (\<lambda>ip. ns = worker_kv_namespace job ip) ips of
         [] \<Rightarrow> vlook vars ns k
       | ip # _ \<Rightarrow> if k = key_key name then Some (snd (q ip)) else if k = crt_key name then Some (fst (q ip)) else vlook vars ns k))"
proof (induction ips arbitrary: vars)
  case (Cons ip ips)
  let ?v = "addCertVariables job name (q ip) vars ip"
  have n: "nested ?v" by (rule add_variables(2) [OF Cons.prems])
  show ?case using Cons.IH [OF n] add_variables(1,3) [of job name "q ip" vars ip]
    by (auto split: list.splits simp: filter_eq_Cons_iff)
qed simp

section \<open>One certificate\<close>

lemma any_worker_needs_False: "any_worker_needs needs ips = Ok False \<longleftrightarrow> (\<forall>ip \<in> set ips. needs ip = Ok False)"
  by (induction ips) (auto simp: rbind_Inr_conv)

definition came_from ::
  "cert_world \<Rightarrow> store \<Rightarrow> string \<Rightarrow> maand_conf \<Rightarrow> string list \<Rightarrow> bool \<Rightarrow> nat \<Rightarrow> nat \<Rightarrow> string \<times> cert_config \<Rightarrow> string \<Rightarrow> key_pair \<Rightarrow> bool" where
  "came_from w st job conf ips again made made' spec ip p \<longleftrightarrow>
     (if again then \<exists>n. made \<le> n \<and> n < made' \<and>
        cw_generate w n (fst spec) (snd spec) (if cc_one (snd spec) then ips else [ip]) (mc_certs_ttl conf) = Ok p
      else stored_pair st job (if cc_one (snd spec) then hd ips else ip) (fst spec) = Ok p)"

lemma came_from_mono:
  "came_from w st job conf ips again made made' spec ip p \<Longrightarrow> m \<le> made \<Longrightarrow> made' \<le> m' \<Longrightarrow>
   came_from w st job conf ips again m m' spec ip p"
  unfolding came_from_def by (cases again) (auto intro: le_trans less_le_trans)

lemma worker_certs_loop:
  assumes "rfold (worker_cert w st job conf spec again) (made, vars) ips = Ok (made', vars')"
    and "\<not> again \<longrightarrow> (\<forall>ip \<in> set ips. workerCertNeedsRegeneration w st job (fst spec) (mc_certs_renewal_buffer conf) ip = Ok False)"
    and "\<not> cc_one (snd spec)" and "distinct ips"
  shows "\<exists>q. made \<le> made' \<and> (\<not> again \<longrightarrow> made' = made) \<and>
    (\<forall>ip \<in> set ips. came_from w st job conf all again made made' spec ip (q ip)) \<and>
    vars' = foldl (\<lambda>vars ip. addCertVariables job (fst spec) (q ip) vars ip) vars ips"
  using assms
proof (induction ips arbitrary: made vars)
  case (Cons ip ips)
  from Cons.prems(1) obtain m v where one: "worker_cert w st job conf spec again (made, vars) ip = Ok (m, v)"
    and rest: "rfold (worker_cert w st job conf spec again) (m, v) ips = Ok (made', vars')" by (auto simp: rbind_Inr_conv)
  from one Cons.prems(2) obtain p where p: "buildWorkerCertPEM w st job (mc_certs_ttl conf) ip spec again made = Ok (m, p)"
    and v: "v = addCertVariables job (fst spec) p vars ip"
    by (cases again) (auto simp: worker_cert_def rbind_Inr_conv)
  from Cons.IH [OF rest] Cons.prems(2-4) obtain q where q: "m \<le> made'" "\<not> again \<longrightarrow> made' = m"
    "\<forall>ip \<in> set ips. came_from w st job conf all again m made' spec ip (q ip)"
    "vars' = foldl (\<lambda>vars ip. addCertVariables job (fst spec) (q ip) vars ip) v ips" by auto
  have m: "made \<le> m" "\<not> again \<longrightarrow> m = made" using p by (auto simp: buildWorkerCertPEM_def generate_def rbind_Inr_conv split: if_splits)
  have here: "came_from w st job conf all again made made' spec ip p"
    using p q(1) Cons.prems(3) by (auto simp: came_from_def buildWorkerCertPEM_def generate_def rbind_Inr_conv split: if_splits)
  have new: "ip \<notin> set ips" using Cons.prems(4) by simp
  have same: "foldl (\<lambda>vars i. addCertVariables job (fst spec) ((q(ip := p)) i) vars i) v ips =
      foldl (\<lambda>vars i. addCertVariables job (fst spec) (q i) vars i) v ips"
    by (rule foldl_cong) (use new in auto)
  show ?case
  proof (intro exI [of _ "q(ip := p)"] conjI)
    show "\<forall>i \<in> set (ip # ips). came_from w st job conf all again made made' spec i ((q(ip := p)) i)"
      using here q(3) m(1) new by (auto intro: came_from_mono)
  qed (use m q same v in auto)
qed auto

lemma spec_certs_step:
  assumes run: "spec_certs w st job conf jobRegenerate ips (made, vars) spec = Ok (made', vars')"
    and d: "distinct ips" and ne: "ips \<noteq> []"
  shows "\<exists>q again. certNeedsRegeneration w st job (fst spec) jobRegenerate ips (mc_certs_renewal_buffer conf) = Ok again \<and>
    made \<le> made' \<and> (\<not> again \<longrightarrow> made' = made) \<and>
    (\<forall>ip \<in> set ips. came_from w st job conf ips again made made' spec ip (q ip)) \<and>
    (cc_one (snd spec) \<longrightarrow> (\<forall>ip. q ip = q (hd ips))) \<and>
    vars' = foldl (\<lambda>vars ip. addCertVariables job (fst spec) (q ip) vars ip) vars ips"
proof -
  from run obtain again where a: "certNeedsRegeneration w st job (fst spec) jobRegenerate ips (mc_certs_renewal_buffer conf) = Ok again"
    by (auto simp: spec_certs_def rbind_Inr_conv)
  show ?thesis
  proof (cases "cc_one (snd spec)")
    case True
    with run a obtain p where p: "buildSharedCertPEM w st job (mc_certs_ttl conf) ips spec again made = Ok (made', p)"
      and v: "vars' = foldl (addCertVariables job (fst spec) p) vars ips" by (auto simp: spec_certs_def rbind_Inr_conv)
    have "made \<le> made'" "\<not> again \<longrightarrow> made' = made"
      using p by (auto simp: buildSharedCertPEM_def generate_def rbind_Inr_conv split: if_splits)
    moreover have "\<forall>ip \<in> set ips. came_from w st job conf ips again made made' spec ip p"
      using p True by (auto simp: came_from_def buildSharedCertPEM_def generate_def rbind_Inr_conv split: if_splits)
    moreover have "addCertVariables job (fst spec) p = (\<lambda>vars ip. addCertVariables job (fst spec) p vars ip)" by simp
    ultimately show ?thesis using a v by (intro exI [of _ "\<lambda>_. p"] exI [of _ again]) simp
  next
    case False
    with run a have loop: "rfold (worker_cert w st job conf spec again) (made, vars) ips = Ok (made', vars')"
      by (simp add: spec_certs_def)
    have "\<not> again \<longrightarrow> (\<forall>ip \<in> set ips. workerCertNeedsRegeneration w st job (fst spec) (mc_certs_renewal_buffer conf) ip = Ok False)"
      using a by (auto simp: certNeedsRegeneration_def any_worker_needs_False split: if_splits)
    from worker_certs_loop [OF loop this False d, of ips] False a show ?thesis by blast
  qed
qed


section \<open>All certificates of a job\<close>

text \<open>\<open>q\<close> names the pair of every certificate and worker.\<close>

definition spec_made ::
  "cert_world \<Rightarrow> store \<Rightarrow> string \<Rightarrow> maand_conf \<Rightarrow> bool \<Rightarrow> string list \<Rightarrow> nat \<Rightarrow> nat \<Rightarrow> (string \<Rightarrow> key_pair) \<Rightarrow> string \<times> cert_config \<Rightarrow> bool" where
  "spec_made w st job conf jobRegenerate ips made made' q spec \<longleftrightarrow>
     (\<exists>again. certNeedsRegeneration w st job (fst spec) jobRegenerate ips (mc_certs_renewal_buffer conf) = Ok again \<and>
        (\<forall>ip \<in> set ips. came_from w st job conf ips again made made' spec ip (q ip)) \<and>
        (cc_one (snd spec) \<longrightarrow> (\<forall>ip. q ip = q (hd ips))))"

lemma spec_made_mono:
  assumes "spec_made w st job conf jr ips made made' q spec" and le: "m \<le> made" "made' \<le> m'"
  shows "spec_made w st job conf jr ips m m' q spec"
proof -
  from assms(1) obtain again where a: "certNeedsRegeneration w st job (fst spec) jr ips (mc_certs_renewal_buffer conf) = Ok again"
    "\<forall>ip \<in> set ips. came_from w st job conf ips again made made' spec ip (q ip)" "cc_one (snd spec) \<longrightarrow> (\<forall>ip. q ip = q (hd ips))"
    unfolding spec_made_def by blast
  from a(2) have "\<forall>ip \<in> set ips. came_from w st job conf ips again m m' spec ip (q ip)" by (simp add: came_from_mono [OF _ le])
  with a(1,3) show ?thesis unfolding spec_made_def by blast
qed

lemma filter_namespace:
  "distinct ips \<Longrightarrow> ip \<in> set ips \<Longrightarrow> filter (\<lambda>i. worker_kv_namespace job ip = worker_kv_namespace job i) ips = [ip]"
proof -
  assume "distinct ips" "ip \<in> set ips"
  then have "filter (\<lambda>i. i = ip) ips = [ip]" using filter_distinct_key [of "\<lambda>i. i" ips ip] by simp
  then show ?thesis by (simp add: eq_commute)
qed

lemma specs_loop:
  assumes "rfold (spec_certs w st job conf jobRegenerate ips) (made, vars) specs = Ok (made', vars')"
    and d: "distinct ips" and ne: "ips \<noteq> []" and "distinct (map fst specs)" and "nested vars"
  shows "\<exists>q. made \<le> made' \<and> ((\<forall>spec \<in> set specs. certNeedsRegeneration w st job (fst spec) jobRegenerate ips (mc_certs_renewal_buffer conf) = Ok False) \<longrightarrow> made' = made) \<and>
    nested vars' \<and> (specs \<noteq> [] \<longrightarrow> fst ` set vars' = worker_kv_namespace job ` set ips \<union> fst ` set vars) \<and>
    (\<forall>spec \<in> set specs. spec_made w st job conf jobRegenerate ips made made' (q (fst spec)) spec) \<and>
    (\<forall>ip \<in> set ips. \<forall>name \<in> fst ` set specs. vlook vars' (worker_kv_namespace job ip) (crt_key name) = Some (fst (q name ip)) \<and>
        vlook vars' (worker_kv_namespace job ip) (key_key name) = Some (snd (q name ip))) \<and>
    (\<forall>ns k. (\<forall>name \<in> fst ` set specs. k \<noteq> crt_key name \<and> k \<noteq> key_key name) \<longrightarrow> vlook vars' ns k = vlook vars ns k)"
  using assms(1,4,5)
proof (induction specs arbitrary: made vars)
  case (Cons spec specs)
  from Cons.prems(1) obtain m v where one: "spec_certs w st job conf jobRegenerate ips (made, vars) spec = Ok (m, v)"
    and rest: "rfold (spec_certs w st job conf jobRegenerate ips) (m, v) specs = Ok (made', vars')" by (auto simp: rbind_Inr_conv)
  from spec_certs_step [OF one d ne] obtain p again where
      p: "certNeedsRegeneration w st job (fst spec) jobRegenerate ips (mc_certs_renewal_buffer conf) = Ok again" "made \<le> m"
      "\<forall>ip \<in> set ips. came_from w st job conf ips again made m spec ip (p ip)" "cc_one (snd spec) \<longrightarrow> (\<forall>ip. p ip = p (hd ips))"
      "\<not> again \<longrightarrow> m = made" and v: "v = foldl (\<lambda>vars ip. addCertVariables job (fst spec) (p ip) vars ip) vars ips" by blast
  note add = add_all_variables [OF Cons.prems(3), of job "fst spec" p ips, folded v]
  have look: "vlook v (worker_kv_namespace job ip) (crt_key (fst spec)) = Some (fst (p ip))"
      "vlook v (worker_kv_namespace job ip) (key_key (fst spec)) = Some (snd (p ip))" if "ip \<in> set ips" for ip
    using add filter_namespace [OF d that] by simp_all
  have other: "vlook v ns k = vlook vars ns k" if "k \<noteq> crt_key (fst spec)" "k \<noteq> key_key (fst spec)" for ns k
    using add that by (simp split: list.split)
  have dn: "distinct (map fst specs)" and new: "fst spec \<notin> fst ` set specs" using Cons.prems(2) by auto
  have nv: "nested v" using add by blast
  from Cons.IH [OF rest dn nv] obtain q where q: "m \<le> made'" "nested vars'"
    "specs \<noteq> [] \<longrightarrow> fst ` set vars' = worker_kv_namespace job ` set ips \<union> fst ` set v"
    "\<forall>spec \<in> set specs. spec_made w st job conf jobRegenerate ips m made' (q (fst spec)) spec"
    "\<forall>ip \<in> set ips. \<forall>name \<in> fst ` set specs. vlook vars' (worker_kv_namespace job ip) (crt_key name) = Some (fst (q name ip)) \<and>
        vlook vars' (worker_kv_namespace job ip) (key_key name) = Some (snd (q name ip))"
    "\<forall>ns k. (\<forall>name \<in> fst ` set specs. k \<noteq> crt_key name \<and> k \<noteq> key_key name) \<longrightarrow> vlook vars' ns k = vlook v ns k"
    "(\<forall>spec \<in> set specs. certNeedsRegeneration w st job (fst spec) jobRegenerate ips (mc_certs_renewal_buffer conf) = Ok False) \<longrightarrow> made' = m"
    by (elim exE conjE) (rule that)
  have nn: "fst spec \<noteq> fst s" "fst s \<noteq> fst spec" if "s \<in> set specs" for s using new that by (metis imageI)+
  let ?q = "q(fst spec := p)"
  show ?case
  proof (intro exI [of _ ?q] conjI)
    show "made \<le> made'" using p(2) q(1) by simp
    show "(\<forall>spec \<in> set (spec # specs). certNeedsRegeneration w st job (fst spec) jobRegenerate ips (mc_certs_renewal_buffer conf) = Ok False) \<longrightarrow> made' = made"
      using p(1,5) q(7) by simp
    show "spec # specs \<noteq> [] \<longrightarrow> fst ` set vars' = worker_kv_namespace job ` set ips \<union> fst ` set vars"
      using q(3) rest add by (cases "specs = []") auto
    show "\<forall>s \<in> set (spec # specs). spec_made w st job conf jobRegenerate ips made made' (?q (fst s)) s"
    proof
      fix s assume s: "s \<in> set (spec # specs)"
      show "spec_made w st job conf jobRegenerate ips made made' (?q (fst s)) s"
      proof (cases "s \<in> set specs")
        case True
        then have "fst s \<in> fst ` set specs" by (rule imageI)
        then have "fst s \<noteq> fst spec" using new by metis
        moreover have "spec_made w st job conf jobRegenerate ips m made' (q (fst s)) s" using q(4) True by blast
        ultimately show ?thesis using spec_made_mono [OF _ p(2) le_refl] by simp
      next
        case False
        then have "s = spec" using s by simp
        have "spec_made w st job conf jobRegenerate ips made m p spec" unfolding spec_made_def by (rule exI [of _ again]) (intro conjI p(1,3,4))
        with \<open>s = spec\<close> show ?thesis using spec_made_mono [OF _ le_refl q(1)] by simp
      qed
    qed
    show "\<forall>ip \<in> set ips. \<forall>name \<in> fst ` set (spec # specs). vlook vars' (worker_kv_namespace job ip) (crt_key name) = Some (fst (?q name ip)) \<and>
        vlook vars' (worker_kv_namespace job ip) (key_key name) = Some (snd (?q name ip))"
    proof (intro ballI)
      fix ip name assume ip: "ip \<in> set ips" and name: "name \<in> fst ` set (spec # specs)"
      show "vlook vars' (worker_kv_namespace job ip) (crt_key name) = Some (fst (?q name ip)) \<and>
        vlook vars' (worker_kv_namespace job ip) (key_key name) = Some (snd (?q name ip))"
      proof (cases "name = fst spec")
        case True
        have "vlook vars' ns (crt_key name) = vlook v ns (crt_key name)" "vlook vars' ns (key_key name) = vlook v ns (key_key name)" for ns
          using q(6) nn True by simp_all
        then show ?thesis using look [OF ip] True by simp
      next
        case False
        then have "name \<in> fst ` set specs" using name by auto
        with q(5) [rule_format, OF ip this] False show ?thesis by simp
      qed
    qed
    show "\<forall>ns k. (\<forall>name \<in> fst ` set (spec # specs). k \<noteq> crt_key name \<and> k \<noteq> key_key name) \<longrightarrow> vlook vars' ns k = vlook vars ns k"
      using q(6) other by simp
  qed (rule q(2))
qed auto

lemma sync_certs_exact:
  assumes "store_wf st" and "distinct_keys kvs"
  shows "\<exists>st'. syncCertKeyValues ns kvs st = Ok st' \<and> store_wf st' \<and>
    live st' = (live st)(ns := \<lambda>k. case map_of kvs k of
      Some v \<Rightarrow> Some (trim_space v) | None \<Rightarrow> if has_prefix ''certs/'' k then None else live st ns k)"
proof -
  let ?t = "foldl (\<lambda>s (k, v). Put s ns k v 0) st kvs"
  let ?keep = "\<lambda>k. \<not> has_prefix ''certs/'' k"
  have wf: "store_wf ?t" by (rule kv.valid_put_all [OF assms(1)])
  let ?stale = "filter (\<lambda>k. \<not> ?keep k) (Difference (GetKeys ?t ns) (map fst kvs))"
  have ks: "set ?stale = {k \<in> dom (live ?t ns). k \<notin> fst ` set kvs \<and> \<not> ?keep k}"
    using GetKeys_live [OF wf, of ns] by auto
  have d: "distinct ?stale" by (rule distinct_filter) (rule distinct_Difference [OF distinct_GetKeys [OF wf]])
  from kv.put_then_prune [OF assms refl ks d] obtain st' where
    st': "rfold (\<lambda>s k. Delete s ns k) ?t ?stale = Ok st'" "store_wf st'"
    "live st' = (live st)(ns := \<lambda>k. case map_of kvs k of Some v \<Rightarrow> Some (trim_space v) | None \<Rightarrow> if ?keep k then live st ns k else None)"
    by blast
  have skip: "rfold (\<lambda>s k. if kept_key SyncCert k then Ok s else Delete s ns k) t ks = rfold (\<lambda>s k. Delete s ns k) t (filter (\<lambda>k. \<not> ?keep k) ks)" for t ks
  proof (induction ks arbitrary: t)
    case (Cons k ks)
    then show ?case by (cases "has_prefix ''certs/'' k") (simp_all add: kept_key_def)
  qed simp
  have "syncCertKeyValues ns kvs st = Ok st'"
    unfolding syncCertKeyValues_def syncNamespaceKeyValues_def Let_def skip by (rule st'(1))
  moreover have "(\<lambda>k. case map_of kvs k of Some v \<Rightarrow> Some (trim_space v) | None \<Rightarrow> if ?keep k then live st ns k else None) =
      (\<lambda>k. case map_of kvs k of Some v \<Rightarrow> Some (trim_space v) | None \<Rightarrow> if has_prefix ''certs/'' k then None else live st ns k)"
    by (auto simp: fun_eq_iff split: option.split)
  ultimately show ?thesis using st'(2,3) by simp
qed

lemma sync_all_certs:
  assumes "store_wf st" and "nested vars"
  shows "\<exists>st'. rfold (\<lambda>st (ns, kvs). syncCertKeyValues ns kvs st) st vars = Ok st' \<and> store_wf st' \<and>
    (\<forall>ns k. live st' ns k = (if ns \<in> fst ` set vars then
        (case vlook vars ns k of Some v \<Rightarrow> Some (trim_space v) | None \<Rightarrow> if has_prefix ''certs/'' k then None else live st ns k)
      else live st ns k))"
  using assms
proof (induction vars arbitrary: st)
  case (Cons x vars)
  obtain n kvs where x: "x = (n, kvs)" by (cases x) auto
  have kvs: "inner_map ((n, kvs) # vars) n = kvs" by (simp add: inner_map_def)
  have new: "n \<notin> fst ` set vars" and d: "distinct_keys kvs" using Cons.prems(2) kvs by (auto simp: nested_def x dest: spec [of _ n])
  have rest: "inner_map vars ns = (if ns = n then [] else inner_map ((n, kvs) # vars) ns)" for ns
    using new by (auto simp: inner_map_def map_of_eq_None_iff [symmetric])
  have nest: "nested vars" using Cons.prems(2) rest by (auto simp: nested_def x)
  from sync_certs_exact [OF Cons.prems(1) d, of n] obtain st1 where 1: "syncCertKeyValues n kvs st = Ok st1" "store_wf st1"
    "live st1 = (live st)(n := \<lambda>k. case map_of kvs k of
      Some v \<Rightarrow> Some (trim_space v) | None \<Rightarrow> if has_prefix ''certs/'' k then None else live st n k)" by blast
  from Cons.IH [OF 1(2) nest] obtain st' where st': "rfold (\<lambda>st (ns, kvs). syncCertKeyValues ns kvs st) st1 vars = Ok st'" "store_wf st'"
    "\<forall>ns k. live st' ns k = (if ns \<in> fst ` set vars then
        (case vlook vars ns k of Some v \<Rightarrow> Some (trim_space v) | None \<Rightarrow> if has_prefix ''certs/'' k then None else live st1 ns k)
      else live st1 ns k)" by blast
  have look: "vlook ((n, kvs) # vars) ns k = (if ns = n then map_of kvs k else vlook vars ns k)" for ns k
    using rest [of ns] kvs by (simp add: vlook_def)
  have "live st' ns k = (if ns \<in> fst ` set ((n, kvs) # vars) then
        (case vlook ((n, kvs) # vars) ns k of Some v \<Rightarrow> Some (trim_space v) | None \<Rightarrow> if has_prefix ''certs/'' k then None else live st ns k)
      else live st ns k)" for ns k
    using new by (cases "ns = n") (auto simp: st'(3) 1(3) look split: option.split)
  then show ?case using st'(1,2) 1(1) by (simp add: x)
qed simp

section \<open>Properties\<close>

definition pair_held :: "store \<Rightarrow> string \<Rightarrow> string \<Rightarrow> string \<Rightarrow> key_pair \<Rightarrow> bool" where
  "pair_held st job ip name p \<longleftrightarrow>
     live st (worker_kv_namespace job ip) (crt_key name) = Some (trim_space (fst p)) \<and>
     live st (worker_kv_namespace job ip) (key_key name) = Some (trim_space (snd p))"

definition cert_owned :: "string \<Rightarrow> string list \<Rightarrow> string \<Rightarrow> string \<Rightarrow> bool" where
  "cert_owned job ips ns k \<longleftrightarrow> ns \<in> worker_kv_namespace job ` set ips \<and> has_prefix ''certs/'' k"

lemma buildJobCerts_result:
  assumes run: "buildJobCerts w caChanged (c, st, made) job = Ok (c', st', made')" and wf: "store_wf st" and ok: "catalog_ok c"
    and conf: "GetMaandConf (cw_conf w) = Ok conf" and names: "distinct (map fst (loadJobCertSpecs c job))"
    and ips: "ips = GetNonRemovedAllocations c job" "ips \<noteq> []" and specs: "specs = loadJobCertSpecs c job" "specs \<noteq> []"
  shows "\<exists>q. store_wf st' \<and> made \<le> made' \<and>
    ((\<forall>spec \<in> set specs. certNeedsRegeneration w st job (fst spec) (caChanged \<or> HashChanged c ''build_certs'' job) ips
        (mc_certs_renewal_buffer conf) = Ok False) \<longrightarrow> made' = made) \<and> c' = PromoteHash c ''build_certs'' job \<and>
    (\<forall>spec \<in> set specs. spec_made w st job conf (caChanged \<or> HashChanged c ''build_certs'' job) ips made made' (q (fst spec)) spec \<and>
       (\<forall>ip \<in> set ips. pair_held st' job ip (fst spec) (q (fst spec) ip))) \<and>
    (\<forall>ns k. cert_owned job ips ns k \<longrightarrow> (\<forall>spec \<in> set specs. k \<noteq> crt_key (fst spec) \<and> k \<noteq> key_key (fst spec)) \<longrightarrow> live st' ns k = None) \<and>
    (\<forall>ns k. \<not> cert_owned job ips ns k \<longrightarrow> live st' ns k = live st ns k)"
proof -
  let ?jr = "caChanged \<or> HashChanged c ''build_certs'' job"
  from run ips specs conf obtain vars where
      loop: "rfold (spec_certs w st job conf ?jr ips) (made, []) specs = Ok (made', vars)"
    and sync: "rfold (\<lambda>st (ns, kvs). syncCertKeyValues ns kvs st) st vars = Ok st'" and c': "c' = PromoteHash c ''build_certs'' job"
    by (auto simp: buildJobCerts_def Let_def rbind_Inr_conv)
  have d: "distinct ips" unfolding ips by (rule distinct_GetNonRemoved [OF ok])
  have nil: "nested []" "vlook [] ns k = None" for ns k by (simp_all add: nested_def inner_map_def vlook_def)
  have dn: "distinct (map fst specs)" using names specs by simp
  from specs_loop [OF loop d ips(2) dn nil(1)] obtain q where q: "made \<le> made'" "nested vars"
    "specs \<noteq> [] \<longrightarrow> fst ` set vars = worker_kv_namespace job ` set ips \<union> fst ` set ([] :: cert_variables)"
    "\<forall>spec \<in> set specs. spec_made w st job conf ?jr ips made made' (q (fst spec)) spec"
    "\<forall>ip \<in> set ips. \<forall>name \<in> fst ` set specs. vlook vars (worker_kv_namespace job ip) (crt_key name) = Some (fst (q name ip)) \<and>
        vlook vars (worker_kv_namespace job ip) (key_key name) = Some (snd (q name ip))"
    "\<forall>ns k. (\<forall>name \<in> fst ` set specs. k \<noteq> crt_key name \<and> k \<noteq> key_key name) \<longrightarrow> vlook vars ns k = vlook [] ns k"
    "(\<forall>spec \<in> set specs. certNeedsRegeneration w st job (fst spec) ?jr ips (mc_certs_renewal_buffer conf) = Ok False) \<longrightarrow> made' = made"
    by (elim exE conjE) (rule that)
  from sync_all_certs [OF wf q(2)] sync have st': "store_wf st'"
    "\<And>ns k. live st' ns k = (if ns \<in> fst ` set vars then
        (case vlook vars ns k of Some v \<Rightarrow> Some (trim_space v) | None \<Rightarrow> if has_prefix ''certs/'' k then None else live st ns k)
      else live st ns k)" by auto
  have vars: "fst ` set vars = worker_kv_namespace job ` set ips" using q(3) specs(2) by simp
  have held: "pair_held st' job ip (fst spec) (q (fst spec) ip)" if "spec \<in> set specs" "ip \<in> set ips" for spec ip
    using q(5) that by (auto simp: pair_held_def st'(2) vars)
  have only: "vlook vars ns k = None" if "\<forall>spec \<in> set specs. k \<noteq> crt_key (fst spec) \<and> k \<noteq> key_key (fst spec)" for ns k
    using q(6) that nil(2) by simp
  have out: "live st' ns k = live st ns k" if "\<not> cert_owned job ips ns k" for ns k
  proof (cases "ns \<in> fst ` set vars")
    case True
    then have "\<not> has_prefix ''certs/'' k" using that by (simp add: cert_owned_def vars)
    moreover from this have "vlook vars ns k = None" by (intro only) auto
    ultimately show ?thesis by (simp add: st'(2))
  qed (simp add: st'(2))
  have gone: "live st' ns k = None"
    if "cert_owned job ips ns k" "\<forall>spec \<in> set specs. k \<noteq> crt_key (fst spec) \<and> k \<noteq> key_key (fst spec)" for ns k
    using that only [OF that(2)] by (simp add: st'(2) vars cert_owned_def)
  show ?thesis using st'(1) q(1,4,7) c' held gone out by (intro exI [of _ q] conjI) blast+
qed

text \<open>Property C9: certificates are renewed together or kept. After a build, every live allocation of a job holds a
  pair for every certificate of the job. When the CA or the certificates of the manifest changed, or one of the
  pairs is missing or due, all pairs of this certificate were made in this build, one for all workers if it is
  shared, else one for each; otherwise the stored pairs stay. Other keys under \<open>certs/\<close> are gone, and nothing else
  in the store changed.\<close>

theorem certificates_renewed_or_kept:
  assumes run: "buildJobCerts w caChanged (c, st, made) job = Ok (c', st', made')" and wf: "store_wf st" and ok: "catalog_ok c"
    and conf: "GetMaandConf (cw_conf w) = Ok conf" and names: "distinct (map fst (loadJobCertSpecs c job))"
    and live: "GetNonRemovedAllocations c job \<noteq> []" "loadJobCertSpecs c job \<noteq> []"
  shows "(\<exists>q. \<forall>spec \<in> set (loadJobCertSpecs c job).
      spec_made w st job conf (caChanged \<or> HashChanged c ''build_certs'' job) (GetNonRemovedAllocations c job) made made' (q (fst spec)) spec \<and>
      (\<forall>ip \<in> set (GetNonRemovedAllocations c job). pair_held st' job ip (fst spec) (q (fst spec) ip))) \<and>
    (\<forall>ns k. live st' ns k = live st ns k \<or> cert_owned job (GetNonRemovedAllocations c job) ns k)"
  using buildJobCerts_result [OF run wf ok conf names refl live(1) refl live(2)] by blast

section \<open>A second build\<close>

text \<open>What the generator has to give: pairs that are not empty, and certificates that are not due at once.\<close>

definition lasting :: "cert_world \<Rightarrow> maand_conf \<Rightarrow> bool" where
  "lasting w conf \<longleftrightarrow> (\<forall>n name config ips p. cw_generate w n name config ips (mc_certs_ttl conf) = Ok p \<longrightarrow>
     trim_space (fst p) \<noteq> [] \<and> trim_space (snd p) \<noteq> [] \<and>
     certPEMExpiringSoon w (mc_certs_renewal_buffer conf) (trim_space (fst p)) = Ok False)"

text \<open>\<open>Put\<close> trims, so that the values of a store are trimmed.\<close>

definition values_trimmed :: "store \<Rightarrow> bool" where
  "values_trimmed st \<longleftrightarrow> (\<forall>ns k v. live st ns k = Some v \<longrightarrow> trim_space v = v)"

definition pair_lasts :: "cert_world \<Rightarrow> maand_conf \<Rightarrow> key_pair \<Rightarrow> bool" where
  "pair_lasts w conf p \<longleftrightarrow> trim_space (fst p) \<noteq> [] \<and> trim_space (snd p) \<noteq> [] \<and>
     certPEMExpiringSoon w (mc_certs_renewal_buffer conf) (trim_space (fst p)) = Ok False"

lemma stored_value_live: "stored_value st ns k = Ok (case live st ns k of None \<Rightarrow> [] | Some v \<Rightarrow> v)"
  by (auto simp: stored_value_def Get_live live_def split: option.splits)

lemma not_due:
  "workerCertNeedsRegeneration w st job name bufferDays ip = Ok False \<longleftrightarrow>
   (\<exists>crt key. live st (worker_kv_namespace job ip) (crt_key name) = Some crt \<and> live st (worker_kv_namespace job ip) (key_key name) = Some key \<and>
      crt \<noteq> [] \<and> key \<noteq> [] \<and> certPEMExpiringSoon w bufferDays crt = Ok False)"
  by (auto simp: workerCertNeedsRegeneration_def Let_def stored_value_live crt_key_def [symmetric] key_key_def [symmetric]
      split: option.splits)

lemma stored_pair_live:
  "stored_pair st job ip name = Ok p \<Longrightarrow>
   live st (worker_kv_namespace job ip) (crt_key name) = Some (fst p) \<and> live st (worker_kv_namespace job ip) (key_key name) = Some (snd p)"
  by (auto simp: stored_pair_def Let_def rbind_Inr_conv crt_key_def [symmetric] key_key_def [symmetric] dest!: Get_Ok_live)

lemma made_lasts:
  assumes made: "spec_made w st job conf jr ips m n q spec" and ip: "ip \<in> set ips"
    and lasts: "lasting w conf" and trimmed: "values_trimmed st"
  shows "pair_lasts w conf (q ip)"
proof -
  from made obtain again where a: "certNeedsRegeneration w st job (fst spec) jr ips (mc_certs_renewal_buffer conf) = Ok again"
    and src: "\<And>i. i \<in> set ips \<Longrightarrow> came_from w st job conf ips again m n spec i (q i)" unfolding spec_made_def by blast
  show ?thesis
  proof (cases again)
    case True
    with src [OF ip] obtain k where "cw_generate w k (fst spec) (snd spec) (if cc_one (snd spec) then ips else [ip]) (mc_certs_ttl conf) = Ok (q ip)"
      unfolding came_from_def by auto
    with lasts show ?thesis unfolding lasting_def pair_lasts_def by blast
  next
    case False
    define i where "i = (if cc_one (snd spec) then hd ips else ip)"
    have i: "i \<in> set ips" using ip by (cases ips) (auto simp: i_def)
    have pair: "stored_pair st job i (fst spec) = Ok (q ip)" using src [OF ip] False by (simp add: came_from_def i_def)
    have "workerCertNeedsRegeneration w st job (fst spec) (mc_certs_renewal_buffer conf) i = Ok False"
      using a False i by (auto simp: certNeedsRegeneration_def any_worker_needs_False split: if_splits)
    with stored_pair_live [OF pair] have "fst (q ip) \<noteq> []" "snd (q ip) \<noteq> []"
      "certPEMExpiringSoon w (mc_certs_renewal_buffer conf) (fst (q ip)) = Ok False" by (auto simp: not_due)
    moreover have "trim_space (fst (q ip)) = fst (q ip)" "trim_space (snd (q ip)) = snd (q ip)"
      using stored_pair_live [OF pair] trimmed unfolding values_trimmed_def by blast+
    ultimately show ?thesis by (simp add: pair_lasts_def)
  qed
qed

text \<open>Property C22: a second build makes no certificate anew, provided that a fresh certificate is not due at once, that is,
  that the renewal buffer is shorter than the lifetime (\<open>lasting\<close>). Run the build of the certificates of a job that has
  certificates, an allocation and a \<open>build_certs\<close> row, and run it again with an unchanged CA and an unchanged catalog:
  the second run makes no certificate, and the store keeps every value.\<close>

theorem certificates_are_stable:
  assumes first: "buildJobCerts w caChanged (c, st, made) job = Ok (c', st', made')"
    and second: "buildJobCerts w False (c', st', made') job = Ok (c'', st'', made'')"
    and wf: "store_wf st" and ok: "catalog_ok c" and conf: "GetMaandConf (cw_conf w) = Ok conf"
    and names: "distinct (map fst (loadJobCertSpecs c job))" and row: "hash_rows c ''build_certs'' job \<noteq> []"
    and live: "GetNonRemovedAllocations c job \<noteq> []" "loadJobCertSpecs c job \<noteq> []"
    and lasts: "lasting w conf" and trimmed: "values_trimmed st"
  shows "made'' = made' \<and> live st'' = live st'"
proof -
  let ?ips = "GetNonRemovedAllocations c job" and ?specs = "loadJobCertSpecs c job"
  from buildJobCerts_result [OF first wf ok conf names refl live(1) refl live(2)] obtain q where q: "store_wf st'"
    "c' = PromoteHash c ''build_certs'' job"
    "\<forall>spec \<in> set ?specs. spec_made w st job conf (caChanged \<or> HashChanged c ''build_certs'' job) ?ips made made' (q (fst spec)) spec \<and>
       (\<forall>ip \<in> set ?ips. pair_held st' job ip (fst spec) (q (fst spec) ip))"
    "\<forall>ns k. cert_owned job ?ips ns k \<longrightarrow> (\<forall>spec \<in> set ?specs. k \<noteq> crt_key (fst spec) \<and> k \<noteq> key_key (fst spec)) \<longrightarrow> live st' ns k = None"
    by (elim exE conjE) (rule that)
  have c': "c' = update_hash (\<lambda>h. h\<lparr>h_previous_hash := h_current_hash h\<rparr>) ''build_certs'' job c" by (simp add: q(2) PromoteHash_def)
  have same: "GetNonRemovedAllocations c' job = ?ips" "loadJobCertSpecs c' job = ?specs"
    by (simp_all add: c' update_hash_def GetNonRemovedAllocations_def allocs_of_def loadJobCertSpecs_def job_id_of_def jobs_named_def)
  have ok': "catalog_ok c'" unfolding c' by (rule catalog_ok_update_hash [OF _ ok]) (simp add: keeps_key_def)
  have unchanged: "\<not> HashChanged c' ''build_certs'' job"
  proof -
    have "hash_rows c' ''build_certs'' job = map (\<lambda>h. h\<lparr>h_previous_hash := h_current_hash h\<rparr>) (hash_rows c ''build_certs'' job)"
      unfolding c' by (simp add: hash_rows_update keeps_key_def)
    then show ?thesis using row by (auto simp: HashChanged_def split: list.splits)
  qed
  have held: "pair_held st' job ip (fst spec) (q (fst spec) ip)" and shared: "cc_one (snd spec) \<longrightarrow> q (fst spec) ip = q (fst spec) (hd ?ips)"
    and lasting: "pair_lasts w conf (q (fst spec) ip)" if "spec \<in> set ?specs" "ip \<in> set ?ips" for spec ip
    using q(3) that made_lasts [OF _ that(2) lasts trimmed] unfolding spec_made_def by blast+
  have quiet: "certNeedsRegeneration w st' job (fst spec) False ?ips (mc_certs_renewal_buffer conf) = Ok False" if spec: "spec \<in> set ?specs" for spec
    using held [OF spec] lasting [OF spec]
    by (simp add: certNeedsRegeneration_def any_worker_needs_False not_due pair_held_def pair_lasts_def)
  from buildJobCerts_result [OF second q(1) ok' conf, unfolded same, OF names refl live(1) refl live(2)] obtain r where r:
    "\<forall>spec \<in> set ?specs. spec_made w st' job conf (False \<or> HashChanged c' ''build_certs'' job) ?ips made' made'' (r (fst spec)) spec \<and>
       (\<forall>ip \<in> set ?ips. pair_held st'' job ip (fst spec) (r (fst spec) ip))"
    "\<forall>ns k. cert_owned job ?ips ns k \<longrightarrow> (\<forall>spec \<in> set ?specs. k \<noteq> crt_key (fst spec) \<and> k \<noteq> key_key (fst spec)) \<longrightarrow> live st'' ns k = None"
    "\<forall>ns k. \<not> cert_owned job ?ips ns k \<longrightarrow> live st'' ns k = live st' ns k"
    "(\<forall>spec \<in> set ?specs. certNeedsRegeneration w st' job (fst spec) (False \<or> HashChanged c' ''build_certs'' job) ?ips
        (mc_certs_renewal_buffer conf) = Ok False) \<longrightarrow> made'' = made'"
    by (elim exE conjE) (rule that)
  have count: "made'' = made'" using r(4) quiet unchanged by simp
  have kept: "live st'' (worker_kv_namespace job ip) k = live st' (worker_kv_namespace job ip) k"
    if spec: "spec \<in> set ?specs" and ip: "ip \<in> set ?ips" and k: "k = crt_key (fst spec) \<or> k = key_key (fst spec)" for spec ip k
  proof -
    define i where "i = (if cc_one (snd spec) then hd ?ips else ip)"
    have i: "i \<in> set ?ips" using ip live(1) by (simp add: i_def)
    have "stored_pair st' job i (fst spec) = Ok (r (fst spec) ip)"
      using r(1) spec ip quiet [OF spec] unchanged by (auto simp: spec_made_def came_from_def i_def)
    from stored_pair_live [OF this] held [OF spec i]
    have "fst (r (fst spec) ip) = trim_space (fst (q (fst spec) i))" "snd (r (fst spec) ip) = trim_space (snd (q (fst spec) i))"
      by (simp_all add: pair_held_def)
    moreover have "q (fst spec) i = q (fst spec) ip" using shared [OF spec ip] by (auto simp: i_def)
    moreover have "pair_held st'' job ip (fst spec) (r (fst spec) ip)" using r(1) spec ip by blast
    ultimately show ?thesis using held [OF spec ip] k by (auto simp: pair_held_def trim_space_idem)
  qed
  have "live st'' ns k = live st' ns k" for ns k
  proof (cases "cert_owned job ?ips ns k \<and> (\<forall>spec \<in> set ?specs. k \<noteq> crt_key (fst spec) \<and> k \<noteq> key_key (fst spec))")
    case True
    then show ?thesis using r(2) q(4) by simp
  next
    case False
    then consider "\<not> cert_owned job ?ips ns k"
      | ip spec where "ns = worker_kv_namespace job ip" "ip \<in> set ?ips" "spec \<in> set ?specs" "k = crt_key (fst spec) \<or> k = key_key (fst spec)"
      unfolding cert_owned_def by blast
    then show ?thesis by cases (use r(3) kept in blast)+
  qed
  with count show ?thesis by (auto simp: fun_eq_iff)
qed

section \<open>Witnesses\<close>

text \<open>Job \<open>a\<close> on worker \<open>w\<close> with one certificate; the generator gives certificates for 100 days.\<close>

definition one_cert :: cert_world where
  "one_cert = \<lparr>cw_ca_hash = Ok ''h'', cw_conf = Some (Some \<lparr>mc_certs_ttl = 60, mc_certs_renewal_buffer = 10\<rparr>), cw_now = 0,
     cw_not_after = \<lambda>_. Some (Ok (100 * day)), cw_generate = \<lambda>_ _ _ _ _. Ok (''crt'', ''key'')\<rparr>"

definition cert_job :: catalog where
  "cert_job = empty_catalog\<lparr>t_job := [plain_job ''a''], t_allocations := [plain_alloc ''w'' ''a''],
     t_job_certs := [(''a'', ''tls'', \<lparr>cc_pkcs8 = False, cc_one = False, cc_common_name = ''a''\<rparr>)],
     t_hash := [\<lparr>h_namespace = ''build_certs'', h_key = ''a'', h_current_hash = Some ''1'', h_previous_hash = None,
       h_current_files = None, h_previous_files = None, h_current_version = None\<rparr>]\<rparr>"

definition the_certs :: "error + catalog \<times> store \<times> nat \<Rightarrow> catalog \<times> store \<times> nat" where
  "the_certs r = (case r of Inl _ \<Rightarrow> (empty_catalog, NewStore, 0) | Inr s \<Rightarrow> s)"

definition certs1 :: "catalog \<times> store \<times> nat" where "certs1 = the_certs (buildJobCerts one_cert False (cert_job, NewStore, 0) ''a'')"

definition certs2 :: "catalog \<times> store \<times> nat" where "certs2 = the_certs (buildJobCerts one_cert False certs1 ''a'')"

lemma cert_runs:
  "buildJobCerts one_cert False (cert_job, NewStore, 0) ''a'' = Ok (fst certs1, fst (snd certs1), snd (snd certs1))"
  "buildJobCerts one_cert False (fst certs1, fst (snd certs1), snd (snd certs1)) ''a'' = Ok (fst certs2, fst (snd certs2), snd (snd certs2))"
  by code_simp+

lemma cert_job_ok:
  "catalog_ok cert_job" "GetMaandConf (cw_conf one_cert) = Ok \<lparr>mc_certs_ttl = 60, mc_certs_renewal_buffer = 10\<rparr>"
  "distinct (map fst (loadJobCertSpecs cert_job ''a''))" "hash_rows cert_job ''build_certs'' ''a'' \<noteq> []"
  "GetNonRemovedAllocations cert_job ''a'' \<noteq> []" "loadJobCertSpecs cert_job ''a'' \<noteq> []"
  by code_simp+

lemma certificates_renewed_or_kept_witness:
  "\<exists>q :: string \<Rightarrow> string \<Rightarrow> key_pair. pair_held (fst (snd certs1)) ''a'' ''w'' ''tls'' (q ''tls'' ''w'') \<and> live NewStore (worker_kv_namespace ''a'' ''w'') = Map.empty"
proof -
  have mem: "list_ex (\<lambda>s. fst s = ''tls'') (loadJobCertSpecs cert_job ''a'')" "list_ex (\<lambda>ip. ip = ''w'') (GetNonRemovedAllocations cert_job ''a'')"
    by code_simp+
  from certificates_renewed_or_kept [OF cert_runs(1) store_wf_NewStore cert_job_ok(1-3,5,6)] obtain q where
    q: "\<And>spec ip. spec \<in> set (loadJobCertSpecs cert_job ''a'') \<Longrightarrow> ip \<in> set (GetNonRemovedAllocations cert_job ''a'') \<Longrightarrow>
      pair_held (fst (snd certs1)) ''a'' ip (fst spec) (q (fst spec) ip)" by blast
  have "pair_held (fst (snd certs1)) ''a'' ''w'' ''tls'' (q ''tls'' ''w'')" using q mem by (auto simp: list_ex_iff)
  moreover have "live NewStore (worker_kv_namespace ''a'' ''w'') = Map.empty" by (simp add: fun_eq_iff live_def lookup_NewStore)
  ultimately show ?thesis by blast
qed

lemma certificates_are_stable_witness: "snd (snd certs1) = 1 \<and> snd (snd certs2) = 1 \<and> live (fst (snd certs2)) = live (fst (snd certs1))"
proof -
  have "lasting one_cert \<lparr>mc_certs_ttl = 60, mc_certs_renewal_buffer = 10\<rparr>"
    by (simp add: lasting_def one_cert_def certPEMExpiringSoon_def renewal_window day_def) code_simp
  moreover have "values_trimmed NewStore" by (simp add: values_trimmed_def live_def lookup_NewStore)
  ultimately have "snd (snd certs2) = snd (snd certs1) \<and> live (fst (snd certs2)) = live (fst (snd certs1))"
    by (rule certificates_are_stable [OF cert_runs store_wf_NewStore cert_job_ok])
  moreover have "snd (snd certs1) = 1" by code_simp
  ultimately show ?thesis by simp
qed

end
