(* ===== verification/PromConfig.thy ===== *)
theory PromConfig
  imports BuildJobs "HOL-Library.Countable"
begin

text \<open>
  The Prometheus configuration that jobs bring along (\<open>promconfig/scrape.go\<close>, \<open>alerts.go\<close>, \<open>paths.go\<close>,
  \<open>dashboards.go\<close>): scrape configurations with placeholders for ports and jobs, and alert rules with runbooks. YAML
  and JSON are parameters; what the code does with the values they decode to is modelled.
\<close>

section \<open>Values of YAML\<close>

text \<open>What \<open>interface{}\<close> can hold here: a string, a map with string keys, a list, or anything else.\<close>

datatype yaml = YText string | YMap "(string \<times> yaml) list" | YList "yaml list" | YOther string

type_synonym scrape_config = "(string \<times> yaml) list"

record alert_rule =
  ar_alert :: string
  ar_record :: string
  ar_expr :: string
  ar_for :: string
  ar_labels :: "(string \<times> string) list"
  ar_annotations :: "(string \<times> string) list"

record alert_group =
  ag_name :: string
  ag_rules :: "alert_rule list"

text \<open>\<open>yaml.Unmarshal\<close> into a list of maps, a map, and a file of rules; \<open>yaml.Marshal\<close> of them; JSON of a list of maps.\<close>

record yaml_lib =
  yl_configs :: "string \<Rightarrow> scrape_config list option"
  yl_map :: "string \<Rightarrow> scrape_config option"
  yl_rules :: "string \<Rightarrow> alert_group list option"
  yl_configs_out :: "scrape_config list \<Rightarrow> error + string"
  yl_map_out :: "scrape_config \<Rightarrow> error + string"
  yl_rules_out :: "alert_group list \<Rightarrow> error + string"
  yl_json :: "string \<Rightarrow> scrape_config list option"
  yl_json_out :: "scrape_config list \<Rightarrow> error + string"

section \<open>Parsing and validation (promconfig/scrape.go)\<close>

definition PortPlaceholderPrefix :: string where
  "PortPlaceholderPrefix = ''maand:port/''"

definition JobPlaceholder :: string where
  "JobPlaceholder = ''maand:job''"

definition ImplicitPortKey :: string where
  "ImplicitPortKey = ''_implicit''"

definition forbiddenServiceDiscoveryKeys :: "string list" where
  "forbiddenServiceDiscoveryKeys =
     [''kubernetes_sd_configs'', ''dns_sd_configs'', ''file_sd_configs'', ''consul_sd_configs'', ''ecs_sd_configs'',
      ''ec2_sd_configs'', ''openstack_sd_configs'', ''azure_sd_configs'', ''gce_sd_configs'', ''hetzner_sd_configs'',
      ''ionos_sd_configs'', ''linode_sd_configs'', ''digitalocean_sd_configs'', ''docker_sd_configs'',
      ''dockerswarm_sd_configs'', ''eureka_sd_configs'', ''http_sd_configs'', ''kuma_sd_configs'', ''marathon_sd_configs'',
      ''nerve_sd_configs'', ''serverset_sd_configs'', ''triton_sd_configs'', ''uyuni_sd_configs'']"

definition ParseScrapeFile :: "yaml_lib \<Rightarrow> string \<Rightarrow> error + scrape_config list" where
  "ParseScrapeFile y text =
     (if trim_space text = [] then Err ErrInvalidJob
      else case yl_configs y text of
        None \<Rightarrow> Err ErrInvalidJob
      | Some configs \<Rightarrow> if configs = [] then Err ErrInvalidJob else Ok configs)"

definition job_label :: "scrape_config \<Rightarrow> string option" where
  "job_label cfg = (case map_of cfg ''job_name'' of Some (YText s) \<Rightarrow> Some s | _ \<Rightarrow> None)"

definition validate_scrape_config :: "scrape_config \<Rightarrow> error + unit" where
  "validate_scrape_config cfg =
     (if list_ex (\<lambda>k. map_of cfg k \<noteq> None) forbiddenServiceDiscoveryKeys then Err ErrInvalidJob
      else case job_label cfg of None \<Rightarrow> Err ErrInvalidJob
        | Some label \<Rightarrow> if trim_space label = [] then Err ErrInvalidJob else Ok ())"

definition ValidateScrapeConfigs :: "scrape_config list \<Rightarrow> error + unit" where
  "ValidateScrapeConfigs configs = rfold (\<lambda>_ cfg. validate_scrape_config cfg) () configs"

text \<open>The target strings of a configuration; everything of another shape is skipped.\<close>

definition text_of :: "yaml \<Rightarrow> string list" where
  "text_of v = (case v of YText s \<Rightarrow> [s] | _ \<Rightarrow> [])"

definition block_targets :: "yaml \<Rightarrow> string list" where
  "block_targets b =
     (case b of YMap m \<Rightarrow> (case map_of m ''targets'' of Some (YList ts) \<Rightarrow> concat (map text_of ts) | _ \<Rightarrow> []) | _ \<Rightarrow> [])"

definition config_targets :: "scrape_config \<Rightarrow> string list" where
  "config_targets cfg =
     (case map_of cfg ''static_configs'' of Some (YList bs) \<Rightarrow> concat (map block_targets bs) | _ \<Rightarrow> [])"

definition is_placeholder :: "string \<Rightarrow> bool" where
  "is_placeholder target \<longleftrightarrow> has_prefix PortPlaceholderPrefix target"

definition ResolveMetricsPortKey :: "string \<Rightarrow> manifest_ports \<Rightarrow> error + string" where
  "ResolveMetricsPortKey job ports =
     (case filter (\<lambda>n. map_of ports n \<noteq> None) [job @ ''_metrics_port'', ''metrics_port''] of
        n # _ \<Rightarrow> Ok n
      | [] \<Rightarrow>
          (case sort_strings (filter (has_suffix ''_metrics_port'') (map fst ports)) of
             [n] \<Rightarrow> Ok n
           | _ \<Rightarrow> Err ErrInvalidJob))"

text \<open>The parts of a placeholder behind its prefix: the key of the port, and the rest.\<close>

definition placeholder_parts :: "string \<Rightarrow> string list" where
  "placeholder_parts target = split_char CHR ''/'' (trim_prefix PortPlaceholderPrefix target)"

definition placeholder_port :: "string \<Rightarrow> manifest_ports \<Rightarrow> string \<Rightarrow> error + string" where
  "placeholder_port job ports target =
     (let portKey = hd (placeholder_parts target)
      in if portKey = [] then Err ErrInvalidJob
         else rbind (if portKey = ImplicitPortKey then ResolveMetricsPortKey job ports else Ok portKey) (\<lambda>k.
           if map_of ports k = None then Err ErrInvalidJob else Ok k))"

definition validatePortPlaceholder :: "string \<Rightarrow> string \<Rightarrow> manifest_ports \<Rightarrow> error + unit" where
  "validatePortPlaceholder job target ports = rbind (placeholder_port job ports target) (\<lambda>_. Ok ())"

definition ValidateScrapePortReferences :: "string \<Rightarrow> scrape_config list \<Rightarrow> manifest_ports \<Rightarrow> error + unit" where
  "ValidateScrapePortReferences job configs ports =
     rfold (\<lambda>_ cfg. rfold (\<lambda>_ t. if is_placeholder t then validatePortPlaceholder job t ports else Ok ())
       () (config_targets cfg)) () configs"

definition ScrapeConfigsRequireActiveAllocations :: "scrape_config list \<Rightarrow> bool" where
  "ScrapeConfigsRequireActiveAllocations configs \<longleftrightarrow> list_ex (\<lambda>cfg. list_ex is_placeholder (config_targets cfg)) configs"

section \<open>Expansion (promconfig/scrape.go)\<close>

definition ResolveScrapeJobName :: "string \<Rightarrow> string \<Rightarrow> string" where
  "ResolveScrapeJobName job s = (if s = JobPlaceholder then job else s)"

definition resolve_label :: "string \<Rightarrow> string \<times> yaml \<Rightarrow> string \<times> yaml" where
  "resolve_label job = (\<lambda>(k, v). (k, case v of YText s \<Rightarrow> YText (ResolveScrapeJobName job s) | _ \<Rightarrow> v))"

definition resolve_block :: "string \<Rightarrow> yaml \<Rightarrow> yaml" where
  "resolve_block job b =
     (case b of
        YMap m \<Rightarrow> (case map_of m ''labels'' of
            Some (YMap labels) \<Rightarrow> YMap (AList.update ''labels'' (YMap (map (resolve_label job) labels)) m)
          | _ \<Rightarrow> b)
      | _ \<Rightarrow> b)"

definition expandScrapeJobReferences :: "string \<Rightarrow> scrape_config \<Rightarrow> scrape_config" where
  "expandScrapeJobReferences job cfg =
     (let cfg1 = (case job_label cfg of
            None \<Rightarrow> cfg | Some s \<Rightarrow> AList.update ''job_name'' (YText (ResolveScrapeJobName job s)) cfg)
      in case map_of cfg1 ''static_configs'' of
           Some (YList bs) \<Rightarrow> AList.update ''static_configs'' (YList (map (resolve_block job) bs)) cfg1
         | _ \<Rightarrow> cfg1)"

definition expandTarget ::
  "string \<Rightarrow> manifest_ports \<Rightarrow> (string \<times> int) list \<Rightarrow> string list \<Rightarrow> string \<Rightarrow> error + string list" where
  "expandTarget job ports portNumbers active target =
     (if \<not> is_placeholder target then Ok [target]
      else rbind (placeholder_port job ports target) (\<lambda>portKey.
        case map_of portNumbers portKey of
          None \<Rightarrow> Err ErrInvalidJob
        | Some portNumber \<Rightarrow>
            let pinned = (case placeholder_parts target of _ # p # _ \<Rightarrow> p | _ \<Rightarrow> [])
            in rbind (if pinned = [] then Ok active
                      else if pinned \<in> set active then Ok [pinned] else Err ErrInvalidJob) (\<lambda>workers.
                 Ok (map (\<lambda>ip. ip @ '':'' @ itoa portNumber) workers))))"

text \<open>A target that is not a string is an error here.\<close>

definition expand_target ::
  "string \<Rightarrow> manifest_ports \<Rightarrow> (string \<times> int) list \<Rightarrow> string list \<Rightarrow> yaml list \<Rightarrow> yaml \<Rightarrow> error + yaml list" where
  "expand_target job ports portNumbers active acc raw =
     (case raw of
        YText t \<Rightarrow> rbind (expandTarget job ports portNumbers active t) (\<lambda>ts. Ok (acc @ map YText ts))
      | _ \<Rightarrow> Err ErrInvalidJob)"

definition deepCopyMap :: "yaml_lib \<Rightarrow> scrape_config \<Rightarrow> error + scrape_config" where
  "deepCopyMap y m =
     rbind (yl_map_out y m) (\<lambda>raw. case yl_map y raw of None \<Rightarrow> Err ErrLibrary | Some m' \<Rightarrow> Ok m')"

definition expand_block ::
  "yaml_lib \<Rightarrow> string \<Rightarrow> manifest_ports \<Rightarrow> (string \<times> int) list \<Rightarrow> string list \<Rightarrow> yaml \<Rightarrow> error + yaml" where
  "expand_block y job ports portNumbers active block =
     (case block of
        YMap m \<Rightarrow>
          rbind (deepCopyMap y m) (\<lambda>m'.
            case map_of m' ''targets'' of
              Some (YList ts) \<Rightarrow>
                if ts = [] then Err ErrInvalidJob
                else rbind (rfold (expand_target job ports portNumbers active) [] ts) (\<lambda>expanded.
                  if expanded = [] then Err ErrNoActiveScrapeTargets
                  else Ok (YMap (AList.update ''targets'' (YList expanded) m')))
            | _ \<Rightarrow> Err ErrInvalidJob)
      | _ \<Rightarrow> Err ErrInvalidJob)"

definition expandStaticConfigs ::
  "yaml_lib \<Rightarrow> string \<Rightarrow> manifest_ports \<Rightarrow> (string \<times> int) list \<Rightarrow> string list \<Rightarrow> scrape_config \<Rightarrow> error + scrape_config" where
  "expandStaticConfigs y job ports portNumbers active cfg =
     (case map_of cfg ''static_configs'' of
        Some (YList bs) \<Rightarrow>
          if bs = [] then Err ErrInvalidJob
          else rbind (rmap (expand_block y job ports portNumbers active) bs) (\<lambda>bs'.
            Ok (AList.update ''static_configs'' (YList bs') cfg))
      | _ \<Rightarrow> Err ErrInvalidJob)"

definition expand_config ::
  "yaml_lib \<Rightarrow> string \<Rightarrow> manifest_ports \<Rightarrow> (string \<times> int) list \<Rightarrow> string list \<Rightarrow> scrape_config \<Rightarrow> error + scrape_config" where
  "expand_config y job ports portNumbers active cfg =
     rbind (deepCopyMap y cfg) (\<lambda>copy. expandStaticConfigs y job ports portNumbers active (expandScrapeJobReferences job copy))"

definition ExpandScrapeConfigs ::
  "yaml_lib \<Rightarrow> string \<Rightarrow> scrape_config list \<Rightarrow> manifest_ports \<Rightarrow> (string \<times> int) list \<Rightarrow> string list \<Rightarrow>
   error + scrape_config list" where
  "ExpandScrapeConfigs y job configs ports portNumbers active = rmap (expand_config y job ports portNumbers active) configs"

definition newline :: string where
  "newline = [CHR 0x0A]"

definition ScrapeConfigsYAML :: "yaml_lib \<Rightarrow> scrape_config list \<Rightarrow> error + string" where
  "ScrapeConfigsYAML y configs =
     (if configs = [] then Ok []
      else rbind (yl_configs_out y configs) (\<lambda>raw.
        Ok (concat (map (\<lambda>line. newline @ ''  '' @ line)
          (filter (\<lambda>line. line \<noteq> []) (split_char CHR 0x0A (trim_suffix newline raw)))))))"

section \<open>What the expansion leaves\<close>

definition pinned_worker :: "string \<Rightarrow> string" where
  "pinned_worker target = (case placeholder_parts target of _ # p # _ \<Rightarrow> p | _ \<Rightarrow> [])"

text \<open>\<open>ts\<close> is what a target stands for: itself, or one address per active worker, or the address of the one it names.\<close>

definition stands_for ::
  "string \<Rightarrow> manifest_ports \<Rightarrow> (string \<times> int) list \<Rightarrow> string list \<Rightarrow> string \<Rightarrow> string list \<Rightarrow> bool" where
  "stands_for job ports portNumbers active t ts \<longleftrightarrow>
     (if is_placeholder t
      then \<exists>k n. placeholder_port job ports t = Ok k \<and> map_of portNumbers k = Some n \<and>
        (pinned_worker t \<noteq> [] \<longrightarrow> pinned_worker t \<in> set active) \<and>
        ts = map (\<lambda>ip. ip @ '':'' @ itoa n) (if pinned_worker t = [] then active else [pinned_worker t])
      else ts = [t])"

lemma expandTarget_Ok: "expandTarget job ports nums active t = Ok ts \<longleftrightarrow> stands_for job ports nums active t ts"
  by (cases "placeholder_port job ports t")
    (auto simp: expandTarget_def stands_for_def pinned_worker_def [symmetric] Let_def split: option.splits if_splits)

text \<open>The expansion of a static block, as a relation: the targets are replaced one by one, the job placeholder in the
  labels is replaced, and every other key keeps its value.\<close>

definition block_expanded ::
  "string \<Rightarrow> manifest_ports \<Rightarrow> (string \<times> int) list \<Rightarrow> string list \<Rightarrow> yaml \<Rightarrow> yaml \<Rightarrow> bool" where
  "block_expanded job ports nums active b b' \<longleftrightarrow>
     (\<exists>m m' ts tss. b = YMap m \<and> b' = YMap m' \<and>
        map_of m ''targets'' = Some (YList (map YText ts)) \<and> ts \<noteq> [] \<and>
        list_all2 (stands_for job ports nums active) ts tss \<and> concat tss \<noteq> [] \<and>
        map_of m' ''targets'' = Some (YList (map YText (concat tss))) \<and>
        map_of m' ''labels'' = (case map_of m ''labels'' of
           Some (YMap labels) \<Rightarrow> Some (YMap (map (resolve_label job) labels)) | v \<Rightarrow> v) \<and>
        (\<forall>k. k \<noteq> ''targets'' \<and> k \<noteq> ''labels'' \<longrightarrow> map_of m' k = map_of m k))"

definition config_expanded ::
  "string \<Rightarrow> manifest_ports \<Rightarrow> (string \<times> int) list \<Rightarrow> string list \<Rightarrow> scrape_config \<Rightarrow> scrape_config \<Rightarrow> bool" where
  "config_expanded job ports nums active cfg cfg' \<longleftrightarrow>
     (\<exists>bs bs'. map_of cfg ''static_configs'' = Some (YList bs) \<and> bs \<noteq> [] \<and>
        list_all2 (block_expanded job ports nums active) bs bs' \<and> map_of cfg' ''static_configs'' = Some (YList bs')) \<and>
     map_of cfg' ''job_name'' = (case map_of cfg ''job_name'' of
        Some (YText s) \<Rightarrow> Some (YText (ResolveScrapeJobName job s)) | v \<Rightarrow> v) \<and>
     (\<forall>k. k \<noteq> ''job_name'' \<and> k \<noteq> ''static_configs'' \<longrightarrow> map_of cfg' k = map_of cfg k)"

lemma expand_targets_iff:
  "rfold (expand_target job ports nums active) acc raws = Ok out \<longleftrightarrow>
   (\<exists>ts tss. raws = map YText ts \<and> list_all2 (stands_for job ports nums active) ts tss \<and> out = acc @ map YText (concat tss))"
proof (induction raws arbitrary: acc)
  case (Cons raw raws)
  have step: "rfold (expand_target job ports nums active) acc (raw # raws) = Ok out \<longleftrightarrow>
      (\<exists>t ts. raw = YText t \<and> stands_for job ports nums active t ts \<and>
        rfold (expand_target job ports nums active) (acc @ map YText ts) raws = Ok out)"
    by (cases raw) (auto simp: expand_target_def [of _ _ _ _ acc] rbind_Inr_conv expandTarget_Ok)
  let ?S = "list_all2 (stands_for job ports nums active)"
  show ?case unfolding step Cons.IH
  proof (intro iffI)
    assume "\<exists>t ts. raw = YText t \<and> stands_for job ports nums active t ts \<and>
      (\<exists>us tss. raws = map YText us \<and> ?S us tss \<and> out = (acc @ map YText ts) @ map YText (concat tss))"
    then obtain t ts us tss where "raw = YText t" "stands_for job ports nums active t ts" "raws = map YText us" "?S us tss"
      "out = (acc @ map YText ts) @ map YText (concat tss)" by blast
    then show "\<exists>ts tss. raw # raws = map YText ts \<and> ?S ts tss \<and> out = acc @ map YText (concat tss)"
      by (intro exI [of _ "t # us"] exI [of _ "ts # tss"]) simp
  next
    assume "\<exists>ts tss. raw # raws = map YText ts \<and> ?S ts tss \<and> out = acc @ map YText (concat tss)"
    then obtain ts0 tss0 where 0: "raw # raws = map YText ts0" "?S ts0 tss0" "out = acc @ map YText (concat tss0)"
      by (elim exE conjE) (rule that)
    from 0(1) obtain t us where us: "ts0 = t # us" "raw = YText t" "raws = map YText us" by (cases ts0) auto
    from 0(2) us(1) obtain ts tss where tss: "tss0 = ts # tss" "stands_for job ports nums active t ts" "?S us tss"
      by (auto simp: list_all2_Cons1)
    show "\<exists>t ts. raw = YText t \<and> stands_for job ports nums active t ts \<and>
      (\<exists>us tss. raws = map YText us \<and> ?S us tss \<and> out = (acc @ map YText ts) @ map YText (concat tss))"
      using us tss 0(3) by (intro exI [of _ t] exI [of _ ts] conjI exI [of _ us] exI [of _ tss]) simp_all
  qed
qed auto

definition faithful_copies :: "yaml_lib \<Rightarrow> bool" where
  "faithful_copies y \<longleftrightarrow> (\<forall>m. deepCopyMap y m = Ok m)"

lemma expand_block_iff:
  assumes "faithful_copies y"
  shows "expand_block y job ports nums active b = Ok b' \<longleftrightarrow>
    (\<exists>m ts tss. b = YMap m \<and> map_of m ''targets'' = Some (YList (map YText ts)) \<and> ts \<noteq> [] \<and>
       list_all2 (stands_for job ports nums active) ts tss \<and> concat tss \<noteq> [] \<and>
       b' = YMap (AList.update ''targets'' (YList (map YText (concat tss))) m))" (is "_ \<longleftrightarrow> ?R")
proof
  assume "expand_block y job ports nums active b = Ok b'"
  with assms obtain m raws out where m: "b = YMap m" "map_of m ''targets'' = Some (YList raws)" "raws \<noteq> []"
    and loop: "rfold (expand_target job ports nums active) [] raws = Ok out" "out \<noteq> []"
    and b': "b' = YMap (AList.update ''targets'' (YList out) m)"
    by (auto simp: expand_block_def faithful_copies_def rbind_Inr_conv split: yaml.splits option.splits if_splits)
  from loop(1) [unfolded expand_targets_iff] obtain ts tss where
    ts: "raws = map YText ts" "list_all2 (stands_for job ports nums active) ts tss" "out = map YText (concat tss)" by auto
  show ?R by (rule exI [of _ m], rule exI [of _ ts], rule exI [of _ tss]) (use m b' ts loop(2) in simp)
next
  assume ?R
  then obtain m ts tss where m: "b = YMap m" "map_of m ''targets'' = Some (YList (map YText ts))" "ts \<noteq> []"
    "list_all2 (stands_for job ports nums active) ts tss" "concat tss \<noteq> []"
    and b': "b' = YMap (AList.update ''targets'' (YList (map YText (concat tss))) m)" by blast
  have "rfold (expand_target job ports nums active) [] (map YText ts) = Ok (map YText (concat tss))"
    unfolding expand_targets_iff using m(4) by auto
  with assms m b' show "expand_block y job ports nums active b = Ok b'"
    by (simp add: expand_block_def faithful_copies_def del: rfold.simps concat_eq_Nil_conv)
qed

lemma resolve_block_map:
  "resolve_block job (YMap m) = YMap (case map_of m ''labels'' of
     Some (YMap labels) \<Rightarrow> AList.update ''labels'' (YMap (map (resolve_label job) labels)) m | _ \<Rightarrow> m)"
  by (simp add: resolve_block_def split: option.split yaml.split)

lemma resolve_block_YMapD: "resolve_block job b = YMap m' \<Longrightarrow> \<exists>m. b = YMap m"
  by (cases b) (simp_all add: resolve_block_def)

lemma resolved_block_keys:
  assumes "resolve_block job (YMap m) = YMap m'"
  shows "map_of m' ''labels'' = (case map_of m ''labels'' of
      Some (YMap labels) \<Rightarrow> Some (YMap (map (resolve_label job) labels)) | v \<Rightarrow> v)"
    and "k \<noteq> ''labels'' \<Longrightarrow> map_of m' k = map_of m k"
  using assms unfolding resolve_block_map by (auto split: option.splits yaml.splits)

lemma labels_key: "''labels'' \<noteq> ''targets''"
  by simp

lemma expand_resolved_block:
  assumes copy: "faithful_copies y" and run: "expand_block y job ports nums active (resolve_block job b) = Ok b'"
  shows "block_expanded job ports nums active b b'"
proof -
  from run [unfolded expand_block_iff [OF copy]] obtain m1 ts tss where m1: "resolve_block job b = YMap m1"
    and t: "map_of m1 ''targets'' = Some (YList (map YText ts))" "ts \<noteq> []" "list_all2 (stands_for job ports nums active) ts tss" "concat tss \<noteq> []"
    and b': "b' = YMap (AList.update ''targets'' (YList (map YText (concat tss))) m1)" by blast
  from resolve_block_YMapD [OF m1] obtain m where b: "b = YMap m" by blast
  note keys = resolved_block_keys [OF m1 [unfolded b]]
  have tm: "map_of m ''targets'' = Some (YList (map YText ts))" using t(1) keys(2) [of "''targets''"] by simp
  define m2 where "m2 = AList.update ''targets'' (YList (map YText (concat tss))) m1"
  have at: "map_of m2 k = (if k = ''targets'' then Some (YList (map YText (concat tss))) else map_of m1 k)" for k
    by (simp add: m2_def update_conv')
  have 1: "map_of m2 ''targets'' = Some (YList (map YText (concat tss)))" unfolding at by simp
  have 2: "map_of m2 ''labels'' = (case map_of m ''labels'' of
      Some (YMap labels) \<Rightarrow> Some (YMap (map (resolve_label job) labels)) | v \<Rightarrow> v)" unfolding at if_not_P [OF labels_key] by (rule keys(1))
  have 3: "map_of m2 k = map_of m k" if "k \<noteq> ''targets'' \<and> k \<noteq> ''labels''" for k
    unfolding at using that keys(2) [of k] by simp
  show ?thesis unfolding block_expanded_def b'
    by (rule exI [of _ m], rule exI [of _ m2], rule exI [of _ ts], rule exI [of _ tss])
      (intro conjI allI b tm t(2-4) 1 2, simp add: m2_def, rule impI, rule 3)
qed

lemma expandable_block:
  assumes copy: "faithful_copies y" and b: "block_expanded job ports nums active b b'"
  shows "\<exists>b''. expand_block y job ports nums active (resolve_block job b) = Ok b''"
proof -
  from b obtain m ts tss where m: "b = YMap m" "map_of m ''targets'' = Some (YList (map YText ts))" "ts \<noteq> []"
    "list_all2 (stands_for job ports nums active) ts tss" "concat tss \<noteq> []" unfolding block_expanded_def by (elim exE conjE) (rule that)
  obtain m1 where m1: "resolve_block job (YMap m) = YMap m1" using resolve_block_map by blast
  have "map_of m1 ''targets'' = Some (YList (map YText ts))" using m(2) resolved_block_keys(2) [OF m1, of "''targets''"] by simp
  then have "expand_block y job ports nums active (resolve_block job b) =
      Ok (YMap (AList.update ''targets'' (YList (map YText (concat tss))) m1))"
    unfolding expand_block_iff [OF copy] m(1) m1 using m(3-5)
    by (intro exI [of _ m1] exI [of _ ts] exI [of _ tss] conjI refl) assumption+
  then show ?thesis ..
qed

lemma resolved_config_keys:
  fixes job cfg
  defines "c \<equiv> expandScrapeJobReferences job cfg"
  shows "map_of c ''job_name'' = (case map_of cfg ''job_name'' of Some (YText s) \<Rightarrow> Some (YText (ResolveScrapeJobName job s)) | v \<Rightarrow> v)"
    and "map_of c ''static_configs'' = (case map_of cfg ''static_configs'' of
      Some (YList bs) \<Rightarrow> Some (YList (map (resolve_block job) bs)) | v \<Rightarrow> v)"
    and "k \<noteq> ''job_name'' \<Longrightarrow> k \<noteq> ''static_configs'' \<Longrightarrow> map_of c k = map_of cfg k"
proof -
  define cfg1 where "cfg1 = (case job_label cfg of
      None \<Rightarrow> cfg | Some s \<Rightarrow> AList.update ''job_name'' (YText (ResolveScrapeJobName job s)) cfg)"
  have one: "map_of cfg1 ''job_name'' = (case map_of cfg ''job_name'' of Some (YText s) \<Rightarrow> Some (YText (ResolveScrapeJobName job s)) | v \<Rightarrow> v)"
    "k \<noteq> ''job_name'' \<Longrightarrow> map_of cfg1 k = map_of cfg k" for k
    by (simp_all add: cfg1_def job_label_def split: option.split yaml.split)
  have c: "c = (case map_of cfg1 ''static_configs'' of
      Some (YList bs) \<Rightarrow> AList.update ''static_configs'' (YList (map (resolve_block job) bs)) cfg1 | _ \<Rightarrow> cfg1)"
    unfolding c_def expandScrapeJobReferences_def Let_def cfg1_def ..
  show "map_of c ''job_name'' = (case map_of cfg ''job_name'' of Some (YText s) \<Rightarrow> Some (YText (ResolveScrapeJobName job s)) | v \<Rightarrow> v)"
    "map_of c ''static_configs'' = (case map_of cfg ''static_configs'' of
      Some (YList bs) \<Rightarrow> Some (YList (map (resolve_block job) bs)) | v \<Rightarrow> v)"
    "k \<noteq> ''job_name'' \<Longrightarrow> k \<noteq> ''static_configs'' \<Longrightarrow> map_of c k = map_of cfg k"
    unfolding c by (simp_all add: one split: option.split yaml.split)
qed

lemma expand_config_expanded:
  assumes copy: "faithful_copies y" and run: "expand_config y job ports nums active cfg = Ok cfg'"
  shows "config_expanded job ports nums active cfg cfg'"
proof -
  let ?c = "expandScrapeJobReferences job cfg"
  from run copy obtain bs1 bs' where bs1: "map_of ?c ''static_configs'' = Some (YList bs1)" "bs1 \<noteq> []"
    and loop: "rmap (expand_block y job ports nums active) bs1 = Ok bs'"
    and cfg': "cfg' = AList.update ''static_configs'' (YList bs') ?c"
    by (auto simp: expand_config_def expandStaticConfigs_def faithful_copies_def rbind_Inr_conv split: yaml.splits option.splits if_splits)
  from bs1(1) obtain bs where bs: "map_of cfg ''static_configs'' = Some (YList bs)" "bs1 = map (resolve_block job) bs"
    unfolding resolved_config_keys(2) by (auto split: option.splits yaml.splits)
  have "list_all2 (\<lambda>b b'. expand_block y job ports nums active (resolve_block job b) = Ok b') bs bs'"
    using loop unfolding bs(2) by (simp add: rmap_Ok_iff list_all2_map1)
  then have blocks: "list_all2 (block_expanded job ports nums active) bs bs'"
    by (rule list_all2_mono) (rule expand_resolved_block [OF copy])
  have "bs \<noteq> []" using bs1(2) bs(2) by simp
  with bs blocks have "\<exists>bs bs'. map_of cfg ''static_configs'' = Some (YList bs) \<and> bs \<noteq> [] \<and>
      list_all2 (block_expanded job ports nums active) bs bs' \<and> map_of cfg' ''static_configs'' = Some (YList bs')"
    unfolding cfg' by (intro exI [of _ bs] exI [of _ bs'] conjI) simp_all
  then show ?thesis unfolding config_expanded_def by (simp add: cfg' resolved_config_keys(1,3))
qed

lemma expandable_config:
  assumes copy: "faithful_copies y" and cfg: "config_expanded job ports nums active cfg cfg'"
  shows "\<exists>cfg''. expand_config y job ports nums active cfg = Ok cfg''"
proof -
  from cfg obtain bs bs' where bs: "map_of cfg ''static_configs'' = Some (YList bs)" "bs \<noteq> []"
    "list_all2 (block_expanded job ports nums active) bs bs'" unfolding config_expanded_def by blast
  have "\<forall>b \<in> set bs. \<exists>b''. expand_block y job ports nums active (resolve_block job b) = Ok b''"
    using bs(3) expandable_block [OF copy] by (force simp: list_all2_conv_all_nth in_set_conv_nth)
  then obtain f where f: "\<And>b. b \<in> set bs \<Longrightarrow> expand_block y job ports nums active (resolve_block job b) = Ok (f b)" by metis
  have "rmap (expand_block y job ports nums active) (map (resolve_block job) bs) = Ok (map f bs)"
    unfolding rmap_Ok_iff by (simp add: list_all2_map1 list_all2_map2 list_all2_same f)
  with bs(1,2) copy show ?thesis
    by (simp add: expand_config_def expandStaticConfigs_def faithful_copies_def resolved_config_keys(2))
qed

text \<open>Property C10: Prometheus scrapes exactly the active allocations. The expansion of a scrape file succeeds exactly when
  every item has static blocks with targets that all can be replaced, and then every target in the result is one the
  file has as it is, or it stands for a placeholder: there is one address for each active allocation of the job, or for
  the one worker that the placeholder names and that is active, with the number that the build assigned to the port.
  The placeholder of the job is replaced in the name of the item and in the labels of its blocks, and every other key
  of the item and of its blocks keeps its value.\<close>

theorem scrape_targets_exact:
  assumes copy: "faithful_copies y"
  shows "((\<exists>out. ExpandScrapeConfigs y job configs ports nums active = Ok out) \<longleftrightarrow>
      (\<exists>out. list_all2 (config_expanded job ports nums active) configs out)) \<and>
    (\<forall>out. ExpandScrapeConfigs y job configs ports nums active = Ok out \<longrightarrow>
      list_all2 (config_expanded job ports nums active) configs out)"
proof -
  let ?E = "\<lambda>cfg. expand_config y job ports nums active cfg" and ?X = "config_expanded job ports nums active"
  have run: "ExpandScrapeConfigs y job configs ports nums active = Ok out \<longleftrightarrow> list_all2 (\<lambda>cfg cfg'. ?E cfg = Ok cfg') configs out" for out
    by (simp add: ExpandScrapeConfigs_def rmap_Ok_iff)
  have sound: "list_all2 ?X configs out" if "list_all2 (\<lambda>cfg cfg'. ?E cfg = Ok cfg') configs out" for out
    using that by (rule list_all2_mono) (rule expand_config_expanded [OF copy])
  have "\<exists>out'. list_all2 (\<lambda>cfg cfg'. ?E cfg = Ok cfg') configs out'" if "list_all2 ?X configs out" for out
    using that by (induction rule: list_all2_induct) (auto dest: expandable_config [OF copy])
  with run sound show ?thesis by blast
qed

text \<open>A library that writes a map as the number of the map.\<close>

instance yaml :: countable
  by countable_datatype

definition numbering_yaml :: yaml_lib where
  "numbering_yaml = \<lparr>yl_configs = (\<lambda>_. None), yl_map = (\<lambda>s. Some (from_nat (digits_val s))), yl_rules = (\<lambda>_. None),
     yl_configs_out = (\<lambda>_. Ok []), yl_map_out = (\<lambda>m. Ok (digits_of (to_nat m))), yl_rules_out = (\<lambda>_. Ok []),
     yl_json = (\<lambda>_. None), yl_json_out = (\<lambda>_. Ok [])\<rparr>"

lemma numbering_copies: "faithful_copies numbering_yaml"
  by (simp add: faithful_copies_def deepCopyMap_def numbering_yaml_def)

definition two_targets :: scrape_config where
  "two_targets = [(''job_name'', YText ''maand:job''),
     (''static_configs'', YList [YMap [(''targets'', YList [YText ''maand:port/p'', YText ''x:1''])]])]"

definition expanded_targets :: scrape_config where
  "expanded_targets = [(''job_name'', YText ''a''),
     (''static_configs'', YList [YMap [(''targets'', YList [YText ''v:80'', YText ''w:80'', YText ''x:1''])]])]"

definition two_target_block :: "(string \<times> yaml) list" where
  "two_target_block = [(''targets'', YList [YText ''maand:port/p'', YText ''x:1''])]"

lemma two_targets_block:
  "expand_block numbering_yaml ''a'' [(''p'', None)] [(''p'', 80)] [''v'', ''w''] (YMap two_target_block) =
    Ok (YMap [(''targets'', YList [YText ''v:80'', YText ''w:80'', YText ''x:1''])])"
proof -
  have get: "map_of two_target_block ''targets'' = Some (YList [YText ''maand:port/p'', YText ''x:1''])"
    and put: "AList.update ''targets'' v two_target_block = [(''targets'', v)]" for v by (simp_all add: two_target_block_def)
  have loop: "rfold (expand_target ''a'' [(''p'', None)] [(''p'', 80)] [''v'', ''w'']) [] [YText ''maand:port/p'', YText ''x:1''] =
      Ok [YText ''v:80'', YText ''w:80'', YText ''x:1'']" by code_simp
  show ?thesis
    unfolding expand_block_def yaml.case numbering_copies [unfolded faithful_copies_def, rule_format] rbind_simps get option.case loop put
    by (simp del: rfold.simps)
qed

lemma two_targets_expanded:
  "ExpandScrapeConfigs numbering_yaml ''a'' [two_targets] [(''p'', None)] [(''p'', 80)] [''v'', ''w''] = Ok [expanded_targets]"
proof -
  define cfg where "cfg = expandScrapeJobReferences ''a'' two_targets"
  have cfg: "cfg = [(''job_name'', YText ''a''), (''static_configs'', YList [YMap two_target_block])]"
    unfolding cfg_def by code_simp
  have get: "map_of cfg ''static_configs'' = Some (YList [YMap two_target_block])"
    and put: "AList.update ''static_configs'' v cfg = [(''job_name'', YText ''a''), (''static_configs'', v)]" for v by (simp_all add: cfg)
  show ?thesis
    unfolding ExpandScrapeConfigs_def rmap.simps expand_config_def numbering_copies [unfolded faithful_copies_def, rule_format] rbind_simps
      cfg_def [symmetric] expandStaticConfigs_def get option.case yaml.case two_targets_block put
    by (simp add: expanded_targets_def)
qed

lemma scrape_targets_exact_witness:
  "ExpandScrapeConfigs numbering_yaml ''a'' [two_targets] [(''p'', None)] [(''p'', 80)] [''v'', ''w''] = Ok [expanded_targets] \<and>
   config_expanded ''a'' [(''p'', None)] [(''p'', 80)] [''v'', ''w''] two_targets expanded_targets"
proof -
  note scrape_targets_exact [OF numbering_copies, THEN conjunct2, rule_format, OF two_targets_expanded]
  then show ?thesis using two_targets_expanded by simp
qed

section \<open>What the validation of a build is good for\<close>

text \<open>A target that the build validated and that names no worker, or an active one, is expanded, given that the build
  has assigned a number to every port of the manifest.\<close>

lemma validated_target_expands:
  assumes valid: "ValidateScrapePortReferences job configs ports = Ok ()" and cfg: "cfg \<in> set configs" and t: "t \<in> set (config_targets cfg)"
    and numbers: "\<And>k. map_of ports k \<noteq> None \<Longrightarrow> map_of nums k \<noteq> None"
    and pin: "is_placeholder t \<Longrightarrow> pinned_worker t = [] \<or> pinned_worker t \<in> set active"
  shows "\<exists>ts. expandTarget job ports nums active t = Ok ts"
proof (cases "is_placeholder t")
  case True
  have "rfold (\<lambda>_ t. if is_placeholder t then validatePortPlaceholder job t ports else Ok ()) () (config_targets cfg) = Ok ()"
    using valid cfg unfolding ValidateScrapePortReferences_def rfold_unit [of "\<lambda>cfg. rfold _ () (config_targets cfg)"] by simp
  then have "(if is_placeholder t then validatePortPlaceholder job t ports else Ok ()) = Ok ()"
    using t unfolding rfold_unit by simp
  then obtain k where k: "placeholder_port job ports t = Ok k"
    using True by (auto simp: validatePortPlaceholder_def rbind_Inr_conv)
  then have "map_of ports k \<noteq> None" by (auto simp: placeholder_port_def Let_def rbind_Inr_conv split: if_splits)
  with numbers obtain n where n: "map_of nums k = Some n" by fastforce
  show ?thesis unfolding expandTarget_Ok stands_for_def using True k n pin by auto
qed (simp add: expandTarget_def)

end
