(* ===== verification/PromFiles.thy ===== *)
theory PromFiles
  imports PromConfig Staging
begin

text \<open>
  Where the Prometheus files of a job are, in the workspace and in the catalog (\<open>promconfig/paths.go\<close>,
  \<open>dashboards.go\<close>, \<open>workspace_catalog.go\<close>, \<open>data/prometheus.go\<close>), the alert rules with their runbooks
  (\<open>promconfig/alerts.go\<close>), the list of rule files (\<open>promconfig/rule_files_deploy.go\<close>), and the rules, runbooks
  and dashboards that are staged for the Prometheus job (\<open>deploy/prometheus_*.go\<close>, \<open>dashboards/ignore.go\<close>).
\<close>

section \<open>Paths (promconfig/paths.go, alerts.go, dashboards.go)\<close>

text \<open>\<open>strings.Index\<close>.\<close>

fun string_index :: "string \<Rightarrow> string \<Rightarrow> nat option" where
  "string_index p [] = (if p = [] then Some 0 else None)"
| "string_index p (c # s) = (if has_prefix p (c # s) then Some 0 else map_option Suc (string_index p s))"

definition IsPrometheusWorkspacePath :: "string \<Rightarrow> bool" where
  "IsPrometheusWorkspacePath p \<longleftrightarrow> contains_sub ''/_prometheus/'' p"

definition AlertRelPath :: "string \<Rightarrow> string option" where
  "AlertRelPath p = map_option (\<lambda>i. drop (i + length ''/_prometheus/'') p) (string_index ''/_prometheus/alerts/'' p)"

definition runbooks_marker :: string where
  "runbooks_marker = ''/_prometheus/runbooks/''"

definition RunbookSlugFromPath :: "string \<Rightarrow> (string \<times> string) option" where
  "RunbookSlugFromPath p =
     (case string_index runbooks_marker p of
        None \<Rightarrow> None
      | Some i \<Rightarrow> let base = drop (i + length runbooks_marker) p
                 in if has_suffix ''.md'' base then Some (take i p, trim_suffix ''.md'' base) else None)"

definition DashboardRelFromPath :: "string \<Rightarrow> (string \<times> string) option" where
  "DashboardRelFromPath p =
     (case string_index ''/_prometheus/dashboards/'' p of
        None \<Rightarrow> None
      | Some i \<Rightarrow> let rel = drop (i + length ''/_prometheus/dashboards/'') p in if rel = [] then None else Some (take i p, rel))"

definition RunbookConsolePath :: "string \<Rightarrow> string \<Rightarrow> string" where
  "RunbookConsolePath job slug = ''/consoles/runbooks/'' @ job @ ''/'' @ slug @ ''.html''"

definition RunbookConsoleURL :: "string \<Rightarrow> string \<Rightarrow> string \<Rightarrow> string" where
  "RunbookConsoleURL baseURL job slug =
     rev (dropWhile (\<lambda>c. c = CHR ''/'') (rev (trim_space baseURL))) @ RunbookConsolePath job slug"

definition DashboardConsolePath :: "string \<Rightarrow> string \<Rightarrow> string" where
  "DashboardConsolePath job rel0 =
     (let rel = trim_prefix ''dashboards/'' (trim_prefix ''/'' (trim_space rel0))
      in if rel = [] then [] else ''/consoles/dashboards/'' @ job @ ''/'' @ rel)"

section \<open>Files of the workspace\<close>

text \<open>Below \<open>_prometheus\<close> of a job: \<open>os.ReadDir\<close> (names, and whether they are directories), \<open>os.ReadFile\<close>, and the
  files that \<open>filepath.WalkDir\<close> visits. \<open>None\<close> is \<open>os.ErrNotExist\<close>.\<close>

record prom_files =
  pf_dir :: "string \<Rightarrow> string \<Rightarrow> (error + (string \<times> bool) list) option"
  pf_read :: "string \<Rightarrow> string \<Rightarrow> (error + string) option"
  pf_tree :: "string \<Rightarrow> string \<Rightarrow> (error + string list) option"
  pf_jobs :: "(error + (string \<times> bool) list) option"

definition plain_names :: "(string \<times> bool) list \<Rightarrow> string list" where
  "plain_names entries = map fst (filter (\<lambda>(_, isdir). \<not> isdir) entries)"

definition ListRunbookSlugs :: "prom_files \<Rightarrow> string \<Rightarrow> error + string list" where
  "ListRunbookSlugs pf job =
     (case pf_dir pf job ''runbooks'' of
        None \<Rightarrow> Ok []
      | Some r \<Rightarrow> rbind r (\<lambda>entries. Ok (map (trim_suffix ''.md'') (filter (has_suffix ''.md'') (plain_names entries)))))"

definition ListAlertFiles :: "prom_files \<Rightarrow> string \<Rightarrow> error + string list" where
  "ListAlertFiles pf job =
     (case pf_dir pf job ''alerts'' of
        None \<Rightarrow> Ok []
      | Some r \<Rightarrow> rbind r (\<lambda>entries.
          Ok (map (\<lambda>n. ''alerts/'' @ n) (filter (\<lambda>n. has_suffix ''.yaml'' n \<or> has_suffix ''.yml'' n) (plain_names entries)))))"

definition HasScrapeWorkspaceFile :: "workspace \<Rightarrow> string \<Rightarrow> bool" where
  "HasScrapeWorkspaceFile ws job \<longleftrightarrow> list_ex (ws_exists ws job) [''_prometheus/scrape.yaml'', ''_prometheus/scrape.yaml.tpl'']"

record dashboard_entry =
  de_job :: string
  de_rel :: string
  de_file :: string

definition dashboardFiles :: "prom_files \<Rightarrow> string \<Rightarrow> error + dashboard_entry list" where
  "dashboardFiles pf job =
     (case pf_tree pf job ''dashboards'' of
        None \<Rightarrow> Ok []
      | Some r \<Rightarrow> rbind r (\<lambda>files. Ok (map (\<lambda>rel. \<lparr>de_job = job, de_rel = ''dashboards/'' @ rel,
            de_file = job @ ''/_prometheus/dashboards/'' @ rel\<rparr>) files)))"

section \<open>Alert rules (promconfig/alerts.go)\<close>

definition parseAlertRuleFile :: "yaml_lib \<Rightarrow> string \<Rightarrow> error + alert_group list" where
  "parseAlertRuleFile y text =
     (if trim_space text = [] then Err ErrInvalidJob
      else case yl_rules y text of None \<Rightarrow> Err ErrInvalidJob | Some gs \<Rightarrow> if gs = [] then Err ErrInvalidJob else Ok gs)"

definition annotation :: "alert_rule \<Rightarrow> string \<Rightarrow> string" where
  "annotation r k = trim_space (case map_of (ar_annotations r) k of None \<Rightarrow> [] | Some v \<Rightarrow> v)"

definition validateAlertRule :: "string list \<Rightarrow> alert_rule \<Rightarrow> error + unit" where
  "validateAlertRule slugs r =
     (let hasAlert = trim_space (ar_alert r) \<noteq> []; hasRecord = trim_space (ar_record r) \<noteq> []
      in if hasAlert \<and> hasRecord then Err ErrInvalidJob
         else if \<not> hasAlert \<and> \<not> hasRecord then Err ErrInvalidJob
         else if trim_space (ar_expr r) = [] then Err ErrInvalidJob
         else if hasAlert \<and> annotation r ''runbook'' \<noteq> [] \<and> annotation r ''runbook'' \<notin> set slugs then Err ErrInvalidJob
         else Ok ())"

definition validateAlertRuleFile :: "string list \<Rightarrow> alert_group list \<Rightarrow> error + unit" where
  "validateAlertRuleFile slugs groups =
     rfold (\<lambda>_ g. if trim_space (ag_name g) = [] then Err ErrInvalidJob
       else rfold (\<lambda>_ r. validateAlertRule slugs r) () (ag_rules g)) () groups"

definition ValidateAlertFile :: "yaml_lib \<Rightarrow> string list \<Rightarrow> string \<Rightarrow> error + unit" where
  "ValidateAlertFile y slugs text = rbind (parseAlertRuleFile y text) (validateAlertRuleFile slugs)"

definition AlertNamesFromFile :: "yaml_lib \<Rightarrow> string \<Rightarrow> error + string list" where
  "AlertNamesFromFile y text =
     (case yl_rules y text of
        None \<Rightarrow> Err ErrLibrary
      | Some groups \<Rightarrow> Ok (filter (\<lambda>n. n \<noteq> []) (map (\<lambda>r. trim_space (ar_alert r)) (concat (map ag_rules groups)))))"

definition inject_rule :: "string \<Rightarrow> string \<Rightarrow> alert_rule \<Rightarrow> alert_rule" where
  "inject_rule baseURL job r =
     (if trim_space (ar_alert r) = [] then r
      else let runbook = annotation r ''runbook''
           in if runbook = [] then r
              else let ann = (if annotation r ''runbook_url'' = []
                     then AList.update ''runbook_url'' (RunbookConsoleURL baseURL job runbook) (ar_annotations r)
                     else ar_annotations r)
                   in r\<lparr>ar_annotations := AList.delete ''runbook'' ann\<rparr>)"

definition names_runbook :: "alert_rule \<Rightarrow> bool" where
  "names_runbook r \<longleftrightarrow> trim_space (ar_alert r) \<noteq> [] \<and> annotation r ''runbook'' \<noteq> []"

definition InjectRunbookURLs :: "yaml_lib \<Rightarrow> string \<Rightarrow> string \<Rightarrow> string \<Rightarrow> error + string" where
  "InjectRunbookURLs y job text baseURL =
     rbind (parseAlertRuleFile y text) (\<lambda>groups.
       if \<not> list_ex (\<lambda>g. list_ex names_runbook (ag_rules g)) groups then Ok text
       else yl_rules_out y (map (\<lambda>g. g\<lparr>ag_rules := map (inject_rule baseURL job) (ag_rules g)\<rparr>) groups))"

section \<open>Files of the catalog (data/prometheus.go)\<close>

record prom_entry =
  pe_job :: string
  pe_path :: string
  pe_rel :: string

definition by_job_and_path :: "string \<times> string \<Rightarrow> string \<times> string \<Rightarrow> bool" where
  "by_job_and_path x y = (if fst x = fst y then string_le (snd x) (snd y) else string_le (fst x) (fst y))"

text \<open>Files joined with their jobs, ordered by job and path.\<close>

definition job_files_like :: "catalog \<Rightarrow> (string \<Rightarrow> string \<Rightarrow> bool) \<Rightarrow> (string \<times> string) list" where
  "job_files_like c P =
     sort_by by_job_and_path (concat (map (\<lambda>f. map (\<lambda>j. (j_name j, f_path f))
         (filter (\<lambda>j. j_id j = f_job_id f \<and> P (j_name j) (f_path f)) (t_job c))) (filter (\<lambda>f. \<not> f_isdir f) (t_job_files c))))"

definition entries_behind :: "string \<Rightarrow> (string \<times> string) list \<Rightarrow> prom_entry list" where
  "entries_behind marker rows =
     concat (map (\<lambda>(job, p). case string_index marker p of
         None \<Rightarrow> [] | Some i \<Rightarrow> [\<lparr>pe_job = job, pe_path = p, pe_rel = drop (i + length ''/_prometheus/'') p\<rparr>]) rows)"

definition listPrometheusFiles :: "catalog \<Rightarrow> string list \<Rightarrow> prom_entry list" where
  "listPrometheusFiles c jobsFilter =
     entries_behind ''/_prometheus/'' (job_files_like c (\<lambda>job p.
       sql_like ''%/_prometheus/%'' p \<and> (jobsFilter \<noteq> [] \<longrightarrow> job \<in> set jobsFilter)))"

definition ListPrometheusAlertFiles :: "catalog \<Rightarrow> prom_entry list" where
  "ListPrometheusAlertFiles c =
     entries_behind ''/_prometheus/alerts/'' (job_files_like c (\<lambda>_ p.
       sql_like ''%/_prometheus/alerts/%'' p \<and> (sql_like ''%.yaml'' p \<or> sql_like ''%.yml'' p)))"

definition ListRunbookFiles :: "catalog \<Rightarrow> string list" where
  "ListRunbookFiles c = sort_by string_le (map f_path
     (filter (\<lambda>f. \<not> f_isdir f \<and> sql_like ''%/_prometheus/runbooks/%.md'' (f_path f)) (t_job_files c)))"

definition ListDashboardFiles :: "catalog \<Rightarrow> string list" where
  "ListDashboardFiles c = sort_by string_le (map f_path
     (filter (\<lambda>f. \<not> f_isdir f \<and> sql_like ''%/_prometheus/dashboards/%'' (f_path f)) (t_job_files c)))"

definition GetJobFileContent :: "catalog \<Rightarrow> string \<Rightarrow> error + string" where
  "GetJobFileContent c p =
     (case filter (\<lambda>f. f_path f = p \<and> \<not> f_isdir f) (t_job_files c) of [] \<Rightarrow> Err ErrNotFound | f # _ \<Rightarrow> Ok (f_content f))"

definition normalizePrometheusRelPath :: "string \<Rightarrow> string" where
  "normalizePrometheusRelPath rel0 =
     (let rel = trim_prefix ''/'' (trim_space rel0) in if rel = [] \<or> rel = ''scrape'' then ''scrape.yaml'' else rel)"

definition GetPrometheusFileContent :: "catalog \<Rightarrow> string \<Rightarrow> string \<Rightarrow> error + string" where
  "GetPrometheusFileContent c job rel = GetJobFileContent c (job @ ''/_prometheus/'' @ normalizePrometheusRelPath rel)"

section \<open>Summaries (data/prometheus.go, promconfig/workspace_catalog.go)\<close>

record prom_summary =
  su_job :: string
  su_scrape :: bool
  su_alerts :: nat
  su_runbooks :: nat
  su_dashboards :: nat

definition count_entry :: "prom_summary \<Rightarrow> string \<Rightarrow> prom_summary" where
  "count_entry s rel =
     (if rel = ''scrape.yaml'' \<or> rel = ''scrape.yaml.tpl'' then s\<lparr>su_scrape := True\<rparr>
      else if has_prefix ''alerts/'' rel then s\<lparr>su_alerts := su_alerts s + 1\<rparr>
      else if has_prefix ''runbooks/'' rel then s\<lparr>su_runbooks := su_runbooks s + 1\<rparr>
      else if has_prefix ''dashboards/'' rel then s\<lparr>su_dashboards := su_dashboards s + 1\<rparr>
      else s)"

definition no_files :: "string \<Rightarrow> prom_summary" where
  "no_files job = \<lparr>su_job = job, su_scrape = False, su_alerts = 0, su_runbooks = 0, su_dashboards = 0\<rparr>"

definition summary_at :: "(string \<times> prom_summary) list \<Rightarrow> string \<Rightarrow> prom_summary" where
  "summary_at m job = (case map_of m job of None \<Rightarrow> no_files job | Some s \<Rightarrow> s)"

definition summaries_sorted :: "(string \<times> prom_summary) list \<Rightarrow> prom_summary list" where
  "summaries_sorted m = sort_by (\<lambda>x y. string_le (su_job x) (su_job y)) (map snd m)"

definition ListPrometheusJobSummaries :: "catalog \<Rightarrow> string list \<Rightarrow> prom_summary list" where
  "ListPrometheusJobSummaries c jobsFilter =
     summaries_sorted (foldl (\<lambda>m e. AList.update (pe_job e) (count_entry (summary_at m (pe_job e)) (pe_rel e)) m) []
       (listPrometheusFiles c jobsFilter))"

definition ListWorkspaceJobNames :: "workspace \<Rightarrow> prom_files \<Rightarrow> error + string list" where
  "ListWorkspaceJobNames ws pf =
     (case pf_jobs pf of
        None \<Rightarrow> Ok (sort_strings (Unique (ws_jobs ws)))
      | Some r \<Rightarrow> rbind r (\<lambda>entries. Ok (sort_strings (Unique (ws_jobs ws @ map fst (filter snd entries))))))"

definition workspacePrometheusSummary :: "workspace \<Rightarrow> prom_files \<Rightarrow> string \<Rightarrow> error + prom_summary option" where
  "workspacePrometheusSummary ws pf job =
     (if \<not> ws_exists ws job ''_prometheus'' then Ok None
      else rbind (ListAlertFiles pf job) (\<lambda>alerts.
           rbind (ListRunbookSlugs pf job) (\<lambda>slugs.
           rbind (dashboardFiles pf job) (\<lambda>dashboards.
             let s = \<lparr>su_job = job, su_scrape = HasScrapeWorkspaceFile ws job, su_alerts = length alerts,
                       su_runbooks = length slugs, su_dashboards = length dashboards\<rparr>
             in Ok (if \<not> su_scrape s \<and> su_alerts s = 0 \<and> su_runbooks s = 0 \<and> su_dashboards s = 0 then None else Some s)))))"

definition ListWorkspacePrometheusSummaries :: "workspace \<Rightarrow> prom_files \<Rightarrow> string list \<Rightarrow> error + prom_summary list" where
  "ListWorkspacePrometheusSummaries ws pf jobsFilter =
     rbind (ListWorkspaceJobNames ws pf) (\<lambda>jobs.
     rbind (rmap (workspacePrometheusSummary ws pf) (filter (\<lambda>job. jobsFilter \<noteq> [] \<longrightarrow> job \<in> set jobsFilter) jobs)) (\<lambda>found.
       Ok (concat (map (\<lambda>r. case r of None \<Rightarrow> [] | Some s \<Rightarrow> [s]) found))))"

definition ListJobsWithWorkspaceScrape :: "workspace \<Rightarrow> prom_files \<Rightarrow> string list \<Rightarrow> error + string list" where
  "ListJobsWithWorkspaceScrape ws pf jobsFilter =
     rbind (ListWorkspaceJobNames ws pf) (\<lambda>jobs.
       Ok (filter (\<lambda>job. (jobsFilter \<noteq> [] \<longrightarrow> job \<in> set jobsFilter) \<and> HasScrapeWorkspaceFile ws job) jobs))"

definition merge_summary :: "prom_summary \<Rightarrow> prom_summary \<Rightarrow> prom_summary" where
  "merge_summary old s =
     \<lparr>su_job = su_job old, su_scrape = (su_scrape old \<or> su_scrape s), su_alerts = max (su_alerts old) (su_alerts s),
      su_runbooks = max (su_runbooks old) (su_runbooks s), su_dashboards = max (su_dashboards old) (su_dashboards s)\<rparr>"

definition MergePrometheusSummaries :: "prom_summary list \<Rightarrow> prom_summary list \<Rightarrow> prom_summary list" where
  "MergePrometheusSummaries dbList wsList =
     summaries_sorted (foldl (\<lambda>m s. AList.update (su_job s)
         (case map_of m (su_job s) of None \<Rightarrow> s | Some old \<Rightarrow> merge_summary old s) m)
       (foldl (\<lambda>m s. AList.update (su_job s) s m) [] dbList) wsList)"

definition NormalizePrometheusRelPath :: "string \<Rightarrow> string" where
  "NormalizePrometheusRelPath rel0 =
     (let rel = trim_prefix ''/'' (trim_space rel0)
      in if rel \<in> {[], ''scrape'', ''scrape.yaml''} then ''scrape.yaml''
         else if rel \<in> {''scrape.yaml.tpl'', ''scrape.tpl''} then ''scrape.yaml.tpl''
         else rel)"

section \<open>Rule files (promconfig/rule_files_deploy.go, deploy/prometheus_rules.go)\<close>

definition rule_line :: "string \<Rightarrow> string \<Rightarrow> string" where
  "rule_line job file = ''  - rules/'' @ job @ ''/'' @ file @ newline"

definition RenderRuleFilesYAML :: "catalog \<Rightarrow> string" where
  "RenderRuleFilesYAML c =
     (let entries = ListPrometheusAlertFiles c; hasPrometheusJob = JobHasPrometheusServerConfig c ''prometheus''
      in if entries = [] \<and> \<not> hasPrometheusJob then []
         else ''rule_files:'' @ newline @
           (if hasPrometheusJob then rule_line ''maand'' ''certs.yaml'' else []) @
           concat (map (\<lambda>e. rule_line (pe_job e) (path_base (pe_rel e))) entries))"

text \<open>The files that the staging of the Prometheus job writes below its directory; \<open>certAlerts\<close> is the embedded file.\<close>

definition assemblePrometheusAlertRules ::
  "yaml_lib \<Rightarrow> string \<Rightarrow> catalog \<Rightarrow> string \<Rightarrow> error + (string \<times> string) list" where
  "assemblePrometheusAlertRules y certAlerts c ip =
     rbind (GetJobPortNumber c ''prometheus'' ''prometheus_port_http'') (\<lambda>port.
       let baseURL = ''http://'' @ ip @ '':'' @ itoa port
       in rbind (rmap (\<lambda>e. rbind (GetJobFileContent c (pe_path e)) (\<lambda>content.
              rbind (InjectRunbookURLs y (pe_job e) content baseURL) (\<lambda>out.
                Ok (''rules/'' @ pe_job e @ ''/'' @ path_base (pe_rel e), out)))) (ListPrometheusAlertFiles c)) (\<lambda>files.
            Ok (files @ [(''rules/maand/certs.yaml'', certAlerts)])))"

text \<open>The page that the runbook of a path becomes.\<close>

definition runbook_page :: "string \<Rightarrow> string option" where
  "runbook_page p = map_option (\<lambda>(job, slug). ''consoles/runbooks/'' @ job @ ''/'' @ slug @ ''.html'') (RunbookSlugFromPath p)"

definition assemblePrometheusRunbooks ::
  "(string \<Rightarrow> string \<Rightarrow> string \<Rightarrow> error + string) \<Rightarrow> ((string \<times> string) list \<Rightarrow> string) \<Rightarrow> string \<Rightarrow> catalog \<Rightarrow>
   error + (string \<times> string) list" where
  "assemblePrometheusRunbooks html indexHTML style c =
     (let paths = ListRunbookFiles c;
          found = concat (map (\<lambda>p. case RunbookSlugFromPath p of None \<Rightarrow> [] | Some (job, slug) \<Rightarrow> [(p, job, slug)]) paths)
      in if paths = [] then Ok []
         else rbind (rmap (\<lambda>(p, job, slug). rbind (GetJobFileContent c p) (\<lambda>content. rbind (html job slug content) (\<lambda>page.
                Ok (''consoles/runbooks/'' @ job @ ''/'' @ slug @ ''.html'', page)))) found) (\<lambda>pages.
              Ok ((''consoles/runbooks/style.css'', style) # pages @
                [(''consoles/runbooks/index.html'', indexHTML (map snd found))])))"

section \<open>Dashboards (dashboards/ignore.go, deploy/prometheus_dashboards.go)\<close>

definition IgnoreFileName :: string where
  "IgnoreFileName = ''.dashboardignore''"

definition ParseIgnoreFile :: "string \<Rightarrow> string list" where
  "ParseIgnoreFile content =
     filter (\<lambda>l. l \<noteq> [] \<and> \<not> has_prefix ''#'' l) (map trim_space (split_char CHR 0x0A content))"

definition IsDashboardMetaFile :: "string \<Rightarrow> bool" where
  "IsDashboardMetaFile rel \<longleftrightarrow> path_base rel = IgnoreFileName \<or> has_prefix ''.'' (path_base rel)"

definition IgnoredFromIndex :: "string \<Rightarrow> string list \<Rightarrow> bool" where
  "IgnoredFromIndex rel0 patterns \<longleftrightarrow>
     (let rel = trim_prefix ''/'' rel0
      in rel = [] \<or> IsDashboardMetaFile rel \<or> list_ex (\<lambda>p. matchPattern p rel) patterns)"

definition ShouldListInIndex :: "string \<Rightarrow> string list \<Rightarrow> bool" where
  "ShouldListInIndex rel patterns \<longleftrightarrow> \<not> IsDashboardMetaFile rel \<and> \<not> IgnoredFromIndex rel patterns"

definition loadJobDashboardIgnorePatterns :: "prom_files \<Rightarrow> catalog \<Rightarrow> string \<Rightarrow> error + string list" where
  "loadJobDashboardIgnorePatterns pf c job =
     (case pf_read pf job (''dashboards/'' @ IgnoreFileName) of
        Some (Inr content) \<Rightarrow> Ok (ParseIgnoreFile content)
      | Some (Inl _) \<Rightarrow> Err ErrUnexpectedError
      | None \<Rightarrow>
          (case GetJobFileContent c (job @ ''/_prometheus/dashboards/'' @ IgnoreFileName) of
             Inr content \<Rightarrow> Ok (ParseIgnoreFile content)
           | Inl e \<Rightarrow> if e = ErrNotFound then Ok [] else Err e))"

definition loadDashboardIgnorePatterns :: "prom_files \<Rightarrow> catalog \<Rightarrow> string list \<Rightarrow> error + (string \<times> string list) list" where
  "loadDashboardIgnorePatterns pf c jobs =
     rmap (\<lambda>job. rbind (loadJobDashboardIgnorePatterns pf c job) (\<lambda>patterns. Ok (job, patterns))) (Unique jobs)"

text \<open>The files written, and those left after the removal of the ignore files.\<close>

definition assemblePrometheusDashboards ::
  "(string \<Rightarrow> string \<Rightarrow> string) \<Rightarrow> ((string \<times> string \<times> string) list \<Rightarrow> string) \<Rightarrow> string \<Rightarrow> prom_files \<Rightarrow> catalog \<Rightarrow>
   error + (string \<times> string) list" where
  "assemblePrometheusDashboards label indexHTML style pf c =
     (let paths = ListDashboardFiles c;
          found = concat (map (\<lambda>p. case DashboardRelFromPath p of None \<Rightarrow> [] | Some (job, rel) \<Rightarrow> [(p, job, rel)]) paths)
      in if paths = [] then Ok []
         else rbind (loadDashboardIgnorePatterns pf c (map (fst \<circ> snd) found)) (\<lambda>ignore.
              rbind (rmap (\<lambda>(p, job, rel). rbind (GetJobFileContent c p) (\<lambda>content. Ok (job, rel, content)))
                  (filter (\<lambda>(_, _, rel). rel \<noteq> IgnoreFileName) found)) (\<lambda>files.
                Ok ((''consoles/dashboards/style.css'', style) #
                    map (\<lambda>(job, rel, content). (''consoles/dashboards/'' @ job @ ''/'' @ rel, content))
                      (filter (\<lambda>(_, rel, _). path_base rel \<noteq> IgnoreFileName) files) @
                    [(''consoles/dashboards/index.html'', indexHTML (map (\<lambda>(job, rel, content). (job, rel, label rel content))
                       (filter (\<lambda>(job, rel, _). ShouldListInIndex rel (case map_of ignore job of None \<Rightarrow> [] | Some ps \<Rightarrow> ps)) files)))]))))"

section \<open>The links of the alerts lead to pages\<close>

lemma index_of_first: "CHR ''/'' \<notin> set job \<Longrightarrow> string_index (CHR ''/'' # m) (job @ CHR ''/'' # m @ rest) = Some (length job)"
  by (induction job) (auto simp: has_prefix_def)

lemma like_any: "sql_like ps s \<Longrightarrow> sql_like (CHR ''%'' # ps) (x @ s)"
proof (induction x)
  case Nil
  then show ?case by (cases s) simp_all
qed simp

lemma like_literal: "CHR ''%'' \<notin> set l \<Longrightarrow> sql_like ps s \<Longrightarrow> sql_like (l @ ps) (l @ s)"
  by (induction l) auto

lemma runbook_like: "sql_like ''%/_prometheus/runbooks/%.md'' (job @ runbooks_marker @ slug @ ''.md'')"
proof -
  have "sql_like (''/_prometheus/runbooks/'' @ ''%.md'') (''/_prometheus/runbooks/'' @ slug @ ''.md'')"
    by (rule like_literal) (simp, rule like_any, code_simp)
  then have "sql_like (CHR ''%'' # ''/_prometheus/runbooks/%.md'') (job @ ''/_prometheus/runbooks/'' @ slug @ ''.md'')"
    by (intro like_any) simp
  then show ?thesis by (simp add: runbooks_marker_def)
qed

lemma runbook_slug:
  assumes "CHR ''/'' \<notin> set job"
  shows "RunbookSlugFromPath (job @ runbooks_marker @ slug @ ''.md'') = Some (job, slug)"
proof -
  define m where "m = ''_prometheus/runbooks/''"
  have marker: "runbooks_marker = CHR ''/'' # m" by (simp add: runbooks_marker_def m_def)
  have "string_index runbooks_marker (job @ runbooks_marker @ slug @ ''.md'') = Some (length job)"
    using index_of_first [OF assms, of m "slug @ ''.md''"] by (simp add: marker)
  moreover have "has_suffix ''.md'' (slug @ ''.md'')" and "trim_suffix ''.md'' (slug @ ''.md'') = slug"
    by (simp_all add: trim_suffix_def has_suffix_def has_prefix_def)
  ultimately show ?thesis by (simp add: RunbookSlugFromPath_def Let_def)
qed

lemma rmap_result: "rmap f xs = Inr ys \<Longrightarrow> x \<in> set xs \<Longrightarrow> \<exists>y \<in> set ys. f x = Inr y"
  by (induction xs arbitrary: ys) (auto simp: rbind_Inr_conv)

lemma validated_rule:
  assumes "validateAlertRuleFile slugs groups = Ok ()" and "g \<in> set groups" and "r \<in> set (ag_rules g)" and "names_runbook r"
  shows "annotation r ''runbook'' \<in> set slugs"
proof -
  have "validateAlertRule slugs r = Ok ()"
    using assms(1-3) unfolding validateAlertRuleFile_def rfold_unit
    by (auto simp: rfold_unit split: if_splits dest!: bspec)
  then show ?thesis using assms(4) by (auto simp: validateAlertRule_def names_runbook_def Let_def split: if_splits)
qed

text \<open>What the staging makes of a rule: an alert that names a runbook loses that annotation and gets the URL of the page
  of the runbook, which is among the pages, unless it brings a URL of its own. Other rules are left as they are.\<close>

definition origin :: "string \<Rightarrow> string" where
  "origin baseURL = rev (dropWhile (\<lambda>c. c = CHR ''/'') (rev (trim_space baseURL)))"

definition rule_linked :: "string set \<Rightarrow> string \<Rightarrow> string \<Rightarrow> alert_rule \<Rightarrow> alert_rule \<Rightarrow> bool" where
  "rule_linked pages baseURL job r r' \<longleftrightarrow>
     (if names_runbook r
      then r' = r\<lparr>ar_annotations := ar_annotations r'\<rparr> \<and>
        (\<forall>k. k \<noteq> ''runbook'' \<and> k \<noteq> ''runbook_url'' \<longrightarrow> map_of (ar_annotations r') k = map_of (ar_annotations r) k) \<and>
        map_of (ar_annotations r') ''runbook'' = None \<and>
        (if annotation r ''runbook_url'' = []
         then \<exists>page \<in> pages. page = ''consoles/runbooks/'' @ job @ ''/'' @ annotation r ''runbook'' @ ''.html'' \<and>
           map_of (ar_annotations r') ''runbook_url'' = Some (origin baseURL @ ''/'' @ page)
         else map_of (ar_annotations r') ''runbook_url'' = map_of (ar_annotations r) ''runbook_url'')
      else r' = r)"

definition groups_linked :: "string set \<Rightarrow> string \<Rightarrow> string \<Rightarrow> alert_group list \<Rightarrow> alert_group list \<Rightarrow> bool" where
  "groups_linked pages baseURL job =
     list_all2 (\<lambda>g g'. g' = g\<lparr>ag_rules := ag_rules g'\<rparr> \<and> list_all2 (rule_linked pages baseURL job) (ag_rules g) (ag_rules g'))"

text \<open>The build has put the runbooks of the workspace into the catalog.\<close>

definition runbooks_in_catalog :: "prom_files \<Rightarrow> catalog \<Rightarrow> string \<Rightarrow> bool" where
  "runbooks_in_catalog pf c job \<longleftrightarrow>
     (case pf_dir pf job ''runbooks'' of
        Some (Inr entries) \<Rightarrow> list_all (\<lambda>n.
          list_ex (\<lambda>f. \<not> f_isdir f \<and> f_path f = job @ runbooks_marker @ n) (t_job_files c)) (plain_names entries)
      | _ \<Rightarrow> True)"

text \<open>Writing rules as YAML and reading them again gives the same rules.\<close>

definition rules_roundtrip :: "yaml_lib \<Rightarrow> bool" where
  "rules_roundtrip y \<longleftrightarrow> (\<forall>gs out. yl_rules_out y gs = Ok out \<longrightarrow> yl_rules y out = Some gs)"

lemma suffix_split:
  assumes "has_suffix m n"
  shows "n = trim_suffix m n @ m"
proof -
  have "take (length m) (rev n) = rev m" using assms by (simp add: has_suffix_def has_prefix_def)
  then have "drop (length n - length m) n = m" by (simp add: take_rev)
  then show ?thesis using append_take_drop_id [of "length n - length m" n] assms by (simp add: trim_suffix_def)
qed

lemma rbind_Ok_E:
  assumes "rbind m f = Ok y"
  obtains x where "m = Ok x" "f x = Ok y"
  using assms by (auto simp: rbind_Inr_conv)

lemma slug_is_file:
  assumes cat: "runbooks_in_catalog pf c job" and slugs: "ListRunbookSlugs pf job = Ok slugs" and slug: "slug \<in> set slugs"
  shows "\<exists>f \<in> set (t_job_files c). \<not> f_isdir f \<and> f_path f = job @ runbooks_marker @ slug @ ''.md''"
proof (cases "pf_dir pf job ''runbooks''")
  case (Some r)
  with slugs slug obtain entries n where e: "r = Ok entries" "n \<in> set (plain_names entries)" "has_suffix ''.md'' n" "slug = trim_suffix ''.md'' n"
    by (auto simp: ListRunbookSlugs_def rbind_Inr_conv)
  have "n = slug @ ''.md''" using suffix_split [OF e(3)] e(4) by simp
  with cat e(2) Some e(1) show ?thesis by (fastforce simp: runbooks_in_catalog_def list_all_iff list_ex_iff)
qed (use slugs slug in \<open>simp add: ListRunbookSlugs_def\<close>)

lemma runbook_is_page:
  assumes f: "f \<in> set (t_job_files c)" "\<not> f_isdir f" "f_path f = job @ runbooks_marker @ slug @ ''.md''"
    and job: "CHR ''/'' \<notin> set job" and run: "assemblePrometheusRunbooks html indexHTML style c = Ok pages"
  shows "''consoles/runbooks/'' @ job @ ''/'' @ slug @ ''.html'' \<in> fst ` set pages"
proof -
  let ?p = "job @ runbooks_marker @ slug @ ''.md''"
  define found where "found = concat (map (\<lambda>p. case RunbookSlugFromPath p of None \<Rightarrow> [] | Some (job, slug) \<Rightarrow> [(p, job, slug)]) (ListRunbookFiles c))"
  have listed: "?p \<in> set (ListRunbookFiles c)" using f runbook_like [of job slug]
    by (auto simp: ListRunbookFiles_def intro!: rev_image_eqI)
  then have ne: "ListRunbookFiles c \<noteq> []" by auto
  have found: "(?p, job, slug) \<in> set found" unfolding found_def using listed runbook_slug [OF job, of slug]
    by (auto intro!: bexI [of _ ?p])
  define F where "F = (\<lambda>(p, job, slug). rbind (GetJobFileContent c p) (\<lambda>content. rbind (html job slug content) (\<lambda>page.
      Ok (''consoles/runbooks/'' @ job @ ''/'' @ slug @ ''.html'', page))))"
  have "rbind (rmap F found) (\<lambda>pages. Ok ((''consoles/runbooks/style.css'', style) # pages @
      [(''consoles/runbooks/index.html'', indexHTML (map snd found))])) = Ok pages"
    using run ne unfolding assemblePrometheusRunbooks_def Let_def found_def [symmetric] F_def [symmetric] by (simp only: if_False)
  then obtain ps where loop: "rmap F found = Ok ps"
    and pages: "pages = (''consoles/runbooks/style.css'', style) # ps @ [(''consoles/runbooks/index.html'', indexHTML (map snd found))]"
    by (cases "rmap F found") simp_all
  have sub: "set ps \<subseteq> set pages" unfolding pages by auto
  from rmap_result [OF loop found] obtain page where "(''consoles/runbooks/'' @ job @ ''/'' @ slug @ ''.html'', page) \<in> set pages"
    using sub by (auto simp: F_def rbind_Inr_conv)
  then show ?thesis by (rule rev_image_eqI) simp
qed

lemma inject_rule_linked:
  assumes page: "names_runbook r \<Longrightarrow> ''consoles/runbooks/'' @ job @ ''/'' @ annotation r ''runbook'' @ ''.html'' \<in> pages"
  shows "rule_linked pages baseURL job r (inject_rule baseURL job r)"
proof (cases "names_runbook r")
  case True
  define ann where "ann = (if annotation r ''runbook_url'' = []
     then AList.update ''runbook_url'' (RunbookConsoleURL baseURL job (annotation r ''runbook'')) (ar_annotations r) else ar_annotations r)"
  have r: "inject_rule baseURL job r = r\<lparr>ar_annotations := AList.delete ''runbook'' ann\<rparr>"
    using True by (simp add: inject_rule_def names_runbook_def Let_def ann_def)
  have url: "RunbookConsoleURL baseURL job slug = origin baseURL @ ''/'' @ ''consoles/runbooks/'' @ job @ ''/'' @ slug @ ''.html''" for slug
    by (simp add: RunbookConsoleURL_def RunbookConsolePath_def origin_def)
  show ?thesis unfolding rule_linked_def r if_P [OF True] using page [OF True]
    by (simp add: delete_conv' ann_def update_conv' url)
next
  case False
  then have "inject_rule baseURL job r = r" by (auto simp: inject_rule_def names_runbook_def Let_def)
  then show ?thesis by (simp add: rule_linked_def False)
qed

lemma unlinked_rule: "\<not> names_runbook r \<Longrightarrow> rule_linked pages baseURL job r r"
  by (simp add: rule_linked_def)

lemma injected_groups:
  assumes y: "rules_roundtrip y" and run: "InjectRunbookURLs y job content baseURL = Ok out"
    and page: "\<And>gs g r. yl_rules y content = Some gs \<Longrightarrow> g \<in> set gs \<Longrightarrow> r \<in> set (ag_rules g) \<Longrightarrow> names_runbook r \<Longrightarrow>
      ''consoles/runbooks/'' @ job @ ''/'' @ annotation r ''runbook'' @ ''.html'' \<in> pages"
  shows "\<exists>gs gs'. yl_rules y content = Some gs \<and> yl_rules y out = Some gs' \<and> groups_linked pages baseURL job gs gs'"
proof -
  from run obtain gs where gs: "parseAlertRuleFile y content = Ok gs" and out: "(if \<not> list_ex (\<lambda>g. list_ex names_runbook (ag_rules g)) gs then Ok content
       else yl_rules_out y (map (\<lambda>g. g\<lparr>ag_rules := map (inject_rule baseURL job) (ag_rules g)\<rparr>) gs)) = Ok out"
    by (auto simp: InjectRunbookURLs_def rbind_Inr_conv)
  have parsed: "yl_rules y content = Some gs" using gs by (auto simp: parseAlertRuleFile_def split: if_splits option.splits)
  show ?thesis
  proof (cases "list_ex (\<lambda>g. list_ex names_runbook (ag_rules g)) gs")
    case True
    let ?gs = "map (\<lambda>g. g\<lparr>ag_rules := map (inject_rule baseURL job) (ag_rules g)\<rparr>) gs"
    have "yl_rules y out = Some ?gs" using y out True by (simp add: rules_roundtrip_def)
    moreover have "groups_linked pages baseURL job gs ?gs"
      by (auto simp: groups_linked_def list_all2_map2 intro!: list.rel_refl_strong inject_rule_linked page [OF parsed])
    ultimately show ?thesis using parsed by blast
  next
    case False
    then have "groups_linked pages baseURL job gs gs"
      by (auto simp: groups_linked_def list_ex_iff intro!: list.rel_refl_strong unlinked_rule)
    then show ?thesis using parsed out False by auto
  qed
qed


text \<open>Job \<open>a\<close> has one alert with the runbook \<open>fix\<close>.\<close>

definition linked_rule :: "(string \<times> string) list \<Rightarrow> alert_rule" where
  "linked_rule ann = \<lparr>ar_alert = ''Down'', ar_record = [], ar_expr = ''up == 0'', ar_for = [], ar_labels = [], ar_annotations = ann\<rparr>"

definition linked_groups :: "(string \<times> string) list \<Rightarrow> alert_group list" where
  "linked_groups ann = [\<lparr>ag_name = ''g'', ag_rules = [linked_rule ann]\<rparr>]"

definition linking_yaml :: yaml_lib where
  "linking_yaml = \<lparr>yl_configs = (\<lambda>_. None), yl_map = (\<lambda>_. None),
     yl_rules = (\<lambda>s. if s = ''in'' then Some (linked_groups [(''runbook'', ''fix'')])
        else if s = ''out'' then Some (linked_groups [(''runbook_url'', ''http://w:90/consoles/runbooks/a/fix.html'')]) else None),
     yl_configs_out = (\<lambda>_. Ok []), yl_map_out = (\<lambda>_. Ok []),
     yl_rules_out = (\<lambda>gs. if gs = linked_groups [(''runbook_url'', ''http://w:90/consoles/runbooks/a/fix.html'')] then Ok ''out'' else Err ErrLibrary),
     yl_json = (\<lambda>_. None), yl_json_out = (\<lambda>_. Ok [])\<rparr>"

definition runbook_files :: prom_files where
  "runbook_files = \<lparr>pf_dir = (\<lambda>_ d. if d = ''runbooks'' then Some (Ok [(''fix.md'', False)]) else None), pf_read = (\<lambda>_ _. None),
     pf_tree = (\<lambda>_ _. None), pf_jobs = None\<rparr>"

definition runbook_catalog :: catalog where
  "runbook_catalog = empty_catalog\<lparr>t_job := [plain_job ''a'', plain_job ''prometheus''],
     t_job_ports := [\<lparr>p_job_id = j_id (plain_job ''prometheus''), p_name = ''prometheus_port_http'', p_port = 90\<rparr>],
     t_job_files :=
       [\<lparr>f_job_id = j_id (plain_job ''a''), f_path = ''a/_prometheus/alerts/x.yaml'', f_content = ''in'', f_isdir = False\<rparr>,
        \<lparr>f_job_id = j_id (plain_job ''a''), f_path = ''a/_prometheus/runbooks/fix.md'', f_content = ''x'', f_isdir = False\<rparr>]\<rparr>"

definition alert_entry :: prom_entry where
  "alert_entry = \<lparr>pe_job = ''a'', pe_path = ''a/_prometheus/alerts/x.yaml'', pe_rel = ''alerts/x.yaml''\<rparr>"

lemma linking_roundtrip: "rules_roundtrip linking_yaml"
  by (simp add: rules_roundtrip_def linking_yaml_def)

lemma linked_rules_staged:
  "assemblePrometheusAlertRules linking_yaml [] runbook_catalog ''w'' = Ok [(''rules/a/x.yaml'', ''out''), (''rules/maand/certs.yaml'', [])]"
  by code_simp

lemma linked_pages_staged:
  "assemblePrometheusRunbooks (\<lambda>_ _ t. Ok t) (\<lambda>_. []) [] runbook_catalog =
    Ok [(''consoles/runbooks/style.css'', []), (''consoles/runbooks/a/fix.html'', ''x''), (''consoles/runbooks/index.html'', [])]"
  by code_simp


end
