(* ===== verification/PromCatalog.thy ===== *)
theory PromCatalog
  imports PromFiles KvPersist
begin

text \<open>
  What a build records about Prometheus in the store (\<open>promconfig/catalog.go\<close>, \<open>scrape_template.go\<close>), and the scrape
  configuration that a deploy renders from it (\<open>promconfig/scrape_deploy.go\<close>).
\<close>

section \<open>Scrape files and their templates (promconfig/scrape_template.go)\<close>

record scrape_funcs =
  sf_get :: "string \<Rightarrow> string \<Rightarrow> error + string"
  sf_keys :: "string \<Rightarrow> error + string list"
  sf_getSecret :: "string \<Rightarrow> error + string"
  sf_int :: "string \<Rightarrow> error + int"

record scrape_data =
  sd_job :: string
  sd_current :: string
  sd_new :: string

text \<open>\<open>pw_template\<close> is \<open>text/template\<close>, \<open>pw_dec\<close> the decryption of secrets.\<close>

record prom_world =
  pw_yaml :: yaml_lib
  pw_files :: prom_files
  pw_dec :: "string \<Rightarrow> error + string"
  pw_template :: "scrape_funcs \<Rightarrow> scrape_data \<Rightarrow> string \<Rightarrow> error + string"

definition BuildScrapeTemplateNamespaces :: "catalog \<Rightarrow> string \<Rightarrow> string list" where
  "BuildScrapeTemplateNamespaces c job =
     Unique ([''maand/bucket'', ''vars/bucket'', ''maand/job/'' @ job, ''vars/bucket/job/'' @ job, ''vars/job/'' @ job,
       ''secrets/job/'' @ job] @ UpstreamDemandKVNamespaces c job)"

definition scrapeTemplateFuncMap :: "(string \<Rightarrow> error + string) \<Rightarrow> store \<Rightarrow> string \<Rightarrow> string list \<Rightarrow> scrape_funcs" where
  "scrapeTemplateFuncMap dec st job allowed =
     \<lparr>sf_get = (\<lambda>ns k. rbind (checked_namespace allowed ns) (\<lambda>_.
        if IsSecretNamespace ns then GetSecret dec st ns k else map_sum id e_value (Get st ns k))),
      sf_keys = (\<lambda>ns. rbind (checked_namespace allowed ns) (\<lambda>_. Ok (GetKeys st ns))),
      sf_getSecret = (\<lambda>k. GetSecret dec st (SecretJobNamespace job) k),
      sf_int = (\<lambda>s. case atoi s of None \<Rightarrow> Err ErrTemplate | Some i \<Rightarrow> Ok i)\<rparr>"

definition ValidateScrapeFiles :: "workspace \<Rightarrow> string \<Rightarrow> error + unit" where
  "ValidateScrapeFiles ws job =
     (if ws_exists ws job ''_prometheus/scrape.yaml'' \<and> ws_exists ws job ''_prometheus/scrape.yaml.tpl''
      then Err ErrInvalidJob else Ok ())"

definition RenderScrapeTemplate :: "prom_world \<Rightarrow> catalog \<Rightarrow> store \<Rightarrow> string \<Rightarrow> string \<Rightarrow> error + string" where
  "RenderScrapeTemplate pw c st job tpl =
     rbind (GetJobVersion c job) (\<lambda>version.
       let v = NormalizeDeployVersion version
       in or_error ErrInvalidJob (pw_template pw (scrapeTemplateFuncMap (pw_dec pw) st job (BuildScrapeTemplateNamespaces c job))
            \<lparr>sd_job = job, sd_current = v, sd_new = v\<rparr> tpl))"

definition read_prom_file :: "prom_files \<Rightarrow> string \<Rightarrow> string \<Rightarrow> error + string" where
  "read_prom_file pf job p = (case pf_read pf job p of None \<Rightarrow> Err ErrNotExist | Some r \<Rightarrow> r)"

definition ReadScrapeFileContent :: "prom_world \<Rightarrow> workspace \<Rightarrow> catalog \<Rightarrow> store \<Rightarrow> string \<Rightarrow> error + string" where
  "ReadScrapeFileContent pw ws c st job =
     rbind (ValidateScrapeFiles ws job) (\<lambda>_.
       if ws_exists ws job ''_prometheus/scrape.yaml.tpl''
       then rbind (read_prom_file (pw_files pw) job ''scrape.yaml.tpl'') (RenderScrapeTemplate pw c st job)
       else read_prom_file (pw_files pw) job ''scrape.yaml'')"

section \<open>The catalog of a build (promconfig/catalog.go)\<close>

definition KVNamespace :: string where
  "KVNamespace = ''maand/prometheus''"

text \<open>The owners of scrape names and of alerts, the keys to be stored, and the jobs and items that will be scraped.\<close>

record prom_state =
  ps_store :: store
  ps_names :: "(string \<times> string) list"
  ps_alerts :: "(string \<times> string) list"
  ps_kv :: "(string \<times> string) list"
  ps_jobs :: "string list"
  ps_configs :: "scrape_config list"

definition own_name :: "string \<Rightarrow> (string \<times> string) list \<Rightarrow> string \<Rightarrow> error + (string \<times> string) list" where
  "own_name job owners n = (if map_of owners n \<noteq> None then Err ErrInvalidJob else Ok (AList.update n job owners))"

definition check_alert_file ::
  "prom_world \<Rightarrow> string \<Rightarrow> string list \<Rightarrow> (string \<times> string) list \<Rightarrow> string \<Rightarrow> error + (string \<times> string) list" where
  "check_alert_file pw job slugs owners rel =
     rbind (read_prom_file (pw_files pw) job rel) (\<lambda>content.
     rbind (ValidateAlertFile (pw_yaml pw) slugs content) (\<lambda>_.
     rbind (AlertNamesFromFile (pw_yaml pw) content) (\<lambda>names. rfold (own_name job) owners names)))"

definition scrape_name :: "string \<Rightarrow> scrape_config \<Rightarrow> string" where
  "scrape_name job cfg = ResolveScrapeJobName job (case job_label cfg of None \<Rightarrow> [] | Some s \<Rightarrow> s)"

definition syncJobScrapeNameKV :: "string \<Rightarrow> scrape_config list \<Rightarrow> store \<Rightarrow> store" where
  "syncJobScrapeNameKV job configs st =
     (case configs of [] \<Rightarrow> st | cfg # _ \<Rightarrow> Put st (''maand/job/'' @ job) ''job_name'' (scrape_name job cfg) 0)"

definition scrape_job ::
  "prom_world \<Rightarrow> workspace \<Rightarrow> catalog \<Rightarrow> string \<Rightarrow> prom_state \<Rightarrow> string \<Rightarrow> error + prom_state" where
  "scrape_job pw ws c job s text =
     rbind (ws_manifest ws job) (\<lambda>m.
     rbind (ParseScrapeFile (pw_yaml pw) text) (\<lambda>configs.
     rbind (ValidateScrapeConfigs configs) (\<lambda>_.
     rbind (ValidateScrapePortReferences job configs (m_ports m)) (\<lambda>_.
     rbind (rfold (own_name job) (ps_names s) (map (scrape_name job) configs)) (\<lambda>names.
     rbind (yl_json_out (pw_yaml pw) configs) (\<lambda>json.
     rbind (GetActiveAllocations c job) (\<lambda>active.
       let s1 = s\<lparr>ps_store := syncJobScrapeNameKV job configs (ps_store s), ps_names := names,
                  ps_kv := AList.update (''scrape/'' @ job) json (ps_kv s)\<rparr>
       in Ok (if ScrapeConfigsRequireActiveAllocations configs \<and> active = [] then s1
              else s1\<lparr>ps_jobs := ps_jobs s1 @ [job], ps_configs := ps_configs s1 @ configs\<rparr>))))))))"

definition prometheus_job :: "prom_world \<Rightarrow> workspace \<Rightarrow> catalog \<Rightarrow> prom_state \<Rightarrow> string \<Rightarrow> error + prom_state" where
  "prometheus_job pw ws c s job =
     rbind (ValidatePrometheusServerFiles ws job) (\<lambda>_.
     rbind (ValidateScrapeFiles ws job) (\<lambda>_.
     rbind (ListRunbookSlugs (pw_files pw) job) (\<lambda>slugs.
     rbind (ListAlertFiles (pw_files pw) job) (\<lambda>paths.
     rbind (rfold (check_alert_file pw job slugs) (ps_alerts s) paths) (\<lambda>alerts.
       let s1 = s\<lparr>ps_alerts := alerts\<rparr>
       in case ReadScrapeFileContent pw ws c (ps_store s) job of
            Inl e \<Rightarrow> if e = ErrNotExist then Ok s1 else Err e
          | Inr text \<Rightarrow> scrape_job pw ws c job s1 text)))))"

definition syncPrometheusKV :: "(string \<times> string) list \<Rightarrow> store \<Rightarrow> error + store" where
  "syncPrometheusKV kvs st =
     (let st1 = foldl (\<lambda>s (k, v). Put s KVNamespace k v 0) st kvs;
          stale = filter (\<lambda>k. k \<notin> fst ` set kvs) (GetKeys st1 KVNamespace)
      in rfold (\<lambda>s k. Delete s KVNamespace k) st1 stale)"

definition hasPrometheusServerJob :: "workspace \<Rightarrow> bool" where
  "hasPrometheusServerJob ws \<longleftrightarrow>
     list_ex (\<lambda>job. ws_exists ws job ''prometheus.yml'' \<or> ws_exists ws job ''prometheus.yml.tpl'') (ws_jobs ws)"

definition no_scrapes :: "(string \<times> string) list" where
  "no_scrapes = [(''scrape_configs'', ''[]''), (''scrape_jobs'', []), (''scrape_jobs_length'', ''0'')]"

definition BuildCatalog :: "prom_world \<Rightarrow> workspace \<Rightarrow> catalog \<Rightarrow> store \<Rightarrow> error + store" where
  "BuildCatalog pw ws c st =
     (if \<not> hasPrometheusServerJob ws then syncPrometheusKV no_scrapes st
      else rbind (rfold (prometheus_job pw ws c)
             \<lparr>ps_store = st, ps_names = [], ps_alerts = [], ps_kv = [], ps_jobs = [], ps_configs = []\<rparr>
             (sort_strings (ws_jobs ws))) (\<lambda>s.
           rbind (yl_json_out (pw_yaml pw) (ps_configs s)) (\<lambda>json.
             syncPrometheusKV (AList.update ''scrape_jobs_length'' (itoa (int (length (ps_jobs s))))
               (AList.update ''scrape_jobs'' (join '','' (ps_jobs s)) (AList.update ''scrape_configs'' json (ps_kv s))))
               (ps_store s))))"

section \<open>The scrape configuration of a deploy (promconfig/scrape_deploy.go)\<close>

text \<open>\<open>GetJobManifestPorts\<close> reads the manifest of the catalog; \<open>manifest_json\<close> decodes it.\<close>

definition GetJobManifestPorts :: "(string \<Rightarrow> manifest option) \<Rightarrow> catalog \<Rightarrow> string \<Rightarrow> error + manifest_ports" where
  "GetJobManifestPorts manifest_json c job =
     rbind (GetJobFileContent c (job @ ''/manifest.json'')) (\<lambda>content.
       case manifest_json content of None \<Rightarrow> Err ErrInvalidJob | Some m \<Rightarrow> Ok (m_ports m))"

definition jobManifestPorts :: "(string \<Rightarrow> manifest option) \<Rightarrow> workspace \<Rightarrow> catalog \<Rightarrow> string \<Rightarrow> error + manifest_ports" where
  "jobManifestPorts manifest_json ws c job =
     (case GetJobManifestPorts manifest_json c job of
        Inr ports \<Rightarrow> Ok ports
      | Inl e \<Rightarrow> if e \<noteq> ErrNotFound \<and> e \<noteq> ErrNoRows then Err e else rbind (ws_manifest ws job) (\<lambda>m. Ok (m_ports m)))"

definition expandScrapeConfigsForJob ::
  "prom_world \<Rightarrow> (string \<Rightarrow> manifest option) \<Rightarrow> workspace \<Rightarrow> catalog \<Rightarrow> string \<Rightarrow> scrape_config list \<Rightarrow> error + scrape_config list" where
  "expandScrapeConfigsForJob pw manifest_json ws c job configs =
     rbind (jobManifestPorts manifest_json ws c job) (\<lambda>ports.
     rbind (GetActiveAllocations c job) (\<lambda>active.
       ExpandScrapeConfigs (pw_yaml pw) job configs ports (GetJobPortMapInt c job) active))"

definition add_expanded :: "(string \<Rightarrow> error + scrape_config list) \<Rightarrow> scrape_config list \<Rightarrow> string \<Rightarrow> error + scrape_config list" where
  "add_expanded expand acc job =
     (case expand job of
        Inl e \<Rightarrow> if e = ErrNoActiveScrapeTargets then Ok acc else Err e
      | Inr configs \<Rightarrow> Ok (acc @ configs))"

definition stored_configs :: "yaml_lib \<Rightarrow> store \<Rightarrow> string \<Rightarrow> error + scrape_config list" where
  "stored_configs y st job =
     rbind (Get st KVNamespace (''scrape/'' @ job)) (\<lambda>e.
       case yl_json y (e_value e) of None \<Rightarrow> Err ErrLibrary | Some configs \<Rightarrow> Ok configs)"

text \<open>\<open>None\<close> is a store that was not initialised.\<close>

definition renderScrapeConfigsFromKV ::
  "prom_world \<Rightarrow> (string \<Rightarrow> manifest option) \<Rightarrow> workspace \<Rightarrow> catalog \<Rightarrow> store option \<Rightarrow> string list \<Rightarrow> error + string" where
  "renderScrapeConfigsFromKV pw manifest_json ws c store jobsFilter =
     (case store of
        None \<Rightarrow> Ok []
      | Some st \<Rightarrow>
          (case Get st KVNamespace ''scrape_jobs'' of
             Inl _ \<Rightarrow> Ok []
           | Inr e \<Rightarrow>
               if trim_space (e_value e) = [] then Ok []
               else let listed = split_char CHR '','' (e_value e);
                        jobs = (if jobsFilter \<noteq> [] then Intersection listed jobsFilter else listed)
                    in rbind (rfold (add_expanded (\<lambda>job. rbind (stored_configs (pw_yaml pw) st job)
                             (expandScrapeConfigsForJob pw manifest_json ws c job)))
                           [] (filter (\<lambda>job. job \<noteq> []) (map trim_space jobs))) (ScrapeConfigsYAML (pw_yaml pw))))"

definition renderScrapeConfigsFromWorkspace ::
  "prom_world \<Rightarrow> (string \<Rightarrow> manifest option) \<Rightarrow> workspace \<Rightarrow> catalog \<Rightarrow> store \<Rightarrow> string list \<Rightarrow> error + string" where
  "renderScrapeConfigsFromWorkspace pw manifest_json ws c st jobsFilter =
     rbind (ListJobsWithWorkspaceScrape ws (pw_files pw) jobsFilter) (\<lambda>jobs.
     rbind (rfold (add_expanded (\<lambda>job. rbind (ReadScrapeFileContent pw ws c st job) (\<lambda>text.
          rbind (ParseScrapeFile (pw_yaml pw) text) (expandScrapeConfigsForJob pw manifest_json ws c job)))) [] jobs)
       (ScrapeConfigsYAML (pw_yaml pw)))"

definition RenderScrapeConfigsYAML ::
  "prom_world \<Rightarrow> (string \<Rightarrow> manifest option) \<Rightarrow> workspace \<Rightarrow> catalog \<Rightarrow> store option \<Rightarrow> string list \<Rightarrow> error + string" where
  "RenderScrapeConfigsYAML pw manifest_json ws c store jobsFilter =
     rbind (renderScrapeConfigsFromKV pw manifest_json ws c store jobsFilter) (\<lambda>fragment.
       if trim_space fragment \<noteq> [] then Ok fragment
       else renderScrapeConfigsFromWorkspace pw manifest_json ws c (case store of None \<Rightarrow> NewStore | Some st \<Rightarrow> st) jobsFilter)"

section \<open>What the catalog holds\<close>

lemma syncPrometheusKV_eq: "syncPrometheusKV kvs st = syncKeyValues KVNamespace kvs st"
  by (simp add: syncPrometheusKV_def syncKeyValues_def syncNamespaceKeyValues_def kept_key_def Difference_def Let_def)

lemma own_names:
  "rfold (own_name job) owners ns = Ok owners' \<Longrightarrow>
   distinct ns \<and> set ns \<inter> fst ` set owners = {} \<and> fst ` set owners' = fst ` set owners \<union> set ns"
proof (induction ns arbitrary: owners)
  case (Cons n ns)
  from Cons.prems have n: "n \<notin> fst ` set owners" and rest: "rfold (own_name job) (AList.update n job owners) ns = Ok owners'"
    by (auto simp: own_name_def [of job owners n] map_of_eq_None_iff split: if_splits)
  from Cons.IH [OF rest] n show ?case by (auto simp: keys_update)
qed simp

text \<open>The alerts that the files of a job define.\<close>

definition file_alerts :: "prom_world \<Rightarrow> string \<Rightarrow> string \<Rightarrow> string list" where
  "file_alerts pw job rel =
     (case rbind (read_prom_file (pw_files pw) job rel) (AlertNamesFromFile (pw_yaml pw)) of Inl _ \<Rightarrow> [] | Inr ns \<Rightarrow> ns)"

definition job_alerts :: "prom_world \<Rightarrow> string \<Rightarrow> string list" where
  "job_alerts pw job = (case ListAlertFiles (pw_files pw) job of Inl _ \<Rightarrow> [] | Inr rels \<Rightarrow> concat (map (file_alerts pw job) rels))"

lemma check_alert_files:
  "rfold (check_alert_file pw job slugs) owners rels = Ok owners' \<Longrightarrow>
   distinct (concat (map (file_alerts pw job) rels)) \<and> set (concat (map (file_alerts pw job) rels)) \<inter> fst ` set owners = {} \<and>
   fst ` set owners' = fst ` set owners \<union> set (concat (map (file_alerts pw job) rels))"
proof (induction rels arbitrary: owners)
  case (Cons rel rels)
  from Cons.prems obtain owners1 where one: "check_alert_file pw job slugs owners rel = Ok owners1"
    and rest: "rfold (check_alert_file pw job slugs) owners1 rels = Ok owners'" by (auto simp: rbind_Inr_conv)
  from one obtain ns where "file_alerts pw job rel = ns" "rfold (own_name job) owners ns = Ok owners1"
    by (auto simp: check_alert_file_def file_alerts_def rbind_Inr_conv)
  with own_names have "distinct (file_alerts pw job rel)" "set (file_alerts pw job rel) \<inter> fst ` set owners = {}"
    "fst ` set owners1 = fst ` set owners \<union> set (file_alerts pw job rel)" by blast+
  with Cons.IH [OF rest] show ?case by auto
qed simp

type_synonym scrape_items = "(string \<times> scrape_config list) list"

definition item_names :: "scrape_items \<Rightarrow> string list" where
  "item_names items = concat (map (\<lambda>(job, configs). map (scrape_name job) configs) items)"

definition json_of :: "yaml_lib \<Rightarrow> scrape_config list \<Rightarrow> string" where
  "json_of y configs = (case yl_json_out y configs of Inl _ \<Rightarrow> [] | Inr j \<Rightarrow> j)"

text \<open>The items of jobs that have an active allocation, or need none.\<close>

definition scraped :: "catalog \<Rightarrow> scrape_items \<Rightarrow> scrape_items" where
  "scraped c items =
     filter (\<lambda>(job, configs). ScrapeConfigsRequireActiveAllocations configs \<longrightarrow> GetActiveAllocations c job \<noteq> Ok []) items"

text \<open>Every job with a scrape file publishes the name of its first item in its own namespace.\<close>

definition with_job_name ::
  "(string \<Rightarrow> string \<Rightarrow> string option) \<Rightarrow> string \<times> scrape_config list \<Rightarrow> string \<Rightarrow> string \<Rightarrow> string option" where
  "with_job_name L = (\<lambda>(job, configs).
     case configs of [] \<Rightarrow> L
     | cfg # _ \<Rightarrow> L(''maand/job/'' @ job := (L (''maand/job/'' @ job))(''job_name'' \<mapsto> trim_space (scrape_name job cfg))))"

definition with_job_names :: "scrape_items \<Rightarrow> (string \<Rightarrow> string \<Rightarrow> string option) \<Rightarrow> string \<Rightarrow> string \<Rightarrow> string option" where
  "with_job_names items L = foldl with_job_name L items"

text \<open>The items of a job are the ones of its scrape file, rendered while the store had the names of the jobs before it.\<close>

definition item_read :: "prom_world \<Rightarrow> workspace \<Rightarrow> catalog \<Rightarrow> store \<Rightarrow> scrape_items \<Rightarrow> string \<Rightarrow> scrape_config list \<Rightarrow> bool" where
  "item_read pw ws c st before job configs \<longleftrightarrow>
     (\<exists>st0 content m. store_wf st0 \<and> live st0 = with_job_names before (live st) \<and>
        ReadScrapeFileContent pw ws c st0 job = Ok content \<and> ParseScrapeFile (pw_yaml pw) content = Ok configs \<and>
        ValidateScrapeConfigs configs = Ok () \<and>
        ws_manifest ws job = Ok m \<and> ValidateScrapePortReferences job configs (m_ports m) = Ok ())"

definition no_scrape_file :: "prom_world \<Rightarrow> workspace \<Rightarrow> catalog \<Rightarrow> store \<Rightarrow> scrape_items \<Rightarrow> string \<Rightarrow> bool" where
  "no_scrape_file pw ws c st items job \<longleftrightarrow>
     (\<exists>st0 before after. items = before @ after \<and> store_wf st0 \<and> live st0 = with_job_names before (live st) \<and>
        ReadScrapeFileContent pw ws c st0 job = Err ErrNotExist)"

definition catalogued ::
  "prom_world \<Rightarrow> workspace \<Rightarrow> catalog \<Rightarrow> store \<Rightarrow> string list \<Rightarrow> scrape_items \<Rightarrow> prom_state \<Rightarrow> bool" where
  "catalogued pw ws c st jobs items s \<longleftrightarrow>
     subseq (map fst items) jobs \<and>
     (\<forall>before job configs after. items = before @ (job, configs) # after \<longrightarrow> item_read pw ws c st before job configs) \<and>
     (\<forall>job \<in> set jobs. job \<notin> fst ` set items \<longrightarrow> no_scrape_file pw ws c st items job) \<and>
     distinct (item_names items) \<and> fst ` set (ps_names s) = set (item_names items) \<and>
     distinct (concat (map (job_alerts pw) jobs)) \<and> fst ` set (ps_alerts s) = set (concat (map (job_alerts pw) jobs)) \<and>
     distinct_keys (ps_kv s) \<and> (\<forall>job. map_of (ps_kv s) (''scrape/'' @ job) = map_option (json_of (pw_yaml pw)) (map_of items job)) \<and>
     (\<forall>k. \<not> has_prefix ''scrape/'' k \<longrightarrow> map_of (ps_kv s) k = None) \<and>
     ps_jobs s = map fst (scraped c items) \<and> ps_configs s = concat (map snd (scraped c items)) \<and>
     store_wf (ps_store s) \<and> live (ps_store s) = with_job_names items (live st)"

lemma subseq_set: "subseq xs ys \<Longrightarrow> set xs \<subseteq> set ys"
  by (auto elim: list_emb_set)

lemma put_job_name:
  assumes "store_wf st1" and "live st1 = with_job_names items L"
  shows "store_wf (syncJobScrapeNameKV job configs st1)"
    and "live (syncJobScrapeNameKV job configs st1) = with_job_names (items @ [(job, configs)]) L"
proof -
  show "store_wf (syncJobScrapeNameKV job configs st1)"
    using assms(1) by (cases configs) (simp_all add: syncJobScrapeNameKV_def)
  have "live (syncJobScrapeNameKV job configs st1) = with_job_name (live st1) (job, configs)"
  proof (cases configs)
    case (Cons cfg rest)
    show ?thesis unfolding Cons syncJobScrapeNameKV_def with_job_name_def list.case prod.case by (rule live_Put)
  qed (simp add: syncJobScrapeNameKV_def with_job_name_def)
  then show "live (syncJobScrapeNameKV job configs st1) = with_job_names (items @ [(job, configs)]) L"
    unfolding assms(2) with_job_names_def foldl_append foldl.simps .
qed

lemma no_scrape_file_later: "no_scrape_file pw ws c st items job \<Longrightarrow> no_scrape_file pw ws c st (items @ rest) job"
  unfolding no_scrape_file_def by (metis append.assoc)

lemma item_split:
  assumes "items @ [x] = before @ y # after"
  obtains "after = []" "before = items" "y = x" | rest where "after = rest @ [x]" "items = before @ y # rest"
  using assms by (cases after rule: rev_cases) auto

lemma scrape_job_step:
  assumes s: "catalogued pw ws c st jobs items (s\<lparr>ps_alerts := alerts0\<rparr>)" and run: "scrape_job pw ws c job s content = Ok s'"
    and content: "ReadScrapeFileContent pw ws c (ps_store s) job = Ok content" and new: "job \<notin> set jobs"
    and al: "distinct (concat (map (job_alerts pw) (jobs @ [job])))" "fst ` set (ps_alerts s) = set (concat (map (job_alerts pw) (jobs @ [job])))"
  shows "\<exists>configs. catalogued pw ws c st (jobs @ [job]) (items @ [(job, configs)]) s'"
proof -
  from run obtain m configs names json active where m: "ws_manifest ws job = Ok m"
    and parse: "ParseScrapeFile (pw_yaml pw) content = Ok configs"
    and valid: "ValidateScrapeConfigs configs = Ok ()" "ValidateScrapePortReferences job configs (m_ports m) = Ok ()"
    and names: "rfold (own_name job) (ps_names s) (map (scrape_name job) configs) = Ok names"
    and json: "yl_json_out (pw_yaml pw) configs = Ok json" and active: "GetActiveAllocations c job = Ok active"
    and s': "s' = (let s1 = s\<lparr>ps_store := syncJobScrapeNameKV job configs (ps_store s), ps_names := names,
                  ps_kv := AList.update (''scrape/'' @ job) json (ps_kv s)\<rparr>
       in if ScrapeConfigsRequireActiveAllocations configs \<and> active = [] then s1
              else s1\<lparr>ps_jobs := ps_jobs s1 @ [job], ps_configs := ps_configs s1 @ configs\<rparr>)"
    by (auto simp: scrape_job_def rbind_Inr_conv Let_def)
  have old: "subseq (map fst items) jobs"
    "\<And>before job configs after. items = before @ (job, configs) # after \<Longrightarrow> item_read pw ws c st before job configs"
    "\<And>job. job \<in> set jobs \<Longrightarrow> job \<notin> fst ` set items \<Longrightarrow> no_scrape_file pw ws c st items job"
    "distinct (item_names items)" "fst ` set (ps_names s) = set (item_names items)" "distinct_keys (ps_kv s)"
    "\<And>j. map_of (ps_kv s) (''scrape/'' @ j) = map_option (json_of (pw_yaml pw)) (map_of items j)"
    "\<And>k. \<not> has_prefix ''scrape/'' k \<Longrightarrow> map_of (ps_kv s) k = None"
    "ps_jobs s = map fst (scraped c items)" "ps_configs s = concat (map snd (scraped c items))" "store_wf (ps_store s)"
    "live (ps_store s) = with_job_names items (live st)"
    using s by (simp_all add: catalogued_def)
  have fields: "ps_store s' = syncJobScrapeNameKV job configs (ps_store s)" "ps_names s' = names" "ps_alerts s' = ps_alerts s"
    "ps_kv s' = AList.update (''scrape/'' @ job) json (ps_kv s)"
    by (simp_all add: s' Let_def)
  have sc: "ps_jobs s' = map fst (scraped c (items @ [(job, configs)]))" "ps_configs s' = concat (map snd (scraped c (items @ [(job, configs)])))"
    using old(9,10) active by (simp_all add: s' Let_def scraped_def)
  have nj: "map_of items job = None" using new subseq_set [OF old(1)] by (auto simp: map_of_eq_None_iff)
  have kv: "map_of (ps_kv s') (''scrape/'' @ j) = map_option (json_of (pw_yaml pw)) (map_of (items @ [(job, configs)]) j)" for j
    using old(7) nj json by (auto simp: fields map_add_def json_of_def split: option.split)
  have kn: "map_of (ps_kv s') k = None" if "\<not> has_prefix ''scrape/'' k" for k
    using old(8) [OF that] that by (auto simp: fields has_prefix_def)
  have split: "item_names (items @ [(job, configs)]) = item_names items @ map (scrape_name job) configs" by (simp add: item_names_def)
  from own_names [OF names] have nm: "distinct (item_names (items @ [(job, configs)]))"
    "fst ` set names = set (item_names (items @ [(job, configs)]))" unfolding split using old(4,5) by auto
  have "subseq (map fst (items @ [(job, configs)])) (jobs @ [job])" using old(1) by (simp add: list_emb_append_mono)
  moreover have "item_read pw ws c st before j cs" if "items @ [(job, configs)] = before @ (j, cs) # after" for before j cs after
    using that
  proof (cases rule: item_split)
    case 1
    have "item_read pw ws c st items job configs"
      unfolding item_read_def using old(11,12) content parse valid m by blast
    with 1 show ?thesis by simp
  qed (rule old(2))
  moreover have "no_scrape_file pw ws c st (items @ [(job, configs)]) j"
    if "j \<in> set (jobs @ [job])" "j \<notin> fst ` set (items @ [(job, configs)])" for j
    by (rule no_scrape_file_later, rule old(3)) (use that in auto)
  moreover have "distinct_keys (ps_kv s')" using old(6) by (simp add: fields)
  moreover note put_job_name [OF old(11,12), of job configs, folded fields(1)]
  ultimately have "catalogued pw ws c st (jobs @ [job]) (items @ [(job, configs)]) s'"
    unfolding catalogued_def using nm al kv kn sc by (simp add: fields del: concat_append map_append set_append)
  then show ?thesis by blast
qed

lemma prometheus_job_step:
  assumes s: "catalogued pw ws c st jobs items s" and run: "prometheus_job pw ws c s job = Ok s'" and new: "job \<notin> set jobs"
  shows "\<exists>items'. catalogued pw ws c st (jobs @ [job]) items' s'"
proof -
  from run obtain slugs rels alerts where rels: "ListAlertFiles (pw_files pw) job = Ok rels"
    and alerts: "rfold (check_alert_file pw job slugs) (ps_alerts s) rels = Ok alerts"
    and rest: "(case ReadScrapeFileContent pw ws c (ps_store s) job of
            Inl e \<Rightarrow> if e = ErrNotExist then Ok (s\<lparr>ps_alerts := alerts\<rparr>) else Err e
          | Inr file \<Rightarrow> scrape_job pw ws c job (s\<lparr>ps_alerts := alerts\<rparr>) file) = Ok s'"
    by (auto simp: prometheus_job_def rbind_Inr_conv Let_def)
  have "job_alerts pw job = concat (map (file_alerts pw job) rels)" by (simp add: job_alerts_def rels)
  with check_alert_files [OF alerts] s have al: "distinct (concat (map (job_alerts pw) (jobs @ [job])))"
    "fst ` set alerts = set (concat (map (job_alerts pw) (jobs @ [job])))" by (auto simp: catalogued_def)
  show ?thesis
  proof (cases "ReadScrapeFileContent pw ws c (ps_store s) job")
    case (Inl e)
    then have e: "ReadScrapeFileContent pw ws c (ps_store s) job = Err ErrNotExist" and s': "s' = s\<lparr>ps_alerts := alerts\<rparr>"
      using rest by (auto split: if_splits)
    have "subseq (map fst items) (jobs @ [job])" using s by (auto simp: catalogued_def intro: list_emb_append2 subseq_order.trans)
    moreover have "no_scrape_file pw ws c st items job"
      unfolding no_scrape_file_def using s e
      by (intro exI [of _ "ps_store s"] exI [of _ items] exI [of _ "[]"]) (simp add: catalogued_def)
    ultimately have "catalogued pw ws c st (jobs @ [job]) items s'"
      using s al by (auto simp: catalogued_def s')
    then show ?thesis by blast
  next
    case (Inr content)
    have "catalogued pw ws c st jobs items ((s\<lparr>ps_alerts := alerts\<rparr>)\<lparr>ps_alerts := ps_alerts s\<rparr>)" using s by simp
    from scrape_job_step [OF this _ _ new, of content s'] Inr rest al show ?thesis by auto
  qed
qed

lemma prometheus_jobs_loop:
  assumes "catalogued pw ws c st jobs items s" and "rfold (prometheus_job pw ws c) s rest = Ok s'" and "distinct (jobs @ rest)"
  shows "\<exists>items'. catalogued pw ws c st (jobs @ rest) items' s'"
  using assms
proof (induction rest arbitrary: jobs items s)
  case (Cons job rest)
  from Cons.prems(2) obtain t where one: "prometheus_job pw ws c s job = Ok t" and more: "rfold (prometheus_job pw ws c) t rest = Ok s'"
    by (auto simp: rbind_Inr_conv)
  have new: "job \<notin> set jobs" using Cons.prems(3) by simp
  from prometheus_job_step [OF Cons.prems(1) one new] obtain items1 where step: "catalogued pw ws c st (jobs @ [job]) items1 t" by blast
  have d: "distinct ((jobs @ [job]) @ rest)" using Cons.prems(3) by simp
  from Cons.IH [OF step more d] show ?case by simp
qed auto

text \<open>Property C11: the Prometheus catalog of a build. When the catalog is built and some job is the Prometheus server,
  the items of a job are exactly the ones that its scrape file, rendered with the store of that moment, parses to, and
  they were validated against the ports of its manifest; a job is left out only when it has no scrape file; no two
  items and no two alerts of all jobs have one name. The namespace \<open>maand/prometheus\<close> then holds exactly the items of
  each job, and the names and items of the jobs that have an active allocation or need none, and every other namespace is
  as before, apart from the name of its first item that each of those jobs gets.\<close>

theorem prometheus_catalog_exact:
  assumes run: "BuildCatalog pw ws c st = Ok st'" and server: "hasPrometheusServerJob ws" and wf: "store_wf st" and d: "distinct (ws_jobs ws)"
  shows "\<exists>items. subseq (map fst items) (sort_strings (ws_jobs ws)) \<and>
    (\<forall>before job configs after. items = before @ (job, configs) # after \<longrightarrow> item_read pw ws c st before job configs) \<and>
    (\<forall>job \<in> set (ws_jobs ws). job \<notin> fst ` set items \<longrightarrow> no_scrape_file pw ws c st items job) \<and>
    distinct (item_names items) \<and> distinct (concat (map (job_alerts pw) (sort_strings (ws_jobs ws)))) \<and>
    (\<forall>k. live st' KVNamespace k = map_option trim_space
       (if k = ''scrape_jobs_length'' then Some (itoa (int (length (scraped c items))))
        else if k = ''scrape_jobs'' then Some (join '','' (map fst (scraped c items)))
        else if k = ''scrape_configs'' then Some (json_of (pw_yaml pw) (concat (map snd (scraped c items))))
        else if has_prefix ''scrape/'' k then map_option (json_of (pw_yaml pw)) (map_of items (drop 7 k)) else None)) \<and>
    (\<forall>ns. ns \<noteq> KVNamespace \<longrightarrow> live st' ns = with_job_names items (live st) ns)"
proof -
  let ?s0 = "\<lparr>ps_store = st, ps_names = [], ps_alerts = [], ps_kv = [], ps_jobs = [], ps_configs = []\<rparr>"
  from run server obtain s json where loop: "rfold (prometheus_job pw ws c) ?s0 (sort_strings (ws_jobs ws)) = Ok s"
    and json: "yl_json_out (pw_yaml pw) (ps_configs s) = Ok json"
    and sync: "syncPrometheusKV (AList.update ''scrape_jobs_length'' (itoa (int (length (ps_jobs s))))
      (AList.update ''scrape_jobs'' (join '','' (ps_jobs s)) (AList.update ''scrape_configs'' json (ps_kv s)))) (ps_store s) = Ok st'"
      (is "syncPrometheusKV ?kvs _ = _")
    by (auto simp: BuildCatalog_def rbind_Inr_conv)
  have "catalogued pw ws c st [] [] ?s0" using wf by (simp add: catalogued_def item_names_def scraped_def with_job_names_def)
  from prometheus_jobs_loop [OF this loop] d obtain items where cat: "catalogued pw ws c st (sort_strings (ws_jobs ws)) items s" by auto
  then have wf': "store_wf (ps_store s)" and dk: "distinct_keys ?kvs" by (simp_all add: catalogued_def)
  from sync_exact [OF wf' dk, of KVNamespace] sync have live: "live st' = (live (ps_store s))(KVNamespace := map_option trim_space \<circ> map_of ?kvs)"
    by (auto simp: syncPrometheusKV_eq)
  have prefix: "\<not> has_prefix ''scrape/'' ''scrape_jobs''" "\<not> has_prefix ''scrape/'' ''scrape_configs''"
    "\<not> has_prefix ''scrape/'' ''scrape_jobs_length''" by code_simp+
  have key: "k = ''scrape/'' @ drop 7 k" if "has_prefix ''scrape/'' k" for k
    using that append_take_drop_id [of 7 k] by (simp add: has_prefix_def numeral_eq_Suc del: append_take_drop_id)
  have item: "map_of (ps_kv s) k = (if has_prefix ''scrape/'' k then map_option (json_of (pw_yaml pw)) (map_of items (drop 7 k)) else None)" for k
    using cat key [of k] by (cases "has_prefix ''scrape/'' k") (metis (no_types, lifting) catalogued_def)+
  have kvs: "map_of ?kvs k = (if k = ''scrape_jobs_length'' then Some (itoa (int (length (scraped c items))))
        else if k = ''scrape_jobs'' then Some (join '','' (map fst (scraped c items)))
        else if k = ''scrape_configs'' then Some (json_of (pw_yaml pw) (concat (map snd (scraped c items))))
        else if has_prefix ''scrape/'' k then map_option (json_of (pw_yaml pw)) (map_of items (drop 7 k)) else None)" for k
    using cat json unfolding map_of_AList_update fun_upd_apply item by (simp add: catalogued_def json_of_def)
  have frame: "live st' ns = with_job_names items (live st) ns" if "ns \<noteq> KVNamespace" for ns
    using cat that by (simp add: live catalogued_def)
  have "live st' KVNamespace k = map_option trim_space (map_of ?kvs k)" for k
    unfolding live fun_upd_same comp_apply ..
  note ns = this [unfolded kvs]
  show ?thesis
    by (rule exI [of _ items]) (intro conjI allI impI ns frame, use cat in \<open>simp_all add: catalogued_def\<close>)
qed

section \<open>Witness\<close>

text \<open>Job \<open>p\<close> is the Prometheus server, job \<open>a\<close> has a scrape file with one item.\<close>

definition one_item :: scrape_config where
  "one_item = [(''job_name'', YText ''maand:job''), (''static_configs'', YList [YMap [(''targets'', YList [YText ''x:1''])]])]"

definition scraping :: prom_world where
  "scraping = \<lparr>pw_yaml = \<lparr>yl_configs = (\<lambda>_. Some [one_item]), yl_map = (\<lambda>_. None), yl_rules = (\<lambda>_. None),
       yl_configs_out = (\<lambda>_. Ok []), yl_map_out = (\<lambda>_. Ok []), yl_rules_out = (\<lambda>_. Ok []), yl_json = (\<lambda>_. None),
       yl_json_out = (\<lambda>_. Ok ''[]'')\<rparr>,
     pw_files = \<lparr>pf_dir = (\<lambda>_ _. None), pf_read = (\<lambda>job p. if job = ''a'' \<and> p = ''scrape.yaml'' then Some (Ok ''y'') else None),
       pf_tree = (\<lambda>_ _. None), pf_jobs = None\<rparr>, pw_dec = Ok, pw_template = (\<lambda>_ _ _. Err ErrTemplate)\<rparr>"

definition scraped_space :: workspace where
  "scraped_space = \<lparr>ws_workers = Ok [], ws_jobs = [''p'', ''a''], ws_manifest = (\<lambda>_. Ok bare_manifest),
     ws_exists = (\<lambda>job p. job = ''p'' \<and> p = ''prometheus.yml'' \<or> job = ''a'' \<and> p = ''_prometheus/scrape.yaml''),
     ws_walk = (\<lambda>_. Ok []), ws_disabled = Ok \<lparr>dc_workers = [], dc_jobs = []\<rparr>\<rparr>"

definition scraped_store :: store where
  "scraped_store = (case BuildCatalog scraping scraped_space empty_catalog [] of Inl _ \<Rightarrow> [] | Inr st \<Rightarrow> st)"

lemma scraped_store: "BuildCatalog scraping scraped_space empty_catalog [] = Ok scraped_store"
  by code_simp

lemma prometheus_catalog_exact_witness:
  "live scraped_store KVNamespace ''scrape_jobs'' = Some ''a'' \<and>
   (\<exists>items. subseq (map fst items) [''a'', ''p''] \<and> distinct (item_names items) \<and>
     live scraped_store KVNamespace ''scrape_jobs'' = map_option trim_space (Some (join '','' (map fst (scraped empty_catalog items)))))"
proof -
  have "live scraped_store KVNamespace ''scrape_jobs'' = Some ''a''" by code_simp
  moreover have server: "hasPrometheusServerJob scraped_space" "distinct (ws_jobs scraped_space)" "store_wf []" by code_simp+
  have jobs: "sort_strings (ws_jobs scraped_space) = [''a'', ''p'']" by code_simp
  obtain items where items: "subseq (map fst items) (sort_strings (ws_jobs scraped_space))" "distinct (item_names items)"
    and ns: "\<forall>k. live scraped_store KVNamespace k = map_option trim_space
       (if k = ''scrape_jobs_length'' then Some (itoa (int (length (scraped empty_catalog items))))
        else if k = ''scrape_jobs'' then Some (join '','' (map fst (scraped empty_catalog items)))
        else if k = ''scrape_configs'' then Some (json_of (pw_yaml scraping) (concat (map snd (scraped empty_catalog items))))
        else if has_prefix ''scrape/'' k then map_option (json_of (pw_yaml scraping)) (map_of items (drop 7 k)) else None)"
    using prometheus_catalog_exact [OF scraped_store server(1,3,2)] by (elim exE conjE) (rule that)
  have "live scraped_store KVNamespace ''scrape_jobs'' = map_option trim_space (Some (join '','' (map fst (scraped empty_catalog items))))"
    using ns [rule_format, of "''scrape_jobs''"] by simp
  ultimately show ?thesis using items unfolding jobs by blast
qed

end
