(* ===== verification/BuildExecute.thy ===== *)
theory BuildExecute
  imports BuildJobsLaws CertLaws PromCatalog Gc
begin

text \<open>
  The build as a whole (\<open>build/execute.go\<close>, with \<open>ValidateWorkerResources\<close> of \<open>build/validate.go\<close>): one transaction
  that turns the workspace into the catalog and the store, and a second one that runs the commands of the jobs. The main
  theorem says what a successful build leaves in the catalog.
\<close>

section \<open>Resources (build/validate.go)\<close>

text \<open>The jobs of the active allocations on a worker, as the join has them.\<close>

definition jobs_on :: "catalog \<Rightarrow> string \<Rightarrow> job_row list" where
  "jobs_on c ip =
     concat (map (\<lambda>a. jobs_named c (a_job a)) (filter (\<lambda>a. a_ip a = ip \<and> \<not> a_removed a \<and> \<not> a_disabled a) (t_allocations c)))"

definition exceeds :: "'f floats \<Rightarrow> 'f \<Rightarrow> 'f \<Rightarrow> bool" where
  "exceeds fl required available \<longleftrightarrow>
     fl_less fl (fl_of fl 0) required \<and>
     (fl_less fl available (fl_of fl 0) \<or> fl_eq fl available (fl_of fl 0) \<or> fl_less fl available required)"

text \<open>\<open>sqlSum\<close> is SQLite's on texts; a text that is scanned into a \<open>float64\<close> is parsed.\<close>

definition worker_overloaded :: "'f floats \<Rightarrow> (string list \<Rightarrow> 'f) \<Rightarrow> catalog \<Rightarrow> worker_row \<Rightarrow> error + bool" where
  "worker_overloaded fl sqlSum c w =
     (case (fl_parse fl (w_memory w), fl_parse fl (w_cpu w)) of
        (Some memory, Some cpu) \<Rightarrow>
          Ok (exceeds fl (sqlSum (map j_memory (jobs_on c (w_ip w)))) memory \<or> exceeds fl (sqlSum (map j_cpu (jobs_on c (w_ip w)))) cpu)
      | _ \<Rightarrow> Err ErrDatabase)"

definition ValidateWorkerResources :: "'f floats \<Rightarrow> (string list \<Rightarrow> 'f) \<Rightarrow> catalog \<Rightarrow> error + unit" where
  "ValidateWorkerResources fl sqlSum c =
     rbind (rmap (worker_overloaded fl sqlSum c) (filter (\<lambda>w. jobs_on c (w_ip w) \<noteq> []) (t_worker c))) (\<lambda>overloaded.
       if list_ex id overloaded then Err ErrInsufficientResource else Ok ())"

section \<open>The build (build/execute.go)\<close>

text \<open>What the build reads: the arithmetic, the ids of new workers, the hash of a certificate section, the files.\<close>

record 'f build_world =
  bw_floats :: "'f floats"
  bw_sum :: "string list \<Rightarrow> 'f"
  bw_worker_id :: "string \<Rightarrow> string"
  bw_cert_hash :: "(string \<times> cert_config) list \<Rightarrow> string"
  bw_files :: workspace_files
  bw_workspace :: workspace
  bw_certs :: cert_world
  bw_prom :: prom_world

definition build_rows_of :: "'f build_world \<Rightarrow> catalog \<Rightarrow> error + catalog \<times> string list \<times> string list" where
  "build_rows_of b c =
     (let ws = bw_workspace b; uuid = wf_uuid (bw_files b) in
      rbind (BuildWorkers (bw_floats b) (bw_worker_id b) (ws_workers ws) c) (\<lambda>(c1, removedWorkers).
      rbind (BuildJobs (bw_floats b) uuid (bw_cert_hash b) (bw_files b) ws c1) (\<lambda>(c2, removedJobs).
      rbind (ValidateJobCommandDemands (ws_manifest ws) (ws_jobs ws)) (\<lambda>_.
      rbind (ws_disabled ws) (\<lambda>disabled.
      rbind (BuildAllocations uuid disabled c2) (\<lambda>c3.
      rbind (ValidateMinAllocationsCount (ws_manifest ws) c3 (ws_jobs ws)) (\<lambda>_.
        Ok (c3, removedWorkers, removedJobs))))))))"

definition build_certificates :: "'f build_world \<Rightarrow> unit act" where
  "build_certificates b s =
     (case BuildCerts (bw_certs b) (ds_cat s, ds_store s, 0) of
        Inl e \<Rightarrow> (Err e, s)
      | Inr (c, st, _) \<Rightarrow> (Ok (), s\<lparr>ds_cat := c, ds_store := st\<rparr>))"

definition with_store :: "(catalog \<Rightarrow> store \<Rightarrow> error + store) \<Rightarrow> unit act" where
  "with_store f = bnd (reads ds_cat) (\<lambda>c. change_store (f c))"

definition build_store_of :: "'f build_world \<Rightarrow> world \<Rightarrow> bool \<Rightarrow> string list \<Rightarrow> string list \<Rightarrow> unit act" where
  "build_store_of b w purgeJobCommandKV removedWorkers removedJobs =
     bnd (with_store (\<lambda>c. BuildVariables (bw_files b) c removedWorkers removedJobs purgeJobCommandKV)) (\<lambda>_.
     bnd (build_certificates b) (\<lambda>_.
     bnd (with_store (\<lambda>c. BuildJobAllocationVariables c removedJobs)) (\<lambda>_.
     bnd (with_store (BuildCatalog (bw_prom b) (bw_workspace b))) (\<lambda>_.
     bnd (purge_stale w 7) (\<lambda>_.
     bnd (query (ValidateWorkerResources (bw_floats b) (bw_sum b))) (\<lambda>_.
     persistStore w))))))"

text \<open>The body of the first transaction; \<open>None\<close> is not returning.\<close>

definition build_body :: "'f build_world \<Rightarrow> world \<Rightarrow> bool \<Rightarrow> dstate \<Rightarrow> ((error + unit) \<times> dstate) option" where
  "build_body b w purgeJobCommandKV s =
     (case load_session s of
        (Inl e, s1) \<Rightarrow> Some (Inl e, s1)
      | (Inr _, s1) \<Rightarrow>
          (case build_rows_of b (ds_cat s1) of
             Inl e \<Rightarrow> Some (Inl e, s1)
           | Inr (c, removedWorkers, removedJobs) \<Rightarrow>
               map_option (\<lambda>r. case r of
                   Inl e \<Rightarrow> (Inl e, s1)
                 | Inr c' \<Rightarrow> build_store_of b w purgeJobCommandKV removedWorkers removedJobs (s1\<lparr>ds_cat := c'\<rparr>))
                 (BuildDeploymentSequence c)))"

section \<open>The commands after a build\<close>

text \<open>Wave by wave; job commands leave the catalog alone, so the list can be read before they run.\<close>

definition post_build_commands :: "catalog \<Rightarrow> (string \<times> string) list" where
  "post_build_commands c =
     concat (map (\<lambda>n. concat (map (\<lambda>job. map (Pair job) (GetJobCommands c job ''post_build'')) (GetJobsByDeploymentSeq c n)))
       [0..GetMaxDeploymentSeq c])"

definition runPostBuildHooks :: "world \<Rightarrow> unit act" where
  "runPostBuildHooks w =
     bnd load_session (\<lambda>_.
     bnd (query GetBucketID) (\<lambda>_.
     bnd (reads (\<lambda>s. post_build_commands (ds_cat s))) (\<lambda>commands.
     bnd (dall (\<lambda>(job, command). JobCommand w job command ''post_build'' []) commands) (\<lambda>errs.
     bnd (pureR (joinErrors errs)) (\<lambda>_. persistSession w)))))"

definition buildExecute :: "'f build_world \<Rightarrow> world \<Rightarrow> bool \<Rightarrow> dstate \<Rightarrow> ((error + unit) \<times> dstate) option" where
  "buildExecute b w purgeJobCommandKV s =
     (case build_body b w purgeJobCommandKV s of
        None \<Rightarrow> None
      | Some r \<Rightarrow>
          (case transaction (\<lambda>_. r) s of
             (Inl e, s1) \<Rightarrow> Some (Inl e, s1)
           | (Inr _, s1) \<Rightarrow> Some (transaction (runPostBuildHooks w) s1)))"

section \<open>What the later steps leave alone\<close>

definition hash_only :: "catalog \<Rightarrow> catalog \<Rightarrow> bool" where
  "hash_only c c' \<longleftrightarrow> c' = c\<lparr>t_hash := t_hash c'\<rparr> \<and>
     (distinct (map (\<lambda>h. (h_namespace h, h_key h)) (t_hash c)) \<longrightarrow> distinct (map (\<lambda>h. (h_namespace h, h_key h)) (t_hash c')))"

lemma hash_only_refl: "hash_only c c"
  by (simp add: hash_only_def)

lemma hash_only_trans: "hash_only c d \<Longrightarrow> hash_only d e \<Longrightarrow> hash_only c e"
  unfolding hash_only_def by (metis (no_types, lifting) catalog.surjective catalog.update_convs(12))

interpretation hash: step_relation "\<lambda>s s'. hash_only (ds_cat s) (ds_cat s')"
  by unfold_locales (auto intro: hash_only_refl hash_only_trans)

lemma hash_only_Promote: "hash_only c (PromoteHash c ns k)"
proof -
  have "map (\<lambda>h. (h_namespace h, h_key h))
      (map (\<lambda>h. if h_namespace h = ns \<and> h_key h = k then h\<lparr>h_previous_hash := h_current_hash h\<rparr> else h) hs) =
    map (\<lambda>h. (h_namespace h, h_key h)) hs" for hs :: "hash_row list"
    by (induction hs) auto
  then show ?thesis by (simp add: hash_only_def PromoteHash_def update_hash_def del: map_map)
qed

lemma hash_only_certs:
  assumes run: "BuildCerts w (c, st, made) = Ok (c', st', made')"
  shows "hash_only c c'"
proof -
  from run obtain h c1 c2 where c1: "UpdateHash c ''build'' ''ca'' h = Ok c1"
    and loop: "rfold (buildJobCerts w (HashChanged c1 ''build'' ''ca'')) (c1, st, made) (GetAllAllocatedJobs c1) = Ok (c2, st', made')"
    and c': "c' = PromoteHash c2 ''build'' ''ca''" by (auto simp: BuildCerts_def rbind_Inr_conv)
  have one: "hash_only c1 (fst t')" if "hash_only c1 (fst t)" "buildJobCerts w b t job = Ok t'" for b t t' job
  proof -
    have "fst t' = PromoteHash (fst t) ''build_certs'' job"
      using that(2) by (auto simp: buildJobCerts_def rbind_Inr_conv Let_def split: prod.splits if_splits)
    then show ?thesis using that(1) by (auto intro: hash_only_trans hash_only_Promote)
  qed
  have "hash_only c1 (fst (c2, st', made'))"
    by (rule rfold_invariant [OF loop]) (use one hash_only_refl in auto)
  moreover have "hash_only c c1" using UpdateHash_frame [OF c1] by (simp add: hash_only_def)
  ultimately show ?thesis using hash_only_Promote unfolding c' by (auto intro: hash_only_trans)
qed

lemma hash_steps:
  "holds (\<lambda>s s'. hash_only (ds_cat s) (ds_cat s')) (with_store f)"
  "holds (\<lambda>s s'. hash_only (ds_cat s) (ds_cat s')) (build_certificates b)"
  "holds (\<lambda>s s'. hash_only (ds_cat s) (ds_cat s')) (purge_stale w n)"
  "holds (\<lambda>s s'. hash_only (ds_cat s) (ds_cat s')) (persistStore w)"
  by (auto simp: holds_def with_store_def bnd_def change_store_def build_certificates_def purge_stale_def persistStore_def
      hash_only_refl hash_only_certs split: sum.split prod.split)

lemma build_store_frame:
  "build_store_of b w purge rw rj s = (r, s') \<Longrightarrow> hash_only (ds_cat s) (ds_cat s')"
proof -
  have "holds (\<lambda>s s'. hash_only (ds_cat s) (ds_cat s')) (build_store_of b w purge rw rj)"
    unfolding build_store_of_def by (intro hash.rules hash_steps)
  then show "build_store_of b w purge rw rj s = (r, s') \<Longrightarrow> hash_only (ds_cat s) (ds_cat s')" by (rule holdsD)
qed

lemma keeps_post_build: "holds same_cat (runPostBuildHooks w)"
  by (auto simp: runPostBuildHooks_def intro!: keeps split: prod.split)

section \<open>What a build leaves in the catalog\<close>

definition built_ok :: "(string \<Rightarrow> string) \<Rightarrow> catalog \<Rightarrow> bool" where
  "built_ok uuid c \<longleftrightarrow> catalog_ok c \<and> workers_ok c \<and> jobs_ok uuid c \<and> allocs_ok uuid (t_allocations c) \<and> port_table_ok uuid c"

text \<open>What the parameters have to give: ids that are injective, not empty and, for new workers, new; the workspace lists
  a job once, and decodes each port of a manifest once.\<close>

definition inputs_ok :: "'f build_world \<Rightarrow> catalog \<Rightarrow> bool" where
  "inputs_ok b c \<longleftrightarrow> inj (wf_uuid (bw_files b)) \<and> (\<forall>x. wf_uuid (bw_files b) x \<noteq> []) \<and>
     inj (bw_worker_id b) \<and> (\<forall>h. bw_worker_id b h \<noteq> [] \<and> bw_worker_id b h \<notin> w_id ` set (t_worker c)) \<and>
     ports_decoded (bw_workspace b) \<and> distinct (ws_jobs (bw_workspace b))"

text \<open>No host contains the separator of the keys of allocations.\<close>

definition hosts_plain :: "'f build_world \<Rightarrow> catalog \<Rightarrow> bool" where
  "hosts_plain b c \<longleftrightarrow> (\<forall>rs r. ws_workers (bw_workspace b) = Ok rs \<longrightarrow> r \<in> set rs \<longrightarrow> CHR ''|'' \<notin> set (wr_host r)) \<and>
     (\<forall>a \<in> set (t_allocations c). CHR ''|'' \<notin> set (a_ip a))"

definition placed_as_declared :: "workspace \<Rightarrow> worker list \<Rightarrow> string \<Rightarrow> string \<Rightarrow> bool" where
  "placed_as_declared ws workers ip job \<longleftrightarrow> job \<in> set (ws_jobs ws) \<and>
     (\<exists>w \<in> set workers. \<exists>m. wk_host w = ip \<and> ws_manifest ws job = Ok m \<and> PlacementSelectors job m \<noteq> [] \<and>
        set (PlacementSelectors job m) \<subseteq> set (wk_labels w))"

lemma selectors_shown:
  "map snd (filter (\<lambda>(i, _). i = uuid job) (t_job_selectors c)) = PlacementSelectors job m \<Longrightarrow>
   selectors_of c (uuid job) = PlacementSelectors job m"
  by (simp add: selectors_of_def)

text \<open>The catalog \<open>c2\<close> after workers and jobs, on which the allocations are placed.\<close>

lemma build_rows_parts:
  assumes run: "build_rows_of b c = Ok (c3, rw, rj)" and ok: "built_ok (wf_uuid (bw_files b)) c"
    and inp: "inputs_ok b c" and plain: "hosts_plain b c"
  shows "\<exists>workers d c2. rbind (ws_workers (bw_workspace b)) workspaceGetWorkers = Ok workers \<and> ws_disabled (bw_workspace b) = Ok d \<and>
    BuildAllocations (wf_uuid (bw_files b)) d c2 = Ok c3 \<and> built_ok (wf_uuid (bw_files b)) c2 \<and> no_bars c2 \<and>
    w_ip ` set (t_worker c2) = wk_host ` set workers \<and> j_name ` set (t_job c2) = set (ws_jobs (bw_workspace b)) \<and>
    (\<forall>w \<in> set workers. labels_of_ip c2 (wk_host w) = wk_labels w) \<and>
    (\<forall>job \<in> set (ws_jobs (bw_workspace b)). \<exists>m. ws_manifest (bw_workspace b) job = Ok m \<and>
       shows_job (wf_uuid (bw_files b)) c2 job m \<and> MinRequiredAllocations m \<le> CountJobAllocations c3 job False)"
proof -
  let ?ws = "bw_workspace b" and ?uuid = "wf_uuid (bw_files b)"
  from run obtain c1 c2 d where workers: "BuildWorkers (bw_floats b) (bw_worker_id b) (ws_workers ?ws) c = Ok (c1, rw)"
    and jobs: "BuildJobs (bw_floats b) ?uuid (bw_cert_hash b) (bw_files b) ?ws c1 = Ok (c2, rj)"
    and d: "ws_disabled ?ws = Ok d" and alloc: "BuildAllocations ?uuid d c2 = Ok c3"
    and least: "ValidateMinAllocationsCount (ws_manifest ?ws) c3 (ws_jobs ?ws) = Ok ()"
    by (auto simp: build_rows_of_def Let_def rbind_Inr_conv)
  have ids: "inj (bw_worker_id b)" "\<And>h. bw_worker_id b h \<noteq> []" "\<And>h. bw_worker_id b h \<notin> w_id ` set (t_worker c)"
    and inj: "inj ?uuid" and dec: "ports_decoded ?ws" and dj: "distinct (ws_jobs ?ws)" using inp by (simp_all add: inputs_ok_def)
  have c: "catalog_ok c" "workers_ok c" "jobs_ok ?uuid c" "allocs_ok ?uuid (t_allocations c)" "port_table_ok ?uuid c"
    using ok by (simp_all add: built_ok_def)
  obtain ws1 where w: "rbind (ws_workers ?ws) workspaceGetWorkers = Ok ws1 \<and> workers_ok c1 \<and> only_workers c c1 \<and>
    w_ip ` set (t_worker c1) = wk_host ` set ws1 \<and> set rw = w_ip ` set (t_worker c) - wk_host ` set ws1 \<and>
    (\<forall>w \<in> set ws1. shows_worker (bw_floats b) c1 w \<and> labels_of_ip c1 (wk_host w) = wk_labels w)"
    by (rule exE [OF BuildWorkers_exact [OF workers c(2) ids]])
  then have w1: "rbind (ws_workers ?ws) workspaceGetWorkers = Ok ws1" "workers_ok c1" "only_workers c c1"
    "w_ip ` set (t_worker c1) = wk_host ` set ws1" and labels: "\<forall>w \<in> set ws1. labels_of_ip c1 (wk_host w) = wk_labels w"
    by simp_all
  have same1: "t_job c1 = t_job c" "t_hash c1 = t_hash c" "t_job_ports c1 = t_job_ports c" "t_allocations c1 = t_allocations c"
    using arg_cong [OF w1(3) [unfolded only_workers_def], of t_job] arg_cong [OF w1(3) [unfolded only_workers_def], of t_hash]
      arg_cong [OF w1(3) [unfolded only_workers_def], of t_job_ports] arg_cong [OF w1(3) [unfolded only_workers_def], of t_allocations]
    by simp_all
  have "jobs_ok ?uuid c1" "port_table_ok ?uuid c1" using c(3,5) by (simp_all add: jobs_ok_def port_table_ok_def same1)
  from BuildJobs_exact [OF jobs this inj dec dj] have j2: "jobs_ok ?uuid c2" "only_jobs c1 c2" "port_table_ok ?uuid c2"
    "j_name ` set (t_job c2) = set (ws_jobs ?ws)" "\<forall>job \<in> set (ws_jobs ?ws). \<exists>m. ws_manifest ?ws job = Ok m \<and> shows_job ?uuid c2 job m"
    by simp_all
  have same2: "t_worker c2 = t_worker c1" "t_worker_labels c2 = t_worker_labels c1" "t_allocations c2 = t_allocations c"
    using j2(2) same1 by (simp_all add: only_jobs_def)
  have "workers_ok c2" using w1(2) by (simp add: workers_ok_def same2)
  moreover have "catalog_ok c2" using c(1) j2(1) w1(2) by (simp add: catalog_ok_def jobs_ok_def workers_ok_def same2)
  ultimately have ok2: "built_ok ?uuid c2" using c(4) j2(1,3) by (simp add: built_ok_def same2)
  from w1(1) obtain rs where rs: "ws_workers ?ws = Ok rs" "workspaceGetWorkers rs = Ok ws1" by (auto simp: rbind_Inr_conv)
  have "CHR ''|'' \<notin> set (wk_host w)" if w: "w \<in> set ws1" for w
  proof -
    have "map (\<lambda>r. trim_space (wr_host r)) rs = map wk_host ws1"
      using get_workers_from_Ok rs(2) unfolding workspaceGetWorkers_def by blast
    then obtain r where "r \<in> set rs" "wk_host w = trim_space (wr_host r)" using w by (metis (no_types, lifting) imageE image_eqI list.set_map)
    then show ?thesis using plain rs(1) set_trim_space by (fastforce simp: hosts_plain_def)
  qed
  then have "CHR ''|'' \<notin> set ip" if "ip \<in> wk_host ` set ws1" for ip using that by blast
  then have hosts: "CHR ''|'' \<notin> set (w_ip w)" if "w \<in> set (t_worker c2)" for w
    using that w1(4) unfolding same2(1) by blast
  have bars: "no_bars c2" using plain hosts by (simp add: no_bars_def hosts_plain_def same2(3))
  have labels2: "\<forall>w \<in> set ws1. labels_of_ip c2 (wk_host w) = wk_labels w" using labels by (simp add: labels_of_ip_def same2)
  have loop: "rfold (check_min_allocations (ws_manifest ?ws) c3) [] (ws_jobs ?ws) = Ok []"
    using least by (auto simp: ValidateMinAllocationsCount_def rbind_Inr_conv split: if_splits)
  have shown: "\<exists>m. ws_manifest ?ws job = Ok m \<and> shows_job ?uuid c2 job m \<and> MinRequiredAllocations m \<le> CountJobAllocations c3 job False"
    if job: "job \<in> set (ws_jobs ?ws)" for job
  proof -
    obtain m where m: "ws_manifest ?ws job = Ok m" "shows_job ?uuid c2 job m" using j2(5) job by blast
    obtain m' where m': "ws_manifest ?ws job = Ok m'" "MinRequiredAllocations m' \<le> CountJobAllocations c3 job False"
      using loop job unfolding min_allocations_loop by blast
    have "m' = m" using m(1) m'(1) by simp
    with m m' show ?thesis by blast
  qed
  have "w_ip ` set (t_worker c2) = wk_host ` set ws1" using w1(4) by (simp add: same2(1))
  then show ?thesis using w1(1) d alloc ok2 bars j2(4) labels2 shown by blast
qed

text \<open>After the placement only allocations and hash rows change.\<close>

definition later :: "catalog \<Rightarrow> catalog \<Rightarrow> bool" where
  "later c c' \<longleftrightarrow> t_worker c' = t_worker c \<and> t_job c' = t_job c \<and> t_job_ports c' = t_job_ports c \<and>
     (distinct (map (\<lambda>h. (h_namespace h, h_key h)) (t_hash c)) \<longrightarrow> distinct (map (\<lambda>h. (h_namespace h, h_key h)) (t_hash c')))"

lemma later_trans: "later c d \<Longrightarrow> later d e \<Longrightarrow> later c e"
  by (simp add: later_def)

lemma hash_only_fields:
  assumes "hash_only c c'"
  shows "t_allocations c' = t_allocations c" "t_worker c' = t_worker c" "t_job c' = t_job c" "t_job_ports c' = t_job_ports c"
proof -
  have "c' = c\<lparr>t_hash := t_hash c'\<rparr>" using assms by (simp add: hash_only_def)
  then obtain h where "c' = c\<lparr>t_hash := h\<rparr>" by blast
  then show "t_allocations c' = t_allocations c" "t_worker c' = t_worker c" "t_job c' = t_job c" "t_job_ports c' = t_job_ports c"
    by simp_all
qed

lemma later_hash_only: "hash_only c c' \<Longrightarrow> later c c'" and later_with_allocs: "later c (with_allocs c as)"
  by (simp_all add: later_def hash_only_fields with_allocs_def) (simp add: hash_only_def)

lemma hash_only_mark: "hash_only c (markReenabledAllocations before c)"
proof -
  have one: "hash_only c (MarkAllocationStartPending c job i)" for c job i
  proof -
    have "map (\<lambda>h. (h_namespace h, h_key h))
        (map (\<lambda>h. if h_namespace h = ns \<and> h_key h = k then h\<lparr>h_previous_hash := None, h_previous_files := None\<rparr> else h) hs) =
      map (\<lambda>h. (h_namespace h, h_key h)) hs" for hs :: "hash_row list" and ns k
      by (induction hs) auto
    then show ?thesis by (simp add: hash_only_def MarkAllocationStartPending_def update_hash_def del: map_map)
  qed
  have loop: "hash_only c (foldl (\<lambda>c a. if P a then MarkAllocationStartPending c (a_job a) (a_id a) else c) d as)"
    if "hash_only c d" for P d as using that
    by (induction as arbitrary: d) (auto intro: hash_only_trans [OF _ one])
  show ?thesis unfolding markReenabledAllocations_def by (rule loop) (rule hash_only_refl)
qed

lemma later_allocations:
  assumes "BuildAllocations uuid d c = Ok c'" and "allocs_ok uuid (t_allocations c)" and "\<And>x. uuid x \<noteq> []"
  shows "later c c'"
  using BuildAllocations_parts [OF assms] later_trans [OF later_with_allocs later_hash_only [OF hash_only_mark]] by blast

lemma build_parts:
  assumes "buildExecute b w purge s = Some (r, s')"
  shows "(\<exists>e. r = Inl e \<and> ds_cat s' = ds_cat s \<and> ds_table s' = ds_table s) \<or>
    (\<exists>c3 rw rj c4. build_rows_of b (ds_cat s) = Ok (c3, rw, rj) \<and> BuildDeploymentSequence c3 = Some (Ok c4) \<and> hash_only c4 (ds_cat s'))"
proof -
  obtain r1 s1 where body: "build_body b w purge s = Some (r1, s1)" using assms
    by (auto simp: buildExecute_def split: option.splits)
  show ?thesis
  proof (cases r1)
    case (Inl e)
    then show ?thesis using assms by (auto simp: buildExecute_def body transaction_def)
  next
    case (Inr u)
    obtain l s0 where load: "load_session s = (l, s0)" by fastforce
    have cat0: "ds_cat s0 = ds_cat s"
      using holdsD [OF holds_persist(5) load] by (simp add: same_cat_def)
    from body Inr load have "l = Inr ()" by (cases l) (simp_all add: build_body_def)
    moreover from this body Inr load obtain c3 rw rj where rows0: "build_rows_of b (ds_cat s) = Ok (c3, rw, rj)"
      by (cases "build_rows_of b (ds_cat s)") (auto simp: build_body_def cat0)
    ultimately obtain z where z: "build_rows_of b (ds_cat s) = Ok (c3, rw, rj)" "BuildDeploymentSequence c3 = Some z"
      "(case z of Inl e \<Rightarrow> (Inl e, s0) | Inr c' \<Rightarrow> build_store_of b w purge rw rj (s0\<lparr>ds_cat := c'\<rparr>)) = (Inr u, s1)"
      using body Inr load by (cases "BuildDeploymentSequence c3") (simp_all add: build_body_def cat0)
    then obtain c4 where rows: "build_rows_of b (ds_cat s) = Ok (c3, rw, rj)"
      and seq: "BuildDeploymentSequence c3 = Some (Ok c4)" and st: "build_store_of b w purge rw rj (s0\<lparr>ds_cat := c4\<rparr>) = (Inr u, s1)"
      by (cases z) simp_all
    have h: "hash_only c4 (ds_cat s1)" using build_store_frame [OF st] by simp
    have "ds_cat s' = ds_cat s1"
      using assms keeps_post_build by (auto simp: buildExecute_def body Inr transaction_def holds_def same_cat_def split: prod.splits sum.splits)
        (metis snd_conv)+
    with rows seq h show ?thesis by auto
  qed
qed

definition realises :: "'f build_world \<Rightarrow> catalog \<Rightarrow> bool" where
  "realises b c \<longleftrightarrow> (\<exists>workers d. rbind (ws_workers (bw_workspace b)) workspaceGetWorkers = Ok workers \<and>
     ws_disabled (bw_workspace b) = Ok d \<and>
     w_ip ` set (t_worker c) = wk_host ` set workers \<and> j_name ` set (t_job c) = set (ws_jobs (bw_workspace b)) \<and>
     (\<forall>ip job. (\<exists>a \<in> set (t_allocations c). a_ip a = ip \<and> a_job a = job \<and> \<not> a_removed a) \<longleftrightarrow>
        placed_as_declared (bw_workspace b) workers ip job) \<and>
     (\<forall>a \<in> set (t_allocations c). \<not> a_removed a \<longrightarrow> (a_disabled a \<longleftrightarrow> is_disabled d a)) \<and>
     (\<forall>job \<in> set (ws_jobs (bw_workspace b)). \<exists>m. ws_manifest (bw_workspace b) job = Ok m \<and>
        MinRequiredAllocations m \<le> CountJobAllocations c job False))"

lemma count_map:
  "\<lbrakk>\<And>a. a_job (f a) = a_job a; \<And>a. a_removed (f a) = a_removed a\<rbrakk> \<Longrightarrow>
   CountJobAllocations (with_allocs c (map f (t_allocations c))) job False = CountJobAllocations c job False"
  by (simp add: CountJobAllocations_def allocs_of_def filter_map comp_def)

lemma set_deployment_disabled [simp]: "a_disabled (set_deployment_seq rows a) = a_disabled a"
  by (simp add: set_deployment_seq_def split: option.split)

lemma rows_realised:
  assumes rows: "build_rows_of b c = Ok (c3, rw, rj)" and seq: "BuildDeploymentSequence c3 = Some (Ok c4)" and h: "hash_only c4 c'"
    and ok: "built_ok (wf_uuid (bw_files b)) c" and inp: "inputs_ok b c" and plain: "hosts_plain b c"
  shows "realises b c' \<and> built_ok (wf_uuid (bw_files b)) c' \<and> one_wave c'"
proof -
  let ?ws = "bw_workspace b" and ?uuid = "wf_uuid (bw_files b)"
  have uuid: "inj ?uuid" "\<And>x. ?uuid x \<noteq> []" using inp by (simp_all add: inputs_ok_def)
  obtain workers d c2 where p: "rbind (ws_workers ?ws) workspaceGetWorkers = Ok workers \<and> ws_disabled ?ws = Ok d \<and>
    BuildAllocations ?uuid d c2 = Ok c3 \<and> built_ok ?uuid c2 \<and> no_bars c2 \<and>
    w_ip ` set (t_worker c2) = wk_host ` set workers \<and> j_name ` set (t_job c2) = set (ws_jobs ?ws) \<and>
    (\<forall>w \<in> set workers. labels_of_ip c2 (wk_host w) = wk_labels w) \<and>
    (\<forall>job \<in> set (ws_jobs ?ws). \<exists>m. ws_manifest ?ws job = Ok m \<and>
       shows_job ?uuid c2 job m \<and> MinRequiredAllocations m \<le> CountJobAllocations c3 job False)"
    using build_rows_parts [OF rows ok inp plain] by (elim exE) (rule that)
  then have alloc: "BuildAllocations ?uuid d c2 = Ok c3" and ok2: "catalog_ok c2" "workers_ok c2" "jobs_ok ?uuid c2"
      "allocs_ok ?uuid (t_allocations c2)" "port_table_ok ?uuid c2" and bars: "no_bars c2"
    and ips: "w_ip ` set (t_worker c2) = wk_host ` set workers" and jobs: "j_name ` set (t_job c2) = set (ws_jobs ?ws)"
    and labels: "\<And>w. w \<in> set workers \<Longrightarrow> labels_of_ip c2 (wk_host w) = wk_labels w"
    and shown: "\<And>job. job \<in> set (ws_jobs ?ws) \<Longrightarrow> \<exists>m. ws_manifest ?ws job = Ok m \<and>
       shows_job ?uuid c2 job m \<and> MinRequiredAllocations m \<le> CountJobAllocations c3 job False" by (simp_all add: built_ok_def)
  obtain ls where c4: "c4 = with_allocs c3 (map (set_deployment_seq ls) (t_allocations c3))" using BuildSequence_parts [OF seq] by blast
  have later: "later c2 c'" using later_allocations [OF alloc ok2(4) uuid(2)] later_with_allocs later_hash_only [OF h] unfolding c4
    by (blast intro: later_trans)
  have al: "t_allocations c' = map (set_deployment_seq ls) (t_allocations c3)" by (simp add: hash_only_fields(1) [OF h] c4)
  from places_exactly [OF alloc ok2(4) uuid(2)] have placed: "\<And>w job. w \<in> set (t_worker c2) \<Longrightarrow>
      (\<exists>a \<in> set (t_allocations c3). a_ip a = w_ip w \<and> a_job a = job \<and> \<not> a_removed a) \<longleftrightarrow>
      (\<exists>j \<in> set (t_job c2). j_name j = job \<and> selectors_of c2 (j_id j) \<noteq> [] \<and>
         set (selectors_of c2 (j_id j)) \<subseteq> set (labels_of_ip c2 (w_ip w)))"
    and live: "\<And>a. a \<in> set (t_allocations c3) \<Longrightarrow> \<not> a_removed a \<Longrightarrow> a_ip a \<in> w_ip ` set (t_worker c2) \<and> (a_disabled a \<longleftrightarrow> is_disabled d a)"
    and ok3: "allocs_ok ?uuid (t_allocations c3)" by blast+
  have sel: "selectors_of c2 (j_id j) = PlacementSelectors (j_name j) m" if j: "j \<in> set (t_job c2)" "ws_manifest ?ws (j_name j) = Ok m" for j m
  proof -
    have "j_name j \<in> set (ws_jobs ?ws)" using j(1) jobs by blast
    from shown [OF this] j(2) have "shows_job ?uuid c2 (j_name j) m" by auto
    then have "selectors_of c2 (?uuid (j_name j)) = PlacementSelectors (j_name j) m"
      by (intro selectors_shown) (simp add: shows_job_def)
    then show ?thesis using ok2(3) j(1) by (simp add: jobs_ok_def)
  qed
  have place: "(\<exists>a \<in> set (t_allocations c3). a_ip a = ip \<and> a_job a = job \<and> \<not> a_removed a) \<longleftrightarrow> placed_as_declared ?ws workers ip job" for ip job
  proof (cases "ip \<in> wk_host ` set workers")
    case True
    then have "ip \<in> w_ip ` set (t_worker c2)" by (simp only: ips)
    then obtain r where r: "r \<in> set (t_worker c2)" "w_ip r = ip" by (elim imageE) simp
    have "(\<exists>j \<in> set (t_job c2). j_name j = job \<and> selectors_of c2 (j_id j) \<noteq> [] \<and> set (selectors_of c2 (j_id j)) \<subseteq> set (labels_of_ip c2 ip)) \<longleftrightarrow>
        placed_as_declared ?ws workers ip job"
    proof
      assume "\<exists>j \<in> set (t_job c2). j_name j = job \<and> selectors_of c2 (j_id j) \<noteq> [] \<and> set (selectors_of c2 (j_id j)) \<subseteq> set (labels_of_ip c2 ip)"
      then obtain j where j: "j \<in> set (t_job c2)" "j_name j = job" "selectors_of c2 (j_id j) \<noteq> []"
        "set (selectors_of c2 (j_id j)) \<subseteq> set (labels_of_ip c2 ip)" by blast
      then have "job \<in> j_name ` set (t_job c2)" by blast
      then have jw: "job \<in> set (ws_jobs ?ws)" by (simp only: jobs)
      then obtain m where m: "ws_manifest ?ws job = Ok m" using shown by blast
      obtain w where w: "w \<in> set workers" "wk_host w = ip" using True by blast
      show "placed_as_declared ?ws workers ip job"
        unfolding placed_as_declared_def
      proof (intro conjI bexI exI)
        have sm: "selectors_of c2 (j_id j) = PlacementSelectors job m" using sel [OF j(1)] m by (simp add: j(2))
        have lw: "labels_of_ip c2 ip = wk_labels w" using labels [OF w(1)] by (simp add: w(2))
        show "PlacementSelectors job m \<noteq> []" "set (PlacementSelectors job m) \<subseteq> set (wk_labels w)"
          using j(3,4) by (simp_all only: sm lw not_False_eq_True)
      qed (fact jw w m)+
    next
      assume "placed_as_declared ?ws workers ip job"
      then obtain w m where jw: "job \<in> set (ws_jobs ?ws)" and w: "w \<in> set workers" "wk_host w = ip" "ws_manifest ?ws job = Ok m"
        "PlacementSelectors job m \<noteq> []" "set (PlacementSelectors job m) \<subseteq> set (wk_labels w)"
        unfolding placed_as_declared_def by (elim conjE bexE exE) (rule that)
      from jw have "job \<in> j_name ` set (t_job c2)" by (simp only: jobs)
      then obtain j where j: "j \<in> set (t_job c2)" "j_name j = job" by (elim imageE) simp
      show "\<exists>j \<in> set (t_job c2). j_name j = job \<and> selectors_of c2 (j_id j) \<noteq> [] \<and> set (selectors_of c2 (j_id j)) \<subseteq> set (labels_of_ip c2 ip)"
      proof (intro bexI conjI)
        have sm: "selectors_of c2 (j_id j) = PlacementSelectors job m" using sel [OF j(1)] w(3) by (simp add: j(2))
        have lw: "labels_of_ip c2 ip = wk_labels w" using labels [OF w(1)] by (simp add: w(2))
        show "selectors_of c2 (j_id j) \<noteq> []" "set (selectors_of c2 (j_id j)) \<subseteq> set (labels_of_ip c2 ip)"
          using w(4,5) by (simp_all only: sm lw not_False_eq_True)
      qed (fact j)+
    qed
    with placed [OF r(1)] show ?thesis by (simp add: r(2))
  next
    case False
    then show ?thesis using live ips by (auto simp: placed_as_declared_def)
  qed
  have fields: "t_worker c' = t_worker c2" "t_job c' = t_job c2" "t_job_ports c' = t_job_ports c2" using later by (simp_all add: later_def)
  have count: "CountJobAllocations c' job False = CountJobAllocations c3 job False" for job
  proof -
    have "CountJobAllocations c' job False = CountJobAllocations c4 job False"
      by (simp add: CountJobAllocations_def allocs_of_def hash_only_fields(1) [OF h])
    then show ?thesis by (simp add: c4 count_map)
  qed
  have "realises b c'" unfolding realises_def
  proof (rule exI [of _ workers], rule exI [of _ d], intro conjI allI ballI impI)
    show "rbind (ws_workers ?ws) workspaceGetWorkers = Ok workers" "ws_disabled ?ws = Ok d" using p by simp_all
    show "w_ip ` set (t_worker c') = wk_host ` set workers" "j_name ` set (t_job c') = set (ws_jobs ?ws)"
      using ips jobs by (simp_all add: fields)
    show "(\<exists>a \<in> set (t_allocations c'). a_ip a = ip \<and> a_job a = job \<and> \<not> a_removed a) \<longleftrightarrow> placed_as_declared ?ws workers ip job" for ip job
      unfolding place [symmetric] al by auto
    show "a_disabled a \<longleftrightarrow> is_disabled d a" if a: "a \<in> set (t_allocations c')" "\<not> a_removed a" for a
    proof -
      obtain a0 where a0: "a0 \<in> set (t_allocations c3)" "a = set_deployment_seq ls a0" using a(1) by (auto simp: al)
      moreover have "is_disabled d a = is_disabled d a0" by (simp add: is_disabled_def a0(2))
      ultimately show ?thesis using live [OF a0(1)] a(2) a0(2) by simp
    qed
    show "\<exists>m. ws_manifest ?ws job = Ok m \<and> MinRequiredAllocations m \<le> CountJobAllocations c' job False" if "job \<in> set (ws_jobs ?ws)" for job
      using shown [OF that] by (auto simp: count)
  qed
  moreover have waves: "catalog_ok c4 \<and> one_wave c4" by (rule waves_prepared [OF alloc seq ok2(1,4) uuid bars])
  moreover have "one_wave c'" unfolding one_wave_def hash_only_fields(1) [OF h]
    by (rule conjunct2 [OF waves, unfolded one_wave_def])
  moreover have "catalog_ok c'" using conjunct1 [OF waves] h by (simp add: catalog_ok_def hash_only_fields [OF h] hash_only_def)
  moreover have "workers_ok c'" "port_table_ok ?uuid c'" using ok2(2,5) by (simp_all add: workers_ok_def port_table_ok_def fields)
  moreover have "jobs_ok ?uuid c'" using ok2(3) later by (simp add: jobs_ok_def later_def)
  moreover have "allocs_ok ?uuid (t_allocations c')" using ok3 by (simp add: allocs_ok_def al comp_def)
  ultimately show ?thesis by (simp add: built_ok_def)
qed

text \<open>Property C1: a build realises the workspace, or changes nothing. Whatever a build returns, either the catalog and the
  store are those of before, or the catalog is the one that the workspace asks for: its workers are those of
  \<open>workers.json\<close>, its jobs those with a manifest; a job has a live allocation on a worker exactly when it has selectors
  and the worker carries all of them as labels; a live allocation is disabled exactly when \<open>disabled.json\<close> says so; every
  job has the least number of allocations it asks for. The keys of all tables are intact again, no two ports share a number,
  and the live allocations of a job are in one wave, as a deploy needs it. A build that succeeds has done the latter.\<close>

theorem build_realises_the_workspace:
  assumes run: "buildExecute b w purge s = Some (r, s')" and ok: "built_ok (wf_uuid (bw_files b)) (ds_cat s)"
    and inp: "inputs_ok b (ds_cat s)" and plain: "hosts_plain b (ds_cat s)"
  shows "(\<exists>e. r = Err e \<and> ds_cat s' = ds_cat s \<and> ds_table s' = ds_table s) \<or>
    realises b (ds_cat s') \<and> built_ok (wf_uuid (bw_files b)) (ds_cat s') \<and> one_wave (ds_cat s')"
  using build_parts [OF run] rows_realised [OF _ _ _ ok inp plain] by blast

section \<open>What cannot fail\<close>

text \<open>Synchronising a namespace cannot fail, so the store part of a build fails on its queries only.\<close>

definition never_fails :: "(store \<Rightarrow> error + store) \<Rightarrow> bool" where
  "never_fails f \<longleftrightarrow> (\<forall>st. store_wf st \<longrightarrow> (\<exists>st'. f st = Ok st' \<and> store_wf st'))"

lemma never_failsD: "never_fails f \<Longrightarrow> store_wf st \<Longrightarrow> \<exists>st'. f st = Ok st' \<and> store_wf st'"
  by (simp add: never_fails_def)

lemma nf_ok: "never_fails Inr"
  by (simp add: never_fails_def)

lemma nf_seq: "never_fails f \<Longrightarrow> never_fails g \<Longrightarrow> never_fails (\<lambda>st. rbind (f st) g)"
  by (fastforce simp: never_fails_def)

lemma nf_query: "q = Ok x \<Longrightarrow> never_fails (f x) \<Longrightarrow> never_fails (\<lambda>st. rbind q (\<lambda>x. f x st))"
  by simp

lemma nf_loop: "(\<And>x. x \<in> set xs \<Longrightarrow> never_fails (\<lambda>st. f st x)) \<Longrightarrow> never_fails (\<lambda>st. rfold f st xs)"
proof (induction xs)
  case (Cons x xs)
  have "never_fails (\<lambda>st. rbind (f st x) (\<lambda>st. rfold f st xs))" by (rule nf_seq) (use Cons in simp_all)
  then show ?case by simp
qed (simp add: never_fails_def)

lemma nf_choice: "(b \<Longrightarrow> never_fails f) \<Longrightarrow> (\<not> b \<Longrightarrow> never_fails g) \<Longrightarrow> never_fails (\<lambda>st. if b then f st else g st)"
  by (cases b) simp_all

lemma nf_sync:
  assumes d: "distinct_keys kvs"
  shows "never_fails (syncNamespaceKeyValues ns kvs policy)"
  unfolding never_fails_def
proof (intro allI impI)
  fix st :: store assume wf0: "store_wf st"
  let ?t = "foldl (\<lambda>s (k, v). Put s ns k v 0) st kvs" and ?keep = "kept_key policy"
  have wf: "store_wf ?t" by (rule kv.valid_put_all [OF wf0])
  let ?stale = "filter (\<lambda>k. \<not> ?keep k) (Difference (GetKeys ?t ns) (map fst kvs))"
  have ks: "set ?stale = {k \<in> dom (live ?t ns). k \<notin> fst ` set kvs \<and> \<not> ?keep k}"
    using GetKeys_live [OF wf, of ns] by auto
  have "distinct ?stale" by (rule distinct_filter) (rule distinct_Difference [OF distinct_GetKeys [OF wf]])
  from kv.put_then_prune [OF wf0 d refl ks this] obtain st' where
    st': "rfold (\<lambda>s k. Delete s ns k) ?t ?stale = Ok st'" "store_wf st'" by blast
  have skip: "rfold (\<lambda>s k. if ?keep k then Ok s else Delete s ns k) t ks = rfold (\<lambda>s k. Delete s ns k) t (filter (\<lambda>k. \<not> ?keep k) ks)" for t ks
  proof (induction ks arbitrary: t)
    case (Cons k ks)
    then show ?case by (cases "?keep k") simp_all
  qed simp
  show "\<exists>st'. syncNamespaceKeyValues ns kvs policy st = Ok st' \<and> store_wf st'"
    using st' by (simp add: syncNamespaceKeyValues_def Let_def skip)
qed

lemma nf_sync_full: "distinct_keys kvs \<Longrightarrow> never_fails (\<lambda>st. syncKeyValues ns kvs st)"
  unfolding syncKeyValues_def by (rule nf_sync)

lemma nf_allocation_variables: "never_fails (BuildJobAllocationVariables c removedJobs)"
proof -
  have purge: "never_fails (purgeStaleJobAllocationVariables c job)" for job
    unfolding purgeStaleJobAllocationVariables_def by (intro nf_loop nf_choice nf_ok nf_sync_full) simp
  have one: "never_fails (\<lambda>st. sync_allocation job ws st x)" for job ws x
    by (cases x) (simp add: sync_allocation_def nf_sync distinct_go_map)
  have "never_fails (\<lambda>st. syncJobAllocationVariables c st job)" for job
    unfolding syncJobAllocationVariables_def Let_def by (intro nf_seq nf_loop one purge)
  then show ?thesis unfolding BuildJobAllocationVariables_def by (intro nf_seq nf_loop nf_sync_full) simp_all
qed

lemma nf_cert_purge: "never_fails (\<lambda>st. purgeJobAllocationCertKV job ips st)"
  unfolding purgeJobAllocationCertKV_def syncCertKeyValues_def by (intro nf_loop nf_sync) simp

lemma nf_worker:
  assumes "worker_variables hosts c ip = Ok vars" and "GetWorkerID c ip = Ok i"
  shows "never_fails (\<lambda>st. sync_worker hosts c st ip)"
proof -
  have "distinct_keys vars" using assms(1) by (auto simp: worker_variables_def rbind_Inr_conv Let_def distinct_go_map)
  then show ?thesis using assms unfolding sync_worker_def
    by (intro nf_query [OF assms(1)] nf_seq nf_query [OF assms(2)] nf_sync_full distinct_go_map)
qed

lemma nf_job:
  assumes "job_variables (wf_uuid files) c job = Ok vars" and "loadJobBucketConfig files job = Ok (name, settings)"
    and "toml_table (wf_vars files job) ErrInvalidJobVars = Ok vs" and "\<not> jobShouldPurgeBuildKV c job"
  shows "never_fails (\<lambda>st. sync_job files c purge st job)"
proof -
  have "distinct_keys vars" using assms(1) by (auto simp: job_variables_def rbind_Inr_conv Let_def distinct_go_map split: prod.splits)
  moreover have "never_fails (mergeWorkspaceJobVars files job)"
    by (simp add: never_fails_def mergeWorkspaceJobVars_def assms(3) kv.valid_put_all)
  ultimately have "never_fails (\<lambda>st. rbind (syncKeyValues (''maand/job/'' @ job) vars st) (\<lambda>st1.
      rbind (syncKeyValues (''vars/bucket/job/'' @ job) (go_map settings) st1) (\<lambda>st2. mergeWorkspaceJobVars files job st2)))"
    by (intro nf_seq nf_sync_full distinct_go_map)
  then show ?thesis by (simp add: sync_job_def assms)
qed


section \<open>Witness\<close>

text \<open>An empty bucket; the workspace has a worker \<open>w\<close>, which gets the label \<open>worker\<close>, and a job \<open>a\<close> that selects it.\<close>

definition whole_numbers :: "int floats" where
  "whole_numbers = \<lparr>fl_parse = \<lambda>x. if x = ''0'' then Some 0 else None, fl_of = \<lambda>n. n, fl_add = (+), fl_mul = (*),
     fl_less = (<), fl_eq = (=), fl_round = \<lambda>x. x, fl_int = \<lambda>x. x, fl_show = itoa\<rparr>"

definition one_worker_space :: workspace where
  "one_worker_space = \<lparr>ws_workers = Ok [\<lparr>wr_host = ''w'', wr_hostname = [], wr_labels = [], wr_memory = [], wr_cpu = [],
       wr_tags = [], wr_position = None\<rparr>], ws_jobs = [''a''],
     ws_manifest = \<lambda>_. Ok (bare_manifest\<lparr>m_selectors := [''worker''], m_min_allocations_count := 1\<rparr>),
     ws_exists = \<lambda>job p. p = ''Makefile'', ws_walk = \<lambda>_. Ok [(''a'', [], True)], ws_disabled = Ok none_disabled\<rparr>"

definition small_build :: "int build_world" where
  "small_build = \<lparr>bw_floats = whole_numbers, bw_sum = \<lambda>_. 0, bw_worker_id = a_uuid, bw_cert_hash = \<lambda>_. ''h'', bw_files = build_files,
     bw_workspace = one_worker_space, bw_certs = one_cert, bw_prom = scraping\<rparr>"

definition new_bucket :: dstate where
  "new_bucket = with_ca (empty_catalog\<lparr>t_bucket := [\<lparr>b_id = ''id'', b_update_seq = 1\<rparr>]\<rparr>)"

definition first_placed :: catalog where
  "first_placed = \<lparr>t_bucket = [\<lparr>b_id = ''id'', b_update_seq = 1\<rparr>],
     t_worker = [\<lparr>w_id = ''uw'', w_ip = ''w'', w_memory = ''0'', w_cpu = ''0'', w_position = 0\<rparr>],
     t_worker_labels = [(''uw'', ''worker'')], t_worker_tags = [],
     t_allocations = [(uuid_alloc ''w'' ''a'')\<lparr>a_new_version := Some ''1.2.0''\<rparr>],
     t_job = [\<lparr>j_id = ''ua'', j_name = ''a'', j_version = ''1.2.0'', j_min_memory = ''0'', j_max_memory = ''0'', j_memory = ''0'',
          j_memory_source = ''manifest'', j_min_cpu = ''0'', j_max_cpu = ''0'', j_cpu = ''0'', j_cpu_source = ''manifest'',
          j_max_upgrades = 1, j_max_starts = 0, j_restart_policy = ''always'', j_restart_globs = [], j_health_check = None\<rparr>],
     t_job_selectors = [(''ua'', ''worker'')], t_job_ports = [], t_job_certs = [],
     t_job_files = [\<lparr>f_job_id = ''ua'', f_path = ''a'', f_content = [], f_isdir = True\<rparr>], t_job_commands = [],
     t_hash = [\<lparr>h_namespace = ''build_certs'', h_key = ''a'', h_current_hash = Some ''h'', h_previous_hash = None,
          h_current_files = None, h_previous_files = None, h_current_version = None\<rparr>]\<rparr>"

definition with_ca_hash :: catalog where
  "with_ca_hash = first_placed\<lparr>t_hash := t_hash first_placed @ [\<lparr>h_namespace = ''build'', h_key = ''ca'', h_current_hash = Some ''h'',
       h_previous_hash = None, h_current_files = None, h_previous_files = None, h_current_version = None\<rparr>]\<rparr>"

definition first_built :: catalog where
  "first_built = PromoteHash (PromoteHash with_ca_hash ''build_certs'' ''a'') ''build'' ''ca''"

lemma first_rows:
  "build_rows_of small_build (ds_cat new_bucket) = Ok (first_placed, [], [])"
  "BuildDeploymentSequence first_placed = Some (Ok first_placed)"
  by code_simp+

lemma first_queries:
  "GetWorkers first_placed [] = [''w'']" "GetJobs first_placed = [''a'']" "\<not> jobShouldPurgeBuildKV first_placed ''a''"
  "GetWorkerID first_placed ''w'' = Ok ''uw''" "GetBucketID first_placed = Ok ''id''"
  "rmap (\<lambda>job. rbind (JobHasActiveAllocations first_placed job) (\<lambda>active. Ok (job, active))) [''a''] = Ok [(''a'', True)]"
  "UpdateHash first_placed ''build'' ''ca'' ''h'' = Ok with_ca_hash" "GetAllAllocatedJobs with_ca_hash = [''a'']"
  "loadJobCertSpecs with_ca_hash ''a'' = []" "ValidateWorkerResources whole_numbers (\<lambda>_. 0) first_built = Ok ()"
  "\<not> hasPrometheusServerJob one_worker_space" "distinct_keys no_scrapes"
  by code_simp+

lemma first_queries_succeed:
  "\<not> isl (worker_variables [(''w'', ''host'')] first_placed ''w'')" "\<not> isl (job_variables a_uuid first_placed ''a'')"
  by code_simp+

lemma first_files:
  "wf_hosts build_files = Ok [(''w'', ''host'')]" "wf_ca build_files = Some ''pem''"
  "toml_table (wf_bucket build_files) ErrInvalidBucketConf = Ok []" "loadJobBucketConfig build_files ''a'' = Ok (''bucket.jobs.conf'', [])"
  "toml_table (wf_vars build_files ''a'') ErrInvalidJobVars = Ok [(''k'', ''v'')]"
  by code_simp+

lemma first_uuid: "wf_uuid build_files = a_uuid"
  by (simp add: build_files_def)

lemma first_variables: "never_fails (BuildVariables build_files first_placed [] [] purge)"
proof -
  obtain v where v: "worker_variables [(''w'', ''host'')] first_placed ''w'' = Ok v"
    using first_queries_succeed(1) by (cases "worker_variables [(''w'', ''host'')] first_placed ''w''") simp_all
  obtain j where j: "job_variables (wf_uuid build_files) first_placed ''a'' = Ok j"
    using first_queries_succeed(2) by (cases "job_variables a_uuid first_placed ''a''") (simp_all add: first_uuid)
  have "never_fails (buildWorkerVariables [(''w'', ''host'')] first_placed [])"
    unfolding buildWorkerVariables_def first_queries by (intro nf_seq nf_loop) (simp_all add: nf_worker [OF v first_queries(4)])
  moreover have "never_fails (buildJobVariables build_files first_placed [] purge)"
    unfolding buildJobVariables_def first_queries
    by (intro nf_seq nf_loop) (simp_all add: nf_job [OF j first_files(4,5) first_queries(3)])
  moreover have "never_fails (buildSharedWorkerVariables build_files first_placed)"
    unfolding buildSharedWorkerVariables_def by (simp add: first_files nf_sync_full distinct_go_map)
  moreover have "never_fails (buildBucketVariables build_files first_placed)"
    unfolding buildBucketVariables_def first_queries first_files Let_def rbind_simps by (intro nf_seq nf_sync_full distinct_go_map)
  ultimately show ?thesis unfolding BuildVariables_def first_files rbind_simps by (intro nf_seq)
qed

lemma first_certs:
  assumes "store_wf st"
  shows "\<exists>st'. BuildCerts one_cert (first_placed, st, 0) = Ok (first_built, st', 0) \<and> store_wf st'"
proof -
  obtain st' where "purgeJobAllocationCertKV ''a'' (GetAllocatedWorkers with_ca_hash ''a'') st = Ok st'" "store_wf st'"
    using never_failsD [OF nf_cert_purge assms] by blast
  then show ?thesis by (simp add: BuildCerts_def buildJobCerts_def first_queries one_cert_def first_built_def)
qed

lemma first_store_part: "\<exists>s'. build_store_of small_build w purge [] [] (new_bucket\<lparr>ds_store := st, ds_cat := first_placed\<rparr>) = (Ok (), s') \<and>
    ds_cat s' = first_built" if wf: "store_wf st"
proof -
  obtain st1 where 1: "BuildVariables build_files first_placed [] [] purge st = Ok st1" "store_wf st1"
    using never_failsD [OF first_variables wf] by blast
  obtain st2 where 2: "BuildCerts one_cert (first_placed, st1, 0) = Ok (first_built, st2, 0)" "store_wf st2"
    using first_certs [OF 1(2)] by blast
  obtain st3 where 3: "BuildJobAllocationVariables first_built [] st2 = Ok st3" "store_wf st3"
    using never_failsD [OF nf_allocation_variables 2(2)] by blast
  obtain st4 where 4: "BuildCatalog scraping one_worker_space first_built st3 = Ok st4"
    using sync_exact [OF 3(2) first_queries(12)] by (auto simp: BuildCatalog_def first_queries syncPrometheusKV_eq)
  show ?thesis
    by (simp add: build_store_of_def bnd_def with_store_def change_store_def build_certificates_def purge_stale_def persistStore_def
        small_build_def 1 2 3 4 first_queries split: prod.split)
qed

lemma first_load: "\<exists>st. load_session new_bucket = (Ok (), new_bucket\<lparr>ds_store := st\<rparr>) \<and> store_wf st"
proof -
  have "case LoadFromTransaction (ds_table new_bucket) of Inl _ \<Rightarrow> False | Inr st \<Rightarrow> store_wf st" by code_simp
  then show ?thesis by (cases "LoadFromTransaction (ds_table new_bucket)") (auto simp: load_session_def)
qed

lemma first_build_runs: "\<exists>r s'. buildExecute small_build w purge new_bucket = Some (r, s') \<and> ds_cat s' = first_built"
proof -
  obtain st where st: "load_session new_bucket = (Ok (), new_bucket\<lparr>ds_store := st\<rparr>)" "store_wf st" using first_load by blast
  obtain s1 where s1: "build_store_of small_build w purge [] [] (new_bucket\<lparr>ds_store := st, ds_cat := first_placed\<rparr>) = (Ok (), s1)"
    "ds_cat s1 = first_built" using first_store_part [OF st(2)] by blast
  have body: "build_body small_build w purge new_bucket = Some (Ok (), s1)"
    using first_rows st(1) s1(1) by (simp add: build_body_def)
  obtain r s2 where s2: "runPostBuildHooks w s1 = (r, s2)" by fastforce
  then have "ds_cat s2 = first_built" using holdsD [OF keeps_post_build s2] s1(2) by (simp add: same_cat_def)
  then show ?thesis using s1(2) s2 by (cases r) (simp_all add: buildExecute_def body transaction_def)
qed

lemma first_inputs:
  "built_ok (wf_uuid (bw_files small_build)) (ds_cat new_bucket)" "inputs_ok small_build (ds_cat new_bucket)"
  "hosts_plain small_build (ds_cat new_bucket)"
  using a_uuid by (auto simp: built_ok_def catalog_ok_def workers_ok_def jobs_ok_def allocs_ok_def port_table_ok_def inputs_ok_def
      hosts_plain_def ports_decoded_def new_bucket_def with_ca_def empty_catalog_def small_build_def first_uuid one_worker_space_def
      bare_manifest_def)

lemma build_realises_the_workspace_witness:
  "\<exists>r s'. buildExecute small_build (quiet_world (\<lambda>_. True)) False new_bucket = Some (r, s') \<and> ds_cat s' = first_built \<and>
     t_allocations (ds_cat new_bucket) = [] \<and> length (t_allocations first_built) = 1 \<and>
     realises small_build first_built \<and> one_wave first_built"
proof -
  obtain r s' where run: "buildExecute small_build (quiet_world (\<lambda>_. True)) False new_bucket = Some (r, s')" and c: "ds_cat s' = first_built"
    using first_build_runs by blast
  have rows: "t_allocations (ds_cat new_bucket) = [] \<and> length (t_allocations first_built) = 1" by code_simp
  then have "ds_cat s' \<noteq> ds_cat new_bucket" by (auto simp: c)
  with build_realises_the_workspace [OF run first_inputs] have "realises small_build first_built \<and> one_wave first_built" by (auto simp: c)
  with run c rows show ?thesis by blast
qed

end
