(* ===== verification/RunCommand.thy ===== *)
theory RunCommand
  imports HealthLaws JobControl "HOL-Library.Multiset"
begin

text \<open>
  A command on selected workers (\<open>runcommand/execute.go\<close>, \<open>runcommand/errors.go\<close>): the selection, the script with its
  prefix, the batches with the health checks between them. The script file has a random name; the event shows its content.
\<close>

section \<open>Selection\<close>

definition parseCSVList :: "string \<Rightarrow> string list" where
  "parseCSVList csv = (if csv = [] then [] else filter (\<lambda>p. p \<noteq> []) (map trim_space (split_char CHR '','' csv)))"

definition resolveTargetWorkerIPs :: "catalog \<Rightarrow> string \<Rightarrow> string \<Rightarrow> error + string list" where
  "resolveTargetWorkerIPs c workerCSV labelCSV =
     (let workerFilter = parseCSVList workerCSV; labelFilter = parseCSVList labelCSV
      in if workerFilter \<noteq> [] then
           (if Difference workerFilter (GetWorkers c []) \<noteq> [] then Err ErrUsage else Ok (Unique workerFilter))
         else if labelFilter \<noteq> [] then Ok (Unique (GetWorkers c labelFilter))
         else Ok (Unique (GetWorkers c [])))"

text \<open>\<open>file\<close>: \<open>workspace/command.sh\<close>, if it is there, or the error of reading it.\<close>

definition loadShellScript :: "(error + string) option \<Rightarrow> string \<Rightarrow> error + string" where
  "loadShellScript file shellCommand =
     (if trim_space shellCommand \<noteq> [] then Ok shellCommand
      else (case file of
              None \<Rightarrow> Err ErrUsage
            | Some (Inl _) \<Rightarrow> Err ErrUnexpectedError
            | Some (Inr content) \<Rightarrow> if trim_space content = [] then Err ErrUsage else Ok content))"

section \<open>One batch\<close>

text \<open>A bucket id is a UUID, so that \<open>%q\<close> only surrounds the path with quotes.\<close>

definition writeWorkerCommandScript :: "string \<Rightarrow> string \<Rightarrow> string \<Rightarrow> string" where
  "writeWorkerCommandScript bucketID ip content =
     join newline [''export BUCKET_ID='' @ bucketID, ''export WORKER_IP='' @ ip,
       ''cd '' @ quote @ ''/opt/worker/'' @ bucketID @ quote @ '' 2>/dev/null || true''] @ newline @ content"

definition run_command_context :: "string \<Rightarrow> command_context" where
  "run_command_context script = \<lparr>cc_job = [], cc_phase = ''run_command'', cc_action = ''ssh'', cc_cmd = script\<rparr>"

text \<open>\<open>ExecuteFileCommand\<close> (\<open>worker/run_command.go\<close>) trims the address and ignores the environment.\<close>

definition ExecuteFileCommand :: "world \<Rightarrow> string \<Rightarrow> command_context \<Rightarrow> unit act" where
  "ExecuteFileCommand w ip0 cx =
     (let ip = trim_space ip0 in if ip = [] then fail ErrWorkerCommand else runWorkerCommand w ip cx [])"

definition run_on_worker :: "world \<Rightarrow> string \<Rightarrow> string \<Rightarrow> string \<Rightarrow> unit act" where
  "run_on_worker w bucketID content ip =
     ExecuteFileCommand w ip (run_command_context (writeWorkerCommandScript bucketID ip content))"

definition newRunCommandError :: "error list \<Rightarrow> error + unit" where
  "newRunCommandError failures = (if failures = [] then Ok () else Err ErrRunCommand)"

definition runScriptOnWorkerBatch :: "world \<Rightarrow> string \<Rightarrow> string \<Rightarrow> string list \<Rightarrow> unit act" where
  "runScriptOnWorkerBatch w bucketID content batch =
     (let ips = Unique batch
      in if ips = [] then ret ()
         else bnd (reads (\<lambda>s. schedule w (ds_trace s) ips)) (\<lambda>order.
              bnd (dall (run_on_worker w bucketID content) order) (\<lambda>failures. pureR (newRunCommandError failures))))"

section \<open>All batches\<close>

record run_request =
  rq_workers :: string
  rq_labels :: string
  rq_batch_size :: int
  rq_command :: string
  rq_health_checks :: bool

definition worker_batch :: "world \<Rightarrow> int \<Rightarrow> string \<Rightarrow> string \<Rightarrow> bool \<Rightarrow> string list \<Rightarrow> string list \<Rightarrow> unit act" where
  "worker_batch w sshPort bucketID content healthChecks jobs batch =
     bnd (runScriptOnWorkerBatch w bucketID content batch) (\<lambda>_.
       if healthChecks then RunJobs w sshPort True jobs else ret ())"

text \<open>\<open>sudo\<close>: \<open>use_sudo\<close> of \<open>maand.conf\<close>, or the error of reading it.\<close>

definition prepare_run ::
  "world \<Rightarrow> error + bool \<Rightarrow> (error + string) option \<Rightarrow> run_request \<Rightarrow> (string \<times> string list \<times> string \<times> string list) act" where
  "prepare_run w sudo file req =
     bnd (query GetBucketID) (\<lambda>bucketID.
     bnd (query (\<lambda>c. resolveTargetWorkerIPs c (rq_workers req) (rq_labels req))) (\<lambda>targets.
     bnd (if targets = [] then fail ErrUsage else ret ()) (\<lambda>_.
     bnd (pureR (CheckLocalRunCommand w)) (\<lambda>_.
     bnd (pureR sudo) (\<lambda>useSudo.
     bnd (CheckRunCommandPrerequisites w targets useSudo) (\<lambda>_.
     bnd (pureR (loadShellScript file (rq_command req))) (\<lambda>content.
     bnd (query GetBucketUpdateSeq) (\<lambda>_.
     bnd (if rq_health_checks req then reads (\<lambda>s. GetJobs (ds_cat s)) else ret []) (\<lambda>jobs.
     bnd (if rq_health_checks req then load_session else ret ()) (\<lambda>_.
       ret (bucketID, targets, content, jobs)))))))))))"

definition runCommand :: "world \<Rightarrow> int \<Rightarrow> error + bool \<Rightarrow> (error + string) option \<Rightarrow> run_request \<Rightarrow> unit act" where
  "runCommand w sshPort sudo file req =
     bnd (prepare_run w sudo file req) (\<lambda>(bucketID, targets, content, jobs).
       dfor (worker_batch w sshPort bucketID content (rq_health_checks req) jobs)
         (chunks (nat (rq_batch_size req)) targets))"

text \<open>The transaction is always rolled back.\<close>

definition runcommandExecute :: "world \<Rightarrow> int \<Rightarrow> error + bool \<Rightarrow> (error + string) option \<Rightarrow> run_request \<Rightarrow> unit act" where
  "runcommandExecute w sshPort sudo file req =
     (if rq_batch_size req < 1 then fail ErrUsage
      else if rq_workers req \<noteq> [] \<and> rq_labels req \<noteq> [] then fail ErrUsage
      else rolled_back (runCommand w sshPort sudo file req))"

section \<open>Who was sent the script\<close>

text \<open>The workers that an event sends a run command to.\<close>

definition run_ips :: "event \<Rightarrow> string list" where
  "run_ips e = (case e of WorkerCommand ip cx _ \<Rightarrow> if cc_phase cx = ''run_command'' then [ip] else [] | _ \<Rightarrow> [])"

definition sent :: "string list \<Rightarrow> dstate \<Rightarrow> dstate \<Rightarrow> bool" where
  "sent ips s s' \<longleftrightarrow> (\<exists>es. ds_trace s' = es @ ds_trace s \<and> mset (concat (map run_ips es)) = mset ips)"

text \<open>The batches one after the other: the events of a batch are behind those of the batches before it.\<close>

definition sent_batches :: "string list list \<Rightarrow> dstate \<Rightarrow> dstate \<Rightarrow> bool" where
  "sent_batches bs s s' \<longleftrightarrow> (\<exists>ess. ds_trace s' = concat (rev ess) @ ds_trace s \<and>
     list_all2 (\<lambda>es ips. mset (concat (map run_ips es)) = mset ips) ess bs)"

lemma sent_batches_Nil: "sent_batches [] s s"
  by (simp add: sent_batches_def)

lemma sent_batches_Cons: "sent ips s t \<Longrightarrow> sent_batches bs t u \<Longrightarrow> sent_batches (ips # bs) s u"
  unfolding sent_def sent_batches_def by (elim exE conjE) (rule exI [of _ "_ # _"], simp)

lemma sent_batches_any: "sent_batches bs s t \<Longrightarrow> emits any s t"
  by (auto simp: sent_batches_def emits_def)

lemma sent_trans: "sent xs s t \<Longrightarrow> sent ys t u \<Longrightarrow> sent (xs @ ys) s u"
  unfolding sent_def by (elim exE conjE) (rule exI, auto simp: union_commute)

lemma sent_perm: "sent xs s t \<Longrightarrow> mset xs = mset ys \<Longrightarrow> sent ys s t"
  by (simp add: sent_def)

lemma sent_none: "emits (\<lambda>e. run_ips e = []) s t \<Longrightarrow> sent [] s t"
  by (auto simp: emits_def sent_def)

lemma sent_any: "sent xs s t \<Longrightarrow> emits any s t"
  by (auto simp: sent_def emits_def)

lemma no_run_check: "is_check job e \<Longrightarrow> run_ips e = []"
  by (auto simp: is_check_def run_ips_def split: event.splits)

lemma quiet_checks: "holds (emits (\<lambda>e. run_ips e = [])) (RunJobs w sshPort wait jobs)"
proof -
  have tcp: "holds (emits (\<lambda>e. run_ips e = [])) (probeTCP w ip n)" for ip n
    unfolding probeTCP_def by (rule holds_outside(2)) (simp add: run_ips_def)
  have "holds (emits (\<lambda>e. run_ips e = [])) (CheckWorkers w sshPort wait)"
    by (auto simp: CheckWorkers_def Let_def intro!: emitting until_passes_emits tcp split: sum.split)
  then show ?thesis
    by (auto simp: RunJobs_def Let_def intro!: emitting emits_HealthCheck no_run_check)
qed

text \<open>The event that runs the script on a worker.\<close>

definition runs_script :: "string \<Rightarrow> string \<Rightarrow> string \<Rightarrow> event \<Rightarrow> bool" where
  "runs_script bucketID content ip e \<longleftrightarrow> e = WorkerCommand ip (run_command_context (writeWorkerCommandScript bucketID ip content)) []"

definition plain_ip :: "string \<Rightarrow> bool" where
  "plain_ip ip \<longleftrightarrow> trim_space ip = ip \<and> ip \<noteq> []"

lemma run_on_worker_event:
  "plain_ip ip \<Longrightarrow> run_on_worker w b content ip =
     outside w (WorkerCommand ip (run_command_context (writeWorkerCommandScript b ip content)) []) ErrWorkerCommand"
  by (simp add: run_on_worker_def ExecuteFileCommand_def runWorkerCommand_def plain_ip_def)

lemma run_on_worker_sent: "plain_ip ip \<Longrightarrow> run_on_worker w b content ip s = (r, s') \<Longrightarrow> sent [ip] s s'"
  by (auto simp: run_on_worker_event outside_def sent_def run_ips_def run_command_context_def)

lemma emits_run_on_worker: "holds (emits any) (run_on_worker w b content ip)"
  by (auto simp: run_on_worker_def ExecuteFileCommand_def runWorkerCommand_def Let_def intro!: emitting holds_outside(2))

lemma run_on_worker_answered:
  assumes "succeeded (run_on_worker w b content ip) s s'" and "plain_ip ip"
  shows "answered w (runs_script b content ip) s s'"
proof -
  obtain t t' where t: "emits any s t" "run_on_worker w b content ip t = (Inr (), t')" "emits any t' s'"
    using assms(1) unfolding succeeded_def by blast
  have "answered w (runs_script b content ip) t t'"
    using t(2) by (auto simp: run_on_worker_event [OF assms(2)] outside_def answered_def runs_script_def split: if_splits
        intro!: exI [of _ "[]"])
  then show ?thesis by (rule answered_after [OF t(1) answered_before [OF _ t(3)]])
qed

lemma dall_sent:
  assumes "dall (run_on_worker w b content) ips s = (r, s')" and "\<forall>ip \<in> set ips. plain_ip ip"
  shows "\<exists>es. r = Inr es \<and> sent ips s s'"
  using assms
proof (induction ips arbitrary: r s s')
  case Nil
  then show ?case by (auto simp: sent_def intro: exI [of _ "[]"])
next
  case (Cons ip ips)
  obtain q t where one: "run_on_worker w b content ip s = (q, t)" by fastforce
  obtain r' u where rest: "dall (run_on_worker w b content) ips t = (r', u)" by fastforce
  from Cons.IH [OF rest] Cons.prems(2) obtain es where r': "r' = Inr es" "sent ips t u" by auto
  have plain: "plain_ip ip" using Cons.prems(2) by simp
  have "sent ([ip] @ ips) s u" by (rule sent_trans [OF run_on_worker_sent [OF plain one] r'(2)])
  moreover have "s' = u \<and> (\<exists>es. r = Inr es)"
    using Cons.prems(1) one rest r'(1) by (auto simp: attempt_def bnd_def split: sum.splits)
  ultimately show ?case by simp
qed

text \<open>A batch runs the script once on each of its workers, whether or not it fails.\<close>

lemma mset_schedule: "distinct ips \<Longrightarrow> mset (schedule w t ips) = mset ips"
proof -
  assume d: "distinct ips"
  have "distinct (schedule w t ips)" unfolding schedule_def using d by (metis distinct_sort_strings)
  then show ?thesis using d em.set_schedule by (metis set_eq_iff_mset_eq_distinct)
qed

lemma batch_sent:
  assumes run: "runScriptOnWorkerBatch w b content ips s = (r, s')" and d: "distinct ips" and plain: "\<forall>ip \<in> set ips. plain_ip ip"
  shows "sent ips s s' \<and> (r = Inr () \<longrightarrow> (\<forall>ip \<in> set ips. answered w (runs_script b content ip) s s'))"
proof (cases "ips = []")
  case True
  then show ?thesis using run by (auto simp: runScriptOnWorkerBatch_def Let_def sent_def)
next
  case False
  let ?order = "schedule w (ds_trace s) ips"
  obtain q t where all: "dall (run_on_worker w b content) ?order s = (q, t)" by fastforce
  have po: "\<forall>ip \<in> set ?order. plain_ip ip" using plain by (simp add: em.set_schedule)
  from dall_sent [OF all po] obtain es where q: "q = Inr es" and st: "sent ?order s t" by blast
  have r: "s' = t" "r = newRunCommandError es"
    using run all q False d by (simp_all add: runScriptOnWorkerBatch_def bnd_def)
  have "answered w (runs_script b content ip) s s'" if ok: "r = Inr ()" and ip: "ip \<in> set ips" for ip
  proof -
    have "es = []" using ok r by (simp add: newRunCommandError_def split: if_splits)
    then have "dall (run_on_worker w b content) ?order s = (Inr [], s')" using all q r by simp
    from dall_Nil [OF this _ emits_run_on_worker] have "succeeded (run_on_worker w b content ip) s s'"
      using ip by (simp add: em.set_schedule)
    then show ?thesis by (rule run_on_worker_answered) (use plain ip in blast)
  qed
  moreover have "sent ips s t" by (rule sent_perm [OF st mset_schedule [OF d]])
  ultimately show ?thesis using r by blast
qed

lemma worker_batch_sent:
  assumes run: "worker_batch w p b content hc jobs ips s = (r, s')" and d: "distinct ips" and plain: "\<forall>ip \<in> set ips. plain_ip ip"
  shows "sent ips s s' \<and> (r = Inr () \<longrightarrow> (\<forall>ip \<in> set ips. answered w (runs_script b content ip) s s'))"
proof -
  obtain q t where one: "runScriptOnWorkerBatch w b content ips s = (q, t)" by fastforce
  note first = batch_sent [OF one d plain]
  let ?check = "if hc then RunJobs w p True jobs else ret ()"
  have quiet: "holds (emits (\<lambda>e. run_ips e = [])) ?check" by (intro emitting quiet_checks)
  show ?thesis
  proof (cases q)
    case (Inl e)
    then show ?thesis using first run one by (auto simp: worker_batch_def bnd_def)
  next
    case (Inr u)
    then have rest: "?check t = (r, s')" using run one by (simp add: worker_batch_def bnd_def)
    have em: "emits (\<lambda>e. run_ips e = []) t s'" by (rule holdsD [OF quiet rest])
    have "sent ips s s'" using sent_trans [OF conjunct1 [OF first] sent_none [OF em]] by simp
    moreover have "answered w (runs_script b content ip) s s'" if "ip \<in> set ips" for ip
      using first Inr that answered_before [OF _ em] by auto
    ultimately show ?thesis by blast
  qed
qed

text \<open>The batches: a prefix of them was sent, and all but the last of the prefix succeeded.\<close>

lemma batches_sent:
  assumes "dfor (worker_batch w p b content hc jobs) bs s = (r, s')"
    and "\<forall>ips \<in> set bs. distinct ips \<and> (\<forall>ip \<in> set ips. plain_ip ip)"
  shows "\<exists>k \<le> length bs. sent_batches (take k bs) s s' \<and>
    (\<forall>ip \<in> set (concat (take (k - 1) bs)). answered w (runs_script b content ip) s s') \<and>
    (r = Inr () \<longrightarrow> k = length bs \<and> (\<forall>ip \<in> set (concat bs). answered w (runs_script b content ip) s s'))"
  using assms
proof (induction bs arbitrary: s)
  case Nil
  then show ?case by (auto simp: sent_batches_Nil)
next
  case (Cons ips bs)
  obtain q t where one: "worker_batch w p b content hc jobs ips s = (q, t)" by fastforce
  have ips: "distinct ips" "\<forall>ip \<in> set ips. plain_ip ip" using Cons.prems(2) by simp_all
  note first = worker_batch_sent [OF one ips]
  show ?case
  proof (cases q)
    case (Inl e)
    then have "r = Inl e" "s' = t" using Cons.prems(1) one by (simp_all add: bnd_def)
    moreover have "sent_batches [ips] s t" by (rule sent_batches_Cons [OF conjunct1 [OF first] sent_batches_Nil])
    ultimately show ?thesis by (intro exI [of _ 1]) simp
  next
    case (Inr u)
    then have rest: "dfor (worker_batch w p b content hc jobs) bs t = (r, s')" using Cons.prems(1) one by (simp add: bnd_def)
    from Cons.IH [OF rest] Cons.prems(2) obtain k where k: "k \<le> length bs" "sent_batches (take k bs) t s'"
      "\<forall>ip \<in> set (concat (take (k - 1) bs)). answered w (runs_script b content ip) t s'"
      "r = Inr () \<longrightarrow> k = length bs \<and> (\<forall>ip \<in> set (concat bs). answered w (runs_script b content ip) t s')" by auto
    have st: "emits any s t" using first sent_any by blast
    have here: "answered w (runs_script b content ip) s s'" if "ip \<in> set ips" for ip
      using first Inr that answered_before [OF _ sent_batches_any [OF k(2)]] by auto
    have there: "answered w (runs_script b content ip) s s'" if "answered w (runs_script b content ip) t s'" for ip
      by (rule answered_after [OF st that])
    have "sent_batches (ips # take k bs) s s'" by (rule sent_batches_Cons [OF conjunct1 [OF first] k(2)])
    then show ?thesis
      using k here there by (intro exI [of _ "Suc k"]) (cases k; auto)
  qed
qed

text \<open>The selection.\<close>

lemma parseCSVList_plain: "ip \<in> set (parseCSVList csv) \<Longrightarrow> plain_ip ip"
  by (auto simp: parseCSVList_def plain_ip_def trim_space_idem split: if_splits)

definition hosts_trimmed :: "catalog \<Rightarrow> bool" where
  "hosts_trimmed c \<longleftrightarrow> (\<forall>r \<in> set (t_worker c). plain_ip (w_ip r))"

lemma set_GetWorkers_sub: "set (GetWorkers c ls) \<subseteq> w_ip ` set (t_worker c)"
  by (auto simp: GetWorkers_def Let_def)

lemma targets_plain:
  assumes "resolveTargetWorkerIPs c ws ls = Inr targets" and "hosts_trimmed c"
  shows "distinct targets" and "\<forall>ip \<in> set targets. plain_ip ip \<and> ip \<in> w_ip ` set (t_worker c)"
proof -
  show "distinct targets" using assms(1) by (auto simp: resolveTargetWorkerIPs_def Let_def split: if_splits)
  have known: "set (parseCSVList ws) \<subseteq> set (GetWorkers c [])" if "Difference (parseCSVList ws) (GetWorkers c []) = []"
    using that set_Difference [of "parseCSVList ws" "GetWorkers c []"] by auto
  have "set targets \<subseteq> w_ip ` set (t_worker c)"
    using assms(1) known set_GetWorkers_sub by (fastforce simp: resolveTargetWorkerIPs_def Let_def split: if_splits)
  then show "\<forall>ip \<in> set targets. plain_ip ip \<and> ip \<in> w_ip ` set (t_worker c)"
    using assms(2) by (auto simp: hosts_trimmed_def)
qed

lemma quiet_prepare: "holds (emits (\<lambda>e. run_ips e = [])) (prepare_run w sudo file req)"
  by (auto simp: prepare_run_def CheckRunCommandPrerequisites_def checkPrerequisites_def run_ips_def
      intro!: emitting holds_outside(2))

lemma prepare_run_Ok:
  assumes "prepare_run w sudo file req s = (Inr (b, targets, content, jobs), t)"
  shows "resolveTargetWorkerIPs (ds_cat s) (rq_workers req) (rq_labels req) = Inr targets" "GetBucketID (ds_cat s) = Inr b"
    "loadShellScript file (rq_command req) = Inr content" "targets \<noteq> []"
  using assms unfolding prepare_run_def
  by (auto elim!: bnd_Ok_E simp: query_def pureR_def ret_def fail_def split: if_splits)

text \<open>Property C25: a command reaches the selected workers, batch by batch. The run either fails before any worker was sent the
  script, or it sent the script, one batch after the other, exactly once to each worker of the first batches of the
  selection, and to nobody else, where a batch has as many workers as asked for. All of these batches but the last one
  accepted it, so that a failure leaves the later batches alone. If the command succeeds, these are all batches of the
  selection, and every selected worker accepted the script. Catalog and table are as before.\<close>

theorem run_command_goes_batch_by_batch:
  assumes run: "runcommandExecute w p sudo file req s = (r, s')" and hosts: "hosts_trimmed (ds_cat s)"
  shows "ds_cat s' = ds_cat s \<and> ds_table s' = ds_table s \<and>
    ((\<exists>e. r = Inl e \<and> sent [] s s') \<or>
     (\<exists>b targets content batches k t. GetBucketID (ds_cat s) = Inr b \<and> loadShellScript file (rq_command req) = Inr content \<and>
        resolveTargetWorkerIPs (ds_cat s) (rq_workers req) (rq_labels req) = Inr targets \<and> distinct targets \<and>
        batches = chunks (nat (rq_batch_size req)) targets \<and> concat batches = targets \<and>
        sent [] s t \<and> sent_batches (take k batches) t s' \<and>
        (\<forall>ip \<in> set (concat (take (k - 1) batches)). answered w (runs_script b content ip) s s') \<and>
        (r = Inr () \<longrightarrow> k = length batches \<and> (\<forall>ip \<in> set targets. answered w (runs_script b content ip) s s'))))"
proof (cases "rq_batch_size req < 1 \<or> rq_workers req \<noteq> [] \<and> rq_labels req \<noteq> []")
  case True
  then have "runcommandExecute w p sudo file req s = (Inl ErrUsage, s)" by (auto simp: runcommandExecute_def)
  then have "r = Inl ErrUsage" "s' = s" using run by simp_all
  then show ?thesis by (simp add: sent_def)
next
  case False
  then have size: "nat (rq_batch_size req) > 0" by auto
  obtain s1 where body: "runCommand w p sudo file req s = (r, s1)" and s': "s' = s1\<lparr>ds_cat := ds_cat s, ds_table := ds_table s\<rparr>"
    using run False by (auto simp: runcommandExecute_def rolled_back_def split: prod.splits)
  have frame: "sent xs s s' = sent xs s s1" "sent_batches bs u s' = sent_batches bs u s1" "answered w Q s s' = answered w Q s s1"
    for xs Q bs u by (simp_all add: sent_def sent_batches_def answered_def s')
  obtain q t where prep: "prepare_run w sudo file req s = (q, t)" by fastforce
  have st: "sent [] s t" by (rule sent_none [OF holdsD [OF quiet_prepare prep]])
  show ?thesis
  proof (cases q)
    case (Inl e)
    then have "r = Inl e \<and> s1 = t" using body prep by (simp add: runCommand_def bnd_def)
    then show ?thesis using st unfolding frame by (simp add: s')
  next
    case (Inr x)
    obtain b targets content jobs where x: "x = (b, targets, content, jobs)" by (cases x)
    let ?bs = "chunks (nat (rq_batch_size req)) targets"
    note parts = prepare_run_Ok [OF prep [unfolded Inr x]]
    note plain = targets_plain [OF parts(1) hosts]
    have loop: "dfor (worker_batch w p b content (rq_health_checks req) jobs) ?bs t = (r, s1)"
      using body prep Inr x by (simp add: runCommand_def bnd_def)
    have batches: "\<forall>ips \<in> set ?bs. distinct ips \<and> (\<forall>ip \<in> set ips. plain_ip ip)"
      using plain distinct_concat [of ?bs] by (metis (no_types, lifting) UN_I concat_chunks distinct_concat_iff set_concat)
    from batches_sent [OF loop batches] obtain k where k: "sent_batches (take k ?bs) t s1"
      "\<forall>ip \<in> set (concat (take (k - 1) ?bs)). answered w (runs_script b content ip) t s1"
      "r = Inr () \<longrightarrow> k = length ?bs \<and> (\<forall>ip \<in> set (concat ?bs). answered w (runs_script b content ip) t s1)" by blast
    have later: "answered w Q s s1" if "answered w Q t s1" for Q by (rule answered_after [OF sent_any [OF st] that])
    have all: "\<forall>ip \<in> set (concat (take (k - 1) ?bs)). answered w (runs_script b content ip) s s1"
      "r = Inr () \<longrightarrow> k = length ?bs \<and> (\<forall>ip \<in> set targets. answered w (runs_script b content ip) s s1)"
      using k(2,3) later by (simp_all add: concat_chunks)
    have "\<exists>b targets content batches k t. GetBucketID (ds_cat s) = Inr b \<and> loadShellScript file (rq_command req) = Inr content \<and>
        resolveTargetWorkerIPs (ds_cat s) (rq_workers req) (rq_labels req) = Inr targets \<and> distinct targets \<and>
        batches = chunks (nat (rq_batch_size req)) targets \<and> concat batches = targets \<and>
        sent [] s t \<and> sent_batches (take k batches) t s1 \<and>
        (\<forall>ip \<in> set (concat (take (k - 1) batches)). answered w (runs_script b content ip) s s1) \<and>
        (r = Inr () \<longrightarrow> k = length batches \<and> (\<forall>ip \<in> set targets. answered w (runs_script b content ip) s s1))"
      by (rule exI [of _ b], rule exI [of _ targets], rule exI [of _ content], rule exI [of _ ?bs], rule exI [of _ k], rule exI [of _ t])
        (intro conjI parts plain(1) refl concat_chunks st k(1) all)
    then show ?thesis unfolding frame by (intro conjI disjI2) (simp_all add: s')
  qed
qed

section \<open>Witness\<close>

text \<open>Two workers, one at a time.\<close>

definition two_hosts :: catalog where
  "two_hosts = empty_catalog\<lparr>t_bucket := [\<lparr>b_id = ''b'', b_update_seq = 4\<rparr>], t_worker := [plain_worker ''w1'' 0, plain_worker ''w2'' 1]\<rparr>"

definition one_by_one :: run_request where
  "one_by_one = \<lparr>rq_workers = [], rq_labels = [], rq_batch_size = 1, rq_command = ''true'', rq_health_checks = False\<rparr>"

definition run_true :: "string list \<Rightarrow> (error + unit) \<times> dstate" where
  "run_true bad = runcommandExecute (quiet_world (fails_on bad)) 22 (Ok True) None one_by_one (with_ca two_hosts)"

lemma run_true_results:
  "fst (run_true []) = Inr ()" "fst (run_true [''w1'']) = Inl ErrRunCommand"
  "concat (map run_ips (ds_trace (snd (run_true [''w1''])))) = [''w1'']"
  by code_simp+

lemma two_hosts_targets: "resolveTargetWorkerIPs two_hosts [] [] = Inr [''w1'', ''w2'']" "hosts_trimmed two_hosts"
  by code_simp+

lemma run_command_goes_batch_by_batch_witness:
  "\<exists>t b content. sent [] (with_ca two_hosts) t \<and> sent_batches [[''w1''], [''w2'']] t (snd (run_true [])) \<and>
     answered (quiet_world (fails_on [])) (runs_script b content ''w2'') (with_ca two_hosts) (snd (run_true []))"
proof -
  obtain s' where s': "run_true [] = (Inr (), s')" using run_true_results(1) by (cases "run_true []") simp
  have "hosts_trimmed (ds_cat (with_ca two_hosts))" by (simp add: with_ca_def two_hosts_targets)
  from run_command_goes_batch_by_batch [OF s' [unfolded run_true_def] this] obtain b targets content batches k t where
    h: "resolveTargetWorkerIPs two_hosts [] [] = Inr targets" "batches = chunks 1 targets" "sent [] (with_ca two_hosts) t"
      "sent_batches (take k batches) t s'" "k = length batches"
      "\<forall>ip \<in> set targets. answered (quiet_world (fails_on [])) (runs_script b content ip) (with_ca two_hosts) s'"
    by (auto simp: one_by_one_def with_ca_def)
  have targets: "targets = [''w1'', ''w2'']" using h(1) by (simp add: two_hosts_targets)
  have "chunks 1 [''w1'', ''w2''] = [[''w1''], [''w2'']]" by code_simp
  then have "sent_batches [[''w1''], [''w2'']] t s'" using h(2,4,5) targets by simp
  moreover have "answered (quiet_world (fails_on [])) (runs_script b content ''w2'') (with_ca two_hosts) s'" using h(6) targets by simp
  ultimately show ?thesis using h(3) unfolding s' snd_conv by blast
qed

end
