(* ===== verification/WorkerFacts.thy ===== *)
theory WorkerFacts
  imports BuildExecute RunCommand
begin

text \<open>
  The facts of the workers (\<open>workerfacts/execute.go\<close>, \<open>workerfacts/probe.go\<close>): memory and CPU are probed over SSH and
  written into \<open>workers.json\<close>, which a build may then read.
\<close>

section \<open>What is asked and read\<close>

text \<open>\<open>fw_half\<close>: the constant 0.5; \<open>fw_script\<close>: the text of the probe; \<open>fw_output\<close>: what it prints; \<open>fw_sudo\<close>:
  \<open>use_sudo\<close> of \<open>maand.conf\<close>, or the error of reading it.\<close>

record 'f facts_world =
  fw_floats :: "'f floats"
  fw_half :: 'f
  fw_script :: string
  fw_output :: "event list \<Rightarrow> string \<Rightarrow> string"
  fw_sudo :: "error + bool"

record facts_options =
  fo_workers :: string
  fo_labels :: string
  fo_concurrency :: int
  fo_dry_run :: bool
  fo_run_build :: bool

definition host_of :: "worker_record \<Rightarrow> string" where
  "host_of r = trim_space (wr_host r)"

definition selectTargetWorkers :: "worker_record list \<Rightarrow> string \<Rightarrow> string \<Rightarrow> error + worker_record list" where
  "selectTargetWorkers workers workerCSV labelCSV =
     (let workerFilter = parseCSVList workerCSV; labelFilter = parseCSVList labelCSV;
          known = foldl (\<lambda>m r. if host_of r = [] then m else AList.update (host_of r) r m) [] workers
      in if workerFilter \<noteq> [] then
           (if list_ex (\<lambda>host. map_of known host = None) (Unique workerFilter) then Err ErrUsage
            else Ok (concat (map (\<lambda>host. case map_of known host of None \<Rightarrow> [] | Some r \<Rightarrow> [r]) (Unique workerFilter))))
         else if labelFilter \<noteq> [] then Ok (FilterWorkersByLabels workers labelFilter)
         else Ok workers)"

section \<open>The probe (workerfacts/probe.go)\<close>

text \<open>\<open>strings.Cut\<close> at the first sign; a line without one is skipped.\<close>

definition probe_line :: "(string \<times> string) list \<Rightarrow> string \<Rightarrow> (string \<times> string) list" where
  "probe_line values line0 =
     (let line = trim_space line0
      in if line = [] \<or> CHR ''='' \<notin> set line then values
         else AList.update (map upper_letter (trim_space (takeWhile (\<lambda>c. c \<noteq> CHR ''='') line)))
                (trim_space (tl (dropWhile (\<lambda>c. c \<noteq> CHR ''='') line))) values)"

definition probe_number :: "'f floats \<Rightarrow> (string \<times> string) list \<Rightarrow> string \<Rightarrow> error + 'f" where
  "probe_number fl values key =
     (case map_of values key of
        None \<Rightarrow> Err ErrUnexpectedError
      | Some raw \<Rightarrow>
          if raw = [] then Err ErrUnexpectedError
          else case fl_parse fl raw of
            None \<Rightarrow> Err ErrUnexpectedError
          | Some x \<Rightarrow> if fl_less fl x (fl_of fl 0) \<or> fl_eq fl x (fl_of fl 0) then Err ErrUnexpectedError else Ok x)"

definition parseProbeOutput :: "'f floats \<Rightarrow> string \<Rightarrow> error + 'f worker_facts" where
  "parseProbeOutput fl output =
     (let values = foldl probe_line [] (split_char CHR 0x0A output)
      in rbind (probe_number fl values ''MEMORY_MB'') (\<lambda>memory.
         rbind (probe_number fl values ''CPU_MHZ'') (\<lambda>cpu. Ok \<lparr>ft_memory = memory, ft_cpu = cpu\<rparr>)))"

definition probeWorker :: "'f facts_world \<Rightarrow> world \<Rightarrow> string \<Rightarrow> 'f worker_facts act" where
  "probeWorker fw w ip =
     bnd (outside w (ProbeSSH ip (fw_script fw)) ErrWorkerCommand) (\<lambda>_.
     bnd (reads (\<lambda>s. fw_output fw (ds_trace s) ip)) (\<lambda>output. pureR (parseProbeOutput (fw_floats fw) output)))"

text \<open>All hosts are probed; the results are those of each host.\<close>

definition probeWorkers :: "'f facts_world \<Rightarrow> world \<Rightarrow> string list \<Rightarrow> (string \<times> 'f worker_facts) list act" where
  "probeWorkers fw w hosts0 =
     (let hosts = Unique hosts0
      in if hosts = [] then fail ErrUsage
         else bnd (reads (\<lambda>s. schedule w (ds_trace s) hosts)) (\<lambda>order.
              bnd (dmap (\<lambda>h. bnd (attempt (probeWorker fw w h)) (\<lambda>r. ret (h, r))) order) (\<lambda>results.
              if list_ex (\<lambda>(_, r). isl r) results then fail ErrJoined
              else ret (concat (map (\<lambda>(h, r). case r of Inl _ \<Rightarrow> [] | Inr facts \<Rightarrow> [(h, facts)]) results)))))"

section \<open>The changes\<close>

definition size_changed :: "'f facts_world \<Rightarrow> (string \<Rightarrow> error + 'f) \<Rightarrow> string \<Rightarrow> string \<Rightarrow> bool" where
  "size_changed fw parse left right =
     (let fl = fw_floats fw; nearest = (\<lambda>x. fl_int fl (fl_add fl x (fw_half fw)))
      in case (parse left, parse right) of
           (Inr l, Inr r) \<Rightarrow> nearest l \<noteq> nearest r
         | _ \<Rightarrow> trim_space left \<noteq> trim_space right)"

definition memoryChanged :: "'f facts_world \<Rightarrow> string \<Rightarrow> string \<Rightarrow> bool" where
  "memoryChanged fw = size_changed fw (ParseMemoryMB (fw_floats fw))"

definition cpuChanged :: "'f facts_world \<Rightarrow> string \<Rightarrow> string \<Rightarrow> bool" where
  "cpuChanged fw = size_changed fw (ParseCPUMHz (fw_floats fw))"

definition previewChanges :: "'f facts_world \<Rightarrow> worker_record list \<Rightarrow> (string \<times> 'f worker_facts) list \<Rightarrow> facts_change list" where
  "previewChanges fw workers updates =
     concat (map (\<lambda>r. case map_of updates (host_of r) of
         None \<Rightarrow> []
       | Some facts \<Rightarrow>
           let change = \<lparr>fc_host = host_of r, fc_old_memory = wr_memory r, fc_new_memory = FormatMemoryMB (fw_floats fw) (ft_memory facts),
                         fc_old_cpu = wr_cpu r, fc_new_cpu = FormatCPUMHz (fw_floats fw) (ft_cpu facts)\<rparr>
           in if \<not> memoryChanged fw (fc_old_memory change) (fc_new_memory change) \<and> \<not> cpuChanged fw (fc_old_cpu change) (fc_new_cpu change)
              then [] else [change]) workers)"

section \<open>Execute\<close>

text \<open>Everything up to the changes; \<open>file\<close> is the content of \<open>workers.json\<close>, or the error of reading it.\<close>

definition plan_facts ::
  "'f facts_world \<Rightarrow> world \<Rightarrow> facts_options \<Rightarrow> error + worker_record list \<Rightarrow>
   ((string \<times> 'f worker_facts) list \<times> facts_change list) act" where
  "plan_facts fw w opts file =
     (if fo_concurrency opts < 1 then fail ErrUsage
      else if fo_workers opts \<noteq> [] \<and> fo_labels opts \<noteq> [] then fail ErrUsage
      else bnd (pureR file) (\<lambda>workers.
           bnd (pureR (selectTargetWorkers workers (fo_workers opts) (fo_labels opts))) (\<lambda>targets.
           bnd (if targets = [] then fail ErrUsage else ret ()) (\<lambda>_.
           bnd (pureR (CheckLocalRunCommand w)) (\<lambda>_.
           bnd (pureR (fw_sudo fw)) (\<lambda>sudo.
           bnd (CheckRunCommandPrerequisites w (map host_of targets) sudo) (\<lambda>_.
           bnd (probeWorkers fw w (map host_of targets)) (\<lambda>updates.
             ret (updates, previewChanges fw targets updates)))))))))"

text \<open>The build reads the file that was written. \<open>None\<close> is a build that does not return.\<close>

definition workerfactsExecute ::
  "'f facts_world \<Rightarrow> 'f build_world \<Rightarrow> world \<Rightarrow> facts_options \<Rightarrow> error + worker_record list \<Rightarrow> dstate \<Rightarrow>
   ((error + unit) \<times> (error + worker_record list) \<times> dstate) option" where
  "workerfactsExecute fw b w opts file s =
     (case plan_facts fw w opts file s of
        (Inl e, s1) \<Rightarrow> Some (Err e, file, s1)
      | (Inr (updates, changes), s1) \<Rightarrow>
          if fo_dry_run opts \<or> changes = [] then Some (Ok (), file, s1)
          else case rbind file (ApplyWorkerFacts (fw_floats fw) updates) of
            Inl e \<Rightarrow> Some (Err e, file, s1)
          | Inr (workers', _) \<Rightarrow>
              if \<not> fo_run_build opts then Some (Ok (), Ok workers', s1)
              else map_option (\<lambda>(r, s2). (r, Ok workers', s2))
                     (buildExecute (b\<lparr>bw_workspace := (bw_workspace b)\<lparr>ws_workers := Ok workers'\<rparr>\<rparr>) w False s1))"

section \<open>What is written\<close>

text \<open>The host answered a probe in between, and the facts are what that probe printed.\<close>

definition probed :: "'f facts_world \<Rightarrow> world \<Rightarrow> dstate \<Rightarrow> dstate \<Rightarrow> string \<Rightarrow> 'f worker_facts \<Rightarrow> bool" where
  "probed fw w s s' host facts \<longleftrightarrow>
     (\<exists>later new. ds_trace s' = later @ ProbeSSH host (fw_script fw) # new @ ds_trace s \<and>
        wd_ok w (new @ ds_trace s) (ProbeSSH host (fw_script fw)) \<and>
        parseProbeOutput (fw_floats fw) (fw_output fw (ProbeSSH host (fw_script fw) # new @ ds_trace s) host) = Ok facts)"

definition positive_facts :: "'f floats \<Rightarrow> 'f worker_facts \<Rightarrow> bool" where
  "positive_facts fl facts \<longleftrightarrow> (\<forall>x \<in> {ft_memory facts, ft_cpu facts}. \<not> fl_less fl x (fl_of fl 0) \<and> \<not> fl_eq fl x (fl_of fl 0))"

lemma parsed_positive: "parseProbeOutput fl out = Ok facts \<Longrightarrow> positive_facts fl facts"
  by (auto simp: parseProbeOutput_def probe_number_def positive_facts_def rbind_Inr_conv Let_def split: option.splits if_splits)

lemma probed_positive: "probed fw w s s' h facts \<Longrightarrow> positive_facts (fw_floats fw) facts"
  unfolding probed_def using parsed_positive by blast

lemma probed_later:
  assumes "emits any s t" and "probed fw w t t' h f" and "emits any t' s'"
  shows "probed fw w s s' h f"
  using assms unfolding probed_def emits_def by (metis append.assoc)

lemma probeWorker_probed: "probeWorker fw w h s = (Inr facts, s') \<Longrightarrow> probed fw w s s' h facts"
  unfolding probed_def
  by (rule exI [of _ "[]"], rule exI [of _ "[]"]) (auto simp: probeWorker_def bnd_def outside_def split: if_splits)

lemma probe_any: "holds (emits any) (probeWorker fw w h)"
  by (auto simp: probeWorker_def intro!: emitting holds_outside(2))

lemma probe_loop:
  assumes "dmap (\<lambda>h. bnd (attempt (probeWorker fw w h)) (\<lambda>r. ret (h, r))) hs s = (Inr results, s')"
  shows "map fst results = hs \<and> (\<forall>h facts. (h, Inr facts) \<in> set results \<longrightarrow> probed fw w s s' h facts)"
  using assms
proof (induction hs arbitrary: s s' results)
  case Nil
  then show ?case by simp
next
  case (Cons h hs)
  let ?f = "\<lambda>h. bnd (attempt (probeWorker fw w h)) (\<lambda>r. ret (h, r))"
  obtain r t where one: "probeWorker fw w h s = (r, t)" by fastforce
  have first: "?f h s = (Inr (h, r), t)" using one by (simp add: bnd_def attempt_def)
  obtain q u where rest: "dmap ?f hs t = (q, u)" by fastforce
  have all: "bnd (dmap ?f hs) (\<lambda>ys. ret ((h, r) # ys)) t = (Inr results, s')"
    using Cons.prems unfolding dmap.simps by (subst (asm) bnd_Inr) (rule first, assumption)
  obtain rs where q: "q = Inr rs" "results = (h, r) # rs" "s' = u" using all rest by (elim bnd_Ok_E) (auto simp: ret_def)
  from Cons.IH [OF rest [unfolded q(1)]] have IH: "map fst rs = hs" "\<forall>h facts. (h, Inr facts) \<in> set rs \<longrightarrow> probed fw w t u h facts"
    by simp_all
  have st: "emits any s t" by (rule holdsD [OF probe_any one])
  have tu: "emits any t u" by (rule holdsD [OF em.dmap rest]) (intro emitting probe_any)
  have "probed fw w s u h facts" if "r = Inr facts" for facts
    using probed_later [OF em.refl probeWorker_probed [OF one [unfolded that]] tu] .
  moreover have "probed fw w s u h' facts" if "(h', Inr facts) \<in> set rs" for h' facts
    using probed_later [OF st _ em.refl] IH(2) that by blast
  ultimately show ?case using IH(1) q by auto
qed

lemma probeWorkers_Ok:
  assumes run: "probeWorkers fw w hosts s = (Inr updates, s')"
  shows "fst ` set updates = set hosts \<and> distinct_keys updates \<and> (\<forall>(h, facts) \<in> set updates. probed fw w s s' h facts)"
proof -
  let ?hosts = "Unique hosts" and ?f = "\<lambda>h. bnd (attempt (probeWorker fw w h)) (\<lambda>r. ret (h, r))"
  let ?pick = "\<lambda>(h, r). case r of Inl _ \<Rightarrow> [] | Inr facts \<Rightarrow> [(h, facts)]"
  have "?hosts \<noteq> []" using run by (auto simp: probeWorkers_def Let_def)
  with run have "bnd (dmap ?f (schedule w (ds_trace s) ?hosts)) (\<lambda>results. if list_ex (\<lambda>(_, r). isl r) results then fail ErrJoined
      else ret (concat (map ?pick results))) s = (Inr updates, s')" by (simp add: probeWorkers_def Let_def)
  then obtain results t where loop: "dmap ?f (schedule w (ds_trace s) ?hosts) s = (Inr results, t)"
    and ok: "\<not> list_ex (\<lambda>(_, r). isl r) results" "s' = t" "updates = concat (map ?pick results)"
    by (elim bnd_Ok_E) (auto split: if_splits)
  note each = probe_loop [OF loop]
  have fst: "map fst (concat (map ?pick rs)) = map fst rs" if "\<not> list_ex (\<lambda>(_, r). isl r) rs" for rs :: "(string \<times> (error + 'a worker_facts)) list"
    using that by (induction rs) (auto split: sum.splits)
  have keys: "map fst updates = schedule w (ds_trace s) ?hosts" using fst [OF ok(1)] each ok(3) by simp
  have "distinct (schedule w (ds_trace s) ?hosts)" unfolding schedule_def by (metis distinct_Unique distinct_sort_strings)
  moreover have "fst ` set updates = set hosts" by (simp only: set_map [symmetric] keys em.set_schedule set_Unique)
  moreover have "probed fw w s s' h facts" if "(h, facts) \<in> set updates" for h facts
    using each that ok by (auto split: sum.splits)
  ultimately show ?thesis using keys by auto
qed

text \<open>A worker with its new facts.\<close>

definition with_facts :: "'f floats \<Rightarrow> (string \<times> 'f worker_facts) list \<Rightarrow> worker_record \<Rightarrow> worker_record" where
  "with_facts fl updates r =
     (case map_of updates (host_of r) of
        None \<Rightarrow> r
      | Some facts \<Rightarrow> r\<lparr>wr_memory := FormatMemoryMB fl (ft_memory facts), wr_cpu := FormatCPUMHz fl (ft_cpu facts)\<rparr>)"

lemma apply_facts_with: "fst (apply_facts fl updates r) = with_facts fl updates r"
  by (simp add: apply_facts_def with_facts_def host_of_def Let_def split: option.split)

lemma plan_facts_Ok:
  assumes run: "plan_facts fw w opts file s = (Inr (updates, changes), s')"
  shows "\<exists>workers targets. file = Inr workers \<and> selectTargetWorkers workers (fo_workers opts) (fo_labels opts) = Inr targets \<and>
    targets \<noteq> [] \<and> changes = previewChanges fw targets updates \<and> fst ` set updates = host_of ` set targets \<and>
    distinct_keys updates \<and> (\<forall>(h, facts) \<in> set updates. probed fw w s s' h facts)"
proof -
  from run obtain workers targets sudo t where f: "file = Inr workers"
    and sel: "selectTargetWorkers workers (fo_workers opts) (fo_labels opts) = Inr targets" "targets \<noteq> []"
    and pre: "CheckRunCommandPrerequisites w (map host_of targets) sudo s = (Inr (), t)"
    and probe: "probeWorkers fw w (map host_of targets) t = (Inr updates, s')" and changes: "changes = previewChanges fw targets updates"
    unfolding plan_facts_def by (auto elim!: bnd_Ok_E simp: pureR_def ret_def fail_def split: if_splits)
  have quiet: "holds (emits any) (CheckRunCommandPrerequisites w ips b)" for ips b
    by (auto simp: CheckRunCommandPrerequisites_def checkPrerequisites_def intro!: emitting holds_outside(2))
  have st: "emits any s t"
    by (rule holdsD [OF quiet pre])
  from probeWorkers_Ok [OF probe] have u: "fst ` set updates = host_of ` set targets" "distinct_keys updates"
    "\<forall>(h, facts) \<in> set updates. probed fw w t s' h facts" by simp_all
  have each: "\<forall>(h, facts) \<in> set updates. probed fw w s s' h facts"
    using u(3) probed_later [OF st _ em.refl] by fast
  show ?thesis by (intro exI conjI) (rule f, rule sel(1), rule sel(2), rule changes, rule u(1), rule u(2), rule each)
qed

text \<open>A selected worker is off by the rounded numbers, and a worker of the file in the comparison of the rewriting.\<close>

definition facts_due :: "'f facts_world \<Rightarrow> (string \<times> 'f worker_facts) list \<Rightarrow> worker_record list \<Rightarrow> worker_record list \<Rightarrow> bool" where
  "facts_due fw updates targets workers \<longleftrightarrow>
     (\<exists>r \<in> set targets. \<exists>facts. map_of updates (host_of r) = Some facts \<and>
        (memoryChanged fw (wr_memory r) (FormatMemoryMB (fw_floats fw) (ft_memory facts)) \<or>
         cpuChanged fw (wr_cpu r) (FormatCPUMHz (fw_floats fw) (ft_cpu facts)))) \<and>
     (\<exists>r \<in> set workers. \<exists>facts. map_of updates (host_of r) = Some facts \<and>
        (\<not> memoryStringEqual (fw_floats fw) (wr_memory r) (FormatMemoryMB (fw_floats fw) (ft_memory facts)) \<or>
         \<not> cpuStringEqual (fw_floats fw) (wr_cpu r) (FormatCPUMHz (fw_floats fw) (ft_cpu facts))))"

lemma previewChanges_Nil:
  "previewChanges fw targets updates = [] \<longleftrightarrow>
     \<not> (\<exists>r \<in> set targets. \<exists>facts. map_of updates (host_of r) = Some facts \<and>
        (memoryChanged fw (wr_memory r) (FormatMemoryMB (fw_floats fw) (ft_memory facts)) \<or>
         cpuChanged fw (wr_cpu r) (FormatCPUMHz (fw_floats fw) (ft_cpu facts))))"
  by (auto simp: previewChanges_def Let_def split: option.splits if_splits)

lemma rewriting_Nil:
  "concat (map (\<lambda>r. snd (apply_facts fl updates r)) workers) = [] \<longleftrightarrow>
     \<not> (\<exists>r \<in> set workers. \<exists>facts. map_of updates (host_of r) = Some facts \<and>
        (\<not> memoryStringEqual fl (wr_memory r) (FormatMemoryMB fl (ft_memory facts)) \<or>
         \<not> cpuStringEqual fl (wr_cpu r) (FormatCPUMHz fl (ft_cpu facts))))"
  by (auto simp: apply_facts_def factsChanged_def host_of_def Let_def split: option.splits if_splits)

text \<open>The file of workers is written exactly as probed. When the command returns, it has failed before it wrote anything,
  or every selected worker has answered the probe, with memory and CPU that are neither negative nor zero; then \<open>workers.json\<close> is
  as before if it is a dry run or if no value differs, and otherwise it has the new memory and CPU of the selected workers
  and is the same in all the rest.\<close>

theorem worker_facts_are_written_as_probed:
  assumes run: "workerfactsExecute fw b w opts file s = Some (r, file', s')"
  shows "(\<exists>e. r = Inl e \<and> file' = file) \<or>
    (\<exists>workers targets updates t. file = Inr workers \<and>
       selectTargetWorkers workers (fo_workers opts) (fo_labels opts) = Inr targets \<and>
       fst ` set updates = host_of ` set targets \<and> distinct_keys updates \<and>
       (\<forall>(h, facts) \<in> set updates. positive_facts (fw_floats fw) facts \<and> probed fw w s t h facts) \<and>
       file' = (if fo_dry_run opts \<or> \<not> facts_due fw updates targets workers then file
                else Inr (map (with_facts (fw_floats fw) updates) workers)))"
proof -
  obtain q t where plan: "plan_facts fw w opts file s = (q, t)" by fastforce
  show ?thesis
  proof (cases q)
    case (Inl e)
    then have "r = Err e \<and> file' = file" using run plan by (simp add: workerfactsExecute_def)
    then show ?thesis by blast
  next
    case (Inr x)
    obtain updates changes where x: "x = (updates, changes)" by (cases x)
    from plan_facts_Ok [OF plan [unfolded Inr x]] obtain workers targets where p: "file = Inr workers"
      "selectTargetWorkers workers (fo_workers opts) (fo_labels opts) = Inr targets" "fst ` set updates = host_of ` set targets"
      "distinct_keys updates" "\<forall>(h, facts) \<in> set updates. probed fw w s t h facts"
      and changes: "changes = previewChanges fw targets updates" by blast
    have pos: "\<forall>(h, facts) \<in> set updates. positive_facts (fw_floats fw) facts \<and> probed fw w s t h facts"
      using p(5) probed_positive by fast
    let ?new = "map (with_facts (fw_floats fw) updates) workers"
    have written: ?thesis
      if "file' = (if fo_dry_run opts \<or> \<not> facts_due fw updates targets workers then file else Inr ?new)"
      by (rule disjI2, rule exI [of _ workers], rule exI [of _ targets], rule exI [of _ updates], rule exI [of _ t])
        (intro conjI p(1-4) pos that)
    have due: "facts_due fw updates targets workers \<longleftrightarrow>
        changes \<noteq> [] \<and> concat (map (\<lambda>r. snd (apply_facts (fw_floats fw) updates r)) workers) \<noteq> []"
      unfolding facts_due_def changes previewChanges_Nil rewriting_Nil by simp
    have rewritten: "ApplyWorkerFacts (fw_floats fw) updates workers = Inr (if facts_due fw updates targets workers then ?new else workers, cs)"
      if "workers \<noteq> []" "changes \<noteq> []" "cs = concat (map (\<lambda>r. snd (apply_facts (fw_floats fw) updates r)) workers)" for cs
      unfolding due using that by (simp add: ApplyWorkerFacts_def apply_facts_with del: concat_eq_Nil_conv)
    show ?thesis
    proof (cases "fo_dry_run opts \<or> changes = []")
      case True
      then have "file' = file" using run plan Inr x by (simp add: workerfactsExecute_def)
      moreover have "fo_dry_run opts \<or> \<not> facts_due fw updates targets workers" using True due by blast
      ultimately have "file' = (if fo_dry_run opts \<or> \<not> facts_due fw updates targets workers then file else Inr ?new)" by simp
      then show ?thesis by (rule written)
    next
      case False
      show ?thesis
      proof (cases "workers = []")
        case True
        then have "(\<exists>e. r = Err e) \<and> file' = file"
          using run plan Inr x p(1) False by (auto simp: workerfactsExecute_def ApplyWorkerFacts_def)
        then show ?thesis by blast
      next
        case ne: False
        have "file' = Inr (if facts_due fw updates targets workers then ?new else workers)"
          using run plan Inr x p(1) False rewritten [OF ne _ refl] by (auto simp: workerfactsExecute_def split: if_splits)
        then have "file' = (if fo_dry_run opts \<or> \<not> facts_due fw updates targets workers then file else Inr ?new)"
          using False p(1) by simp
        then show ?thesis by (rule written)
      qed
    qed
  qed
qed

section \<open>Witness\<close>

text \<open>Two workers, of which \<open>w\<close> is selected and has 64 MB and 32 MHz.\<close>

definition small_numbers :: "int floats" where
  "small_numbers = whole_numbers\<lparr>fl_parse := \<lambda>x. if x = ''0'' then Some 0 else if x = ''64'' then Some 64 else if x = ''32'' then Some 32 else None\<rparr>"

definition small_facts :: "int facts_world" where
  "small_facts = \<lparr>fw_floats = small_numbers, fw_half = 0, fw_script = ''probe'',
     fw_output = \<lambda>_ _. ''memory_mb = 64'' @ [CHR 0x0A] @ ''CPU_MHZ=32'', fw_sudo = Ok False\<rparr>"

definition plain_record :: "string \<Rightarrow> worker_record" where
  "plain_record host = \<lparr>wr_host = host, wr_hostname = [], wr_labels = [], wr_memory = [], wr_cpu = [], wr_tags = [], wr_position = None\<rparr>"

definition probe_w :: facts_options where
  "probe_w = \<lparr>fo_workers = '' w '', fo_labels = [], fo_concurrency = 1, fo_dry_run = False, fo_run_build = False\<rparr>"

definition facts_run :: "((error + unit) \<times> (error + worker_record list) \<times> dstate) option" where
  "facts_run = workerfactsExecute small_facts small_build (quiet_world (\<lambda>_. True)) probe_w (Ok [plain_record ''w'', plain_record ''v'']) new_bucket"

definition facts_written :: "worker_record list" where
  "facts_written = [(plain_record ''w'')\<lparr>wr_memory := ''64 mb'', wr_cpu := ''32 mhz''\<rparr>, plain_record ''v'']"

definition w_facts :: "(string \<times> int worker_facts) list" where
  "w_facts = [(''w'', \<lparr>ft_memory = 64, ft_cpu = 32\<rparr>)]"

definition w_change :: facts_change where
  "w_change = \<lparr>fc_host = ''w'', fc_old_memory = [], fc_new_memory = ''64 mb'', fc_old_cpu = [], fc_new_cpu = ''32 mhz''\<rparr>"

lemma facts_steps:
  "fst (plan_facts small_facts (quiet_world (\<lambda>_. True)) probe_w (Ok [plain_record ''w'', plain_record ''v'']) new_bucket) =
     Ok (w_facts, [w_change])"
  "ApplyWorkerFacts small_numbers w_facts [plain_record ''w'', plain_record ''v''] = Ok (facts_written, [w_change])"
  by code_simp+

lemma facts_run: "\<exists>s'. facts_run = Some (Ok (), Ok facts_written, s')"
proof -
  obtain s' where "plan_facts small_facts (quiet_world (\<lambda>_. True)) probe_w (Ok [plain_record ''w'', plain_record ''v'']) new_bucket =
      (Ok (w_facts, [w_change]), s')"
    using facts_steps(1)
    by (cases "plan_facts small_facts (quiet_world (\<lambda>_. True)) probe_w (Ok [plain_record ''w'', plain_record ''v'']) new_bucket") simp
  moreover have "fw_floats small_facts = small_numbers" "\<not> fo_dry_run probe_w" "\<not> fo_run_build probe_w"
    by (simp_all add: small_facts_def probe_w_def)
  ultimately show ?thesis by (simp add: facts_run_def workerfactsExecute_def facts_steps(2))
qed

lemma worker_facts_are_written_as_probed_witness:
  "\<exists>s' t facts. facts_run = Some (Ok (), Ok facts_written, s') \<and> facts_written \<noteq> [plain_record ''w'', plain_record ''v''] \<and>
     positive_facts small_numbers facts \<and> probed small_facts (quiet_world (\<lambda>_. True)) new_bucket t ''w'' facts"
proof -
  obtain s' where run: "facts_run = Some (Ok (), Ok facts_written, s')" using facts_run by blast
  have sel: "selectTargetWorkers [plain_record ''w'', plain_record ''v''] (fo_workers probe_w) (fo_labels probe_w) = Ok [plain_record ''w'']"
    by code_simp
  have ne: "facts_written \<noteq> [plain_record ''w'', plain_record ''v'']" by (simp add: facts_written_def plain_record_def)
  have w: "host_of (plain_record ''w'') = ''w''" by code_simp
  let ?small = "fw_floats small_facts"
  obtain updates t where u: "fst ` set updates = {''w''}" and each: "\<forall>(h, facts) \<in> set updates. positive_facts ?small facts \<and>
      probed small_facts (quiet_world (\<lambda>_. True)) new_bucket t h facts"
    using worker_facts_are_written_as_probed [OF run [unfolded facts_run_def]]
  proof (elim disjE exE conjE)
    fix workers targets updates t
    assume ws: "Ok [plain_record ''w'', plain_record ''v''] = Ok workers"
      and ts: "selectTargetWorkers workers (fo_workers probe_w) (fo_labels probe_w) = Ok targets"
      and u: "fst ` set updates = host_of ` set targets"
      and each: "\<forall>(h, facts) \<in> set updates. positive_facts ?small facts \<and> probed small_facts (quiet_world (\<lambda>_. True)) new_bucket t h facts"
    have "workers = [plain_record ''w'', plain_record ''v'']" using ws by (simp only: sum.inject)
    then have "targets = [plain_record ''w'']" using ts sel by (simp only: sum.inject)
    then have "fst ` set updates = {''w''}" using u by (simp only: list.set image_insert image_empty w)
    then show ?thesis using each by (rule that)
  qed (use ne in \<open>simp_all only: sum.inject sum.distinct\<close>)
  have "''w'' \<in> fst ` set updates" by (simp only: u singleton_iff)
  then obtain x where x: "x \<in> set updates" "''w'' = fst x" by (elim imageE)
  obtain h facts where hf: "x = (h, facts)" by (cases x)
  then have "h = ''w''" using x(2) by simp
  then have f: "(''w'', facts) \<in> set updates" using x(1) by (simp only: hf)
  have "positive_facts small_numbers facts" "probed small_facts (quiet_world (\<lambda>_. True)) new_bucket t ''w'' facts"
    using bspec [OF each f] by (simp_all add: small_facts_def)
  with run ne show ?thesis by blast
qed

end
