(* ===== verification/Spec2Isabelle.thy ===== *)
theory Spec2Isabelle
  imports KvPersist Ports Sequence HealthLaws BuildKv Demands Gc JobControl LogView WorkerFacts
begin

text \<open>
  maand deploys jobs to workers over SSH. A bucket holds the desired state (job manifests, \<open>workers.json\<close>,
  \<open>disabled.json\<close>), \<open>maand build\<close> turns it into a catalog in SQLite, and \<open>maand deploy\<close> brings the
  workers to that catalog. This library models the parts of the Go program that decide what happens, and proves
  what they guarantee.

  \<^bold>\<open>Theories, in the order of their imports\<close>

  \<^item> \<open>Prelude\<close>: Go's standard library as the code uses it (strings, integers, sorting, maps as association
    lists), the error type, results as \<open>error + 'a\<close>, and \<open>rbind\<close>, \<open>rfold\<close>, \<open>rmap\<close>.
  \<^item> \<open>Utils\<close>: sets, batches and the directory digest (\<open>utils/sets.go\<close>, \<open>batch.go\<close>, \<open>hash.go\<close>).
  \<^item> \<open>Versions\<close>, \<open>Pathmatch\<close>, \<open>Manifest\<close>: versions and constraints, restart globs, manifests, ports,
    \<open>workers.json\<close> and health check declarations (\<open>workspace/*.go\<close>, \<open>utils/pathmatch/glob.go\<close>).
  \<^item> \<open>KvStore\<close>, \<open>KvPersist\<close>: the session store, the \<open>key_value\<close> table, the session and the purge of old
    versions (\<open>kv/*.go\<close>). The locale of the store is interpreted on the table and the store.
  \<^item> \<open>Catalog\<close>, \<open>CatalogLaws\<close>: the tables as lists of rows and every query on them (\<open>data/*.go\<close>); the
    primary keys as the invariant \<open>catalog_ok\<close>.
  \<^item> \<open>Ports\<close>, \<open>Sequence\<close>: the port allocator and the deployment sequence of the build.
  \<^item> \<open>Semaphore\<close>, \<open>RuntimeApi\<close>: the semaphores of running job commands as a step relation, and the HTTP
    handlers that job commands call (\<open>jobcommand/runtime_*.go\<close>).
  \<^item> \<open>Rollout\<close>: every decision of a rollout and the plan of the dry run (\<open>deploy/ordering.go\<close>,
    \<open>rollout_policy.go\<close>, \<open>dry_run.go\<close>).
  \<^item> \<open>Effects\<close>: the state of a running deploy, the record \<open>world\<close> of everything outside, steps as functions
    from state to result and state, and the locale \<open>step_relation\<close> through which every frame property passes.
  \<^item> \<open>Staging\<close>, \<open>JobCommands\<close>, \<open>HealthCheck\<close>, \<open>Prereq\<close>: the staging tree with templates and
    certificates, job commands, health checks, and the prerequisites of host and workers.
  \<^item> \<open>Deploy\<close>: batches and hooks, the pipeline of a job, reconciling, the waves and \<open>Execute\<close>
    (\<open>deploy/*.go\<close>).
  \<^item> \<open>Units\<close>, \<open>BuildWorkers\<close>, \<open>BuildJobs\<close>, \<open>BuildCerts\<close>: the first steps of a build. Sizes and frequencies
    (\<open>utils/units.go\<close>), the rows of workers, jobs and ports, and the certificates of jobs
    (\<open>build/build_workers.go\<close>, \<open>build_jobs.go\<close>, \<open>build_certs.go\<close>). \<open>BuildJobsLaws\<close> and \<open>CertLaws\<close> show what they
    leave in catalog and store: the tables show the workspace, and a certificate is made anew exactly when it is due.
  \<^item> \<open>Allocations\<close>, \<open>Demands\<close>, \<open>BuildKv\<close>: placement by labels, \<open>disabled.json\<close> and re-enabling; the validation
    of demands between jobs; the namespaces of the store that a build writes, with the locale \<open>store_relation\<close> for
    what steps on the store keep (\<open>build/*.go\<close>).
  \<^item> \<open>PromConfig\<close>, \<open>PromFiles\<close>, \<open>PromCatalog\<close>: the Prometheus configuration. Scrape items and their expansion, alert
    files, runbooks and dashboards in catalog and workspace, the namespace \<open>maand/prometheus\<close>, and what a deploy
    renders from it (\<open>promconfig/*.go\<close>, \<open>data/prometheus.go\<close>, \<open>deploy/prometheus_*.go\<close>, \<open>dashboards/ignore.go\<close>).
  \<^item> \<open>BuildExecute\<close>: the whole build as two transactions (\<open>build/execute.go\<close>) and the theorem that puts the
    laws of its steps together: a build realises the workspace or changes nothing.
  \<^item> \<open>Gc\<close>, \<open>JobControl\<close>: the garbage collection (\<open>gc/*.go\<close>) and the manual control of jobs
    (\<open>jobcontrol/*.go\<close>).
  \<^item> \<open>RunCommand\<close>, \<open>WorkerFacts\<close>: a command on selected workers, batch by batch (\<open>runcommand/*.go\<close>), and the facts
    that are probed on them and written into \<open>workers.json\<close> (\<open>workerfacts/*.go\<close>).
  \<^item> \<open>LogLines\<close>, \<open>LogView\<close>: the formats of log lines and their parser, the grouping, filters and views
    (\<open>bucket/log_format.go\<close>, \<open>logs/*.go\<close>).
  \<^item> \<open>DeployLaws\<close>, \<open>Settled\<close>, \<open>Batches\<close>, \<open>HealthLaws\<close>: what a deploy leaves in the catalog, what its
    batches send, and what a health check means.

  \<^bold>\<open>How the parts interact\<close>

  The build writes allocations, ports and the deployment sequence into the catalog; the deploy reads them,
  stages files per worker, asks \<open>JobNeedsRollout\<close> job by job and wave by wave, runs the pipeline of each job in
  batches with hooks and health checks, and promotes the hashes of the jobs that succeeded. Job commands run
  meanwhile and call back into the store through the runtime API, so that every run of a script is a step that
  may change the store.

  \<^bold>\<open>Conventions\<close>

  A Go error is a constructor of \<open>error\<close>; its text is not kept. A Go map is an association list and its
  iteration order the order of the list. A query that the code cannot make fail is a total function, the others
  return \<open>error + 'a\<close>. Rows of one table keep insertion order where the query has no \<open>ORDER BY\<close>. The order in
  which goroutines take effect is a function of the history (\<open>wd_order\<close>), so the theorems hold for each
  order in which whole steps interleave.

  \<^bold>\<open>Bounds and fuel\<close>

  The recursive query of the deployment sequence is iterated as often as there are commands, which is shown to be
  enough exactly for acyclic demands. A health check tries as often as its manifest says, 30 times by default.
  Everything else is structural recursion or has a termination proof.

  \<^bold>\<open>Parameters\<close>

  Workers, scripts, probes, the clock and the scheduler (\<open>world\<close>), encryption, MD5, UUIDs, \<open>text/template\<close>, the
  arithmetic of \<open>float64\<close> (\<open>floats\<close>), the decoding and encoding of YAML and JSON (\<open>yaml_lib\<close>), the generation of
  certificates (\<open>cert_world\<close>), the pages in HTML, and the reading of files (\<open>workspace\<close>, \<open>workspace_files\<close>,
  \<open>prom_files\<close>). Hypotheses on them are named where they are used. One of them is an idealisation: the ids of jobs and
  allocations are MD5 digests of names, and the theorems on placement assume that two names never have the same one.

  \<^bold>\<open>Not modelled\<close>

  SSH and process handling, X.509 and PEM, the push of metrics, reports, the HTML pages and the command line: input
  and output around the decisions above. The manifest of this development lists every part with the reason.
\<close>

end
